(* ===== verification/Jsvc_Prelude.thy ===== *)
theory Jsvc_Prelude
  imports Main "HOL-Library.Word"
begin

text \<open>
  Shared vocabulary of the development: C strings and buffers, the library routines of
  \<^verbatim>\<open>string.h\<close>, \<^verbatim>\<open>stdlib.h\<close> and \<^verbatim>\<open>stdio.h\<close> the native code calls (\<open>strchr\<close>, \<open>strrchr\<close>, \<open>strstr\<close>,
  \<open>strtol\<close>, \<open>atoi\<close>, the \<open>%d\<close> conversion), checked memory writes, and the rewrite rules
  the component theories share. A C string is an Isabelle \<open>string\<close> (a list of bytes) that
  holds no zero byte; a buffer is the whole array, with the zero byte where the code
  wrote it.
\<close>

named_theorems cstring_simps \<comment> \<open>reading and writing zero-terminated buffers\<close>
named_theorems split_facts \<comment> \<open>what \<open>strchr\<close> and \<open>strrchr\<close> say about a string\<close>

type_synonym path = string
type_synonym buffer = "char list"

datatype fault = Buffer_overrun

section \<open>Zero-terminated strings in buffers\<close>

abbreviation NUL :: char where
  "NUL \<equiv> CHR 0x00"

definition cstr :: "buffer \<Rightarrow> string" where
  "cstr b = takeWhile (\<lambda>c. c \<noteq> NUL) b"

lemma cstr_terminated [cstring_simps]:
  "NUL \<notin> set s \<Longrightarrow> cstr (s @ NUL # r) = s"
  by (induction s) (auto simp: cstr_def)

lemma cstr_plain [cstring_simps]: "NUL \<notin> set s \<Longrightarrow> cstr s = s"
  by (auto simp: cstr_def takeWhile_eq_all_conv)

lemma cstr_no_nul [simp]: "NUL \<notin> set (cstr b)"
  by (auto simp: cstr_def dest: set_takeWhileD)

text \<open>A write of one byte, and of a block of bytes, that must stay inside the array.\<close>

definition poke :: "buffer \<Rightarrow> nat \<Rightarrow> char \<Rightarrow> fault + buffer" where
  "poke b i c = (if i < length b then Inr (b[i := c]) else Inl Buffer_overrun)"

definition blit :: "buffer \<Rightarrow> nat \<Rightarrow> char list \<Rightarrow> fault + buffer" where
  "blit b i xs =
     (if i + length xs \<le> length b then Inr (take i b @ xs @ drop (i + length xs) b)
      else Inl Buffer_overrun)"

definition strcpy :: "buffer \<Rightarrow> string \<Rightarrow> fault + buffer" where
  "strcpy b s = blit b 0 (s @ [NUL])"

lemma strcpy_fits:
  "length s < length b \<Longrightarrow> strcpy b s = Inr (s @ NUL # drop (Suc (length s)) b)"
  by (simp add: strcpy_def blit_def)

lemma strcpy_overruns: "length b \<le> length s \<Longrightarrow> strcpy b s = Inl Buffer_overrun"
  by (simp add: strcpy_def blit_def)

lemma poke_append [cstring_simps]:
  "length p = i \<Longrightarrow> poke (p @ x # r) i c = Inr (p @ c # r)"
  by (auto simp: poke_def list_update_append)

lemma blit_append [cstring_simps]:
  "length p = i \<Longrightarrow> length xs = length q \<Longrightarrow> blit (p @ q @ r) i xs = Inr (p @ xs @ r)"
  by (simp add: blit_def)

section \<open>Machine integers\<close>

text \<open>A C \<open>int\<close> has 32 bits: what an assignment keeps of a mathematical integer.\<close>

definition int32 :: "int \<Rightarrow> int" where
  "int32 i = signed_take_bit 31 i"

lemma int32_id: "- (2 ^ 31) \<le> i \<Longrightarrow> i < 2 ^ 31 \<Longrightarrow> int32 i = i"
  by (simp add: int32_def signed_take_bit_int_eq_self)

lemma int32_range: "- (2 ^ 31) \<le> int32 i" "int32 i < 2 ^ 31"
  using signed_take_bit_int_greater_eq_minus_exp [of 31 i] signed_take_bit_int_less_exp [of 31 i]
  by (simp_all add: int32_def)

section \<open>Searching\<close>

text \<open>
  \<open>strchr\<close> and \<open>strrchr\<close> return a pointer into the string; the model returns the text
  before and after the character they found. The wide-character versions are the same.
\<close>

fun split_first :: "'a \<Rightarrow> 'a list \<Rightarrow> ('a list \<times> 'a list) option" where
  "split_first c [] = None"
| "split_first c (x # xs) =
     (if x = c then Some ([], xs)
      else map_option (\<lambda>(a, b). (x # a, b)) (split_first c xs))"

definition split_last :: "'a \<Rightarrow> 'a list \<Rightarrow> ('a list \<times> 'a list) option" where
  "split_last c s = map_option (\<lambda>(a, b). (rev b, rev a)) (split_first c (rev s))"

lemma split_first_Some [split_facts]:
  "split_first c s = Some (a, b) \<longleftrightarrow> s = a @ c # b \<and> c \<notin> set a"
proof (induction s arbitrary: a)
  case Nil
  then show ?case by simp
next
  case (Cons x xs)
  show ?case
  proof (cases "x = c")
    case True
    then show ?thesis by (cases a) auto
  next
    case False
    then show ?thesis using Cons.IH by (cases a) auto
  qed
qed

lemma split_first_None [split_facts]: "split_first c s = None \<longleftrightarrow> c \<notin> set s"
  by (induction s) auto

lemma split_last_Some [split_facts]:
  "split_last c s = Some (a, b) \<longleftrightarrow> s = a @ c # b \<and> c \<notin> set b"
proof -
  have "split_last c s = Some (a, b) \<longleftrightarrow> split_first c (rev s) = Some (rev b, rev a)"
    by (auto simp: split_last_def)
  also have "\<dots> \<longleftrightarrow> rev s = rev b @ c # rev a \<and> c \<notin> set b"
    by (simp add: split_first_Some)
  also have "\<dots> \<longleftrightarrow> s = a @ c # b \<and> c \<notin> set b"
    by (auto simp: rev_eq_append_conv)
  finally show ?thesis .
qed

lemma split_last_None [split_facts]: "split_last c s = None \<longleftrightarrow> c \<notin> set s"
  by (simp add: split_last_def split_first_None)

text \<open>\<open>strncmp (s, p, strlen p) == 0\<close>: the string starts with \<open>p\<close>.\<close>

definition starts_with :: "string \<Rightarrow> string \<Rightarrow> bool" where
  "starts_with p s \<longleftrightarrow> take (length p) s = p"

lemma starts_with_iff: "starts_with p s \<longleftrightarrow> (\<exists>r. s = p @ r)"
  by (metis append_eq_conv_conj append_take_drop_id starts_with_def)

text \<open>\<open>strstr\<close>: the offset of the first occurrence of \<open>m\<close>.\<close>

fun strstr :: "string \<Rightarrow> string \<Rightarrow> nat option" where
  "strstr [] m = (if m = [] then Some 0 else None)"
| "strstr (x # xs) m =
     (if starts_with m (x # xs) then Some 0 else map_option Suc (strstr xs m))"

lemma strstr_Some:
  "strstr s m = Some i \<Longrightarrow> s = take i s @ m @ drop (i + length m) s"
proof (induction s arbitrary: i)
  case Nil
  then show ?case by (simp split: if_splits)
next
  case (Cons x xs)
  show ?case
  proof (cases "starts_with m (x # xs)")
    case True
    with Cons.prems have "i = 0" by simp
    with True show ?thesis by (metis append_self_conv2 append_take_drop_id starts_with_def
          add_0 take0)
  next
    case False
    with Cons.prems obtain j where "i = Suc j" "strstr xs m = Some j" by auto
    with Cons.IH show ?thesis by simp
  qed
qed

lemma strstr_bound: "strstr s m = Some i \<Longrightarrow> i + length m \<le> length s"
proof (induction s arbitrary: i)
  case Nil
  then show ?case by (simp split: if_splits)
next
  case (Cons x xs)
  then show ?case
    by (auto simp: starts_with_iff split: if_splits dest!: arg_cong [where f = length])
qed

lemma strstr_shorter:
  "m \<noteq> [] \<Longrightarrow> strstr s m = Some i \<Longrightarrow> length s - (i + length m) < length s"
  using strstr_bound [of s m i] by (cases m) auto

lemma strstr_split:
  assumes "strstr s m = Some i"
  obtains u r where "s = u @ m @ r" "length u = i"
proof
  show "s = take i s @ m @ drop (i + length m) s" using assms by (rule strstr_Some)
  show "length (take i s) = i" using strstr_bound [OF assms] by simp
qed

text \<open>The pieces of a string between the occurrences of a separator byte.\<close>

fun split_all :: "'a \<Rightarrow> 'a list \<Rightarrow> 'a list list" where
  "split_all c [] = [[]]"
| "split_all c (x # xs) =
     (if x = c then [] # split_all c xs
      else (x # hd (split_all c xs)) # tl (split_all c xs))"

lemma split_all_ne [simp]: "split_all c s \<noteq> []"
  by (induction s) auto

lemma split_all_append: "c \<notin> set a \<Longrightarrow> split_all c (a @ c # r) = a # split_all c r"
  by (induction a) auto

lemma split_all_single: "c \<notin> set a \<Longrightarrow> split_all c a = [a]"
  by (induction a) auto

end
