(* ===== verification/Win_Prelude.thy ===== *)
theory Win_Prelude
  imports Main "HOL-Library.Word" "HOL-Library.Monad_Syntax"
begin

unbundle bit_operations_syntax

text \<open>
  Shared vocabulary of the procrun theories (\<^verbatim>\<open>windows/src\<close>). A character is a machine word:
  the A functions of the source are the model at eight bits, the W functions at sixteen,
  where the two differ in nothing else. An array is the list of its elements; an access
  outside the array has no value, so the functions live in the option monad and \<open>None\<close> is
  undefined behaviour of C. Loops that count down (\<open>do ... while (--t != 0)\<close>) are
  \<open>do_times\<close>.
\<close>

type_synonym byte = "8 word"
type_synonym wchar = "16 word"
type_synonym dword = "32 word"

named_theorems array_simps \<comment> \<open>checked reads and writes of arrays\<close>

section \<open>Checked access to arrays\<close>

definition get :: "'a list \<Rightarrow> nat \<Rightarrow> 'a option" where
  "get b i = (if i < length b then Some (b ! i) else None)"

definition put :: "'a list \<Rightarrow> nat \<Rightarrow> 'a \<Rightarrow> 'a list option" where
  "put b i c = (if i < length b then Some (b[i := c]) else None)"

definition get_block :: "'a list \<Rightarrow> nat \<Rightarrow> nat \<Rightarrow> 'a list option" where
  "get_block b i n = (if i + n \<le> length b then Some (take n (drop i b)) else None)"

definition put_block :: "'a list \<Rightarrow> nat \<Rightarrow> 'a list \<Rightarrow> 'a list option" where
  "put_block b i xs =
     (if i + length xs \<le> length b then Some (take i b @ xs @ drop (i + length xs) b) else None)"

lemma get_inside [array_simps]: "i < length b \<Longrightarrow> get b i = Some (b ! i)"
  by (simp add: get_def)

lemma put_inside [array_simps]: "i < length b \<Longrightarrow> put b i c = Some (b[i := c])"
  by (simp add: put_def)

lemma get_append [array_simps]: "length p = i \<Longrightarrow> get (p @ x # r) i = Some x"
  by (auto simp: get_def)

lemma put_append [array_simps]: "length p = i \<Longrightarrow> put (p @ x # r) i c = Some (p @ c # r)"
  by (auto simp: put_def list_update_append)

lemma get_outside [array_simps]: "length b \<le> i \<Longrightarrow> get b i = None"
  by (simp add: get_def)

lemma put_outside [array_simps]: "length b \<le> i \<Longrightarrow> put b i c = None"
  by (simp add: put_def)

lemma put_as_block: "put b i c = put_block b i [c]"
  by (simp add: put_def put_block_def upd_conv_take_nth_drop Suc_le_eq)

lemma put_block_length: "put_block b i xs = Some b' \<Longrightarrow> length b' = length b"
  by (auto simp: put_block_def split: if_splits)

lemma put_block_at [array_simps]:
  "length p = i \<Longrightarrow> length xs \<le> length q \<Longrightarrow>
     put_block (p @ q) i xs = Some (p @ xs @ drop (length xs) q)"
  by (simp add: put_block_def)

section \<open>Zero-terminated text\<close>

definition text_of :: "'w::len word list \<Rightarrow> 'w word list" where
  "text_of b = takeWhile (\<lambda>c. c \<noteq> 0) b"

fun wlen :: "'w::len word list \<Rightarrow> nat option" where
  "wlen [] = None"
| "wlen (c # cs) = (if c = 0 then Some 0 else map_option Suc (wlen cs))"

lemma wlen_text [array_simps]: "0 \<notin> set s \<Longrightarrow> wlen (s @ 0 # r) = Some (length s)"
  by (induction s) auto

lemma text_of_terminated [array_simps]: "0 \<notin> set s \<Longrightarrow> text_of (s @ 0 # r) = s"
  by (induction s) (auto simp: text_of_def)

lemma text_of_no_zero [simp]: "0 \<notin> set (text_of b)"
  by (auto simp: text_of_def dest: set_takeWhileD)

lemma text_of_split:
  assumes "0 \<in> set b"
  obtains r where "b = text_of b @ 0 # r"
proof -
  have "dropWhile (\<lambda>c. c \<noteq> 0) b \<noteq> []" using assms by (simp add: dropWhile_eq_Nil_conv)
  moreover have "\<not> hd (dropWhile (\<lambda>c. c \<noteq> 0) b) \<noteq> 0"
    using hd_dropWhile [of "\<lambda>c. c \<noteq> 0" b] calculation by blast
  ultimately have "dropWhile (\<lambda>c. c \<noteq> 0) b = 0 # tl (dropWhile (\<lambda>c. c \<noteq> 0) b)"
    by (cases "dropWhile (\<lambda>c. c \<noteq> 0) b") auto
  then show ?thesis using that takeWhile_dropWhile_id [of "\<lambda>c. c \<noteq> 0" b]
    by (metis text_of_def)
qed

lemma wlen_text_of: "wlen b = (if 0 \<in> set b then Some (length (text_of b)) else None)"
  by (induction b) (auto simp: text_of_def)

text \<open>\<open>lstrcpy\<close> at a place of a buffer: the text with its terminator.\<close>

definition lstrcpy_at :: "'w::len word list \<Rightarrow> nat \<Rightarrow> 'w word list \<Rightarrow> 'w word list option" where
  "lstrcpy_at b i s = put_block b i (text_of s @ [0])"

section \<open>Counting loops\<close>

text \<open>
  \<open>do f; while (--t != 0);\<close>. With \<open>t = 0\<close> the unsigned counter wraps around and the loop
  runs through the whole address space, which no array survives.
\<close>

fun do_times :: "('s \<Rightarrow> 's option) \<Rightarrow> nat \<Rightarrow> 's \<Rightarrow> 's option" where
  "do_times f 0 s = None"
| "do_times f (Suc 0) s = f s"
| "do_times f (Suc (Suc n)) s = do { s' \<leftarrow> f s; do_times f (Suc n) s' }"

text \<open>\<open>while (t != 0) { f; --t; }\<close>, also \<open>if (t) do f; while (--t)\<close>.\<close>

fun while_times :: "('s \<Rightarrow> 's option) \<Rightarrow> nat \<Rightarrow> 's \<Rightarrow> 's option" where
  "while_times f 0 s = Some s"
| "while_times f (Suc n) s = do { s' \<leftarrow> f s; while_times f n s' }"

lemma do_times_while: "0 < n \<Longrightarrow> do_times f n s = while_times f n s"
proof (induction f n s rule: do_times.induct)
  case (2 f s)
  then show ?case by (cases "f s") auto
next
  case (3 f n s)
  then show ?case by (cases "f s") auto
qed simp

lemma if_do_times: "(if n \<noteq> 0 then do_times f n s else Some s) = while_times f n s"
  by (cases "n = 0") (simp_all add: do_times_while)

section \<open>Words as bytes\<close>

definition bytes_le :: "nat \<Rightarrow> 'w::len word \<Rightarrow> byte list" where
  "bytes_le k c = map (\<lambda>i. ucast (drop_bit (8 * i) c)) [0..<k]"

lemma length_bytes_le [simp]: "length (bytes_le k c) = k"
  by (simp add: bytes_le_def)

lemma nat_and_3: "(a::nat) AND 3 = a mod 4"
proof -
  have "(mask 2 :: nat) = 3" by (simp add: mask_eq_exp_minus_1)
  moreover have "a AND mask 2 = a mod 2 ^ 2"
    by (simp only: take_bit_eq_mask [symmetric] take_bit_eq_mod)
  ultimately show ?thesis by simp
qed

lemma nat_or_and_3: "((a::nat) OR b) AND 3 = 0 \<longleftrightarrow> a mod 4 = 0 \<and> b mod 4 = 0"
proof -
  have "(a OR b) AND 3 = (a AND 3) OR (b AND 3)"
    by (simp add: bit_eq_iff bit_simps) blast
  moreover have "x OR y = 0 \<longleftrightarrow> x = 0 \<and> y = 0" for x y :: nat
    by (auto simp: bit_eq_iff bit_simps)
  ultimately show ?thesis by (simp only: nat_and_3)
qed

lemma nat_xor_and_3: "((a::nat) XOR b) AND 3 = 0 \<longleftrightarrow> a mod 4 = b mod 4"
proof -
  have "(a XOR b) AND 3 = (a AND 3) XOR (b AND 3)"
    by (simp add: bit_eq_iff bit_simps) blast
  moreover have "x XOR y = 0 \<longleftrightarrow> x = y" for x y :: nat
    by (auto simp: bit_eq_iff bit_simps)
  ultimately show ?thesis by (simp only: nat_and_3)
qed

end
