(* ===== verification/Mclib.thy ===== *)
theory Mclib
  imports Win_Prelude
begin

text \<open>
  \<^verbatim>\<open>windows/src/mclib.c\<close>: the memory and string routines procrun brings along. The memory
  routines work on whole words where they can; memory is the list of its bytes from
  address zero, so that the alignment of a pointer is its value modulo four. The lemmas
  compare the word-wise loops with the one-line specifications (a filled block, a block
  moved as a whole), for every alignment and every overlap.
\<close>

type_synonym mem = "byte list"

definition wsize :: nat where "wsize = 4"
definition wmask :: nat where "wmask = wsize - 1"

lemma word_unit: "wsize = 4" "wmask = 3"
  by (simp_all add: wsize_def wmask_def)

section \<open>Filling\<close>

text \<open>One round of a filling loop: write at \<open>dst\<close>, advance it.\<close>

definition fill_step :: "byte list \<Rightarrow> nat \<Rightarrow> mem \<times> nat \<Rightarrow> (mem \<times> nat) option" where
  "fill_step bs adv s =
     (case s of (m, dst) \<Rightarrow> do { m' \<leftarrow> put_block m dst bs; Some (m', dst + adv) })"

text \<open>The word \<open>c\<close> of the fill byte, in a 32-bit build and in a 64-bit build.\<close>

definition fill_word32 :: "byte \<Rightarrow> 32 word" where
  "fill_word32 fill =
     (let c = ucast fill
      in if c \<noteq> 0 then let c = push_bit 8 c OR c in push_bit 16 c OR c else c)"

definition fill_word64 :: "byte \<Rightarrow> 64 word" where
  "fill_word64 fill =
     (let c = ucast fill
      in if c \<noteq> 0
         then let c = push_bit 8 c OR c; c = push_bit 16 c OR c in push_bit 32 c OR c else c)"

definition AplFillMemory :: "bool \<Rightarrow> mem \<Rightarrow> nat \<Rightarrow> nat \<Rightarrow> byte \<Rightarrow> mem option" where
  "AplFillMemory win64 m dst len fill =
     (let one = fill_step [fill] 1;
          word = fill_step (if win64 then bytes_le 8 (fill_word64 fill)
                            else bytes_le 4 (fill_word32 fill)) wsize
      in if len < 3 * wsize then map_option fst (while_times one len (m, dst))
         else do {
           let t = dst AND wmask;
           (s, len) \<leftarrow> (if t \<noteq> 0
                         then do { s \<leftarrow> do_times one (wsize - t) (m, dst);
                                   Some (s, len - (wsize - t)) }
                         else Some ((m, dst), len));
           s \<leftarrow> do_times word (len div wsize) s;
           let t = len AND wmask;
           s \<leftarrow> (if t \<noteq> 0 then do_times one t s else Some s);
           Some (fst s)
         })"

definition AplZeroMemory :: "mem \<Rightarrow> nat \<Rightarrow> nat \<Rightarrow> mem option" where
  "AplZeroMemory m dst len =
     (let one = fill_step [0] 1;
          word = fill_step (bytes_le 4 (0 :: 32 word)) wsize
      in if len < 3 * wsize then map_option fst (while_times one len (m, dst))
         else do {
           let t = dst AND wmask;
           (s, len) \<leftarrow> (if t \<noteq> 0
                         then do { s \<leftarrow> do_times one (wsize - t) (m, dst);
                                   Some (s, len - (wsize - t)) }
                         else Some ((m, dst), len));
           s \<leftarrow> do_times word (len div wsize) s;
           let t = len AND wmask;
           s \<leftarrow> (if t \<noteq> 0 then do_times one t s else Some s);
           Some (fst s)
         })"

section \<open>Copying\<close>

text \<open>One round of a copying loop forwards, and one backwards, of \<open>k\<close> bytes read at once.\<close>

definition copy_up :: "nat \<Rightarrow> mem \<times> nat \<times> nat \<Rightarrow> (mem \<times> nat \<times> nat) option" where
  "copy_up k s =
     (case s of (m, dst, src) \<Rightarrow> do {
        w \<leftarrow> get_block m src k;
        m' \<leftarrow> put_block m dst w;
        Some (m', dst + k, src + k) })"

definition copy_down :: "nat \<Rightarrow> mem \<times> nat \<times> nat \<Rightarrow> (mem \<times> nat \<times> nat) option" where
  "copy_down k s =
     (case s of (m, dst, src) \<Rightarrow>
        if dst < k \<or> src < k then None
        else do {
          w \<leftarrow> get_block m (src - k) k;
          m' \<leftarrow> put_block m (dst - k) w;
          Some (m', dst - k, src - k) })"

definition copy_forward :: "mem \<Rightarrow> nat \<Rightarrow> nat \<Rightarrow> nat \<Rightarrow> mem option" where
  "copy_forward m dst src len = do {
     let t = src;
     (s, len) \<leftarrow>
       (if (t OR dst) AND wmask \<noteq> 0
        then let t = (if (t XOR dst) AND wmask \<noteq> 0 \<or> len < wsize then len
                      else wsize - (t AND wmask))
             in do { s \<leftarrow> do_times (copy_up 1) t (m, dst, src); Some (s, len - t) }
        else Some ((m, dst, src), len));
     s \<leftarrow> while_times (copy_up wsize) (len div wsize) s;
     s \<leftarrow> while_times (copy_up 1) (len AND wmask) s;
     Some (fst s)
   }"

definition copy_backward :: "mem \<Rightarrow> nat \<Rightarrow> nat \<Rightarrow> nat \<Rightarrow> mem option" where
  "copy_backward m dst src len = do {
     let src = src + len;
     let dst = dst + len;
     let t = src;
     (s, len) \<leftarrow>
       (if (t OR dst) AND wmask \<noteq> 0
        then let t = (if (t XOR dst) AND wmask \<noteq> 0 \<or> len \<le> wsize then len
                      else t AND wmask)
             in do { s \<leftarrow> do_times (copy_down 1) t (m, dst, src); Some (s, len - t) }
        else Some ((m, dst, src), len));
     s \<leftarrow> while_times (copy_down wsize) (len div wsize) s;
     s \<leftarrow> while_times (copy_down 1) (len AND wmask) s;
     Some (fst s)
   }"

definition AplCopyMemory :: "mem \<Rightarrow> nat \<Rightarrow> nat \<Rightarrow> nat \<Rightarrow> mem option" where
  "AplCopyMemory m dst src len =
     (if len = 0 \<or> dst = src then Some m
      else if dst < src then copy_forward m dst src len
      else copy_backward m dst src len)"

section \<open>Comparing and searching\<close>

text \<open>\<open>AplMemCmp\<close> on what its two pointers see; the difference of the first two bytes that differ.\<close>

fun AplMemCmp :: "byte list \<Rightarrow> byte list \<Rightarrow> nat \<Rightarrow> int option" where
  "AplMemCmp p1 p2 0 = Some 0"
| "AplMemCmp (a # p1) (b # p2) (Suc n) =
     (if a \<noteq> b then Some (uint a - uint b) else AplMemCmp p1 p2 n)"
| "AplMemCmp _ _ (Suc n) = None"

text \<open>
  \<open>ApcMemSearch\<close>: the two nested loops look at \<open>s\<close> byte by byte; \<open>cnt\<close> is the offset of
  \<open>s\<close>. The result is the offset of the hit, \<open>Some None\<close> the null pointer. \<open>dwLen - 1\<close> wraps around in the unsigned \<open>SIZE_T\<close>.
\<close>

fun mem_search :: "byte list \<Rightarrow> byte \<Rightarrow> byte list \<Rightarrow> nat \<Rightarrow> nat \<Rightarrow> nat \<Rightarrow> nat option option" where
  "mem_search [] c pat len sz cnt = None"
| "mem_search (sc # s) c pat len sz cnt =
     (if sz < cnt then Some None
      else if sc \<noteq> c then mem_search s c pat len sz (Suc cnt)
      else case AplMemCmp s pat ((len + 2 ^ 32 - 1) mod 2 ^ 32) of
        None \<Rightarrow> None
      | Some d \<Rightarrow> if d \<noteq> 0 then mem_search s c pat len sz (Suc cnt) else Some (Some cnt))"

definition ApcMemSearch :: "byte list \<Rightarrow> byte list \<Rightarrow> nat \<Rightarrow> nat \<Rightarrow> nat option option" where
  "ApcMemSearch m pat len sz =
     (case pat of
        [] \<Rightarrow> None
      | c # pat \<Rightarrow> if c \<noteq> 0 then mem_search m c pat len sz 0 else Some (Some 0))"

text \<open>\<open>AplRindexA\<close>: the offset of the last \<open>ch\<close>, the terminator included in the search.\<close>

fun rindex_from :: "byte list \<Rightarrow> int \<Rightarrow> nat \<Rightarrow> nat option \<Rightarrow> nat option option" where
  "rindex_from [] ch i save = None"
| "rindex_from (c # s) ch i save =
     (let save = (if sint c = ch then Some i else save)
      in if c = 0 then Some save else rindex_from s ch (Suc i) save)"

definition AplRindexA :: "byte list \<Rightarrow> int \<Rightarrow> nat option option" where
  "AplRindexA s ch = rindex_from s ch 0 None"


section \<open>Bounded string copies\<close>

text \<open>
  \<open>lstrlcat\<close> and \<open>lstrlcpy\<close> (A and W) on a destination array and a source text; the size is
  a C \<open>int\<close>. \<open>lstrlcat\<close> first looks for the end of the destination
  (\<open>while (n-- != 0 && *d)\<close>); it returns a null pointer, here \<open>Some None\<close>, when there is none
  within the size.
\<close>

function cat_end :: "'w::len word list \<Rightarrow> nat \<Rightarrow> int \<Rightarrow> nat option" where
  "cat_end b d n =
     (if n = 0 then Some d
      else case get b d of
        None \<Rightarrow> None
      | Some c \<Rightarrow> if c \<noteq> 0 then cat_end b (Suc d) (n - 1) else Some d)"
  by pat_completeness auto
termination
  by (relation "measure (\<lambda>(b, d, n). length b - d)") (auto simp: get_def split: if_splits)

declare cat_end.simps [simp del]

fun cat_copy ::
  "'w::len word list \<Rightarrow> nat \<Rightarrow> int \<Rightarrow> 'w word list \<Rightarrow> 'w word list option" where
  "cat_copy b d n [] = None"
| "cat_copy b d n (c # s) =
     (if c = 0 then put b d 0
      else if n \<noteq> 1 then do { b' \<leftarrow> put b d c; cat_copy b' (Suc d) (n - 1) s }
      else cat_copy b d n s)"

definition lstrlcatA ::
  "'w::len word list \<Rightarrow> int \<Rightarrow> 'w word list \<Rightarrow> 'w word list option option" where
  "lstrlcatA dst siz src = do {
     d \<leftarrow> cat_end dst 0 siz;
     let n = siz - int d;
     (if n = 0 then Some None else map_option Some (cat_copy dst d n src))
   }"

definition lstrlcatW :: "wchar list \<Rightarrow> int \<Rightarrow> wchar list \<Rightarrow> wchar list option option" where
  "lstrlcatW = lstrlcatA"

text \<open>
  \<open>lstrlcpy\<close>: the copying loop returns the array, \<open>d\<close>, the counter and the source left; the
  whole function the array and the returned pointer \<open>d\<close>.
\<close>

fun cpy_loop ::
  "'w::len word list \<Rightarrow> nat \<Rightarrow> int \<Rightarrow> 'w word list
     \<Rightarrow> ('w word list \<times> nat \<times> int \<times> 'w word list) option" where
  "cpy_loop b d n [] = (if n - 1 = 0 then Some (b, d, 0, []) else None)"
| "cpy_loop b d n (c # s) =
     (if n - 1 = 0 then Some (b, d, 0, c # s)
      else do {
        b' \<leftarrow> put b d c;
        (if c = 0 then Some (b', Suc d, n - 1, s) else cpy_loop b' (Suc d) (n - 1) s) })"

definition lstrlcpyA ::
  "'w::len word list \<Rightarrow> int \<Rightarrow> 'w word list \<Rightarrow> ('w word list \<times> nat) option" where
  "lstrlcpyA dst siz src = do {
     (b, d, n, s) \<leftarrow> (if siz \<noteq> 0 then cpy_loop dst 0 siz src else Some (dst, 0, siz, src));
     (if n = 0
      then do {
        b \<leftarrow> (if siz \<noteq> 0 then put b d 0 else Some b);
        _ \<leftarrow> wlen s;
        Some (b, d) }
      else Some (b, d))
   }"

definition lstrlcpyW :: "wchar list \<Rightarrow> int \<Rightarrow> wchar list \<Rightarrow> (wchar list \<times> nat) option" where
  "lstrlcpyW = lstrlcpyA"

text \<open>\<open>lstrlocaseW\<close> on the array \<open>str\<close> points to, \<open>None\<close> the null pointer; \<open>towlower\<close> is the library's.\<close>

fun lower_loop :: "(wchar \<Rightarrow> wchar) \<Rightarrow> wchar list \<Rightarrow> wchar list option" where
  "lower_loop towlower [] = None"
| "lower_loop towlower (c # s) =
     (if c \<noteq> 0 then map_option ((#) (towlower c)) (lower_loop towlower s) else Some (c # s))"

definition lstrlocaseW ::
  "(wchar \<Rightarrow> wchar) \<Rightarrow> wchar list option \<Rightarrow> wchar list option option" where
  "lstrlocaseW towlower str =
     (case str of None \<Rightarrow> Some None | Some s \<Rightarrow> map_option Some (lower_loop towlower s))"

section \<open>Filled blocks\<close>

text \<open>The specification of filling: the same bytes at \<open>len\<close> addresses from \<open>d\<close>.\<close>

definition filled :: "mem \<Rightarrow> nat \<Rightarrow> nat \<Rightarrow> byte \<Rightarrow> mem" where
  "filled m d len c = take d m @ replicate len c @ drop (d + len) m"

lemma length_filled [simp]: "d + len \<le> length m \<Longrightarrow> length (filled m d len c) = length m"
  by (simp add: filled_def)

lemma filled_nth:
  "d + len \<le> length m \<Longrightarrow> i < length m \<Longrightarrow>
     filled m d len c ! i = (if d \<le> i \<and> i < d + len then c else m ! i)"
  by (auto simp: filled_def nth_append min_def)

lemma filled_0 [simp]: "filled m d 0 c = m"
  by (simp add: filled_def)

lemma filled_filled:
  assumes "b \<le> a" "d + max a (b + e) \<le> length m"
  shows "filled (filled m d a c) (d + b) e c = filled m d (max a (b + e)) c"
  using assms by (intro nth_equalityI) (auto simp: filled_nth)

lemma filled_twice:
  "d + (a + e) \<le> length m \<Longrightarrow> filled (filled m d a c) (d + a) e c = filled m d (a + e) c"
  using filled_filled [of a a d e m c] by simp

lemma put_block_filled:
  "d + k \<le> length m \<Longrightarrow> put_block m d (replicate k c) = Some (filled m d k c)"
  by (simp add: put_block_def filled_def)

text \<open>A loop of \<open>n\<close> writes of \<open>k\<close> bytes that advance by \<open>adv \<le> k\<close>.\<close>

lemma fill_loop:
  assumes "adv \<le> k" "d + n * adv + (k - adv) \<le> length m" "0 < n"
  shows "while_times (fill_step (replicate k c) adv) n (m, d) =
    Some (filled m d (n * adv + (k - adv)) c, d + n * adv)"
  using assms
proof (induction n arbitrary: m d)
  case (Suc n)
  show ?case
  proof (cases n)
    case 0
    with Suc.prems show ?thesis by (simp add: fill_step_def put_block_filled)
  next
    case (Suc n')
    have len: "d + k \<le> length m" "d + adv + n * adv + (k - adv) \<le> length m"
      using Suc.prems Suc by (auto simp: algebra_simps)
    have "filled (filled m d k c) (d + adv) (n * adv + (k - adv)) c =
        filled m d (max k (adv + (n * adv + (k - adv)))) c"
      using Suc.prems len by (intro filled_filled) auto
    moreover have "max k (adv + (n * adv + (k - adv))) = Suc n * adv + (k - adv)"
      using Suc.prems by auto
    ultimately show ?thesis using Suc.IH [of "d + adv" "filled m d k c"] Suc Suc.prems len
      by (simp add: fill_step_def put_block_filled algebra_simps)
  qed
qed simp

lemma fill_bytes_loop:
  assumes "d + n \<le> length m"
  shows "while_times (fill_step [c] 1) n (m, d) = Some (filled m d n c, d + n)"
  using fill_loop [of 1 1 d n m c] assms by (cases "n = 0") auto

section \<open>The word-wise filling loops\<close>

lemma fill_word32_alt:
  "fill_word32 c =
     (let w = ucast c; w = push_bit 8 w OR w in push_bit 16 w OR w)"
  by (auto simp: fill_word32_def Let_def)

lemma fill_word64_alt:
  "fill_word64 c =
     (let w = ucast c; w = push_bit 8 w OR w; w = push_bit 16 w OR w in push_bit 32 w OR w)"
  by (auto simp: fill_word64_def Let_def)

lemma bytes_fill_word32: "bytes_le 4 (fill_word32 c) = replicate 4 c"
proof -
  have "ucast (drop_bit (8 * i) (fill_word32 c)) = c" if "i < 4" for i
  proof -
    have "i = 0 \<or> i = 1 \<or> i = 2 \<or> i = 3" using that by linarith
    then show ?thesis unfolding fill_word32_alt Let_def
      by (elim disjE; intro bit_word_eqI; auto simp: bit_simps dest: bit_imp_le_length)
  qed
  then show ?thesis by (intro nth_equalityI) (auto simp: bytes_le_def)
qed

lemma bytes_fill_word64: "bytes_le 8 (fill_word64 c) = replicate 8 c"
proof -
  have "ucast (drop_bit (8 * i) (fill_word64 c)) = c" if "i < 8" for i
  proof -
    have "i = 0 \<or> i = 1 \<or> i = 2 \<or> i = 3 \<or> i = 4 \<or> i = 5 \<or> i = 6 \<or> i = 7"
      using that by linarith
    then show ?thesis unfolding fill_word64_alt Let_def
      by (elim disjE; intro bit_word_eqI; auto simp: bit_simps dest: bit_imp_le_length)
  qed
  then show ?thesis by (intro nth_equalityI) (auto simp: bytes_le_def)
qed

lemma bytes_zero: "bytes_le 4 (0 :: 32 word) = replicate 4 0"
  by (intro nth_equalityI) (auto simp: bytes_le_def)

text \<open>
  The shape both routines share: bytes up to the next word boundary, whole words that
  write \<open>k\<close> bytes each and advance by four, the bytes that are left.
\<close>

definition fill_by_words :: "nat \<Rightarrow> mem \<Rightarrow> nat \<Rightarrow> nat \<Rightarrow> byte \<Rightarrow> mem option" where
  "fill_by_words k m dst len c =
     (let one = fill_step [c] 1; word = fill_step (replicate k c) wsize
      in if len < 3 * wsize then map_option fst (while_times one len (m, dst))
         else do {
           let t = dst AND wmask;
           (s, len) \<leftarrow> (if t \<noteq> 0
                         then do { s \<leftarrow> do_times one (wsize - t) (m, dst);
                                   Some (s, len - (wsize - t)) }
                         else Some ((m, dst), len));
           s \<leftarrow> do_times word (len div wsize) s;
           let t = len AND wmask;
           s \<leftarrow> (if t \<noteq> 0 then do_times one t s else Some s);
           Some (fst s)
         })"

lemma AplFillMemory_shape:
  "AplFillMemory win64 m dst len c = fill_by_words (if win64 then 8 else 4) m dst len c"
  by (cases win64)
     (simp_all only: AplFillMemory_def fill_by_words_def bytes_fill_word32 bytes_fill_word64
        if_True if_False)

lemma AplZeroMemory_shape: "AplZeroMemory m dst len = fill_by_words 4 m dst len 0"
  by (simp only: AplZeroMemory_def fill_by_words_def bytes_zero)

lemma fill_by_words_short:
  "len < 12 \<Longrightarrow> dst + len \<le> length m \<Longrightarrow> fill_by_words k m dst len c = Some (filled m dst len c)"
  using fill_bytes_loop [of dst len m c] by (simp add: fill_by_words_def word_unit)

lemma filled_append:
  "b \<le> a \<Longrightarrow> d' = d + b \<Longrightarrow> d + max a (b + e) \<le> length m \<Longrightarrow>
     filled (filled m d a c) d' e c = filled m d (max a (b + e)) c"
  by (simp add: filled_filled)

lemma fill_aligned:
  assumes len: "4 \<le> len" and k: "4 \<le> k" and room: "dst + 4 * (len div 4) + max (k - 4) (len mod 4) \<le> length m"
  shows "do {
           s \<leftarrow> do_times (fill_step (replicate k c) wsize) (len div wsize) (m, dst);
           let t = len AND wmask;
           s \<leftarrow> (if t \<noteq> 0 then do_times (fill_step [c] 1) t s else Some s);
           Some (fst s)
         } = Some (filled m dst (4 * (len div 4) + max (k - 4) (len mod 4)) c)"
proof -
  have pos: "0 < len div 4" using len by auto
  let ?m1 = "filled m dst (len div 4 * 4 + (k - 4)) c"
  have words: "while_times (fill_step (replicate k c) 4) (len div 4) (m, dst) =
      Some (?m1, dst + len div 4 * 4)"
    using fill_loop [of 4 k dst "len div 4" m c] pos k room by (simp add: algebra_simps)
  have bytes: "while_times (fill_step [c] 1) (len mod 4) (?m1, dst + len div 4 * 4) =
      Some (filled ?m1 (dst + len div 4 * 4) (len mod 4) c, dst + len div 4 * 4 + len mod 4)"
  proof (rule fill_bytes_loop)
    have "dst + (len div 4 * 4 + (k - 4)) \<le> length m"
      "dst + (len div 4 * 4 + len mod 4) \<le> length m"
      using room max.cobounded1 [of "k - 4" "len mod 4"] max.cobounded2 [of "len mod 4" "k - 4"]
      by linarith+
    then show "dst + len div 4 * 4 + len mod 4 \<le> length ?m1"
      by (simp only: length_filled)
  qed
  have "filled ?m1 (dst + len div 4 * 4) (len mod 4) c =
      filled m dst (4 * (len div 4) + max (k - 4) (len mod 4)) c"
    using room filled_filled [of "len div 4 * 4" "len div 4 * 4 + (k - 4)" dst "len mod 4" m c]
    by (simp add: algebra_simps nat_add_max_right)
  with words bytes pos show ?thesis
    by (simp only: Let_def if_do_times word_unit nat_and_3 do_times_while Option.bind.simps fst_conv)
qed

lemma fill_by_words_filled:
  assumes len: "12 \<le> len" and k: "4 \<le> k" "k \<le> 8"
    and room: "dst + max len (len - (dst + len) mod 4 + (k - 4)) \<le> length m"
  shows "fill_by_words k m dst len c =
    Some (filled m dst (max len (len - (dst + len) mod 4 + (k - 4))) c)"
proof -
  define t where "t = (4 - dst mod 4) mod 4"
  define len' where "len' = len - t"
  have t: "t < 4" "t \<le> len" "(dst + t) mod 4 = 0"
  proof -
    show "t < 4" by (simp add: t_def)
    with len show "t \<le> len" by linarith
    have "dst mod 4 = 0 \<or> dst mod 4 = 1 \<or> dst mod 4 = 2 \<or> dst mod 4 = 3" by linarith
    moreover have "(dst + t) mod 4 = (dst mod 4 + t) mod 4" by (simp add: mod_simps)
    ultimately show "(dst + t) mod 4 = 0" by (auto simp: t_def)
  qed
  have total: "t + (4 * (len' div 4) + max (k - 4) (len' mod 4)) =
      max len (len - (dst + len) mod 4 + (k - 4))" (is "_ = ?total")
  proof -
    have "(dst + len) mod 4 = len' mod 4"
      using t mod_add_left_eq [of "dst + t" 4 len'] by (simp add: len'_def)
    moreover have "4 * (len' div 4) + len' mod 4 = len'" by simp
    moreover have "t + (a + max b r) = max l (l - r + b)" if "a + r = len'" "l = t + len'"
      for a b r l :: nat using that by linarith
    ultimately show ?thesis using t by (simp add: len'_def)
  qed
  have head: "do_times (fill_step [c] 1) t (m, dst) = Some (filled m dst t c, dst + t)" if "t \<noteq> 0"
    using that fill_bytes_loop [of dst t m c] room t len by (simp add: do_times_while)
  have rest: "dst + t + (4 * (len' div 4) + max (k - 4) (len' mod 4)) \<le> length m"
    using room total by simp
  have "fill_by_words k m dst len c =
      Some (filled (filled m dst t c) (dst + t) (4 * (len' div 4) + max (k - 4) (len' mod 4)) c)"
  proof -
    have "dst + t \<le> length m" using rest by linarith
    then have *: "dst + t + 4 * (len' div 4) + max (k - 4) (len' mod 4) \<le> length (filled m dst t c)"
      using rest by simp
    have "4 \<le> len'" using len t by (simp add: len'_def)
    note go = fill_aligned [OF this k(1) *, of c]
    show ?thesis
    proof (cases "dst mod 4 = 0")
      case True
      then have "t = 0" by (simp add: t_def)
      with go True len show ?thesis
        by (simp add: fill_by_words_def len'_def word_unit nat_and_3 del: One_nat_def)
    next
      case False
      then have "t = 4 - dst mod 4" by (simp add: t_def)
      with go False len head show ?thesis
        by (simp add: fill_by_words_def len'_def word_unit nat_and_3 Let_def del: One_nat_def)
    qed
  qed
  also have "\<dots> = Some (filled m dst ?total c)"
    using rest by (simp only: filled_twice total add.assoc)
  finally show ?thesis .
qed

section \<open>Moved blocks\<close>

text \<open>The specification of copying: \<open>n\<close> bytes are read at once and then written.\<close>

definition moved :: "mem \<Rightarrow> nat \<Rightarrow> nat \<Rightarrow> nat \<Rightarrow> mem" where
  "moved m d s n = take d m @ take n (drop s m) @ drop (d + n) m"

lemma length_moved [simp]:
  "d + n \<le> length m \<Longrightarrow> s + n \<le> length m \<Longrightarrow> length (moved m d s n) = length m"
  by (simp add: moved_def)

lemma moved_nth:
  "d + n \<le> length m \<Longrightarrow> s + n \<le> length m \<Longrightarrow> i < length m \<Longrightarrow>
     moved m d s n ! i = (if d \<le> i \<and> i < d + n then m ! (s + (i - d)) else m ! i)"
  using min.absorb2 [of n "length m - s"] by (auto simp: moved_def nth_append)

lemma moved_0 [simp]: "moved m d s 0 = m"
  by (simp add: moved_def)

lemma moved_up:
  assumes "d \<le> s" "s + (a + b) \<le> length m"
  shows "moved (moved m d s a) (d + a) (s + a) b = moved m d s (a + b)"
  using assms by (intro nth_equalityI) (auto simp: moved_nth)

lemma moved_down:
  assumes "s \<le> d" "d + (a + b) \<le> length m"
  shows "moved (moved m (d + b) (s + b) a) d s b = moved m d s (a + b)"
  using assms by (intro nth_equalityI) (auto simp: moved_nth)

lemma copy_up_moved:
  "d + k \<le> length m \<Longrightarrow> s + k \<le> length m \<Longrightarrow>
     copy_up k (m, d, s) = Some (moved m d s k, d + k, s + k)"
  by (simp add: copy_up_def get_block_def put_block_def moved_def)

lemma copy_down_moved:
  "d + k \<le> length m \<Longrightarrow> s + k \<le> length m \<Longrightarrow>
     copy_down k (m, d + k, s + k) = Some (moved m d s k, d, s)"
  by (simp add: copy_down_def get_block_def put_block_def moved_def)

lemma copy_up_loop:
  assumes "d \<le> s" "s + n * k \<le> length m"
  shows "while_times (copy_up k) n (m, d, s) = Some (moved m d s (n * k), d + n * k, s + n * k)"
  using assms
proof (induction n arbitrary: m d s)
  case (Suc n)
  have "moved (moved m d s k) (d + k) (s + k) (n * k) = moved m d s (k + n * k)"
    using Suc.prems by (intro moved_up) auto
  with Suc.IH [of "d + k" "s + k" "moved m d s k"] Suc.prems show ?case
    by (simp add: copy_up_moved algebra_simps)
qed simp

lemma copy_down_loop:
  assumes "s \<le> d" "d + n * k \<le> length m"
  shows "while_times (copy_down k) n (m, d + n * k, s + n * k) = Some (moved m d s (n * k), d, s)"
  using assms
proof (induction n arbitrary: m)
  case (Suc n)
  have step: "copy_down k (m, d + Suc n * k, s + Suc n * k) =
      Some (moved m (d + n * k) (s + n * k) k, d + n * k, s + n * k)"
    using Suc.prems copy_down_moved [of "d + n * k" k m "s + n * k"] by (simp add: algebra_simps)
  have "moved (moved m (d + n * k) (s + n * k) k) d s (n * k) = moved m d s (k + n * k)"
    using Suc.prems by (intro moved_down) auto
  with Suc.IH [of "moved m (d + n * k) (s + n * k) k"] Suc.prems step show ?case
    by (simp add: algebra_simps)
qed simp

text \<open>
  Both copying functions move \<open>t\<close> bytes singly, then whole words, then the rest; it does
  not matter for the result which \<open>t\<close> the alignment asks for, as long as it is not zero.
\<close>

lemma copy_up_tail:
  assumes "d \<le> s" "s + n \<le> length m"
  shows "do { q \<leftarrow> while_times (copy_up wsize) (n div wsize) (m, d, s);
              q \<leftarrow> while_times (copy_up 1) (n AND wmask) q;
              Some (fst q) } = Some (moved m d s n)"
proof -
  let ?w = "n div 4 * 4" and ?r = "n mod 4"
  have w: "while_times (copy_up 4) (n div 4) (m, d, s) = Some (moved m d s ?w, d + ?w, s + ?w)"
    using assms by (intro copy_up_loop) auto
  have r: "while_times (copy_up 1) ?r (moved m d s ?w, d + ?w, s + ?w) =
      Some (moved (moved m d s ?w) (d + ?w) (s + ?w) ?r, d + ?w + ?r, s + ?w + ?r)"
    using copy_up_loop [of "d + ?w" "s + ?w" ?r 1 "moved m d s ?w"] assms by simp
  have "moved (moved m d s ?w) (d + ?w) (s + ?w) ?r = moved m d s n"
    using moved_up [of d s ?w ?r m] assms by simp
  with w r show ?thesis
    by (simp only: word_unit nat_and_3 Option.bind.simps fst_conv)
qed

lemma copy_forward_moved:
  assumes "dst < src" "src + len \<le> length m" "0 < len"
  shows "copy_forward m dst src len = Some (moved m dst src len)"
proof -
  have go: "do { q \<leftarrow> do_times (copy_up 1) t (m, dst, src);
                 q \<leftarrow> while_times (copy_up wsize) ((len - t) div wsize) q;
                 q \<leftarrow> while_times (copy_up 1) ((len - t) AND wmask) q;
                 Some (fst q) } = Some (moved m dst src len)" if "0 < t" "t \<le> len" for t
  proof -
    have "do_times (copy_up 1) t (m, dst, src) = Some (moved m dst src t, dst + t, src + t)"
      using copy_up_loop [of dst src t 1 m] that assms by (simp add: do_times_while)
    with copy_up_tail [of "dst + t" "src + t" "len - t" "moved m dst src t"]
      moved_up [of dst src t "len - t" m] that assms show ?thesis by simp
  qed
  show ?thesis
  proof (cases "(src OR dst) AND wmask \<noteq> 0")
    case True
    show ?thesis
    proof (cases "(src XOR dst) AND wmask \<noteq> 0 \<or> len < wsize")
      case bytes: True
      with True go [of len] assms show ?thesis by (simp add: copy_forward_def Let_def)
    next
      case False
      have "0 < wsize - (src AND wmask)" by (simp add: word_unit nat_and_3)
      moreover have "wsize - (src AND wmask) \<le> len" using False by auto
      ultimately show ?thesis using False True go [of "wsize - (src AND wmask)"] assms
        by (simp add: copy_forward_def Let_def word_unit nat_and_3)
    qed
  next
    case False
    with copy_up_tail [of dst src len m] assms show ?thesis by (simp add: copy_forward_def)
  qed
qed

lemma copy_down_tail:
  assumes "s \<le> d" "d + n \<le> length m"
  shows "do { q \<leftarrow> while_times (copy_down wsize) (n div wsize) (m, d + n, s + n);
              q \<leftarrow> while_times (copy_down 1) (n AND wmask) q;
              Some (fst q) } = Some (moved m d s n)"
proof -
  let ?w = "n div 4 * 4" and ?r = "n mod 4"
  have w: "while_times (copy_down 4) (n div 4) (m, d + n, s + n) =
      Some (moved m (d + ?r) (s + ?r) ?w, d + ?r, s + ?r)"
  proof -
    have sums: "d + n = d + ?r + ?w" "s + n = s + ?r + ?w" by simp_all
    show ?thesis unfolding sums using assms by (intro copy_down_loop) simp_all
  qed
  have r: "while_times (copy_down 1) ?r (moved m (d + ?r) (s + ?r) ?w, d + ?r, s + ?r) =
      Some (moved (moved m (d + ?r) (s + ?r) ?w) d s ?r, d, s)"
    using copy_down_loop [of s d ?r 1 "moved m (d + ?r) (s + ?r) ?w"] assms by simp
  have "moved (moved m (d + ?r) (s + ?r) ?w) d s ?r = moved m d s n"
    using moved_down [of s d ?w ?r m] assms by simp
  with w r show ?thesis
    by (simp only: word_unit nat_and_3 Option.bind.simps fst_conv)
qed

lemma copy_backward_moved:
  assumes "src < dst" "dst + len \<le> length m" "0 < len"
  shows "copy_backward m dst src len = Some (moved m dst src len)"
proof -
  have go: "do { q \<leftarrow> do_times (copy_down 1) t (m, dst + len, src + len);
                 q \<leftarrow> while_times (copy_down wsize) ((len - t) div wsize) q;
                 q \<leftarrow> while_times (copy_down 1) ((len - t) AND wmask) q;
                 Some (fst q) } = Some (moved m dst src len)" if "0 < t" "t \<le> len" for t
  proof -
    let ?n = "len - t"
    have "do_times (copy_down 1) t (m, dst + len, src + len) =
        Some (moved m (dst + ?n) (src + ?n) t, dst + ?n, src + ?n)"
      using copy_down_loop [of "src + ?n" "dst + ?n" t 1 m] that assms
      by (simp add: do_times_while)
    with copy_down_tail [of src dst ?n "moved m (dst + ?n) (src + ?n) t"]
      moved_down [of src dst t ?n m] that assms show ?thesis by simp
  qed
  show ?thesis
  proof (cases "((src + len) OR (dst + len)) AND wmask \<noteq> 0")
    case True
    show ?thesis
    proof (cases "((src + len) XOR (dst + len)) AND wmask \<noteq> 0 \<or> len \<le> wsize")
      case bytes: True
      with True go [of len] assms show ?thesis by (simp add: copy_backward_def Let_def)
    next
      case False
      then have "(src + len) mod 4 = (dst + len) mod 4" "4 < len"
        using nat_xor_and_3 [of "src + len" "dst + len"] by (auto simp: word_unit)
      with True have "0 < (src + len) AND wmask"
        using nat_or_and_3 [of "src + len" "dst + len"] by (simp add: word_unit nat_and_3)
      moreover have "(src + len) AND wmask \<le> len"
        using \<open>4 < len\<close> mod_less_divisor [of 4 "src + len"] by (simp add: word_unit nat_and_3)
      ultimately show ?thesis
        using True False go [of "(src + len) AND wmask"] by (simp add: copy_backward_def Let_def)
    qed
  next
    case False
    with copy_down_tail [of src dst len m] assms show ?thesis
      by (simp add: copy_backward_def Let_def)
  qed
qed

section \<open>Searching\<close>

lemma AplMemCmp_0:
  "n \<le> length a \<Longrightarrow> n \<le> length b \<Longrightarrow>
     \<exists>d. AplMemCmp a b n = Some d \<and> (d = 0 \<longleftrightarrow> take n a = take n b)"
proof (induction a b n rule: AplMemCmp.induct)
  case (2 a p1 b p2 n)
  then show ?case by (cases "a = b") (simp_all, metis word_uint_eqI)
qed auto

lemma AplMemCmp_0D:
  "AplMemCmp a b n = Some 0 \<Longrightarrow> n \<le> length a \<and> n \<le> length b \<and> take n a = take n b"
  by (induction a b n rule: AplMemCmp.induct) (auto dest: word_uint_eqI split: if_splits)

text \<open>Where a byte string first occurs, if it lies completely inside.\<close>

definition occurs_at :: "byte list \<Rightarrow> byte list \<Rightarrow> nat \<Rightarrow> bool" where
  "occurs_at pat m i \<longleftrightarrow> i + length pat \<le> length m \<and> take (length pat) (drop i m) = pat"

lemma mem_search_hit:
  assumes "occurs_at (c # pat) m i" "\<And>j. j < i \<Longrightarrow> \<not> occurs_at (c # pat) m j"
    and "cnt + i \<le> sz" "Suc (length pat) < 2 ^ 32"
  shows "mem_search m c pat (Suc (length pat)) sz cnt = Some (Some (cnt + i))"
  using assms
proof (induction i arbitrary: m cnt)
  case 0
  then obtain m' where m: "m = c # m'" "take (length pat) m' = pat" "length pat \<le> length m'"
    by (cases m) (auto simp: occurs_at_def)
  with 0 AplMemCmp_0 [of "length pat" m' pat] show ?case by auto
next
  case (Suc i)
  from Suc.prems(1) obtain x m' where m: "m = x # m'" and at: "occurs_at (c # pat) m' i"
    by (cases m) (auto simp: occurs_at_def)
  have "mem_search m' c pat (Suc (length pat)) sz (Suc cnt) = Some (Some (Suc cnt + i))"
  proof (rule Suc.IH [OF at])
    fix j assume "j < i"
    with Suc.prems(2) [of "Suc j"] m show "\<not> occurs_at (c # pat) m' j"
      by (auto simp: occurs_at_def)
  qed (use Suc.prems in auto)
  moreover have "x = c \<Longrightarrow> take (length pat) m' \<noteq> pat"
    using Suc.prems(2) [of 0] m at by (auto simp: occurs_at_def)
  moreover have "length pat \<le> length m'" using at by (auto simp: occurs_at_def)
  ultimately show ?case
    using m Suc.prems AplMemCmp_0 [of "length pat" m' pat] by auto
qed

lemma mem_search_miss:
  assumes "\<And>j. \<not> occurs_at (c # pat) m j" "length m = Suc sz - cnt" "cnt \<le> Suc sz"
    and "Suc (length pat) < 2 ^ 32"
  shows "mem_search m c pat (Suc (length pat)) sz cnt = None"
  using assms
proof (induction m arbitrary: cnt)
  case (Cons x m)
  have rest: "mem_search m c pat (Suc (length pat)) sz (Suc cnt) = None"
  proof (rule Cons.IH)
    show "\<not> occurs_at (c # pat) m j" for j
      using Cons.prems(1) [of "Suc j"] by (auto simp: occurs_at_def)
  qed (use Cons.prems in auto)
  moreover have "AplMemCmp m pat (length pat) \<noteq> Some 0" if "x = c"
    using Cons.prems(1) [of 0] that AplMemCmp_0D [of m pat "length pat"]
    by (auto simp: occurs_at_def)
  ultimately show ?case using Cons.prems by (auto split: option.splits)
qed simp

lemma rindex_absent:
  "0 \<notin> set s \<Longrightarrow> ch \<notin> sint ` set s \<Longrightarrow> ch \<noteq> 0 \<Longrightarrow> rindex_from (s @ 0 # r) ch i save = Some save"
  by (induction s arbitrary: i) auto

lemma rindex_last:
  "0 \<notin> set (u @ c # v) \<Longrightarrow> ch \<notin> sint ` set v \<Longrightarrow> sint c = ch \<Longrightarrow>
     rindex_from (u @ c # v @ 0 # r) ch i save = Some (Some (i + length u))"
proof (induction u arbitrary: i save)
  case Nil
  then have "ch \<noteq> 0" by (metis Un_iff in_set_conv_decomp set_append signed_word_eqI sint_0)
  with Nil rindex_absent [of v ch r "Suc i" "Some i"] show ?case by auto
qed simp

section \<open>Bounded string copies\<close>

lemma cat_end_terminated:
  assumes "0 \<notin> set s" "int (length s) < n \<or> n < 0"
  shows "cat_end (p @ s @ 0 # r) (length p) n = Some (length p + length s)"
  using assms
proof (induction s arbitrary: p n)
  case Nil
  then show ?case by (simp add: cat_end.simps [of _ _ n] get_append)
next
  case (Cons c s)
  with Cons.IH [of "n - 1" "p @ [c]"] show ?case
    by (auto simp: cat_end.simps [of _ _ n] get_append)
qed

lemma cat_copy_truncates:
  assumes "0 \<notin> set s" "0 < n" "length q = n"
  shows "cat_copy (p @ q @ r) (length p) (int n) (s @ 0 # z) =
    Some (p @ take (n - 1) s @ 0 # drop (Suc (length (take (n - 1) s))) q @ r)"
  using assms
proof (induction s arbitrary: p n q)
  case Nil
  then show ?case by (cases q) (auto simp: put_append)
next
  case (Cons c s)
  show ?case
  proof (cases "n = 1")
    case True
    with Cons.IH [of 1 q p] Cons.prems show ?thesis by simp
  next
    case False
    with Cons.prems obtain x q' where q: "q = x # q'" "length q' = n - 1" by (cases q) auto
    from Cons.IH [of "n - 1" q' "p @ [c]"] Cons.prems q False
    show ?thesis by (cases n) (auto simp: put_append take_Cons' of_nat_diff)
  qed
qed

lemma cpy_loop_text:
  assumes "0 \<notin> set s" "length s < n" "n \<le> length q"
  shows "cpy_loop (p @ q) (length p) (int n) (s @ 0 # z) =
    (if Suc (length s) < n
     then Some (p @ s @ 0 # drop (Suc (length s)) q, Suc (length p + length s),
            int (n - Suc (length s)), z)
     else Some (p @ s @ drop (length s) q, length p + length s, 0, 0 # z))"
  using assms
proof (induction s arbitrary: p n q)
  case Nil
  then show ?case by (cases q) (auto simp: put_append)
next
  case (Cons c s)
  then obtain x q' where q: "q = x # q'" by (cases q) auto
  with Cons.IH [of "n - 1" q' "p @ [c]"] Cons.prems show ?case
    by (auto simp: put_append of_nat_diff)
qed

lemma cpy_loop_cut:
  assumes "0 \<notin> set s" "n \<le> length s" "0 < n" "n \<le> length q"
  shows "cpy_loop (p @ q) (length p) (int n) (s @ 0 # z) =
    Some (p @ take (n - 1) s @ drop (n - 1) q, length p + (n - 1), 0, drop (n - 1) s @ 0 # z)"
  using assms
proof (induction s arbitrary: p n q)
  case (Cons c s)
  then obtain x q' where q: "q = x # q'" by (cases q) auto
  show ?case
  proof (cases "n = 1")
    case False
    then obtain k where "n = Suc (Suc k)" using Cons.prems by (cases n; cases "n - 1") auto
    with Cons.IH [of "n - 1" q' "p @ [c]"] Cons.prems q show ?thesis
      by (auto simp: put_append of_nat_diff)
  qed (use Cons.prems in simp)
qed simp

section \<open>Properties\<close>

text \<open>C35. \<open>AplCopyMemory\<close> (also called \<open>AplMoveMemory\<close>) moves a block: for every alignment of
  the two pointers, every length and every overlap of the two regions the destination ends
  with the bytes the source had before, and no other byte of memory changes, although the
  code copies in place and a word at a time.\<close>

theorem copy_memory_moves:
  assumes "src + len \<le> length m" "dst + len \<le> length m"
  shows "AplCopyMemory m dst src len =
    Some (take dst m @ take len (drop src m) @ drop (dst + len) m)"
proof -
  have "take len (drop src m) = take len (drop dst m)" if "dst = src" using that by simp
  then have same: "m = moved m dst src len" if "len = 0 \<or> dst = src"
    using that by (metis append_take_drop_id add.commute drop_drop moved_0 moved_def)
  show ?thesis
    using assms same copy_forward_moved [of dst src len m] copy_backward_moved [of src dst len m]
    by (auto simp: AplCopyMemory_def moved_def)
qed

theorem copy_memory_moves_witness:
  "AplCopyMemory [10, 11, 12, 13, 14, 15, 16, 17, 18, 19, 20, 21, 22, 23] 2 0 11 =
     Some [10, 11, 10, 11, 12, 13, 14, 15, 16, 17, 18, 19, 20, 23]"
  using copy_memory_moves
    [of 0 11 "[10, 11, 12, 13, 14, 15, 16, 17, 18, 19, 20, 21, 22, 23]" 2]
  by simp

text \<open>\<open>AplFillMemory\<close> sets exactly the \<open>len\<close> bytes at \<open>dst\<close> in a 32-bit build, for every
  alignment, and \<open>AplZeroMemory\<close> clears exactly those in both builds.\<close>

theorem fill_memory_exact:
  assumes "dst + len \<le> length m"
  shows "AplFillMemory False m dst len c = Some (take dst m @ replicate len c @ drop (dst + len) m)
    \<and> AplZeroMemory m dst len = Some (take dst m @ replicate len 0 @ drop (dst + len) m)"
proof -
  have "fill_by_words 4 m dst len c = Some (filled m dst len c)" for c
  proof (cases "len < 12")
    case True
    with assms show ?thesis by (simp add: fill_by_words_short)
  next
    case False
    then have "max len (len - (dst + len) mod 4 + (4 - 4)) = len" by simp
    with False assms fill_by_words_filled [of len 4 dst m c] show ?thesis by simp
  qed
  then show ?thesis by (simp add: AplFillMemory_shape AplZeroMemory_shape filled_def)
qed

theorem fill_memory_exact_witness:
  "AplFillMemory False (replicate 20 1) 3 13 7 = Some (replicate 3 1 @ replicate 13 7 @ replicate 4 1)
    \<and> AplZeroMemory (replicate 20 1) 3 13 = Some (replicate 3 1 @ replicate 13 0 @ replicate 4 1)"
  using fill_memory_exact [of 3 13 "replicate 20 1" 7] by simp

text \<open>In a 64-bit build \<open>AplFillMemory\<close> stores a 64-bit word at every 32-bit step, so a
  fill of twelve bytes or more always writes past its end: up to the word boundary behind
  the block and, if the block ends on a boundary, a whole word further.\<close>

theorem fill_memory_win64_overruns:
  assumes "12 \<le> len" "dst + len + 4 \<le> length m"
  shows "AplFillMemory True m dst len c =
    Some (take dst m @ replicate (len + (4 - (dst + len) mod 4)) c @
          drop (dst + len + (4 - (dst + len) mod 4)) m)"
proof -
  define r where "r = (dst + len) mod 4"
  have "r < 4" by (simp add: r_def)
  then have "max len (len - r + (8 - 4)) = len + (4 - r)" using assms(1) by simp
  with assms fill_by_words_filled [of len 8 dst m c, folded r_def] \<open>r < 4\<close>
  have "fill_by_words 8 m dst len c = Some (filled m dst (len + (4 - r)) c)" by simp
  then show ?thesis
    by (simp only: AplFillMemory_shape filled_def add.assoc r_def if_True)
qed

theorem fill_memory_win64_overruns_witness:
  "AplFillMemory True (replicate 20 1) 0 12 7 = Some (replicate 16 7 @ replicate 4 1)"
  using fill_memory_win64_overruns [of 12 0 "replicate 20 1" 7] by simp

text \<open>
  \<open>ApcMemSearch\<close> returns the first place where the bytes occur, if that place is inside the
  searched size; if they do not occur at all, it reads beyond the size before it gives up,
  even when one byte more than the size may be read.
\<close>

theorem mem_search_first:
  assumes "c \<noteq> 0" "Suc (length pat) < 2 ^ 32"
    and "occurs_at (c # pat) m i" "\<forall>j < i. \<not> occurs_at (c # pat) m j" "i \<le> sz"
  shows "ApcMemSearch m (c # pat) (Suc (length pat)) sz = Some (Some i)"
  using assms mem_search_hit [of c pat m i 0 sz] by (simp add: ApcMemSearch_def)

theorem mem_search_overruns:
  assumes "c \<noteq> 0" "Suc (length pat) < 2 ^ 32" "\<forall>j. \<not> occurs_at (c # pat) m j"
    and "length m = Suc sz"
  shows "ApcMemSearch m (c # pat) (Suc (length pat)) sz = None"
  using assms mem_search_miss [of c pat m sz 0] by (simp add: ApcMemSearch_def)

text \<open>The last occurrence of a character.\<close>

theorem rindex_finds_last:
  assumes "0 \<notin> set (u @ c # v)" "\<forall>x \<in> set v. sint x \<noteq> sint c"
  shows "AplRindexA (u @ c # v @ 0 # r) (sint c) = Some (Some (length u))"
proof -
  have "sint c \<notin> sint ` set v" using assms by auto
  with assms rindex_last [of u c v "sint c" r 0 None] show ?thesis by (simp add: AplRindexA_def)
qed

text \<open>
  \<open>lstrlcat\<close> appends as much of the source as fits and terminates the result; it returns
  null exactly when the size leaves no place behind the text that is there.
\<close>

theorem lstrlcat_appends:
  assumes "0 \<notin> set t" "0 \<notin> set s" "length t < n" "n \<le> length (t @ 0 # r)"
  shows "\<exists>rest. lstrlcatA (t @ 0 # r) (int n) (s @ 0 # z) =
    Some (Some (t @ take (n - Suc (length t)) s @ 0 # rest))"
proof -
  have "cat_end (t @ 0 # r) 0 (int n) = Some (length t)"
    using cat_end_terminated [of t "int n" "[]" r] assms by simp
  moreover have "int n - int (length t) = int (n - length t)" using assms by simp
  moreover have "cat_copy (t @ 0 # r) (length t) (int (n - length t)) (s @ 0 # z) =
      Some (t @ take (n - length t - 1) s @
        0 # drop (Suc (length (take (n - length t - 1) s))) (take (n - length t) (0 # r)) @
        drop (n - length t) (0 # r))"
    using cat_copy_truncates [of s "n - length t" "take (n - length t) (0 # r)" t
        "drop (n - length t) (0 # r)" z] assms by simp
  ultimately show ?thesis using assms by (simp add: lstrlcatA_def Let_def del: take_Suc_Cons)
qed


text \<open>
  \<open>lstrlcpy\<close> copies as much of the source as fits and terminates it. The returned pointer is
  behind the copied text and its terminator, or at the terminator if the text was cut.
\<close>

theorem lstrlcpy_copies:
  assumes "0 \<notin> set s" "0 < n" "n \<le> length b"
  shows "\<exists>rest. lstrlcpyA b (int n) (s @ 0 # z) =
    Some (take (n - 1) s @ 0 # rest, if length s < n - 1 then Suc (length s) else n - 1) \<and>
    length (take (n - 1) s @ 0 # rest) = length b"
proof (cases "length s < n")
  case True
  obtain x l where l: "drop (length s) b = x # l"
    using True assms by (cases "drop (length s) b") auto
  have "length b = length s + Suc (length l)"
    using arg_cong [OF l, of length] True assms by simp
  with True cpy_loop_text [of s n b "[]" z] assms l
  show ?thesis
    by (auto simp: lstrlcpyA_def Let_def put_def list_update_append split: if_splits)
next
  case False
  then have b: "drop (n - 1) b = b ! (n - 1) # drop n b"
    using assms Cons_nth_drop_Suc [of "n - 1" b] by simp
  have z: "wlen (drop (n - 1) s @ 0 # z) = Some (length s - (n - 1))"
    using assms wlen_text [of "drop (n - 1) s" z] by (auto dest: in_set_dropD)
  have "put (take (n - 1) s @ drop (n - 1) b) (n - 1) 0 = Some (take (n - 1) s @ 0 # drop n b)"
    using False b by (simp add: put_append)
  with False cpy_loop_cut [of s n b "[]" z] assms z show ?thesis
    by (simp add: lstrlcpyA_def Let_def)
qed

text \<open>\<open>lstrlocaseW\<close> maps the text and keeps what follows it.\<close>

lemma lower_loop_text:
  "0 \<notin> set s \<Longrightarrow> lower_loop f (s @ 0 # r) = Some (map f s @ 0 # r)"
  by (induction s) auto

end
