(* ===== verification/Win_Strings.thy ===== *)
theory Win_Strings
  imports Win_Prelude
begin

text \<open>
  The string routines of \<^verbatim>\<open>windows/src/utils.c\<close>: removing and replacing characters in place,
  numbers as text and back, wildcard matching, quoting, and the widening of ASCII text. A
  function that exists for \<open>CHAR\<close> and for \<open>WCHAR\<close> with the same text is one polymorphic
  definition and an instance. Strings are arrays with a terminator; a null pointer is
  \<open>None\<close>.
\<close>

abbreviation ch :: "char \<Rightarrow> 'w::len word" where
  "ch c \<equiv> of_char c"

section \<open>Removing and replacing characters\<close>

text \<open>\<open>while (*p) { if (*p != chSkip) *q++ = *p; else ++c; ++p; } *q = 0;\<close>\<close>

function char_remove_loop ::
  "'w::len word list \<Rightarrow> nat \<Rightarrow> nat \<Rightarrow> 'w word \<Rightarrow> dword \<Rightarrow> ('w word list \<times> dword) option" where
  "char_remove_loop b p q skip c =
     (case get b p of
        None \<Rightarrow> None
      | Some x \<Rightarrow>
          if x = 0 then map_option (\<lambda>b'. (b', c)) (put b q 0)
          else if x \<noteq> skip
            then (case put b q x of
                    None \<Rightarrow> None
                  | Some b' \<Rightarrow> char_remove_loop b' (Suc p) (Suc q) skip c)
            else char_remove_loop b (Suc p) q skip (c + 1))"
  by pat_completeness auto
termination
  by (relation "measure (\<lambda>(b, p, q, skip, c). length b - p)")
     (auto simp: get_def put_def split: if_splits)

declare char_remove_loop.simps [simp del]

definition is_empty :: "'w::len word list option \<Rightarrow> bool" where
  "is_empty s = (case s of None \<Rightarrow> True | Some t \<Rightarrow> get t 0 = Some 0)"

definition apxStrCharRemoveA ::
  "'w::len word list option \<Rightarrow> 'w word \<Rightarrow> ('w word list option \<times> dword) option" where
  "apxStrCharRemoveA szString chSkip =
     (if is_empty szString then Some (szString, 0)
      else map_option (\<lambda>(b, c). (Some b, c)) (char_remove_loop (the szString) 0 0 chSkip 0))"

definition apxStrCharRemoveW ::
  "wchar list option \<Rightarrow> wchar \<Rightarrow> (wchar list option \<times> dword) option" where
  "apxStrCharRemoveW = apxStrCharRemoveA"

text \<open>The \<open>TCHAR\<close> variant counts nothing and returns the string.\<close>

definition apxStrCharRemove ::
  "'w::len word list option \<Rightarrow> 'w word \<Rightarrow> 'w word list option option" where
  "apxStrCharRemove szString chSkip =
     (if is_empty szString then Some szString
      else map_option (\<lambda>(b, c). Some b) (char_remove_loop (the szString) 0 0 chSkip 0))"

text \<open>Replacing: \<open>p\<close> and \<open>q\<close> advance together.\<close>

function char_replace_loop ::
  "'w::len word list \<Rightarrow> nat \<Rightarrow> nat \<Rightarrow> 'w word \<Rightarrow> 'w word \<Rightarrow> 'w word list option" where
  "char_replace_loop b p q old new =
     (case get b p of
        None \<Rightarrow> None
      | Some x \<Rightarrow>
          if x = 0 then put b q 0
          else (case put b q (if x = old then new else x) of
                  None \<Rightarrow> None
                | Some b' \<Rightarrow> char_replace_loop b' (Suc p) (Suc q) old new))"
  by pat_completeness auto
termination
  by (relation "measure (\<lambda>(b, p, q, old, new). length b - p)")
     (auto simp: get_def put_def split: if_splits)

declare char_replace_loop.simps [simp del]

definition apxStrCharReplaceA ::
  "'w::len word list option \<Rightarrow> 'w word \<Rightarrow> 'w word \<Rightarrow> 'w word list option option" where
  "apxStrCharReplaceA szString chReplace chReplaceWith =
     (if is_empty szString then Some szString
      else map_option Some (char_replace_loop (the szString) 0 0 chReplace chReplaceWith))"

definition apxStrCharReplaceW ::
  "wchar list option \<Rightarrow> wchar \<Rightarrow> wchar \<Rightarrow> wchar list option option" where
  "apxStrCharReplaceW = apxStrCharReplaceA"

section \<open>Numbers as hexadecimal text\<close>

definition st_hex :: "'w::len word list" where
  "st_hex = map ch ''0123456789abcdef''"

text \<open>\<open>for (i = 0; i < k; i++) { *p-- = _st_hex[LO_NIBLE(n)]; n = n >> 4; }\<close>\<close>

fun hex_loop ::
  "nat \<Rightarrow> 'n::len word \<Rightarrow> 'w::len word list \<Rightarrow> nat \<Rightarrow> ('w word list \<times> nat) option" where
  "hex_loop 0 n b p = Some (b, p)"
| "hex_loop (Suc k) n b p = do {
     b \<leftarrow> put b p (st_hex ! unat (n AND 15));
     hex_loop k (drop_bit 4 n) b (p - 1) }"

text \<open>
  \<open>apxUltohex\<close> and \<open>apxUptohex\<close>: the same text for a \<open>ULONG\<close> and for a pointer-sized
  \<open>ULONG_PTR\<close> (\<open>sizeof * 2\<close> digits). The array is the one \<open>lpBuff\<close> points to,
  \<open>dwBuffLength\<close> what the caller says its length is.
\<close>

definition apxUptohex ::
  "'n::len word \<Rightarrow> 'w::len word list \<Rightarrow> nat \<Rightarrow> ('w word list \<times> bool) option" where
  "apxUptohex n lpBuff dwBuffLength = do {
     let digits = LENGTH('n) div 8 * 2;
     let bufsize = digits + 2;
     b \<leftarrow> put lpBuff 0 0;
     (if dwBuffLength < bufsize then Some (b, False)
      else do {
        b \<leftarrow> put b bufsize 0;
        (b, p) \<leftarrow> hex_loop digits n b (bufsize - 1);
        b \<leftarrow> put b p (ch CHR ''x'');
        b \<leftarrow> put b (p - 1) (ch CHR ''0'');
        Some (b, True) }) }"

definition apxUltohex :: "32 word \<Rightarrow> 'w::len word list \<Rightarrow> nat \<Rightarrow> ('w word list \<times> bool) option" where
  "apxUltohex = apxUptohex"

definition apxMakeResourceName ::
  "32 word \<Rightarrow> 'w::len word list \<Rightarrow> 'w word list \<Rightarrow> nat \<Rightarrow> ('w word list \<times> bool) option" where
  "apxMakeResourceName pid szPrefix lpBuff dwBuffLength = do {
     pl \<leftarrow> wlen szPrefix;
     (if dwBuffLength < pl + 11 then Some (lpBuff, False)
      else do {
        b \<leftarrow> lstrcpy_at lpBuff 0 szPrefix;
        (r, ok) \<leftarrow> apxUltohex pid (drop pl b) (dwBuffLength - pl);
        Some (take pl b @ r, ok) }) }"

section \<open>Reading numbers\<close>

text \<open>The \<open>switch\<close> of the digit characters.\<close>

definition hex_value :: "'w::len word \<Rightarrow> nat option" where
  "hex_value c =
     (let n = unat c
      in if 48 \<le> n \<and> n \<le> 57 then Some (n - 48)
         else if 97 \<le> n \<and> n \<le> 102 then Some (n - 87)
         else if 65 \<le> n \<and> n \<le> 70 then Some (n - 55)
         else None)"

definition dec_value :: "'w::len word \<Rightarrow> nat option" where
  "dec_value c = (let n = unat c in if 48 \<le> n \<and> n \<le> 57 then Some (n - 48) else None)"

text \<open>\<open>++p; while (*p && *p != 'x' && *(p - 1) != '0') p++;\<close> with the character before \<open>p\<close>.\<close>

fun find_x :: "'w::len word \<Rightarrow> 'w word list \<Rightarrow> 'w word list option" where
  "find_x before [] = None"
| "find_x before (c # s) =
     (if c \<noteq> 0 \<and> c \<noteq> ch CHR ''x'' \<and> before \<noteq> ch CHR ''0'' then find_x c s else Some (c # s))"

text \<open>
  The way back from the last digit: the list holds the characters behind the \<open>x\<close> that was
  found, last one first. A shift by 32 or more is undefined.
\<close>

fun hex_back :: "'w::len word list \<Rightarrow> 32 word \<Rightarrow> nat \<Rightarrow> 32 word option" where
  "hex_back [] rv sh = Some rv"
| "hex_back (c # s) rv sh =
     (if c = ch CHR ''x'' then Some rv
      else case hex_value c of
        None \<Rightarrow> Some 0
      | Some v \<Rightarrow>
          if sh < 32 then hex_back s (rv OR (rv + push_bit sh (word_of_nat v))) (sh + 4) else None)"

definition apxStrToul :: "'w::len word list \<Rightarrow> 32 word option" where
  "apxStrToul szNum = do {
     c \<leftarrow> get szNum 0;
     s \<leftarrow> find_x c (tl szNum);
     (if hd s \<noteq> ch CHR ''x'' then Some 0
      else do {
        n \<leftarrow> wlen (tl s);
        hex_back (rev (take n (tl s))) 0 0 }) }"

definition apxStrToulW :: "wchar list \<Rightarrow> 32 word option" where
  "apxStrToulW = apxStrToul"

fun dec_back :: "wchar list \<Rightarrow> 32 word \<Rightarrow> 32 word \<Rightarrow> 32 word" where
  "dec_back [] rv sh = rv"
| "dec_back (c # s) rv sh =
     (case dec_value c of
        None \<Rightarrow> rv
      | Some v \<Rightarrow> dec_back s (rv + word_of_nat v * sh) (sh * 10))"

text \<open>
  \<open>apxAtoulW\<close>: from the first character, or the one behind a minus, forward to the last one
  (\<open>while (*(p + 1)) p++\<close>), then back to the start of the string.
\<close>

definition apxAtoulW :: "wchar list option \<Rightarrow> 32 word option" where
  "apxAtoulW szNum =
     (case szNum of
        None \<Rightarrow> Some 0
      | Some b \<Rightarrow> do {
          c \<leftarrow> get b 0;
          (if c = 0 then Some 0
           else do {
             let (s, p) = (if c = ch CHR ''-'' then (- 1, 1) else (1, 0));
             n \<leftarrow> wlen (drop (Suc p) b);
             Some (dec_back (rev (take (Suc (p + n)) b)) 0 1 * s) }) })"

section \<open>Wildcards\<close>

text \<open>\<open>while (szPattern[++y] == '*');\<close>: the pattern behind the stars.\<close>

fun skip_stars :: "'w::len word list \<Rightarrow> 'w word list option" where
  "skip_stars [] = None"
| "skip_stars (c # p) = (if c = ch CHR ''*'' then skip_stars p else Some (c # p))"

lemma skip_stars_length: "skip_stars p = Some p' \<Longrightarrow> length p' \<le> length p"
  by (induction p) (auto split: if_splits)

text \<open>
  \<open>apxStrMatchA\<close>: \<open>x\<close> and \<open>y\<close> index the string and the pattern. The recursive call at a star
  moves both pointers, so it starts again with indices zero; \<open>match_star\<close> is the loop around
  it. \<open>eq\<close> compares two characters, through \<open>CharLower\<close> when case is ignored.
\<close>

function (sequential)
  str_match :: "('w::len word \<Rightarrow> 'w word \<Rightarrow> bool) \<Rightarrow> 'w word list \<Rightarrow> 'w word list
     \<Rightarrow> nat \<Rightarrow> nat \<Rightarrow> int option" and
  match_star :: "('w::len word \<Rightarrow> 'w word \<Rightarrow> bool) \<Rightarrow> 'w word list \<Rightarrow> 'w word list \<Rightarrow> int option"
where
  "str_match eq s p x y =
     (case get p y of
        None \<Rightarrow> None
      | Some py \<Rightarrow>
          if py = 0 then map_option (\<lambda>c. if c \<noteq> 0 then 1 else 0) (get s x)
          else (case get p x of
            None \<Rightarrow> None
          | Some px \<Rightarrow>
              if px = 0 \<and> (py \<noteq> ch CHR ''*'' \<or> py \<noteq> ch CHR ''?'') then Some (- 1)
              else if py = ch CHR ''*'' then
                (case skip_stars (drop (Suc y) p) of
                   None \<Rightarrow> None
                 | Some p' \<Rightarrow> if hd p' = 0 then Some 0 else match_star eq (drop x s) p')
              else if py \<noteq> ch CHR ''?'' then
                (case get s x of
                   None \<Rightarrow> None
                 | Some c \<Rightarrow> if \<not> eq c py then Some 1 else str_match eq s p (Suc x) (Suc y))
              else str_match eq s p (Suc x) (Suc y)))"
| "match_star eq [] p = None"
| "match_star eq (c # s) p =
     (if c = 0 then Some (- 1)
      else case str_match eq (c # s) p 0 0 of
        None \<Rightarrow> None
      | Some rc \<Rightarrow> if rc \<noteq> 1 then Some rc else match_star eq s p)"
  by pat_completeness auto
termination
  by (relation "inv_image (less_than <*lex*> less_than <*lex*> less_than)
        (\<lambda>q. case q of Inl (eq, s, p, x, y) \<Rightarrow> (length p - y, 0, 0)
                     | Inr (eq, s, p) \<Rightarrow> (length p, 1, length s))")
     (auto simp: get_def split: if_splits dest!: skip_stars_length)

declare str_match.simps [simp del]

definition same_char :: "('w::len word \<Rightarrow> 'w word) \<Rightarrow> bool \<Rightarrow> 'w word \<Rightarrow> 'w word \<Rightarrow> bool" where
  "same_char CharLower bIgnoreCase a b =
     (if bIgnoreCase then CharLower a = CharLower b else a = b)"

definition apxStrMatchA ::
  "('w::len word \<Rightarrow> 'w word) \<Rightarrow> 'w word list \<Rightarrow> 'w word list \<Rightarrow> bool \<Rightarrow> int option" where
  "apxStrMatchA CharLower szString szPattern bIgnoreCase =
     str_match (same_char CharLower bIgnoreCase) szString szPattern 0 0"

definition apxStrMatchW ::
  "(wchar \<Rightarrow> wchar) \<Rightarrow> wchar list \<Rightarrow> wchar list \<Rightarrow> bool \<Rightarrow> int option" where
  "apxStrMatchW = apxStrMatchA"

text \<open>
  \<open>apxMultiStrMatchW\<close>: the local array \<open>szM\<close> of \<open>SIZ_HUGLEN\<close> characters has whatever contents
  the stack had; \<open>i\<close> is the place of the next character, \<open>m\<close> the last result.
\<close>

definition SIZ_HUGLEN :: nat where "SIZ_HUGLEN = 8192"
definition SIZ_HUGMAX :: nat where "SIZ_HUGMAX = SIZ_HUGLEN - 1"

fun multi_match ::
  "(wchar list \<Rightarrow> wchar list \<Rightarrow> int option) \<Rightarrow> wchar list \<Rightarrow> wchar \<Rightarrow> wchar list
     \<Rightarrow> wchar list \<Rightarrow> nat \<Rightarrow> int \<Rightarrow> int option" where
  "multi_match f str sep [] szM i m = None"
| "multi_match f str sep (c # p) szM i m =
     (if c = 0 then do {
        szM \<leftarrow> put szM i 0;
        c0 \<leftarrow> get szM 0;
        (if c0 \<noteq> 0 then f str szM else Some m) }
      else if c = sep then do {
        m \<leftarrow> f str szM;
        (if m = 0 then Some 0
         else do { szM \<leftarrow> put szM 0 0; multi_match f str sep p szM 0 m }) }
      else if i < SIZ_HUGMAX then do {
        szM \<leftarrow> put szM i c;
        multi_match f str sep p szM (Suc i) m }
      else Some (- 1))"

definition apxMultiStrMatchW ::
  "(wchar \<Rightarrow> wchar) \<Rightarrow> wchar list \<Rightarrow> wchar list \<Rightarrow> wchar list \<Rightarrow> wchar \<Rightarrow> bool \<Rightarrow> int option" where
  "apxMultiStrMatchW CharLower stack szString szPattern chSeparator bIgnoreCase =
     (let f = (\<lambda>s p. apxStrMatchW CharLower s p bIgnoreCase)
      in if chSeparator = 0 then f szString szPattern
         else multi_match f szString chSeparator szPattern stack 0 (- 1))"

section \<open>Quotes\<close>

fun has_space :: "wchar list \<Rightarrow> bool option" where
  "has_space [] = None"
| "has_space (c # s) =
     (if c = 0 then Some False else if c = ch CHR '' '' then Some True else has_space s)"

definition apxStrQuoteInplaceW :: "wchar list \<Rightarrow> wchar list option" where
  "apxStrQuoteInplaceW szString = do {
     needsQuote \<leftarrow> has_space szString;
     (if needsQuote
      then do {
        l \<leftarrow> wlen szString;
        w \<leftarrow> get_block szString 0 l;
        s \<leftarrow> put_block szString 1 w;
        s \<leftarrow> put s 0 (ch CHR ''\"'');
        s \<leftarrow> put s (Suc l) (ch CHR ''\"'');
        put s (Suc (Suc l)) 0 }
      else Some szString) }"

text \<open>The scan of \<open>apxStrUnQuoteInplace\<close>: is there a space inside quotes?\<close>

fun scan_quotes :: "bool \<Rightarrow> 'w::len word list \<Rightarrow> bool option" where
  "scan_quotes inQuote [] = None"
| "scan_quotes inQuote (c # s) =
     (if c = 0 then Some False
      else if c = ch CHR ''\"'' then (if inQuote then Some False else scan_quotes True s)
      else if c = ch CHR '' '' \<and> inQuote then Some True
      else scan_quotes inQuote s)"

definition apxStrUnQuoteInplaceA :: "'w::len word list \<Rightarrow> ('w word list \<times> dword) option" where
  "apxStrUnQuoteInplaceA szString = do {
     needsQuote \<leftarrow> scan_quotes False szString;
     (if \<not> needsQuote
      then do {
        (s, c) \<leftarrow> apxStrCharRemoveA (Some szString) (ch CHR ''\"'');
        Some (the s, c) }
      else Some (szString, 0)) }"

definition apxStrUnQuoteInplaceW :: "wchar list \<Rightarrow> (wchar list \<times> dword) option" where
  "apxStrUnQuoteInplaceW = apxStrUnQuoteInplaceA"

section \<open>Widening\<close>

text \<open>\<open>do { *ws++ = (WCHAR)*s; } while (*s++);\<close>: \<open>CHAR\<close> is signed, so the conversion extends the sign.\<close>

fun widen_loop :: "byte list \<Rightarrow> wchar list \<Rightarrow> nat \<Rightarrow> wchar list option" where
  "widen_loop [] ws i = None"
| "widen_loop (c # s) ws i = do {
     ws \<leftarrow> put ws i (scast c);
     (if c \<noteq> 0 then widen_loop s ws (Suc i) else Some ws) }"

definition AsciiToWide :: "byte list option \<Rightarrow> wchar list \<Rightarrow> wchar list option" where
  "AsciiToWide s ws = (case s of None \<Rightarrow> put ws 0 0 | Some s \<Rightarrow> widen_loop s ws 0)"

section \<open>In-place editing\<close>

text \<open>
  Between the two pointers lies the text already read; \<open>gap\<close> is what is left of it.
\<close>

lemma char_remove_keeps:
  assumes "0 \<notin> set s"
  shows "\<exists>rest. char_remove_loop (out @ gap @ s @ 0 # r) (length out + length gap) (length out) skip c =
      Some (out @ filter (\<lambda>x. x \<noteq> skip) s @ 0 # rest @ r, c + of_nat (count_list s skip))
    \<and> length rest = length gap + count_list s skip"
  using assms
proof (induction s arbitrary: out gap c)
  case Nil
  have "put (out @ gap @ 0 # r) (length out) 0 = Some (out @ 0 # tl (gap @ 0 # r))"
    by (cases gap) (simp_all add: put_append)
  moreover have "\<exists>rest. tl (gap @ 0 # r) = rest @ r \<and> length rest = length gap"
  proof (cases gap)
    case (Cons g gs)
    then show ?thesis by (intro exI [of _ "gs @ [0]"]) simp
  qed simp
  moreover have "get (out @ gap @ 0 # r) (length out + length gap) = Some 0"
    using get_append [of "out @ gap" "length out + length gap" 0 r] by simp
  ultimately show ?case by (auto simp: char_remove_loop.simps [of _ _ _ _ c])
next
  case (Cons x s)
  have x: "get (out @ gap @ (x # s) @ 0 # r) (length out + length gap) = Some x" "x \<noteq> 0"
    using Cons.prems get_append [of "out @ gap" "length out + length gap" x "s @ 0 # r"] by auto
  show ?case
  proof (cases "x = skip")
    case True
    have "char_remove_loop (out @ gap @ (x # s) @ 0 # r) (length out + length gap) (length out) skip c =
        char_remove_loop (out @ (gap @ [x]) @ s @ 0 # r) (length out + length (gap @ [x])) (length out)
          skip (c + 1)"
      using x True by (simp add: char_remove_loop.simps [of _ _ _ _ c])
    with Cons.IH [of out "gap @ [x]" "c + 1"] Cons.prems True show ?thesis
      by (auto simp: algebra_simps)
  next
    case False
    obtain g gap' where gap': "gap @ [x] = g # gap'" by (cases "gap @ [x]") auto
    have split: "out @ gap @ x # s @ 0 # r = out @ g # gap' @ s @ 0 # r"
      using arg_cong [OF gap', of "\<lambda>l. out @ l @ s @ 0 # r"] by simp
    have put: "put (out @ gap @ x # s @ 0 # r) (length out) x = Some (out @ x # gap' @ s @ 0 # r)"
      unfolding split by (simp add: put_append)
    have len: "length gap = length gap'" using arg_cong [OF gap', of length] by simp
    have "char_remove_loop (out @ gap @ (x # s) @ 0 # r) (length out + length gap) (length out) skip c =
        char_remove_loop ((out @ [x]) @ gap' @ s @ 0 # r) (length (out @ [x]) + length gap')
          (length (out @ [x])) skip c"
      using x False put len by (simp add: char_remove_loop.simps [of "out @ gap @ x # s @ 0 # r"])
    with Cons.IH [of "out @ [x]" gap' c] Cons.prems False len show ?thesis by auto
  qed
qed

lemma char_remove_filter:
  assumes "0 \<notin> set s"
  shows "\<exists>rest. char_remove_loop (out @ gap @ s @ 0 # r) (length out + length gap) (length out) skip c =
      Some (out @ filter (\<lambda>x. x \<noteq> skip) s @ 0 # rest, c + of_nat (count_list s skip))
    \<and> length rest = length gap + count_list s skip + length r"
proof -
  obtain rest where "char_remove_loop (out @ gap @ s @ 0 # r) (length out + length gap) (length out) skip c =
      Some (out @ filter (\<lambda>x. x \<noteq> skip) s @ 0 # rest @ r, c + of_nat (count_list s skip))"
    "length rest = length gap + count_list s skip"
    using char_remove_keeps [OF assms, of out gap r skip c] by blast
  then show ?thesis by (intro exI [of _ "rest @ r"]) simp
qed

lemma char_replace_map:
  assumes "0 \<notin> set s"
  shows "char_replace_loop (out @ s @ 0 # r) (length out) (length out) old new =
    Some (out @ map (\<lambda>x. if x = old then new else x) s @ 0 # r)"
  using assms
proof (induction s arbitrary: out)
  case Nil
  then show ?case
    by (simp add: char_replace_loop.simps [of _ "length out"] get_append put_append)
next
  case (Cons x s)
  with Cons.IH [of "out @ [if x = old then new else x]"] show ?case
    by (auto simp: char_replace_loop.simps [of _ "length out"] get_append put_append)
qed

section \<open>Hexadecimal round trip\<close>

definition hex_char :: "'n::len word \<Rightarrow> 'w::len word" where
  "hex_char n = st_hex ! unat (n AND 15)"

fun hex_text :: "nat \<Rightarrow> 'n::len word \<Rightarrow> 'w::len word list" where
  "hex_text 0 n = []"
| "hex_text (Suc k) n = hex_text k (drop_bit 4 n) @ [hex_char n]"

lemma length_hex_text [simp]: "length (hex_text k n) = k"
  by (induction k arbitrary: n) auto

lemma hex_loop_text:
  "length b = k \<Longrightarrow> hex_loop k n (p @ b @ r) (length p + k - 1) =
     Some (p @ hex_text k n @ r, if k = 0 then length p + k - 1 else length p - 1)"
proof (induction k arbitrary: n b r)
  case (Suc k)
  then obtain b' x where b: "b = b' @ [x]" "length b' = k"
    by (cases b rule: rev_cases) auto
  have "put (p @ b @ r) (length p + Suc k - 1) (hex_char n) = Some (p @ b' @ hex_char n # r)"
    using b put_append [of "p @ b'" "length p + k" x r "hex_char n"] by simp
  with Suc.IH [of b' "drop_bit 4 n" "hex_char n # r"] b show ?case
    by (auto simp: hex_char_def)
qed simp

lemma apxUptohex_text:
  fixes n :: "'n::len word"
  assumes "LENGTH('n) div 8 * 2 + 2 < length b"
    and "LENGTH('n) div 8 * 2 + 2 \<le> dwBuffLength" "0 < LENGTH('n) div 8"
  shows "apxUptohex n b dwBuffLength =
    Some (ch CHR ''0'' # ch CHR ''x'' # hex_text (LENGTH('n) div 8 * 2) n @
          0 # drop (LENGTH('n) div 8 * 2 + 3) b, True)"
proof -
  let ?k = "LENGTH('n) div 8 * 2"
  obtain c0 c1 m e r where b: "b = c0 # c1 # m @ e # r" "length m = ?k"
  proof -
    obtain c0 c1 b' where "b = c0 # c1 # b'" "?k < length b'"
      using assms(1) by (cases b; cases "tl b") auto
    with id_take_nth_drop [of ?k b'] that [of c0 c1 "take ?k b'"] show thesis by simp
  qed
  have "hex_loop ?k n (0 # c1 # m @ 0 # r) (?k + 1) =
      Some ([0, c1] @ hex_text ?k n @ 0 # r, 1)"
    using hex_loop_text [of m ?k n "[0, c1]" "0 # r"] b assms(3) by simp
  then show ?thesis
    using assms b put_append [of "0 # c1 # m" "?k + 2" e r 0]
    by (simp add: apxUptohex_def Let_def put_def numeral_3_eq_3)
qed

lemma nibble_less: "unat ((n :: 'n::len word) AND 15) < 16"
proof -
  have "n AND 15 = take_bit 4 n"
    by (simp add: take_bit_eq_mask mask_eq_exp_minus_1)
  then have "unat (n AND 15) = take_bit 4 (unat n)" by (simp add: unsigned_take_bit_eq)
  then show ?thesis using take_bit_nat_less_exp [of 4 "unat n"] by simp
qed

lemma hex_value_char:
  "hex_value (hex_char n :: wchar) = Some (unat (n AND 15))" (is ?val)
  "(hex_char n :: wchar) \<noteq> ch CHR ''x''" (is ?not_x)
  "(hex_char n :: wchar) \<noteq> 0" (is ?not_0)
proof -
  define i where "i = unat (n AND 15)"
  have "i < 16" unfolding i_def by (rule nibble_less)
  then have "i = 0 \<or> i = 1 \<or> i = 2 \<or> i = 3 \<or> i = 4 \<or> i = 5 \<or> i = 6 \<or> i = 7 \<or>
      i = 8 \<or> i = 9 \<or> i = 10 \<or> i = 11 \<or> i = 12 \<or> i = 13 \<or> i = 14 \<or> i = 15"
    by presburger
  then have "hex_value (st_hex ! i :: wchar) = Some i \<and> (st_hex ! i :: wchar) \<noteq> ch CHR ''x''
      \<and> (st_hex ! i :: wchar) \<noteq> 0"
    by (elim disjE) (simp_all add: st_hex_def hex_value_def)
  then show ?val ?not_x ?not_0 by (simp_all add: hex_char_def i_def)
qed

lemma hex_text_no_zero: "0 \<notin> set (hex_text k n :: wchar list)"
  by (induction k arbitrary: n) (use hex_value_char(3) in force)+

lemma nibble_step:
  fixes N :: "32 word"
  assumes "sh < 32"
  shows "take_bit sh N OR (take_bit sh N + push_bit sh (word_of_nat (unat (drop_bit sh N AND 15))))
    = take_bit (sh + 4) N"
proof -
  have mask: "(15 :: 32 word) = mask 4" by (simp add: mask_eq_exp_minus_1)
  have "take_bit sh N AND push_bit sh (drop_bit sh N AND 15) = 0"
    by (auto simp: bit_eq_iff bit_simps)
  then have "take_bit sh N + push_bit sh (drop_bit sh N AND 15) =
      take_bit sh N OR push_bit sh (drop_bit sh N AND 15)"
    by (rule disjunctive_add_eq_or)
  then show ?thesis
    unfolding mask by (intro bit_word_eqI) (auto simp: bit_simps)
qed

lemma hex_back_text:
  fixes N :: "32 word"
  assumes "sh + 4 * k \<le> 32"
  shows "hex_back (rev (hex_text k (drop_bit sh N) :: wchar list)) (take_bit sh N) sh =
    Some (take_bit (sh + 4 * k) N)"
  using assms
proof (induction k arbitrary: sh)
  case (Suc k)
  have "drop_bit 4 (drop_bit sh N) = drop_bit (sh + 4) N" by (simp add: add.commute)
  with Suc nibble_step [of sh N] show ?case
    by (simp add: hex_value_char hex_value_char(2) [simplified] algebra_simps)
qed simp


text \<open>Decimal digits, most significant first.\<close>

definition dec_number :: "nat list \<Rightarrow> nat" where
  "dec_number ds = foldl (\<lambda>a d. 10 * a + d) 0 ds"

lemma dec_number_snoc: "dec_number (ds @ [d]) = 10 * dec_number ds + d"
  by (simp add: dec_number_def)

abbreviation dec_chars :: "nat list \<Rightarrow> wchar list" where
  "dec_chars ds \<equiv> map (\<lambda>d. word_of_nat (48 + d)) ds"

lemma dec_char_unat: "d < 10 \<Longrightarrow> unat (word_of_nat (48 + d) :: wchar) = 48 + d"
  by (subst unat_of_nat) simp

lemma dec_value_char: "d < 10 \<Longrightarrow> dec_value (word_of_nat (48 + d) :: wchar) = Some d"
  by (simp only: dec_value_def Let_def dec_char_unat) simp

lemma dec_back_digits:
  assumes "\<forall>d \<in> set ds. d < 10" "\<And>c cs. rest = c # cs \<Longrightarrow> dec_value c = None"
  shows "dec_back (rev (dec_chars ds) @ rest) rv sh = rv + word_of_nat (dec_number ds) * sh"
  using assms(1)
proof (induction ds arbitrary: rv sh rule: rev_induct)
  case Nil
  then show ?case using assms(2) by (cases rest) (auto simp: dec_number_def)
next
  case (snoc d ds)
  then show ?case using dec_value_char [of d]
    by (simp add: dec_number_snoc algebra_simps)
qed

lemma dec_chars_no_zero: "\<forall>d \<in> set ds. d < 10 \<Longrightarrow> 0 \<notin> set (dec_chars ds)"
  by (metis (no_types, lifting) add_is_0 dec_char_unat image_iff list.set_map unsigned_0
      zero_neq_numeral)

section \<open>Wildcard matching\<close>

text \<open>What a pattern of characters and stars means.\<close>

fun wild :: "('w::len word \<Rightarrow> 'w word \<Rightarrow> bool) \<Rightarrow> 'w word list \<Rightarrow> 'w word list \<Rightarrow> bool" where
  "wild eq [] s = (s = [])"
| "wild eq (c # p) s =
     (if c = ch CHR ''*'' then \<exists>k \<le> length s. wild eq p (drop k s)
      else case s of [] \<Rightarrow> False | d # s' \<Rightarrow> eq d c \<and> wild eq p s')"

definition somewhere ::
  "('w::len word \<Rightarrow> 'w word \<Rightarrow> bool) \<Rightarrow> 'w word list \<Rightarrow> 'w word list \<Rightarrow> bool" where
  "somewhere eq p s \<longleftrightarrow> (\<exists>k \<le> length s. wild eq p (drop k s))"

lemma wild_star: "wild eq (ch CHR ''*'' # p) s \<longleftrightarrow> somewhere eq p s"
  by (simp add: somewhere_def)

lemma somewhere_Nil: "somewhere eq p [] \<longleftrightarrow> wild eq p []"
  by (simp add: somewhere_def)

lemma somewhere_Cons: "somewhere eq p (d # s) \<longleftrightarrow> wild eq p (d # s) \<or> somewhere eq p s"
proof
  assume "somewhere eq p (d # s)"
  then obtain k where "k \<le> Suc (length s)" "wild eq p (drop k (d # s))"
    by (auto simp: somewhere_def)
  then show "wild eq p (d # s) \<or> somewhere eq p s"
    by (cases k) (auto simp: somewhere_def)
next
  assume "wild eq p (d # s) \<or> somewhere eq p s"
  then show "somewhere eq p (d # s)"
    by (auto simp: somewhere_def intro: exI [of _ 0] exI [of _ "Suc k" for k])
qed

lemma somewhere_star: "somewhere eq (ch CHR ''*'' # p) s \<longleftrightarrow> somewhere eq p s"
proof -
  have "somewhere eq p s" if "somewhere eq p (drop k s)" for k
    using that
  proof (induction k arbitrary: s)
    case (Suc k)
    then show ?case by (cases s) (auto simp: somewhere_Cons)
  qed simp
  then show ?thesis
    by (metis somewhere_def wild_star drop0 le0)
qed

lemma somewhere_stars:
  "somewhere eq (dropWhile (\<lambda>c. c = ch CHR ''*'') p) s \<longleftrightarrow> somewhere eq p s"
  by (induction p) (auto simp: somewhere_star simp del: of_char_Char)

lemma skip_stars_text:
  "skip_stars (p @ 0 # q) = Some (dropWhile (\<lambda>c. c = ch CHR ''*'') p @ 0 # (q :: wchar list))"
  by (induction p) auto

lemma somewhere_literal:
  assumes "c \<noteq> ch CHR ''*''" "somewhere eq (c # p) s" "s = d # s'"
  shows "somewhere eq p s'"
  using assms
proof (induction s arbitrary: d s')
  case (Cons a s)
  show ?case
  proof (cases "wild eq (c # p) (a # s)")
    case True
    with Cons.prems show ?thesis
      by (auto simp: somewhere_def simp del: of_char_Char intro: exI [of _ 0])
  next
    case False
    with Cons.prems(2) have "somewhere eq (c # p) s" unfolding somewhere_Cons by blast
    then show ?thesis
    proof (cases s)
      case Nil
      with \<open>somewhere eq (c # p) s\<close> Cons.prems(1) show ?thesis
        by (simp add: somewhere_Nil del: of_char_Char)
    next
      case s: (Cons b s2)
      from Cons.IH [OF Cons.prems(1) \<open>somewhere eq (c # p) s\<close> s]
      have "somewhere eq p s" unfolding s somewhere_Cons by simp
      with Cons.prems(3) show ?thesis by simp
    qed
  qed
qed simp

text \<open>
  The result of the code for a pattern without question marks: zero for a match, one or
  minus one otherwise, and minus one only if no later place of the string matches either.
\<close>

definition good_match ::
  "('w::len word \<Rightarrow> 'w word \<Rightarrow> bool) \<Rightarrow> 'w word list \<Rightarrow> 'w word list \<Rightarrow> int option \<Rightarrow> bool" where
  "good_match eq p s res \<longleftrightarrow>
     (res = Some 0 \<and> wild eq p s) \<or> (res = Some 1 \<and> \<not> wild eq p s) \<or>
     (res = Some (- 1) \<and> \<not> somewhere eq p s)"

lemma good_matchD:
  "good_match eq p s res \<Longrightarrow> \<exists>rc. res = Some rc \<and> (rc = 0 \<longleftrightarrow> wild eq p s)"
  using somewhere_def [of eq p s] by (auto simp: good_match_def intro: exI [of _ 0])

definition plain_text :: "'w::len word list \<Rightarrow> bool" where
  "plain_text s \<longleftrightarrow> 0 \<notin> set s"

definition plain_pattern :: "'w::len word list \<Rightarrow> bool" where
  "plain_pattern p \<longleftrightarrow> 0 \<notin> set p \<and> ch CHR ''?'' \<notin> set p"

lemma plain_pattern_dropWhile: "plain_pattern p \<Longrightarrow> plain_pattern (dropWhile f p)"
  unfolding plain_pattern_def by (blast dest: set_dropWhileD)

lemma str_match_good:
  fixes S P :: "wchar list"
  assumes "\<And>c. c \<noteq> 0 \<Longrightarrow> \<not> eq 0 c"
  shows "y = x \<Longrightarrow> drop x S = s @ 0 # r \<Longrightarrow> drop x P = p @ 0 # q \<Longrightarrow> plain_text s \<Longrightarrow>
      plain_pattern p \<Longrightarrow> good_match eq p s (str_match eq S P x y)"
    and "S = s @ 0 # r \<Longrightarrow> P = p @ 0 # q \<Longrightarrow> plain_text s \<Longrightarrow> plain_pattern p \<Longrightarrow>
      p \<noteq> [] \<Longrightarrow> hd p \<noteq> ch CHR ''*'' \<Longrightarrow>
      match_star eq S P = (if somewhere eq p s then Some 0 else Some (- 1))"
  using assms
proof (induction eq S P x y and eq S P arbitrary: s p and s p rule: str_match_match_star.induct)
  case (1 eq S P x y)
  note y = \<open>y = x\<close> and S = \<open>drop x S = s @ 0 # r\<close> and P = \<open>drop x P = p @ 0 # q\<close>
  have getS: "get S x = Some (hd (s @ [0]))"
    using arg_cong [OF S, of hd] arg_cong [OF S, of length]
    by (cases s) (auto simp: get_def hd_drop_conv_nth)
  have getP: "get P x = Some (hd (p @ [0]))"
    using arg_cong [OF P, of hd] arg_cong [OF P, of length]
    by (cases p) (auto simp: get_def hd_drop_conv_nth)
  show ?case
  proof (cases p)
    case Nil
    with getP getS y "1.prems"(4) show ?thesis
      by (cases s) (auto simp: str_match.simps [of eq S P] good_match_def plain_text_def)
  next
    case p: (Cons c p1)
    have c: "c \<noteq> 0" "c \<noteq> ch CHR ''?''" "plain_pattern p1"
      using "1.prems"(5) p by (auto simp: plain_pattern_def simp del: of_char_Char)
    have P1: "drop (Suc x) P = p1 @ 0 # q"
      using arg_cong [OF P, of tl] p by (simp add: tl_drop [symmetric] drop_Suc)
    have gP: "get P x = Some c" using getP p by simp
    show ?thesis
    proof (cases "c = ch CHR ''*''")
      case star: True
      define p2 where "p2 = dropWhile (\<lambda>c. c = ch CHR ''*'') p1"
      have skip: "skip_stars (drop (Suc x) P) = Some (p2 @ 0 # q)"
        unfolding P1 p2_def by (rule skip_stars_text)
      have eqn: "str_match eq S P x y =
          (if hd (p2 @ 0 # q) = 0 then Some 0 else match_star eq (drop x S) (p2 @ 0 # q))"
        using gP c star skip y by (simp add: str_match.simps [of eq S P])
      have wild: "wild eq p s = somewhere eq p2 s" "somewhere eq p s = somewhere eq p2 s"
        unfolding p star p2_def by (simp_all only: wild_star somewhere_star somewhere_stars)
      show ?thesis
      proof (cases p2)
        case Nil
        then have "somewhere eq p2 s" by (auto simp: somewhere_def)
        with Nil eqn wild show ?thesis by (simp add: good_match_def)
      next
        case p2: (Cons d p3)
        have pp: "plain_pattern p2" unfolding p2_def by (rule plain_pattern_dropWhile [OF c(3)])
        have "hd p2 \<noteq> ch CHR ''*''"
          using hd_dropWhile [of "\<lambda>c. c = ch CHR ''*''" p1] p2 unfolding p2_def by (metis list.distinct(1))
        moreover have "hd (p2 @ 0 # q) \<noteq> 0" using pp p2 by (auto simp: plain_pattern_def)
        ultimately have "match_star eq (drop x S) (p2 @ 0 # q) =
            (if somewhere eq p2 s then Some 0 else Some (- 1))"
          using "1.IH"(1) [OF _ c(1) gP _ star _ _ S refl] gP skip c y "1.prems"(4,6) p2 pp by simp
        with eqn wild p2 \<open>hd (p2 @ 0 # q) \<noteq> 0\<close> show ?thesis by (simp add: good_match_def)
      qed
    next
      case literal: False
      show ?thesis
      proof (cases s)
        case Nil
        with getS have "get S x = Some 0" by simp
        with Nil gP c literal y "1.prems"(6) have "str_match eq S P x y = Some 1"
          by (simp add: str_match.simps [of eq S P] del: of_char_Char)
        with Nil p literal show ?thesis by (simp add: good_match_def del: of_char_Char)
      next
        case s: (Cons d s1)
        have d: "get S x = Some d" "plain_text s1" using getS s "1.prems"(4) by (auto simp: plain_text_def)
        have S1: "drop (Suc x) S = s1 @ 0 # r"
          using arg_cong [OF S, of tl] s by (simp add: tl_drop [symmetric] drop_Suc)
        show ?thesis
        proof (cases "eq d c")
          case True
          have "str_match eq S P x y = str_match eq S P (Suc x) (Suc x)"
            using gP c literal d True y by (simp add: str_match.simps [of eq S P x] del: of_char_Char)
          moreover have "good_match eq p1 s1 (str_match eq S P (Suc x) (Suc x))"
            using "1.IH"(2) [OF _ c(1) _ _ literal c(2) _ _ _ S1 P1 d(2) c(3) "1.prems"(6)]
              gP c literal d True y by simp
          ultimately show ?thesis
            using True s p literal somewhere_literal [OF literal _ s]
            by (auto simp: good_match_def simp del: of_char_Char)
        next
          case False
          then have "str_match eq S P x y = Some 1"
            using gP c literal d y by (simp add: str_match.simps [of eq S P x] del: of_char_Char)
          with False s p literal show ?thesis by (simp add: good_match_def del: of_char_Char)
        qed
      qed
    qed
  qed
next
  case (2 eq P)
  then show ?case by simp
next
  case (3 eq c S P)
  show ?case
  proof (cases s)
    case Nil
    with 3 have "c = 0" "\<not> wild eq p []" by (cases p; auto)+
    with Nil show ?thesis by (simp add: somewhere_Nil)
  next
    case s: (Cons d s1)
    with 3 have c: "c = d" "S = s1 @ 0 # r" "d \<noteq> 0" "plain_text s1"
      by (auto simp: plain_text_def)
    have good: "good_match eq p s (str_match eq (c # S) P 0 0)"
      using 3 c by simp
    have rest: "match_star eq S P = (if somewhere eq p s1 then Some 0 else Some (- 1))"
      if "str_match eq (c # S) P 0 0 = Some 1" using 3 c that by simp
    show ?thesis
      using good rest c s somewhere_Cons [of eq p d s1]
      by (auto simp: good_match_def)
  qed
qed

section \<open>Properties\<close>

text \<open>
  \<open>apxStrCharRemove\<close> removes every occurrence of the character and returns how many it
  removed; \<open>apxStrCharReplace\<close> changes every occurrence.
\<close>

theorem char_remove_filters:
  assumes "0 \<notin> set s"
  shows "\<exists>rest. apxStrCharRemoveA (Some (s @ 0 # r)) skip =
    Some (Some (filter (\<lambda>x. x \<noteq> skip) s @ 0 # rest), of_nat (count_list s skip))"
proof (cases s)
  case Nil
  then show ?thesis by (simp add: apxStrCharRemoveA_def is_empty_def get_def)
next
  case (Cons x s')
  then have "\<not> is_empty (Some (s @ 0 # r))" using assms by (auto simp: is_empty_def get_def)
  then show ?thesis
    using char_remove_filter [OF assms, of "[]" "[]" r skip 0]
    by (auto simp: apxStrCharRemoveA_def)
qed

theorem char_replace_maps:
  assumes "0 \<notin> set s"
  shows "apxStrCharReplaceA (Some (s @ 0 # r)) old new =
    Some (Some (map (\<lambda>x. if x = old then new else x) s @ 0 # r))"
proof (cases s)
  case Nil
  then show ?thesis by (simp add: apxStrCharReplaceA_def is_empty_def get_def)
next
  case (Cons x s')
  then have "\<not> is_empty (Some (s @ 0 # r))" using assms by (auto simp: is_empty_def get_def)
  then show ?thesis
    using char_replace_map [OF assms, of "[]" r] by (simp add: apxStrCharReplaceA_def)
qed

text \<open>C38. Numbers survive the way through text: what \<open>apxUltohex\<close> writes for a 32-bit number
  into a buffer of at least eleven characters, \<open>apxStrToulW\<close> reads back.\<close>

theorem hex_roundtrip:
  fixes b :: "wchar list"
  assumes "11 \<le> length b" "10 \<le> dwBuffLength"
  shows "\<exists>b'. apxUltohex n b dwBuffLength = Some (b', True) \<and> apxStrToulW b' = Some n"
proof -
  let ?b = "ch CHR ''0'' # ch CHR ''x'' # hex_text 8 n @ 0 # drop 11 b"
  have "apxUltohex n b dwBuffLength = Some (?b, True)"
    using apxUptohex_text [of b dwBuffLength n] assms by (simp add: apxUltohex_def)
  moreover have "apxStrToulW ?b = Some n"
  proof -
    have "wlen (hex_text 8 n @ 0 # drop 11 b :: wchar list) = Some 8"
      using wlen_text [OF hex_text_no_zero, of 8 n "drop 11 b"] by simp
    moreover have "hex_back (rev (hex_text 8 n :: wchar list)) 0 0 = Some n"
      using hex_back_text [of 0 8 n] by (simp add: take_bit_word_eq_self)
    ultimately show ?thesis by (simp add: apxStrToulW_def apxStrToul_def get_def)
  qed
  ultimately show ?thesis by blast
qed

theorem hex_roundtrip_witness:
  "\<exists>b'. apxUltohex 48879 (replicate 11 7 :: wchar list) 11 = Some (b', True) \<and> apxStrToulW b' = Some 48879"
  using hex_roundtrip [of "replicate 11 7" 11 48879] by simp

text \<open>
  The length test of \<open>apxUltohex\<close> is one too small: a buffer of exactly the ten characters it
  asks for is overrun by the terminator.
\<close>

theorem ultohex_overruns:
  assumes "length b = 10"
  shows "apxUltohex n b 10 = None"
  using assms by (cases b) (simp_all add: apxUltohex_def apxUptohex_def put_def)

text \<open>\<open>apxMakeResourceName\<close> asks for enough room: prefix, \<open>0x\<close>, eight digits, terminator.\<close>

theorem resource_name_fits:
  assumes "0 \<notin> set prefix" "length prefix + 11 \<le> len" "len \<le> length b"
  shows "\<exists>rest. apxMakeResourceName pid (prefix @ 0 # z) b len =
    Some (prefix @ ch CHR ''0'' # ch CHR ''x'' # hex_text 8 pid @ 0 # rest, True)"
proof -
  let ?n = "length prefix"
  let ?b = "prefix @ 0 # drop (Suc ?n) b"
  have "lstrcpy_at b 0 (prefix @ 0 # z) = Some ?b"
    using assms by (simp add: lstrcpy_at_def put_block_def text_of_terminated)
  moreover have "\<exists>rest. apxUltohex pid (drop ?n ?b) (len - ?n) =
      Some (ch CHR ''0'' # ch CHR ''x'' # hex_text 8 pid @ 0 # rest, True)"
    using apxUptohex_text [of "drop ?n ?b" "len - ?n" pid] assms by (simp add: apxUltohex_def)
  moreover have "\<not> len < ?n + 11" using assms by simp
  ultimately show ?thesis
    using assms(1) by (auto simp: apxMakeResourceName_def wlen_text simp del: of_char_Char)
qed

text \<open>
  \<open>apxAtoulW\<close> reads from the end: it returns the number the trailing digits form, modulo
  \<open>2^32\<close>, negated if the text begins with a minus, whatever stands between.
\<close>

theorem atoul_reads_suffix:
  assumes "\<forall>d \<in> set ds. d < 10" "0 \<notin> set pre" "pre \<noteq> [] \<Longrightarrow> dec_value (last pre) = None"
    and "pre @ dec_chars ds \<noteq> []" "pre @ dec_chars ds \<noteq> [ch CHR ''-'']"
  shows "apxAtoulW (Some (pre @ dec_chars ds @ 0 # r)) =
    Some (word_of_nat (dec_number ds) * (if pre \<noteq> [] \<and> hd pre = ch CHR ''-'' then - 1 else 1))"
proof -
  define t where "t = pre @ dec_chars ds"
  have t0: "0 \<notin> set t" using assms(2) dec_chars_no_zero [OF assms(1)] by (auto simp: t_def)
  obtain c t' where t: "t = c # t'" using assms(4) by (cases t) (auto simp: t_def)
  have c: "c = ch CHR ''-'' \<longleftrightarrow> pre \<noteq> [] \<and> hd pre = ch CHR ''-''"
  proof (cases pre)
    case Nil
    then obtain d ds' where d: "ds = d # ds'" "c = word_of_nat (48 + d)" "d < 10"
      using t assms(1) by (cases ds) (auto simp: t_def)
    have "dec_value c = Some d" unfolding d(2) by (rule dec_value_char [OF d(3)])
    moreover have "dec_value (ch CHR ''-'' :: wchar) = None" by (simp add: dec_value_def)
    ultimately have "c \<noteq> ch CHR ''-''" by (metis option.distinct(1))
    with Nil show ?thesis by blast
  next
    case (Cons a as)
    with t show ?thesis by (simp add: t_def)
  qed
  have read: "dec_back (rev t) 0 1 = word_of_nat (dec_number ds)"
    using dec_back_digits [OF assms(1), of "rev pre" 0 1] assms(3)
    by (cases pre rule: rev_cases) (auto simp: t_def)
  have "c \<noteq> 0" using t0 t by auto
  show ?thesis
  proof (cases "c = ch CHR ''-''")
    case True
    then have "t' \<noteq> []" using assms(5) t by (auto simp: t_def)
    then obtain e t2 where t': "t' = e # t2" by (cases t') auto
    have len: "wlen (t2 @ 0 # r) = Some (length t2)"
      using t0 t t' wlen_text [of t2 r] by simp
    have "apxAtoulW (Some (t @ 0 # r)) = Some (dec_back (rev t) 0 1 * - 1)"
      using True t t' len \<open>c \<noteq> 0\<close> by (simp add: apxAtoulW_def get_def)
    with True c read show ?thesis by (simp add: t_def)
  next
    case False
    have len: "wlen (t' @ 0 # r) = Some (length t')" using t0 t wlen_text [of t' r] by simp
    have "apxAtoulW (Some (t @ 0 # r)) = Some (dec_back (rev t) 0 1 * 1)"
      using False t len \<open>c \<noteq> 0\<close> by (simp add: apxAtoulW_def get_def)
    with False c read show ?thesis by (auto simp: t_def)
  qed
qed

text \<open>A lone minus makes \<open>apxAtoulW\<close> look for the end of the string behind its end.\<close>

theorem atoul_minus_overruns: "apxAtoulW (Some [ch CHR ''-'', 0]) = None"
  by (simp add: apxAtoulW_def get_def)

text \<open>C36. The wildcard matcher decides the meaning of a pattern of characters and stars: it
  always returns, stays inside both strings, and returns zero exactly if the whole string
  matches.\<close>

theorem match_decides_stars:
  fixes s p :: "wchar list"
  assumes "0 \<notin> set s" "0 \<notin> set p" "ch CHR ''?'' \<notin> set p"
    and "CharLower 0 = 0" "\<And>c. c \<noteq> 0 \<Longrightarrow> CharLower c \<noteq> 0"
  shows "\<exists>rc. apxStrMatchW CharLower (s @ 0 # r) (p @ 0 # q) bIgnoreCase = Some rc \<and>
    (rc = 0 \<longleftrightarrow> wild (same_char CharLower bIgnoreCase) p s)"
proof -
  have "\<And>c. c \<noteq> 0 \<Longrightarrow> \<not> same_char CharLower bIgnoreCase 0 c"
    using assms(4,5) by (auto simp: same_char_def)
  then have "good_match (same_char CharLower bIgnoreCase) p s
      (str_match (same_char CharLower bIgnoreCase) (s @ 0 # r) (p @ 0 # q) 0 0)"
    using str_match_good(1) [of "same_char CharLower bIgnoreCase" 0 0 "s @ 0 # r" s r "p @ 0 # q" p q]
      assms by (simp add: plain_text_def plain_pattern_def del: of_char_Char)
  then show ?thesis
    using good_matchD by (simp add: apxStrMatchW_def apxStrMatchA_def)
qed

theorem match_decides_stars_witness:
  "\<exists>rc. apxStrMatchW id [97, 98, 99, 98, 100, 0] [97, 42, 98, 42, 0] False = Some rc \<and>
    (rc = 0 \<longleftrightarrow> wild (same_char id False) [97, 42, 98, 42] [97, 98, 99, 98, 100 :: wchar])"
  using match_decides_stars [of "[97, 98, 99, 98, 100]" "[97, 42, 98, 42]" id "[]" "[]" False]
  by simp

text \<open>A question mark also matches the terminator of the string, because the test for the end of
  the string looks at the pattern instead: \<open>a?\<close> reads behind the string \<open>a\<close>, and \<open>a?*\<close> matches it
  although the pattern asks for two characters.\<close>

theorem question_mark_matches_end:
  "apxStrMatchW CharLower [97, 0] [97, 63, 0] False = None \<and>
   apxStrMatchW CharLower [97, 0] [97, 63, 42, 0] False = Some 0"
  by (simp add: apxStrMatchW_def apxStrMatchA_def str_match.simps same_char_def get_def)

text \<open>
  In a list of patterns every pattern but the last is matched before its copy is terminated,
  so the result for \<open>b;c\<close> and the string \<open>b\<close> depends on the old contents of the stack.
\<close>

theorem multi_match_unterminated:
  assumes "length stack = 8190"
  shows "apxMultiStrMatchW CharLower (x # 0 # stack) [98, 0] [98, 59, 99, 0] 59 False = Some 0"
    and "apxMultiStrMatchW CharLower (x # 120 # stack) [98, 0] [98, 59, 99, 0] 59 False = Some 1"
  using assms
  by (simp_all add: apxMultiStrMatchW_def apxStrMatchW_def apxStrMatchA_def str_match.simps
      same_char_def get_def put_def SIZ_HUGMAX_def SIZ_HUGLEN_def)

text \<open>
  Quoting puts a text with a space between quotes if three more characters fit and leaves
  other text alone; unquoting keeps the quotes that protect a space.
\<close>

lemma has_space_text:
  "0 \<notin> set s \<Longrightarrow> has_space (s @ 0 # r) = Some (ch CHR '' '' \<in> set s)"
  by (induction s) auto

theorem quote_protects_spaces:
  assumes "0 \<notin> set s" "2 \<le> length r"
  shows "\<exists>rest. apxStrQuoteInplaceW (s @ 0 # r) =
    Some ((if ch CHR '' '' \<in> set s then ch CHR ''\"'' # s @ [ch CHR ''\"''] else s) @ 0 # rest)"
proof (cases "ch CHR '' '' \<in> set s")
  case False
  with assms show ?thesis by (simp add: apxStrQuoteInplaceW_def has_space_text del: of_char_Char)
next
  case True
  obtain a c r' where r: "r = a # c # r'" using assms(2) by (cases r; cases "tl r") auto
  let ?n = "length s"
  have "get_block (s @ 0 # r) 0 ?n = Some s" by (simp add: get_block_def)
  moreover have "put_block (s @ 0 # r) 1 s = Some (hd (s @ [0]) # s @ a # c # r')"
    using r by (cases s) (auto simp: put_block_def)
  moreover have "put (ch CHR ''\"'' # s @ a # c # r') (Suc ?n) (ch CHR ''\"'') =
      Some (ch CHR ''\"'' # s @ ch CHR ''\"'' # c # r')"
    using put_append [of "ch CHR ''\"'' # s"] by simp
  moreover have "put (ch CHR ''\"'' # s @ ch CHR ''\"'' # c # r') (Suc (Suc ?n)) 0 =
      Some (ch CHR ''\"'' # s @ ch CHR ''\"'' # 0 # r')"
    using put_append [of "ch CHR ''\"'' # s @ [ch CHR ''\"'']"] by simp
  ultimately show ?thesis
    using True assms(1)
    by (simp add: apxStrQuoteInplaceW_def has_space_text wlen_text put_def)
qed

text \<open>\<open>AsciiToWide\<close> keeps ASCII characters; a byte from 128 on turns into a character from \<open>0xFF80\<close> on.\<close>

lemma widen_loop_text:
  assumes "0 \<notin> set s" "length s < length b"
  shows "widen_loop (s @ 0 # z) (p @ b) (length p) = Some (p @ map scast s @ 0 # drop (Suc (length s)) b)"
  using assms
proof (induction s arbitrary: p b)
  case Nil
  then show ?case by (cases b) (auto simp: put_append)
next
  case (Cons c s)
  then obtain x b' where b: "b = x # b'" by (cases b) auto
  with Cons.IH [of b' "p @ [scast c]"] Cons.prems show ?case by (auto simp: put_append)
qed

theorem ascii_to_wide_extends_sign:
  assumes "0 \<notin> set s" "length s < length ws"
  shows "AsciiToWide (Some (s @ 0 # z)) ws = Some (map scast s @ 0 # drop (Suc (length s)) ws)"
  using widen_loop_text [OF assms, of z "[]"] by (simp add: AsciiToWide_def)

theorem ascii_to_wide_example:
  "AsciiToWide (Some [65, 233, 0]) [1, 2, 3] = Some [65, 0xFFE9, 0]"
  by (simp add: AsciiToWide_def put_def)

end
