(* ===== verification/Multi_Sz.thy ===== *)
theory Multi_Sz
  imports Win_Prelude
begin

text \<open>
  Multi-strings (\<^verbatim>\<open>windows/src/utils.c\<close>): a list of non-empty strings, each terminated, with
  one more terminator behind the last. Registry values, service dependencies, the options
  of the VM and the dialogs of the monitor use them. The theory holds the conversions and
  the two routines that extend environment variables; \<open>msz\<close> is the abstraction the lemmas
  relate them to.
\<close>

section \<open>Length\<close>

text \<open>
  \<open>for ( ; p && *p; p++) { count++; while (*p) p++; }\<close>: the outer loop, and the inner one with
  the step over the terminator. The result is the distance and the count.
\<close>

function msz_outer :: "'w::len word list \<Rightarrow> (nat \<times> nat) option"
  and msz_inner :: "'w::len word list \<Rightarrow> (nat \<times> nat) option" where
  "msz_outer b =
     (case b of
        [] \<Rightarrow> None
      | c # s \<Rightarrow> if c = 0 then Some (0, 0)
                 else map_option (\<lambda>(l, n). (l, Suc n)) (msz_inner b))"
| "msz_inner b =
     (case b of
        [] \<Rightarrow> None
      | c # s \<Rightarrow> map_option (\<lambda>(l, n). (Suc l, n)) (if c = 0 then msz_outer s else msz_inner s))"
  by pat_completeness auto
termination
  by (relation "inv_image (less_than <*lex*> less_than)
        (\<lambda>q. case q of Inl b \<Rightarrow> (length b, 1) | Inr b \<Rightarrow> (length b, 0 :: nat))") auto

declare msz_outer.simps [simp del] msz_inner.simps [simp del]

definition apxGetMultiSzLengthA :: "'w::len word list option \<Rightarrow> (nat \<times> nat) option" where
  "apxGetMultiSzLengthA lpStr = (case lpStr of None \<Rightarrow> Some (0, 0) | Some b \<Rightarrow> msz_outer b)"

definition apxGetMultiSzLengthW :: "wchar list option \<Rightarrow> (nat \<times> nat) option" where
  "apxGetMultiSzLengthW = apxGetMultiSzLengthA"

section \<open>Combining and splitting\<close>

text \<open>The block moves are those of \<open>AplMoveMemory\<close>, a character at a time.\<close>

definition apxMultiSzCombine ::
  "wchar list option \<Rightarrow> wchar list option \<Rightarrow> (wchar list option \<times> nat) option" where
  "apxMultiSzCombine lpStrA lpStrB =
     (if lpStrA = None \<and> lpStrB = None then Some (None, 0)
      else do {
        (la, _) \<leftarrow> apxGetMultiSzLengthW lpStrA;
        (lb, _) \<leftarrow> apxGetMultiSzLengthW lpStrB;
        let rv = replicate (la + lb + 1) 0;
        rv \<leftarrow> (if la \<noteq> 0
               then do { w \<leftarrow> get_block (the lpStrA) 0 la; put_block rv 0 w } else Some rv);
        rv \<leftarrow> (if lb \<noteq> 0
               then do { w \<leftarrow> get_block (the lpStrB) 0 lb; put_block rv la w } else Some rv);
        Some (Some rv, (la + lb + 1) * 2) })"

text \<open>
  \<open>apxMultiSzToArray\<close> allocates the pointers and a copy of the text in one block. A slot of
  the array is what the allocation left there, a null pointer or the offset of a string in
  the copy.
\<close>

datatype slot = Uninit | Null | Ptr nat

text \<open>\<open>while (*p) p++; p++;\<close> from an offset of the copy.\<close>

definition next_string :: "'w::len word list \<Rightarrow> nat \<Rightarrow> nat option" where
  "next_string b p = map_option (\<lambda>n. p + n + 1) (wlen (drop p b))"

fun fill_slots ::
  "nat \<Rightarrow> nat \<Rightarrow> 'w::len word list \<Rightarrow> nat \<Rightarrow> slot list \<Rightarrow> slot list option" where
  "fill_slots 0 i b p arr = Some arr"
| "fill_slots (Suc n) i b p arr = do {
     arr \<leftarrow> put arr i (Ptr p);
     p \<leftarrow> next_string b p;
     fill_slots n (Suc i) b p arr }"

definition apxMultiSzToArrayA ::
  "'w::len word list option \<Rightarrow> (nat \<times> slot list \<times> 'w word list) option" where
  "apxMultiSzToArrayA lpString = do {
     (l, n) \<leftarrow> apxGetMultiSzLengthA lpString;
     (if n = 0 \<or> l = 0 then Some (0, [], [])
      else do {
        copy \<leftarrow> get_block (the lpString) 0 (l + 1);
        arr \<leftarrow> fill_slots n 0 copy 0 (replicate (n + 2) Uninit);
        arr \<leftarrow> put arr (n + 1) Null;
        Some (n, arr, copy) }) }"

definition apxMultiSzToArrayW ::
  "wchar list option \<Rightarrow> (nat \<times> slot list \<times> wchar list) option" where
  "apxMultiSzToArrayW = apxMultiSzToArrayA"

text \<open>\<open>apxArrayToMultiSzA\<close>: \<open>heap\<close> is what the allocation of \<open>l\<close> bytes left in the block.\<close>

fun append_args :: "byte list list \<Rightarrow> byte list \<Rightarrow> nat \<Rightarrow> (byte list \<times> nat) option" where
  "append_args [] b p = Some (b, p)"
| "append_args (a # as) b p = do {
     b \<leftarrow> lstrcpy_at b p a;
     n \<leftarrow> wlen a;
     b \<leftarrow> put b (p + n) 0;
     append_args as b (p + n + 1) }"

fun args_length :: "byte list list \<Rightarrow> nat option" where
  "args_length [] = Some 0"
| "args_length (a # as) = do { n \<leftarrow> wlen a; l \<leftarrow> args_length as; Some (n + l) }"

definition apxArrayToMultiSzA ::
  "(nat \<Rightarrow> byte list) \<Rightarrow> byte list list \<Rightarrow> byte list option option" where
  "apxArrayToMultiSzA heap lpArgs =
     (if lpArgs = [] then Some None
      else do {
        l \<leftarrow> args_length lpArgs;
        let b = take (l + (length lpArgs + 2)) (heap (l + (length lpArgs + 2)));
        (b, p) \<leftarrow> append_args lpArgs b 0;
        b \<leftarrow> put b p 0;
        b \<leftarrow> put b (p + 1) 0;
        Some (Some b) })"

section \<open>Lines\<close>

text \<open>\<open>apxMszToCRLFW\<close>: the counter \<open>c\<close> goes down at every terminator.\<close>

fun crlf_loop :: "wchar list \<Rightarrow> nat \<Rightarrow> wchar list \<Rightarrow> nat \<Rightarrow> wchar list option" where
  "crlf_loop s 0 rv b = Some rv"
| "crlf_loop [] (Suc c) rv b = None"
| "crlf_loop (x # s) (Suc c) rv b =
     (if x \<noteq> 0 then do { rv \<leftarrow> put rv b x; crlf_loop s (Suc c) rv (b + 1) }
      else do { rv \<leftarrow> put rv b 13; rv \<leftarrow> put rv (b + 1) 10; crlf_loop s c rv (b + 2) })"

definition apxMszToCRLFW :: "wchar list \<Rightarrow> wchar list option" where
  "apxMszToCRLFW szStr = do {
     (l, c) \<leftarrow> apxGetMultiSzLengthW (Some szStr);
     crlf_loop szStr c (replicate (l + c + 2) 0) 0 }"

fun msz_loop :: "wchar list \<Rightarrow> wchar list \<Rightarrow> nat \<Rightarrow> (wchar list \<times> nat) option" where
  "msz_loop [] rv n = Some (rv, n)"
| "msz_loop (x # s) rv n =
     (if x = 13 then do { rv \<leftarrow> put rv n 0; msz_loop s rv (n + 1) }
      else if x \<noteq> 10 then do { rv \<leftarrow> put rv n x; msz_loop s rv (n + 1) }
      else msz_loop s rv n)"

definition apxCRLFToMszW :: "wchar list \<Rightarrow> (wchar list \<times> nat) option" where
  "apxCRLFToMszW szStr = do {
     l \<leftarrow> wlen szStr;
     (rv, n) \<leftarrow> msz_loop (take l szStr) (replicate (l + 2) 0) 0;
     Some (rv, (n + 2) * 2) }"

section \<open>Narrowing\<close>

text \<open>\<open>do { *s++ = (CHAR)*ws; ws++; } while (*ws || *(ws + 1));\<close>\<close>

fun narrow_loop :: "wchar list \<Rightarrow> byte list \<Rightarrow> nat \<Rightarrow> (byte list \<times> nat) option" where
  "narrow_loop [] s i = None"
| "narrow_loop (c # ws) s i = do {
     s \<leftarrow> put s i (ucast c);
     a \<leftarrow> get ws 0;
     more \<leftarrow> (if a \<noteq> 0 then Some True else map_option (\<lambda>b. b \<noteq> 0) (get ws 1));
     (if more then narrow_loop ws s (Suc i) else Some (s, Suc i)) }"

definition MzWideToAscii :: "wchar list option \<Rightarrow> byte list \<Rightarrow> byte list option" where
  "MzWideToAscii ws s = do {
     (s, i) \<leftarrow> (case ws of None \<Rightarrow> Some (s, 0) | Some ws \<Rightarrow> narrow_loop ws s 0);
     s \<leftarrow> put s i 0;
     put s (i + 1) 0 }"

text \<open>
  \<open>MzWideToANSI\<close>: \<open>conv\<close> is the conversion of \<open>WideCharToMultiByte\<close> to the code page, with the
  terminator; \<open>heap\<close> is what the allocation left in the block. The walk over the strings is
  the same in both loops; the first adds the lengths, the second stores the converted
  strings one behind the other.
\<close>

function msz_walk :: "wchar list \<Rightarrow> wchar list list option" where
  "msz_walk p =
     (case p of
        [] \<Rightarrow> None
      | c # q \<Rightarrow>
          if c = 0 then Some []
          else case wlen p of
            None \<Rightarrow> None
          | Some k \<Rightarrow> map_option ((#) (take k p)) (msz_walk (drop (Suc k) p)))"
  by pat_completeness auto
termination
  by (relation "measure length") auto

declare msz_walk.simps [simp del]

fun store_ansi ::
  "(wchar list \<Rightarrow> byte list) \<Rightarrow> wchar list list \<Rightarrow> byte list \<Rightarrow> nat \<Rightarrow> nat \<Rightarrow> (byte list \<times> nat) option" where
  "store_ansi conv [] b s cch = Some (b, s)"
| "store_ansi conv (t # ts) b s cch =
     (let len = (if length (conv t) \<le> cch then length (conv t) else 0)
      in if len > 0
         then do { b \<leftarrow> put_block b s (conv t); store_ansi conv ts b (s + len) (cch - len) }
         else store_ansi conv ts b s cch)"

definition MzWideToANSI ::
  "(wchar list \<Rightarrow> byte list) \<Rightarrow> (nat \<Rightarrow> byte list) \<Rightarrow> wchar list option \<Rightarrow> byte list option" where
  "MzWideToANSI conv heap ws = do {
     ts \<leftarrow> (case ws of None \<Rightarrow> Some [] | Some p \<Rightarrow> msz_walk p);
     let cch = sum_list (map (\<lambda>t. length (conv t)) ts) + 1;
     (b, s) \<leftarrow> store_ansi conv ts (take (cch + 1) (heap (cch + 1))) 0 cch;
     put b s 0 }"

section \<open>The abstraction\<close>

definition strings :: "'w::len word list list \<Rightarrow> bool" where
  "strings ss \<longleftrightarrow> (\<forall>s \<in> set ss. s \<noteq> [] \<and> 0 \<notin> set s)"

definition msz_body :: "'w::len word list list \<Rightarrow> 'w word list" where
  "msz_body ss = concat (map (\<lambda>s. s @ [0]) ss)"

definition msz :: "'w::len word list list \<Rightarrow> 'w word list" where
  "msz ss = msz_body ss @ [0]"

lemma strings_Cons [simp]: "strings (s # ss) \<longleftrightarrow> s \<noteq> [] \<and> 0 \<notin> set s \<and> strings ss"
  by (auto simp: strings_def)

lemma strings_append [simp]: "strings (ss @ ts) \<longleftrightarrow> strings ss \<and> strings ts"
  by (auto simp: strings_def)

lemma msz_body_simps [simp]:
  "msz_body [] = []" "msz_body (s # ss) = s @ 0 # msz_body ss"
  "msz_body (ss @ ts) = msz_body ss @ msz_body ts"
  by (simp_all add: msz_body_def)

lemma strings_Nil [simp]: "strings []"
  by (simp add: strings_def)

lemma msz_inner_string:
  "0 \<notin> set s \<Longrightarrow>
     msz_inner (s @ 0 # b) = map_option (\<lambda>(l, n). (Suc (length s) + l, n)) (msz_outer b)"
proof (induction s)
  case Nil
  then show ?case by (simp add: msz_inner.simps)
next
  case (Cons c s)
  then show ?case
    by (cases "msz_outer b") (auto simp: msz_inner.simps [of "c # s @ 0 # b"])
qed

lemma msz_outer_msz:
  "strings ss \<Longrightarrow> msz_outer (msz_body ss @ 0 # r) = Some (length (msz_body ss), length ss)"
proof (induction ss)
  case Nil
  then show ?case by (simp add: msz_outer.simps)
next
  case (Cons s ss)
  obtain c s' where s: "s = c # s'" "c \<noteq> 0" using Cons.prems by (cases s) auto
  have "msz_outer (msz_body (s # ss) @ 0 # r) =
      map_option (\<lambda>(l, n). (l, Suc n)) (msz_inner (s @ 0 # msz_body ss @ 0 # r))"
    using s by (simp add: msz_outer.simps [of "c # _"])
  with Cons msz_inner_string [of s "msz_body ss @ 0 # r"] show ?case by simp
qed

lemma msz_length:
  "strings ss \<Longrightarrow>
     apxGetMultiSzLengthA (Some (msz ss @ r)) = Some (length (msz_body ss), length ss)"
  by (simp add: apxGetMultiSzLengthA_def msz_def msz_outer_msz)

section \<open>Arrays\<close>

fun starts :: "nat \<Rightarrow> 'w::len word list list \<Rightarrow> nat list" where
  "starts p [] = []"
| "starts p (s # ss) = p # starts (p + length s + 1) ss"

lemma length_starts [simp]: "length (starts p ss) = length ss"
  by (induction ss arbitrary: p) auto

lemma fill_slots_starts:
  assumes "strings ss" "b = pre @ msz_body ss @ 0 # r" "length arr = i + length ss + k"
  shows "fill_slots (length ss) i b (length pre) arr =
    Some (take i arr @ map Ptr (starts (length pre) ss) @ drop (i + length ss) arr)"
  using assms
proof (induction ss arbitrary: i pre arr)
  case (Cons s ss)
  have next_pos: "next_string b (length pre) = Some (length (pre @ s @ [0]))"
    using Cons.prems by (simp add: next_string_def wlen_text)
  have "fill_slots (length ss) (Suc i) b (length (pre @ s @ [0])) (arr[i := Ptr (length pre)]) =
      Some (take (Suc i) (arr[i := Ptr (length pre)]) @
        map Ptr (starts (length (pre @ s @ [0])) ss) @
        drop (Suc i + length ss) (arr[i := Ptr (length pre)]))"
    using Cons.prems by (intro Cons.IH) auto
  moreover have "take (Suc i) (arr[i := Ptr (length pre)]) = take i arr @ [Ptr (length pre)]"
    using Cons.prems(3) by (simp add: take_Suc_conv_app_nth)
  ultimately show ?case
    using Cons.prems(3) next_pos by (simp add: put_def)
qed simp

lemma starts_read:
  assumes "strings ss" "i < length ss"
  shows "text_of (drop (starts (length pre) ss ! i) (pre @ msz_body ss @ r)) = ss ! i"
  using assms
proof (induction ss arbitrary: i pre)
  case (Cons s ss)
  show ?case
  proof (cases i)
    case 0
    with Cons.prems show ?thesis by (simp add: text_of_terminated)
  next
    case (Suc j)
    with Cons.IH [of j "pre @ s @ [0]"] Cons.prems show ?thesis by simp
  qed
qed simp

section \<open>Loops\<close>

lemma append_args_msz:
  assumes "strings as" "length (msz_body as) \<le> length b"
  shows "append_args (map (\<lambda>a. a @ [0]) as) (pre @ b) (length pre) =
    Some (pre @ msz_body as @ drop (length (msz_body as)) b, length pre + length (msz_body as))"
  using assms
proof (induction as arbitrary: pre b)
  case (Cons a as)
  have a: "wlen (a @ [0]) = Some (length a)" "text_of (a @ [0]) = a"
    using Cons.prems wlen_text [of a "[]"] text_of_terminated [of a "[]"] by auto
  have b: "Suc (length a) \<le> length b" using Cons.prems by simp
  have copy: "lstrcpy_at (pre @ b) (length pre) (a @ [0]) = Some (pre @ a @ 0 # drop (Suc (length a)) b)"
    using b a by (simp add: lstrcpy_at_def put_block_def)
  have zero: "put (pre @ a @ 0 # drop (Suc (length a)) b) (length pre + length a) 0 =
      Some (pre @ a @ 0 # drop (Suc (length a)) b)"
    using put_append [of "pre @ a" "length pre + length a"] by simp
  have "append_args (map (\<lambda>a. a @ [0]) as) ((pre @ a @ [0]) @ drop (Suc (length a)) b)
      (length (pre @ a @ [0])) =
      Some ((pre @ a @ [0]) @ msz_body as @ drop (length (msz_body as)) (drop (Suc (length a)) b),
        length (pre @ a @ [0]) + length (msz_body as))"
    using Cons.prems by (intro Cons.IH) auto
  with copy zero a show ?case by (simp add: add.commute add.left_commute)
qed simp

lemma args_length_msz:
  "strings as \<Longrightarrow> args_length (map (\<lambda>a. a @ [0]) as) = Some (length (msz_body as) - length as)
    \<and> length as \<le> length (msz_body as)"
  by (induction as) (auto simp: wlen_text)

text \<open>The text with line ends, and reading it back.\<close>

definition crlf_lines :: "wchar list list \<Rightarrow> wchar list" where
  "crlf_lines ss = concat (map (\<lambda>s. s @ [13, 10]) ss)"

lemma crlf_lines_simps [simp]:
  "crlf_lines [] = []" "crlf_lines (s # ss) = s @ 13 # 10 # crlf_lines ss"
  by (simp_all add: crlf_lines_def)

lemma length_crlf_lines: "length (crlf_lines ss) = length (msz_body ss) + length ss"
  by (induction ss) auto

lemma crlf_loop_string:
  assumes "0 \<notin> set s" "length s \<le> length b"
  shows "crlf_loop (s @ q) (Suc c) (pre @ b) (length pre) =
    crlf_loop q (Suc c) (pre @ s @ drop (length s) b) (length pre + length s)"
  using assms
proof (induction s arbitrary: pre b)
  case (Cons x s)
  then obtain y b' where b: "b = y # b'" by (cases b) auto
  with Cons.IH [of b' "pre @ [x]"] Cons.prems show ?case by (auto simp: put_append)
qed simp

lemma crlf_loop_lines:
  assumes "strings ss" "length (crlf_lines ss) \<le> length b"
  shows "crlf_loop (msz_body ss @ r) (length ss) (pre @ b) (length pre) =
    Some (pre @ crlf_lines ss @ drop (length (crlf_lines ss)) b)"
  using assms
proof (induction ss arbitrary: pre b)
  case (Cons s ss)
  define b' where "b' = drop (length s) b"
  then have "2 \<le> length b'" using Cons.prems by simp
  then obtain y z b2 where b': "b' = y # z # b2" by (cases b'; cases "tl b'") auto
  have "crlf_loop (msz_body (s # ss) @ r) (length (s # ss)) (pre @ b) (length pre) =
      crlf_loop (0 # msz_body ss @ r) (Suc (length ss)) (pre @ s @ b') (length pre + length s)"
    using crlf_loop_string [of s b "0 # msz_body ss @ r" "length ss" pre] Cons.prems
    by (simp add: b'_def)
  also have "\<dots> = crlf_loop (msz_body ss @ r) (length ss) ((pre @ s @ [13, 10]) @ b2)
      (length (pre @ s @ [13, 10]))"
    using b' put_append [of "pre @ s" "length pre + length s" y "z # b2" 13]
      put_append [of "pre @ s @ [13]" "length pre + length s + 1" z b2 10] by simp
  also have "\<dots> = Some ((pre @ s @ [13, 10]) @ crlf_lines ss @ drop (length (crlf_lines ss)) b2)"
    using Cons.prems b' arg_cong [OF b'_def, of length] by (intro Cons.IH) auto
  also have "drop (length (crlf_lines ss)) b2 = drop (length (crlf_lines (s # ss))) b"
  proof -
    have "b2 = drop 2 b'" using b' by simp
    then show ?thesis by (simp add: b'_def add.commute)
  qed
  finally show ?case by simp
qed simp

lemma msz_loop_string:
  assumes "13 \<notin> set s" "10 \<notin> set s" "length s \<le> length b"
  shows "msz_loop (s @ q) (pre @ b) (length pre) =
    msz_loop q (pre @ s @ drop (length s) b) (length pre + length s)"
  using assms
proof (induction s arbitrary: pre b)
  case (Cons x s)
  then obtain y b' where b: "b = y # b'" by (cases b) auto
  with Cons.IH [of b' "pre @ [x]"] Cons.prems show ?case by (auto simp: put_append)
qed simp

lemma msz_loop_lines:
  assumes "\<forall>s \<in> set ss. 13 \<notin> set s \<and> 10 \<notin> set s" "length (msz_body ss) \<le> length b"
  shows "msz_loop (crlf_lines ss) (pre @ b) (length pre) =
    Some (pre @ msz_body ss @ drop (length (msz_body ss)) b, length pre + length (msz_body ss))"
  using assms
proof (induction ss arbitrary: pre b)
  case (Cons s ss)
  define b' where "b' = drop (length s) b"
  then have "1 \<le> length b'" using Cons.prems by simp
  then obtain y b2 where b': "b' = y # b2" by (cases b') auto
  have "msz_loop (crlf_lines (s # ss)) (pre @ b) (length pre) =
      msz_loop (crlf_lines ss) ((pre @ s @ [0]) @ b2) (length (pre @ s @ [0]))"
    using msz_loop_string [of s b "13 # 10 # crlf_lines ss" pre] Cons.prems b'
      put_append [of "pre @ s" "length pre + length s" y b2 0] by (simp add: b'_def)
  also have "\<dots> = Some ((pre @ s @ [0]) @ msz_body ss @ drop (length (msz_body ss)) b2,
      length (pre @ s @ [0]) + length (msz_body ss))"
    using Cons.prems b' arg_cong [OF b'_def, of length] by (intro Cons.IH) auto
  also have "drop (length (msz_body ss)) b2 = drop (length (msz_body (s # ss))) b"
  proof -
    have "b2 = drop 1 b'" using b' by simp
    then show ?thesis by (simp add: b'_def add.commute)
  qed
  finally show ?case by simp
qed simp

section \<open>Properties\<close>

text \<open>Combining appends the two lists; the length is the number of bytes with the last terminator.\<close>

theorem combine_appends:
  assumes "strings ss" "strings ts"
  shows "apxMultiSzCombine (Some (msz ss @ r)) (Some (msz ts @ q)) =
    Some (Some (msz (ss @ ts)), length (msz (ss @ ts)) * 2)"
proof -
  let ?a = "length (msz_body ss)" and ?b = "length (msz_body ts)"
  have la: "apxGetMultiSzLengthA (Some (msz ss @ r)) = Some (?a, length ss)"
    "apxGetMultiSzLengthA (Some (msz ts @ q)) = Some (?b, length ts)"
    using assms by (simp_all add: msz_length)
  have ga: "get_block (msz ss @ r) 0 ?a = Some (msz_body ss)"
    "get_block (msz ts @ q) 0 ?b = Some (msz_body ts)"
    by (simp_all add: get_block_def msz_def)
  have pa: "put_block (replicate (?a + ?b + 1) 0) 0 (msz_body ss) = Some (msz_body ss @ replicate (?b + 1) 0)"
    "put_block (msz_body ss @ replicate (?b + 1) 0) ?a (msz_body ts) = Some (msz_body ss @ msz_body ts @ [0])"
    by (simp_all add: put_block_def del: replicate_Suc) simp
  have za: "?a = 0 \<Longrightarrow> msz_body ss = []" "?b = 0 \<Longrightarrow> msz_body ts = []" by simp_all
  show ?thesis
    using la ga pa za by (auto simp: apxMultiSzCombine_def apxGetMultiSzLengthW_def msz_def Let_def)
qed

text \<open>A multi-string turned into an array gives back its strings: the \<open>i\<close>-th of the \<open>n\<close>
  pointers points to the \<open>i\<close>-th string of the copy. The slot that should hold the null pointer
  behind them is never written: the code stores it one slot further.\<close>

theorem to_array_strings:
  assumes "strings ss" "ss \<noteq> []"
  shows "\<exists>arr copy. apxMultiSzToArrayA (Some (msz ss @ r)) = Some (length ss, arr, copy) \<and>
    (\<forall>i < length ss. \<exists>p. arr ! i = Ptr p \<and> text_of (drop p copy) = ss ! i) \<and>
    arr ! length ss = Uninit \<and> arr ! (length ss + 1) = Null \<and> length arr = length ss + 2"
proof -
  let ?n = "length ss"
  let ?arr = "map Ptr (starts 0 ss) @ [Uninit, Null]"
  have nz: "?n \<noteq> 0" "length (msz_body ss) \<noteq> 0" using assms by (cases ss; auto)+
  have "get_block (msz ss @ r) 0 (length (msz_body ss) + 1) = Some (msz ss)"
    by (simp add: get_block_def msz_def)
  moreover have "fill_slots ?n 0 (msz ss) 0 (replicate (?n + 2) Uninit) =
      Some (map Ptr (starts 0 ss) @ [Uninit, Uninit])"
    using fill_slots_starts [of ss "msz ss" "[]" "[]" "replicate (?n + 2) Uninit" 0 2] assms(1)
    by (simp add: msz_def del: replicate_Suc) (simp add: numeral_2_eq_2)
  moreover have "put (map Ptr (starts 0 ss) @ [Uninit, Uninit]) (?n + 1) Null = Some ?arr"
    using put_append [of "map Ptr (starts 0 ss) @ [Uninit]" "?n + 1" Uninit "[]"] by simp
  ultimately have "apxMultiSzToArrayA (Some (msz ss @ r)) = Some (?n, ?arr, msz ss)"
    using nz msz_length [OF assms(1), of r] by (simp add: apxMultiSzToArrayA_def)
  moreover have "\<forall>i < ?n. text_of (drop (starts 0 ss ! i) (msz ss)) = ss ! i"
    using starts_read [OF assms(1), of _ "[]" "[0]"] by (simp add: msz_def)
  ultimately show ?thesis by (auto simp: nth_append)
qed

theorem to_array_strings_witness:
  "\<exists>arr copy. apxMultiSzToArrayA (Some (msz [[97, 98], [99 :: wchar]] @ [])) =
      Some (length [[97, 98], [99 :: wchar]], arr, copy) \<and>
    (\<forall>i < length [[97, 98], [99 :: wchar]]. \<exists>p. arr ! i = Ptr p \<and>
       text_of (drop p copy) = [[97, 98], [99]] ! i) \<and>
    arr ! length [[97, 98], [99 :: wchar]] = Uninit \<and>
    arr ! (length [[97, 98], [99 :: wchar]] + 1) = Null \<and>
    length arr = length [[97, 98], [99 :: wchar]] + 2"
  by (rule to_array_strings) simp_all

text \<open>An array of arguments becomes their multi-string with one terminator to spare.\<close>

theorem from_array_msz:
  assumes "strings as" "as \<noteq> []" "\<And>n. length (heap n) = n"
  shows "apxArrayToMultiSzA heap (map (\<lambda>a. a @ [0]) as) = Some (Some (msz as @ [0]))"
proof -
  let ?m = "length (msz_body as)"
  define b where "b = heap (?m + 2)"
  have len: "length b = ?m + 2" and args: "args_length (map (\<lambda>a. a @ [0]) as) = Some (?m - length as)"
    and sum: "?m - length as + (length as + 2) = ?m + 2"
    using args_length_msz [OF assms(1)] assms(3) by (auto simp: b_def)
  obtain y z where tail: "drop ?m b = [y, z]"
    using len by (cases "drop ?m b"; cases "tl (drop ?m b)") (auto dest: arg_cong [where f = length])
  have "append_args (map (\<lambda>a. a @ [0]) as) b 0 = Some (msz_body as @ [y, z], ?m)"
    using append_args_msz [of as b "[]"] assms(1) len tail by simp
  moreover have "put (msz_body as @ [y, z]) ?m 0 = Some (msz_body as @ [0, z])"
    by (simp add: put_append)
  moreover have "put (msz_body as @ [0, z]) (?m + 1) 0 = Some (msz as @ [0])"
    using put_append [of "msz_body as @ [0]" "?m + 1" z "[]" 0] by (simp add: msz_def)
  ultimately show ?thesis
    using assms(2) args len
    by (simp add: apxArrayToMultiSzA_def Let_def sum b_def [symmetric] del: add_2_eq_Suc')
qed

text \<open>C37. The monitor shows a multi-string as lines and reads the lines back: for strings
  without line ends the two conversions are inverse to each other, the returned size covers
  the text and its two terminators, and no write leaves the allocated blocks.\<close>

theorem crlf_roundtrip:
  assumes "strings ss" "\<forall>s \<in> set ss. 13 \<notin> set s \<and> 10 \<notin> set s"
  shows "\<exists>lines. apxMszToCRLFW (msz ss @ r) = Some lines \<and> text_of lines = crlf_lines ss \<and>
    apxCRLFToMszW lines =
      Some (msz ss @ replicate (length ss + 1) 0, (length (msz_body ss) + 2) * 2)"
proof -
  let ?n = "length (crlf_lines ss)" and ?m = "length (msz_body ss)"
  let ?lines = "crlf_lines ss @ [0, 0]"
  have no_zero: "0 \<notin> set (crlf_lines ss)"
    using assms(1) by (induction ss) auto
  have "crlf_loop (msz ss @ r) (length ss) (replicate (?m + length ss + 2) 0) 0 = Some ?lines"
    using crlf_loop_lines [of ss "replicate (?n + 2) 0" "0 # r" "[]"] assms(1)
    by (simp add: msz_def length_crlf_lines del: replicate_Suc) (simp add: numeral_2_eq_2)
  then have "apxMszToCRLFW (msz ss @ r) = Some ?lines"
    using msz_length [OF assms(1), of r] by (simp add: apxMszToCRLFW_def apxGetMultiSzLengthW_def)
  moreover have "apxCRLFToMszW ?lines = Some (msz ss @ replicate (length ss + 1) 0, (?m + 2) * 2)"
  proof -
    have "wlen ?lines = Some ?n" using no_zero wlen_text [of "crlf_lines ss" "[0]"] by simp
    moreover have "msz_loop (crlf_lines ss) (replicate (?n + 2) 0) 0 =
        Some (msz_body ss @ replicate (length ss + 2) 0, ?m)"
      using msz_loop_lines [of ss "replicate (?n + 2) 0" "[]"] assms(2)
      by (simp add: length_crlf_lines del: replicate_Suc)
    ultimately show ?thesis by (simp add: apxCRLFToMszW_def msz_def)
  qed
  ultimately show ?thesis using no_zero by (auto simp: text_of_terminated)
qed

theorem crlf_roundtrip_witness:
  "\<exists>lines. apxMszToCRLFW (msz [[97], [98, 99]] @ []) = Some lines \<and>
    text_of lines = crlf_lines [[97], [98, 99]] \<and>
    apxCRLFToMszW lines =
      Some (msz [[97], [98, 99]] @ replicate (length [[97], [98, 99 :: wchar]] + 1) 0,
        (length (msz_body [[97], [98, 99 :: wchar]]) + 2) * 2)"
  by (rule crlf_roundtrip) simp_all

text \<open>An empty multi-string, a lone terminator, is read past its end when it is narrowed.\<close>

theorem narrow_empty_overruns: "MzWideToAscii (Some [0]) b = None"
  by (cases b) (simp_all add: MzWideToAscii_def get_def)

text \<open>The conversion to the code page stores every converted string and one more terminator.\<close>

lemma msz_walk_msz: "strings ss \<Longrightarrow> msz_walk (msz_body ss @ 0 # r) = Some ss"
proof (induction ss)
  case Nil
  then show ?case by (simp add: msz_walk.simps)
next
  case (Cons s ss)
  obtain c s' where s: "s = c # s'" "c \<noteq> 0" using Cons.prems by (cases s) auto
  have "wlen (s @ 0 # msz_body ss @ 0 # r) = Some (length s)"
    using Cons.prems by (simp add: wlen_text)
  with s Cons show ?case by (simp add: msz_walk.simps [of "c # _"])
qed

lemma store_ansi_concat:
  assumes "sum_list (map (\<lambda>t. length (conv t)) ts) \<le> cch" "cch \<le> length b"
  shows "store_ansi conv ts (pre @ b) (length pre) cch =
    Some (pre @ concat (map conv ts) @ drop (length (concat (map conv ts))) b,
      length pre + length (concat (map conv ts)))"
  using assms
proof (induction ts arbitrary: pre b cch)
  case (Cons t ts)
  let ?l = "length (conv t)"
  show ?case
  proof (cases "conv t = []")
    case True
    with Cons show ?thesis by simp
  next
    case False
    have "put_block (pre @ b) (length pre) (conv t) = Some ((pre @ conv t) @ drop ?l b)"
      using Cons.prems by (simp add: put_block_def)
    moreover have "store_ansi conv ts ((pre @ conv t) @ drop ?l b) (length (pre @ conv t)) (cch - ?l) =
        Some ((pre @ conv t) @ concat (map conv ts) @
          drop (length (concat (map conv ts))) (drop ?l b),
          length (pre @ conv t) + length (concat (map conv ts)))"
      using Cons.prems by (intro Cons.IH) auto
    moreover have "store_ansi conv (t # ts) (pre @ b) (length pre) cch =
        store_ansi conv ts ((pre @ conv t) @ drop ?l b) (length (pre @ conv t)) (cch - ?l)"
      using False Cons.prems(1) calculation(1) by (simp add: Let_def)
    ultimately show ?thesis by (simp add: add.commute)
  qed
qed simp

theorem to_ansi_concat:
  assumes "strings ss" "\<And>n. length (heap n) = n"
  shows "\<exists>rest. MzWideToANSI conv heap (Some (msz ss @ r)) = Some (concat (map conv ss) @ 0 # rest)"
proof -
  let ?cch = "sum_list (map (\<lambda>t. length (conv t)) ss) + 1"
  have len: "length (concat (map conv ss)) = ?cch - 1"
    by (simp add: length_concat comp_def)
  have "store_ansi conv ss (heap (?cch + 1)) 0 ?cch =
      Some (concat (map conv ss) @ drop (?cch - 1) (heap (?cch + 1)), ?cch - 1)"
    using store_ansi_concat [of conv ss ?cch "heap (?cch + 1)" "[]"] assms(2) len by simp
  moreover obtain y rest where "drop (?cch - 1) (heap (?cch + 1)) = y # rest"
    using assms(2) [of "?cch + 1"] by (cases "drop (?cch - 1) (heap (?cch + 1))") auto
  moreover have "msz_walk (msz ss @ r) = Some ss"
    using msz_walk_msz [OF assms(1)] by (simp add: msz_def)
  ultimately have stored: "msz_walk (msz ss @ r) = Some ss"
    "store_ansi conv ss (take (?cch + 1) (heap (?cch + 1))) 0 ?cch =
      Some (concat (map conv ss) @ y # rest, ?cch - 1)"
    using assms(2) by simp_all
  have "put (concat (map conv ss) @ y # rest) (?cch - 1) 0 = Some (concat (map conv ss) @ 0 # rest)"
    using len by (intro put_append) simp
  with stored show ?thesis by (simp only: MzWideToANSI_def Let_def option.case Option.bind.simps
        prod.case option.inject) blast
qed

end
