(* ===== verification/Win_Env.thy ===== *)
theory Win_Env
  imports Win_Prelude
begin

text \<open>
  The routines of \<^verbatim>\<open>windows/src/utils.c\<close> that read and extend environment variables. The
  environment is a map from names to values; \<open>GetEnvironmentVariable\<close> is a parameter that is
  only known to do what its documentation says. Texts are lists without terminator.
\<close>

type_synonym wtext = "wchar list"
type_synonym environment = "wtext \<rightharpoonup> wtext"

definition wide :: "string \<Rightarrow> wtext" where
  "wide s = map of_char s"

text \<open>
  A call with the old contents of the buffer and the size; the result is the returned number
  and the buffer.
\<close>

type_synonym get_env = "environment \<Rightarrow> wtext \<Rightarrow> wtext \<Rightarrow> nat \<Rightarrow> nat \<times> wtext"

text \<open>
  A variable that does not exist gives zero. A value that fits, with its terminator, into
  the size is stored, and its length returned; nothing is said about what is overwritten when
  the block is smaller than the size. Otherwise the needed size is returned and the buffer holds
  anything.
\<close>

definition documented_get :: "get_env \<Rightarrow> bool" where
  "documented_get gev \<longleftrightarrow>
     (\<forall>env name buf n.
        (env name = None \<longrightarrow> gev env name buf n = (0, buf)) \<and>
        (\<forall>v. env name = Some v \<longrightarrow>
           (length v < n \<longrightarrow> fst (gev env name buf n) = length v) \<and>
           (length v < n \<longrightarrow> length v < length buf \<longrightarrow>
              gev env name buf n = (length v, v @ 0 # drop (Suc (length v)) buf)) \<and>
           (n \<le> length v \<longrightarrow>
              fst (gev env name buf n) = Suc (length v) \<and>
              length (snd (gev env name buf n)) = length buf)))"

lemma documented_value:
  "documented_get gev \<Longrightarrow> env name = Some v \<Longrightarrow> length v < n \<Longrightarrow> length v < length buf \<Longrightarrow>
     gev env name buf n = (length v, v @ 0 # drop (Suc (length v)) buf)"
  by (simp add: documented_get_def)

lemma documented_size:
  "documented_get gev \<Longrightarrow> env name = Some v \<Longrightarrow> n \<le> length v \<Longrightarrow>
     fst (gev env name buf n) = Suc (length v)"
  by (simp add: documented_get_def)

lemma documented_none:
  "documented_get gev \<Longrightarrow> env name = None \<Longrightarrow> gev env name buf n = (0, buf)"
  by (simp add: documented_get_def)

lemma documented_length:
  "documented_get gev \<Longrightarrow> env name = Some v \<Longrightarrow> length v < n \<Longrightarrow> fst (gev env name buf n) = length v"
  by (simp add: documented_get_def)

text \<open>One implementation that does what the documentation says, for the examples.\<close>

definition quiet_get :: get_env where
  "quiet_get env name buf n =
     (case env name of
        None \<Rightarrow> (0, buf)
      | Some v \<Rightarrow>
          if length v < n
          then (length v, if length v < length buf then v @ 0 # drop (Suc (length v)) buf else buf)
          else (Suc (length v), buf))"

lemma documented_quiet: "documented_get quiet_get"
  by (auto simp: documented_get_def quiet_get_def)

section \<open>The code\<close>

text \<open>
  \<open>__apxGetEnvironmentVariable\<close> (A and W). \<open>heap\<close> is the contents of the allocated block;
  \<open>Some None\<close> stands for a null pointer.
\<close>

definition apxGetEnvironmentVariableW ::
  "get_env \<Rightarrow> (nat \<Rightarrow> wtext) \<Rightarrow> environment \<Rightarrow> wtext \<Rightarrow> wtext option option" where
  "apxGetEnvironmentVariableW gev heap env wsName =
     (let rc = fst (gev env wsName [] 0)
      in if rc = 0 \<and> env wsName = None then Some None
         else let (n, wsRet) = gev env wsName (take (rc + 1) (heap (rc + 1))) rc
              in if n = 0 then Some None else Some (Some wsRet))"

text \<open>
  \<open>apxAddToPathW\<close>: \<open>PATH=\<close>, the addition, a semicolon, then the old value. The size passed with
  the second call is the difference \<open>rc - al\<close> of two \<open>DWORD\<close>s.
\<close>

definition apxAddToPathW ::
  "get_env \<Rightarrow> (nat \<Rightarrow> wtext) \<Rightarrow> environment \<Rightarrow> wtext \<Rightarrow> (environment \<times> bool) option" where
  "apxAddToPathW gev heap env szAdd =
     (let path = wide ''PATH''; rc = fst (gev env path [] 0)
      in if rc = 0 \<and> env path = None then Some (env, False)
         else do {
           let al = length szAdd + 6;
           let wsAdd = take (al + rc + 1) (heap (al + rc + 1));
           wsAdd \<leftarrow> put_block wsAdd 0 (wide ''PATH='' @ [0]);
           wsAdd \<leftarrow> put_block wsAdd 5 (szAdd @ [0]);
           wsAdd \<leftarrow> put_block wsAdd (5 + length szAdd) (wide '';'' @ [0]);
           let (n, tail) = gev env path (drop al wsAdd) (unat (word_of_nat rc - word_of_nat al :: dword));
           let wsAdd = take al wsAdd @ tail;
           (if n = 0 then Some (env, False)
            else Some (env(path \<mapsto> text_of (drop 5 wsAdd)), True)) })"

text \<open>
  \<open>apxSetEnvironmentVariable\<close>. The sizes of the allocation are numbers of bytes; \<open>tsize\<close> is
  the size of a \<open>TCHAR\<close>, one in the ANSI build and two in the Unicode build.
\<close>

definition apxSetEnvironmentVariable ::
  "get_env \<Rightarrow> nat \<Rightarrow> (nat \<Rightarrow> wtext) \<Rightarrow> environment \<Rightarrow> wtext \<Rightarrow> wtext \<Rightarrow> bool \<Rightarrow> environment option" where
  "apxSetEnvironmentVariable gev tsize heap env szName szValue bAppend =
     (let l = (if bAppend then fst (gev env szName [] 0) else 0)
      in if l > 0
         then do {
           let chars = (l + length szValue + 3) div tsize;
           let (n, szNew) = gev env szName (take chars (heap chars)) (l + 1);
           szNew \<leftarrow> (if n < l + 1 \<and> chars \<le> n then None else Some szNew);
           k \<leftarrow> wlen szNew;
           szNew \<leftarrow> put_block szNew k (wide '';'' @ [0]);
           szNew \<leftarrow> put_block szNew (k + 1) (szValue @ [0]);
           Some (env(szName \<mapsto> text_of szNew)) }
         else Some (env(szName \<mapsto> szValue)))"

section \<open>Properties\<close>

text \<open>A variable with a non-empty value is read completely; an empty one is reported like a missing one.\<close>

theorem get_variable:
  assumes "documented_get gev" "env name = Some v" "0 \<notin> set v" "\<And>n. length (heap n) = n"
  shows "\<exists>r. apxGetEnvironmentVariableW gev heap env name = Some r \<and>
    (if v = [] then r = None else \<exists>b. r = Some b \<and> text_of b = v)"
proof -
  have rc: "fst (gev env name [] 0) = Suc (length v)"
    using documented_size [of gev env name v 0 "[]"] assms(1,2) by simp
  have "gev env name (heap (length v + 2)) (Suc (length v)) =
      (length v, v @ 0 # drop (Suc (length v)) (heap (length v + 2)))"
    using documented_value [of gev env name v "Suc (length v)" "heap (length v + 2)"] assms by simp
  then show ?thesis
    using rc assms(3,4) by (simp add: apxGetEnvironmentVariableW_def text_of_terminated)
qed

lemma wide_lengths: "length (wide s) = length s"
  by (simp add: wide_def)

text \<open>
  \<open>apxAddToPathW\<close> keeps the old path only if it is shorter than the addition: then the
  difference of the sizes wraps around to a huge one. Otherwise the size that is passed is too
  small for the old value, and with an implementation that does not touch such a buffer the
  new path is the addition alone.
\<close>

lemma path_pieces: "length (wide ''PATH='') = 5" "length (wide '';'') = 1"
  by (simp_all add: wide_def)

lemma built_path:
  assumes "length b = length szAdd + 6 + rc + 1"
  shows "put_block b 0 (wide ''PATH='' @ [0]) = Some (wide ''PATH='' @ 0 # drop 6 b)"
    and "put_block (wide ''PATH='' @ 0 # drop 6 b) 5 (szAdd @ [0]) =
      Some (wide ''PATH='' @ szAdd @ 0 # drop (length szAdd + 6) b)"
    and "put_block (wide ''PATH='' @ szAdd @ 0 # drop (length szAdd + 6) b) (5 + length szAdd)
        (wide '';'' @ [0]) =
      Some (wide ''PATH='' @ szAdd @ wide '';'' @ 0 # drop (length szAdd + 7) b)"
  using put_block_at [of "[]" 0 "wide ''PATH='' @ [0]" b]
    put_block_at [of "wide ''PATH=''" 5 "szAdd @ [0]" "0 # drop 6 b"]
    put_block_at [of "wide ''PATH='' @ szAdd" "5 + length szAdd" "wide '';'' @ [0]"
      "0 # drop (length szAdd + 6) b"] assms
  by (simp_all add: path_pieces add.commute)

text \<open>
  \<open>apxAddToPathW\<close> keeps the old path only if it is shorter than the addition and five characters:
  then the difference of the two sizes wraps around to a huge one. Otherwise the size it passes
  is too small for the old value, and what stands behind the addition is whatever the system has
  left in the buffer.
\<close>

theorem add_to_path:
  assumes "documented_get gev" "env (wide ''PATH'') = Some v" "0 \<notin> set v" "0 \<notin> set szAdd" "v \<noteq> []"
    and "\<And>n. length (heap n) = n" "length v < 2 ^ 31" "length szAdd < 2 ^ 31 - 6"
  shows "\<exists>tail. apxAddToPathW gev heap env szAdd =
    Some (env(wide ''PATH'' \<mapsto> szAdd @ wide '';'' @ text_of tail), True)
    \<and> (length v < length szAdd + 5 \<longrightarrow> text_of tail = v)"
proof -
  let ?al = "length szAdd + 6" and ?rc = "Suc (length v)"
  let ?b = "heap (?al + ?rc + 1)"
  let ?size = "unat (word_of_nat ?rc - word_of_nat ?al :: dword)"
  let ?w = "wide ''PATH='' @ szAdd @ wide '';'' @ 0 # drop (length szAdd + 7) ?b"
  let ?call = "gev env (wide ''PATH'') (drop ?al ?w) ?size"
  have rc: "fst (gev env (wide ''PATH'') [] 0) = ?rc"
    using documented_size [where env = env and name = "wide ''PATH''", OF assms(1,2)] by simp
  have size: "?size = (if ?rc < ?al then 2 ^ 32 - (?al - ?rc) else ?rc - ?al)"
    using assms(7,8)
    by (auto simp: unat_sub_if' unat_of_nat take_bit_nat_eq_self word_le_nat_alt)
  have tail: "drop ?al ?w = 0 # drop (length szAdd + 7) ?b" "take ?al ?w = wide ''PATH='' @ szAdd @ wide '';''"
    by (simp_all add: path_pieces)
  have len: "length (drop ?al ?w) = ?rc + 1" using assms(6) by (simp add: tail path_pieces)
  have fits: "length v < ?size \<longleftrightarrow> ?rc < ?al"
  proof (cases "?rc < ?al")
    case True
    with assms(7,8) show ?thesis unfolding size by simp
  next
    case False
    then have "\<not> length v < ?rc - ?al" by linarith
    with False show ?thesis unfolding size by simp
  qed
  have n: "fst ?call \<noteq> 0"
    using documented_length [where env = env and name = "wide ''PATH''" and n = ?size, OF assms(1,2)] documented_size [where env = env and name = "wide ''PATH''" and n = ?size, OF assms(1,2)] assms(5)
    by (cases "length v < ?size") auto
  have kept: "text_of (snd ?call) = v" if "length v < length szAdd + 5"
  proof -
    have "?call = (length v, v @ 0 # drop ?rc (drop ?al ?w))"
      using that fits len by (intro documented_value [where env = env and name = "wide ''PATH''", OF assms(1,2)]) simp_all
    then show ?thesis using text_of_terminated [OF assms(3)] by simp
  qed
  have "0 \<notin> set (szAdd @ wide '';'')" using assms(4) by (simp add: wide_def)
  then have new: "text_of (drop 5 (take ?al ?w @ snd ?call)) = szAdd @ wide '';'' @ text_of (snd ?call)"
    unfolding tail by (simp add: path_pieces text_of_def takeWhile_append)
  have b: "take (?al + ?rc + 1) ?b = ?b" "length ?b = length szAdd + 6 + ?rc + 1"
    using assms(6) by simp_all
  have "apxAddToPathW gev heap env szAdd =
      Some (env(wide ''PATH'' \<mapsto> szAdd @ wide '';'' @ text_of (snd ?call)), True)"
    using n new
    by (simp only: apxAddToPathW_def rc Let_def b(1) built_path [OF b(2)] Option.bind.simps
        split_beta if_False nat.distinct simp_thms fst_conv snd_conv)
  with kept show ?thesis by blast
qed

theorem add_to_path_witness:
  "\<exists>tail. apxAddToPathW quiet_get (\<lambda>n. replicate n 7) [wide ''PATH'' \<mapsto> wide ''c:''] (wide ''d:/x'') =
     Some ([wide ''PATH'' \<mapsto> wide ''c:'', wide ''PATH'' \<mapsto> wide ''d:/x'' @ wide '';'' @ text_of tail], True)
    \<and> (length (wide ''c:'') < length (wide ''d:/x'') + 5 \<longrightarrow> text_of tail = wide ''c:'')"
  by (rule add_to_path [OF documented_quiet]) (simp_all add: wide_def)

text \<open>
  \<open>apxSetEnvironmentVariable\<close> appends behind a semicolon in the ANSI build. In the Unicode build
  the block is half as large as needed; reading the old value overruns it when the value is
  longer than the addition by four characters or more.
\<close>

theorem append_variable:
  assumes gev: "documented_get gev" and "env name = Some v" "0 \<notin> set v" "0 \<notin> set szValue" "\<And>n. length (heap n) = n"
  shows "apxSetEnvironmentVariable gev 1 heap env name szValue True =
    Some (env(name \<mapsto> v @ wide '';'' @ szValue))"
proof -
  let ?c = "length v + length szValue + 4"
  let ?b = "heap ?c"
  have get: "gev env name (take ?c ?b) (Suc (Suc (length v))) =
      (length v, v @ 0 # drop (Suc (length v)) ?b)"
    using assms(5) documented_value [where env = env and name = name and n = "Suc (Suc (length v))", OF gev assms(2)] by simp
  have one: "put_block (v @ 0 # drop (Suc (length v)) ?b) (length v) (wide '';'' @ [0]) =
      Some (v @ wide '';'' @ 0 # drop (length v + 2) ?b)"
    using put_block_at [of v "length v" "wide '';'' @ [0]" "0 # drop (Suc (length v)) ?b"] assms(5)
    by (simp add: path_pieces)
  have two: "put_block (v @ wide '';'' @ 0 # drop (length v + 2) ?b) (length v + 1) (szValue @ [0]) =
      Some (v @ wide '';'' @ szValue @ 0 # drop (length szValue) (drop (length v + 2) ?b))"
    using put_block_at [of "v @ wide '';''" "length v + 1" "szValue @ [0]"
        "0 # drop (length v + 2) ?b"] assms(5)
    by (simp add: path_pieces)
  have "0 \<notin> set (v @ wide '';'' @ szValue)" using assms(3,4) by (simp add: wide_def)
  then have new: "text_of (v @ wide '';'' @ szValue @ 0 # drop (length szValue) (drop (length v + 2) ?b)) =
      v @ wide '';'' @ szValue"
    using text_of_terminated [of "v @ wide '';'' @ szValue"] by simp
  have rc: "fst (gev env name [] 0) = Suc (length v)"
    using documented_size [where env = env and name = name, OF gev assms(2)] by simp
  show ?thesis
    using get one two new rc wlen_text [OF assms(3)]
    by (simp add: apxSetEnvironmentVariable_def Let_def algebra_simps)
qed

theorem append_variable_unicode_overruns:
  assumes "documented_get gev" "env name = Some v" "length szValue + 4 \<le> length v"
    and "\<And>n. length (heap n) = n"
  shows "apxSetEnvironmentVariable gev 2 heap env name szValue True = None"
proof -
  let ?c = "(length v + length szValue + 4) div 2"
  have "?c \<le> length v" using assms(3) by linarith
  moreover have "fst (gev env name (take ?c (heap ?c)) (Suc (Suc (length v)))) = length v"
    using documented_length [where env = env and name = name, OF assms(1,2)] by simp
  moreover have "fst (gev env name [] 0) = Suc (length v)"
    using documented_size [where env = env and name = name, OF assms(1,2)] by simp
  ultimately show ?thesis
    by (cases "gev env name (take ?c (heap ?c)) (Suc (Suc (length v)))")
       (simp add: apxSetEnvironmentVariable_def Let_def algebra_simps)
qed

end
