(* ===== verification/Cmdline.thy ===== *)
theory Cmdline
  imports Jsvc_Prelude Mclib Win_Strings Multi_Sz Win_Env
begin

text \<open>
  The command line of procrun (\<^verbatim>\<open>windows/src/cmdline.c\<close>): the executable's name, the command
  (\<open>//CMD//Name\<close> or an alternative spelling), the options \<open>--name=value\<close>, \<open>--name value\<close> and
  \<open>++name value\<close>, and the same options taken from \<open>PR_\<close> variables. Multi-valued options are
  collected in multi-strings. Texts of the command line are lists without terminator; option
  values are the arrays the code allocates.
\<close>

section \<open>Options\<close>

definition APXCMDOPT_INT :: dword where "APXCMDOPT_INT = 0x1"
definition APXCMDOPT_STR :: dword where "APXCMDOPT_STR = 0x2"
definition APXCMDOPT_MSZ :: dword where "APXCMDOPT_MSZ = 0x10"
definition APXCMDOPT_FOUND :: dword where "APXCMDOPT_FOUND = 0x1000"
definition APXCMDOPT_ADD :: dword where "APXCMDOPT_ADD = 0x2000"

lemmas option_flags =
  APXCMDOPT_INT_def APXCMDOPT_STR_def APXCMDOPT_MSZ_def APXCMDOPT_FOUND_def APXCMDOPT_ADD_def

record cmdopt =
  szName :: wtext
  dwType :: dword
  szValue :: "wtext option"
  dwValue :: dword

definition has_flag :: "cmdopt \<Rightarrow> dword \<Rightarrow> bool" where
  "has_flag opt flag \<longleftrightarrow> dwType opt AND flag \<noteq> 0"

text \<open>
  The loop over the characters of a multi-valued argument: single quotes are dropped, double
  quotes kept, \<open>#\<close> and \<open>;\<close> outside of quotes end a string.
\<close>

fun store_value :: "bool \<Rightarrow> bool \<Rightarrow> wtext \<Rightarrow> wtext \<Rightarrow> nat \<Rightarrow> wtext option" where
  "store_value insquote indquote [] b sp = Some b"
| "store_value insquote indquote (c # v) b sp =
     (if c = ch CHR 0x27 then store_value (\<not> insquote) indquote v b sp
      else if c = ch CHR 0x22
        then do { b \<leftarrow> put b sp (ch CHR 0x22); store_value insquote (\<not> indquote) v b (sp + 1) }
      else if (c = ch CHR ''#'' \<or> c = ch CHR '';'') \<and> \<not> insquote \<and> \<not> indquote
        then do { b \<leftarrow> put b sp 0; store_value insquote indquote v b (sp + 1) }
      else do { b \<leftarrow> put b sp c; store_value insquote indquote v b (sp + 1) })"

text \<open>
  A further value of a multi-valued option: the new block is as long as the old text without
  its last terminator, the argument and two terminators.
\<close>

definition add_strings :: "cmdopt \<Rightarrow> wtext \<Rightarrow> cmdopt option" where
  "add_strings opt val =
     (let ov = szValue opt;
          sp = (if dwValue opt > 2 then unat ((dwValue opt - 2) div 2) else 0);
          new = word_of_nat ((sp + length val + 2) * 2) :: dword;
          b = replicate (unat new div 2) 0
      in do {
        b \<leftarrow> (if sp \<noteq> 0
              then (case ov of
                      None \<Rightarrow> None
                    | Some o' \<Rightarrow> do { w \<leftarrow> get_block o' 0 sp; put_block b 0 w })
              else Some b);
        b \<leftarrow> store_value False False val b sp;
        Some (opt\<lparr>szValue := Some b, dwValue := new\<rparr>) })"

definition mark_add :: "bool \<Rightarrow> cmdopt \<Rightarrow> cmdopt" where
  "mark_add add opt =
     (if add
      then (if \<not> has_flag opt APXCMDOPT_FOUND
            then opt\<lparr>dwType := dwType opt OR APXCMDOPT_ADD\<rparr> else opt)
      else if has_flag opt APXCMDOPT_ADD
      then opt\<lparr>dwType := dwType opt AND NOT APXCMDOPT_ADD, dwValue := 0, szValue := None\<rparr>
      else opt)"

definition set_option :: "bool \<Rightarrow> wtext \<Rightarrow> cmdopt \<Rightarrow> cmdopt option" where
  "set_option add val opt = do {
     let opt = mark_add add opt;
     opt \<leftarrow> (if has_flag opt APXCMDOPT_STR then Some (opt\<lparr>szValue := Some (val @ [0])\<rparr>)
             else if has_flag opt APXCMDOPT_INT
               then do { n \<leftarrow> apxAtoulW (Some (val @ [0])); Some (opt\<lparr>dwValue := n\<rparr>) }
             else if has_flag opt APXCMDOPT_MSZ then add_strings opt val
             else Some opt);
     Some (opt\<lparr>dwType := dwType opt OR APXCMDOPT_FOUND\<rparr>) }"

section \<open>The option loop\<close>

text \<open>
  An argument that is an option: with \<open>++\<close> or \<open>--\<close>, its name up to the first equals sign, and
  the text behind the sign.
\<close>

definition option_arg :: "wtext \<Rightarrow> (bool \<times> wtext \<times> wtext option) option" where
  "option_arg a =
     (let name_value = (\<lambda>r. case split_first (ch CHR ''='') r of
                               None \<Rightarrow> (r, None) | Some (n, e) \<Rightarrow> (n, Some e))
      in if take 2 a = wide ''++'' then Some (True, name_value (drop 2 a))
         else if take 2 a \<noteq> wide ''--'' then None
         else Some (False, name_value (drop 2 a)))"

text \<open>\<open>for (l = 0; lpOptions[l].szName; l++) if (lstrcmpW (lpOptions[l].szName, a + 2) == 0)\<close>\<close>

fun find_option :: "(wtext \<Rightarrow> wtext \<Rightarrow> bool) \<Rightarrow> cmdopt list \<Rightarrow> wtext \<Rightarrow> nat option" where
  "find_option same [] name = None"
| "find_option same (opt # opts) name =
     (if same (szName opt) name then Some 0 else map_option Suc (find_option same opts name))"

text \<open>
  The loop over the arguments. The result holds the options, changed in place, and the
  arguments that are left, or no arguments if the parser returns a null pointer: for an
  unknown option, and for a last option without a value, whose flag is set although.
\<close>

fun option_loop ::
  "(wtext \<Rightarrow> wtext \<Rightarrow> bool) \<Rightarrow> cmdopt list \<Rightarrow> wtext list
     \<Rightarrow> (cmdopt list \<times> wtext list option) option" where
  "option_loop same opts [] = Some (opts, Some [])"
| "option_loop same opts (a # args) =
     (case option_arg a of
        None \<Rightarrow> Some (opts, Some (a # args))
      | Some (add, name, e) \<Rightarrow>
          (case find_option same opts name of
             None \<Rightarrow> Some (opts, None)
           | Some l \<Rightarrow>
               (case e of
                  Some v \<Rightarrow> do {
                    opt \<leftarrow> set_option add v (opts ! l);
                    option_loop same (opts[l := opt]) args }
                | None \<Rightarrow>
                    (case args of
                       [] \<Rightarrow>
                         let opt = opts ! l
                         in Some (opts[l := opt\<lparr>dwValue := 0, szValue := None,
                                    dwType := dwType opt OR APXCMDOPT_FOUND\<rparr>], None)
                     | v # args' \<Rightarrow> do {
                         opt \<leftarrow> set_option add v (opts ! l);
                         option_loop same (opts[l := opt]) args' }))))"

section \<open>The whole command line\<close>

record cmdline =
  lpOptions :: "cmdopt list"
  szArgv0 :: wtext
  szExePath :: wtext
  szExecutable :: wtext
  szApplication :: wtext
  dwCmdIndex :: nat
  lpArgvw :: "wtext list"

text \<open>\<open>p = wcsrchr (name, '.'); if (lstrcmpiW (p, suffix) == 0) *p = 0;\<close> for the listed suffixes.\<close>

definition strip_suffix :: "(wtext \<Rightarrow> wtext \<Rightarrow> bool) \<Rightarrow> string list \<Rightarrow> wtext \<Rightarrow> wtext" where
  "strip_suffix same_i suffixes name =
     (case split_last (ch CHR ''.'') name of
        None \<Rightarrow> name
      | Some (base, ext) \<Rightarrow>
          if list_ex (\<lambda>s. same_i (ch CHR ''.'' # ext) (wide s)) suffixes then base else name)"

text \<open>The index of a command, counted from one; zero if it is not in the table.\<close>

fun command_index :: "(wtext \<Rightarrow> wtext \<Rightarrow> bool) \<Rightarrow> wtext list \<Rightarrow> wtext \<Rightarrow> nat \<Rightarrow> nat" where
  "command_index same [] ca i = 0"
| "command_index same (c # cs) ca i =
     (if same c ca then Suc i else command_index same cs ca (Suc i))"

text \<open>\<open>//CMD//Name\<close>: the command, and the name behind any number of slashes.\<close>

definition slash_command :: "wtext \<Rightarrow> wtext \<times> wtext option" where
  "slash_command ca =
     (case split_first (ch CHR ''/'') ca of
        None \<Rightarrow> (ca, None)
      | Some (cmd, r) \<Rightarrow>
          (let cn = dropWhile (\<lambda>c. c = ch CHR ''/'') r
           in (cmd, if cn = [] then None else Some cn)))"

text \<open>
  The command of the first argument: its index, the application's name and the index of the
  first option; \<open>None\<close> for an unknown command. \<open>alnum\<close> is \<open>iswalnum\<close>.
\<close>

definition command_of ::
  "(wtext \<Rightarrow> wtext \<Rightarrow> bool) \<Rightarrow> (wchar \<Rightarrow> bool) \<Rightarrow> wtext list \<Rightarrow> wtext list \<Rightarrow> wtext list \<Rightarrow> wtext
     \<Rightarrow> (nat \<times> wtext \<times> nat) option" where
  "command_of same alnum commands altcmds argv exe =
     (let cp = argv ! 1
      in if take 2 cp = wide ''//''
         then (let (ca, cn) = slash_command (drop 2 cp);
                   i = command_index same commands ca 0
               in if i \<noteq> 0 then Some (i, case cn of None \<Rightarrow> exe | Some n \<Rightarrow> n, 2) else None)
         else (let i = command_index same altcmds cp 0
               in if i = 0 then None
                  else if length argv > 2 \<and> argv ! 2 \<noteq> [] \<and> alnum (hd (argv ! 2))
                  then Some (i, argv ! 2, 3)
                  else Some (i, exe, 2)))"

definition apxCmdlineParse ::
  "(wtext \<Rightarrow> wtext \<Rightarrow> bool) \<Rightarrow> (wtext \<Rightarrow> wtext \<Rightarrow> bool) \<Rightarrow> (wchar \<Rightarrow> bool) \<Rightarrow> wtext option
     \<Rightarrow> wtext list \<Rightarrow> cmdopt list \<Rightarrow> wtext list \<Rightarrow> wtext list
     \<Rightarrow> (cmdopt list \<times> cmdline option) option" where
  "apxCmdlineParse same same_i alnum module argv options commands altcmds =
     (if argv = [] then Some (options, None)
      else case module of
        None \<Rightarrow> Some (options, None)
      | Some mh \<Rightarrow>
          (case split_last (ch CHR 0x5C) mh of
             None \<Rightarrow> Some (options, None)
           | Some (path, file) \<Rightarrow>
               let exe = strip_suffix same_i [''.X86'', ''.X64'', ''.I64'']
                           (strip_suffix same_i [''.EXE''] file);
                   line = \<lparr>lpOptions = options, szArgv0 = mh, szExePath = path, szExecutable = exe,
                           szApplication = exe, dwCmdIndex = 1, lpArgvw = []\<rparr>
               in if length argv > 1 \<and> length (argv ! 1) > 2
                  then (case command_of same alnum commands altcmds argv exe of
                          None \<Rightarrow> Some (options, None)
                        | Some (i, app, s) \<Rightarrow> do {
                            (opts, rest) \<leftarrow> option_loop same options (drop s argv);
                            Some (opts, map_option (\<lambda>r. line\<lparr>lpOptions := opts,
                              szApplication := app, dwCmdIndex := i, lpArgvw := r\<rparr>) rest) })
                  else Some (options, Some line)))"

section \<open>Options from the environment\<close>

text \<open>
  \<open>apxCmdlineLoadEnvVars\<close>: \<open>getvar\<close> is the call of \<open>GetEnvironmentVariableW\<close> with a buffer of
  \<open>SIZ_HUGLEN\<close> characters: the number it returns, the text, and whether the last error of the
  thread is \<open>ERROR_ENVVAR_NOT_FOUND\<close> afterwards. \<open>stack\<close> is the old contents of \<open>szEnv\<close>.
\<close>

definition variable_name :: "wtext \<Rightarrow> wtext \<Rightarrow> wtext option" where
  "variable_name stack name = do {
     (b, _) \<leftarrow> lstrlcpyW (take 64 stack) 64 (wide ''PR_'' @ [0]);
     r \<leftarrow> lstrlcatW b 64 (name @ [0]);
     Some (text_of (case r of None \<Rightarrow> b | Some b' \<Rightarrow> b')) }"

definition env_option :: "wtext \<Rightarrow> cmdopt \<Rightarrow> cmdopt option" where
  "env_option v opt =
     (if has_flag opt APXCMDOPT_STR
      then Some (opt\<lparr>szValue := Some (v @ [0]), dwType := dwType opt OR APXCMDOPT_FOUND\<rparr>)
      else if has_flag opt APXCMDOPT_INT
      then do {
        n \<leftarrow> apxAtoulW (Some (v @ [0]));
        Some (opt\<lparr>dwValue := n, dwType := dwType opt OR APXCMDOPT_FOUND\<rparr>) }
      else if has_flag opt APXCMDOPT_MSZ
      then do {
        let size = (word_of_nat ((length v + 2) * 2) :: dword);
        b \<leftarrow> store_value False False v (replicate (unat size div 2) 0) 0;
        Some (opt\<lparr>szValue := Some b, dwValue := size,
                  dwType := dwType opt OR (APXCMDOPT_FOUND OR APXCMDOPT_ADD)\<rparr>) }
      else Some opt)"

fun load_env ::
  "(wtext \<Rightarrow> nat \<times> wtext \<times> bool) \<Rightarrow> wtext \<Rightarrow> cmdopt list \<Rightarrow> cmdopt list option" where
  "load_env getvar stack [] = Some []"
| "load_env getvar stack (opt # opts) = do {
     szEnv \<leftarrow> variable_name stack (szName opt);
     let (l, v, not_found) = getvar szEnv;
     (if l = 0 \<or> SIZ_HUGMAX \<le> l
      then (if l = 0 \<and> \<not> not_found then Some (opt # opts)
            else map_option ((#) opt) (load_env getvar stack opts))
      else do {
        opt \<leftarrow> env_option v opt;
        map_option ((#) opt) (load_env getvar stack opts) }) }"

definition apxCmdlineLoadEnvVars ::
  "(wtext \<Rightarrow> nat \<times> wtext \<times> bool) \<Rightarrow> wtext \<Rightarrow> cmdline \<Rightarrow> cmdline option" where
  "apxCmdlineLoadEnvVars getvar stack line =
     map_option (\<lambda>opts. line\<lparr>lpOptions := opts\<rparr>) (load_env getvar stack (lpOptions line))"

section \<open>Storing values\<close>

fun emitted :: "bool \<Rightarrow> bool \<Rightarrow> wtext \<Rightarrow> wtext" where
  "emitted insquote indquote [] = []"
| "emitted insquote indquote (c # v) =
     (if c = ch CHR 0x27 then emitted (\<not> insquote) indquote v
      else if c = ch CHR 0x22 then ch CHR 0x22 # emitted insquote (\<not> indquote) v
      else if (c = ch CHR ''#'' \<or> c = ch CHR '';'') \<and> \<not> insquote \<and> \<not> indquote
        then 0 # emitted insquote indquote v
      else c # emitted insquote indquote v)"

lemma length_emitted: "length (emitted a b v) \<le> length v"
  by (induction a b v rule: emitted.induct) auto

lemma store_value_emitted:
  assumes "length (emitted a b v) \<le> length q"
  shows "store_value a b v (p @ q) (length p) =
    Some (p @ emitted a b v @ drop (length (emitted a b v)) q)"
  using assms
proof (induction a b v arbitrary: p q rule: emitted.induct)
  case (2 a b c v)
  show ?case
  proof (cases "c = ch CHR 0x27")
    case True
    with 2 show ?thesis by simp
  next
    case False
    with "2.prems" obtain x q' where q: "q = x # q'" by (cases q) (auto split: if_splits)
    have step: "put (p @ q) (length p) e = Some ((p @ [e]) @ q')" for e
      using put_append [of p "length p" x q' e] q by simp
    show ?thesis
      using "2.IH"(2,3,4) [of q' "p @ [_]"] "2.prems" False step q
      by (auto simp del: of_char_Char append_assoc split: if_splits)
  qed
qed simp

text \<open>A value without quotes and separators is stored as it is.\<close>

definition plain_value :: "wtext \<Rightarrow> bool" where
  "plain_value v \<longleftrightarrow> v \<noteq> [] \<and> set v \<inter> {0, 0x22, 0x23, 0x27, 0x3B} = {}"

lemma emitted_plain: "set v \<inter> {0x22, 0x23, 0x27, 0x3B} = {} \<Longrightarrow> emitted False False v = v"
  by (induction v) auto

section \<open>Collecting values\<close>

text \<open>What a multi-valued option holds after some values.\<close>

definition holds_strings :: "wtext list \<Rightarrow> cmdopt \<Rightarrow> bool" where
  "holds_strings vs opt \<longleftrightarrow>
     \<not> has_flag opt APXCMDOPT_STR \<and> \<not> has_flag opt APXCMDOPT_INT \<and> has_flag opt APXCMDOPT_MSZ \<and>
     (if vs = [] then dwValue opt = 0
      else szValue opt = Some (msz vs) \<and> unat (dwValue opt) = 2 * length (msz vs))"

lemma flag_or: "f AND g = 0 \<Longrightarrow> (t OR f) AND g = t AND (g :: dword)"
  by (simp add: bit.conj_disj_distrib2)

lemma flags_kept:
  assumes "f = APXCMDOPT_FOUND \<or> f = APXCMDOPT_ADD"
    and "g = APXCMDOPT_STR \<or> g = APXCMDOPT_INT \<or> g = APXCMDOPT_MSZ"
  shows "(t OR f) AND g = t AND g"
  using assms by (elim disjE) (simp_all add: option_flags flag_or)

lemma add_strings_appends:
  assumes "holds_strings vs opt" "strings vs" "plain_value v"
    and "2 * (length (msz vs) + length v + 2) < 2 ^ 32"
  shows "\<exists>n. add_strings opt v = Some (opt\<lparr>szValue := Some (msz (vs @ [v])), dwValue := n\<rparr>) \<and>
    unat n = 2 * length (msz (vs @ [v]))"
proof -
  define sp where "sp = (if dwValue opt > 2 then unat ((dwValue opt - 2) div 2) else 0)"
  define new where "new = (word_of_nat ((sp + length v + 2) * 2) :: dword)"
  have sp: "sp = length (msz_body vs)"
  proof (cases "vs = []")
    case True
    with assms(1) show ?thesis by (simp add: sp_def holds_strings_def)
  next
    case False
    then obtain s ss where "vs = s # ss" by (cases vs) auto
    with assms(2) have "2 \<le> length (msz_body vs)" by (cases s) auto
    moreover have "unat (dwValue opt) = 2 * (length (msz_body vs) + 1)"
      using False assms(1) by (simp add: holds_strings_def msz_def)
    ultimately show ?thesis
      by (simp add: sp_def word_less_nat_alt unat_div unat_sub word_le_nat_alt)
  qed
  have new: "unat new = 2 * (length (msz_body vs) + length v + 2)"
    using assms(4) unfolding new_def sp by (subst unat_of_nat) (simp add: msz_def take_bit_nat_eq_self)
  let ?b = "replicate (unat new div 2) (0 :: wchar)"
  have b: "?b = replicate (length (msz_body vs)) 0 @ replicate (length v + 2) 0"
  proof -
    have "unat new div 2 = length (msz_body vs) + (length v + 2)" using new by simp
    then show ?thesis by (simp only: replicate_add)
  qed
  have old: "(if sp \<noteq> 0
      then (case szValue opt of None \<Rightarrow> None
            | Some o' \<Rightarrow> do { w \<leftarrow> get_block o' 0 sp; put_block ?b 0 w })
      else Some ?b) = Some (msz_body vs @ replicate (length v + 2) 0)"
  proof (cases "vs = []")
    case True
    then show ?thesis using b by (simp add: sp del: replicate_Suc)
  next
    case False
    then have "szValue opt = Some (msz vs)" using assms(1) by (simp add: holds_strings_def)
    moreover have "get_block (msz vs) 0 sp = Some (msz_body vs)"
      by (simp add: get_block_def msz_def sp)
    moreover have "put_block ?b 0 (msz_body vs) = Some (msz_body vs @ replicate (length v + 2) 0)"
      using put_block_at [of "[]" 0 "msz_body vs" ?b] by (simp add: b del: replicate_Suc)
    ultimately show ?thesis using b by (simp add: sp del: replicate_Suc)
  qed
  have "emitted False False v = v"
    using assms(3) by (intro emitted_plain) (auto simp: plain_value_def)
  then have store: "store_value False False v (msz_body vs @ replicate (length v + 2) 0) sp =
      Some (msz (vs @ [v]))"
    using store_value_emitted [of False False v "replicate (length v + 2) 0" "msz_body vs"]
    by (simp add: sp msz_def del: replicate_Suc) (simp add: numeral_2_eq_2)
  have "add_strings opt v = Some (opt\<lparr>szValue := Some (msz (vs @ [v])), dwValue := new\<rparr>)"
    using old store by (simp only: add_strings_def Let_def sp_def [symmetric] new_def [symmetric]
        Option.bind.simps)
  moreover have "unat new = 2 * length (msz (vs @ [v]))" using new by (simp add: msz_def)
  ultimately show ?thesis by blast
qed

lemma set_option_appends:
  assumes "holds_strings vs opt" "strings vs" "plain_value v"
    and "2 * (length (msz vs) + length v + 2) < 2 ^ 32"
  shows "\<exists>opt'. set_option True v opt = Some opt' \<and> holds_strings (vs @ [v]) opt' \<and>
    szName opt' = szName opt"
proof -
  let ?o = "mark_add True opt"
  have o: "holds_strings vs ?o" "szName ?o = szName opt"
    using assms(1) by (auto simp: mark_add_def holds_strings_def has_flag_def flags_kept)
  obtain n where n: "add_strings ?o v = Some (?o\<lparr>szValue := Some (msz (vs @ [v])), dwValue := n\<rparr>)"
    "unat n = 2 * length (msz (vs @ [v]))"
    using add_strings_appends [OF o(1) assms(2-4)] by blast
  let ?o' = "?o\<lparr>szValue := Some (msz (vs @ [v])), dwValue := n, dwType := dwType ?o OR APXCMDOPT_FOUND\<rparr>"
  have "set_option True v opt = Some ?o'"
    using o(1) n(1) by (simp add: set_option_def holds_strings_def Let_def)
  moreover have "holds_strings (vs @ [v]) ?o'"
    using o(1) n(2) by (simp add: holds_strings_def has_flag_def flags_kept)
  ultimately show ?thesis using o(2) by auto
qed

lemma find_option_update:
  assumes "find_option same opts name = Some l" "szName opt = szName (opts ! l)"
  shows "find_option same (opts[l := opt]) name = Some l"
  using assms
proof (induction opts arbitrary: l)
  case (Cons a opts)
  then show ?case by (cases l) (auto split: if_splits)
qed simp

lemma find_option_bound: "find_option same opts name = Some l \<Longrightarrow> l < length opts"
proof (induction opts arbitrary: l)
  case (Cons a opts)
  then show ?case by (cases l) (auto split: if_splits)
qed simp

lemma split_first_absent: "c \<notin> set s \<Longrightarrow> split_first c s = None"
  by (simp add: split_first_None)

lemma option_arg_plus:
  "ch CHR ''='' \<notin> set name \<Longrightarrow> option_arg (wide ''++'' @ name) = Some (True, name, None)"
  by (simp add: option_arg_def wide_def split_first_absent)

section \<open>Properties\<close>

text \<open>C34. Any number of \<open>++name value\<close> arguments for a multi-valued option collects exactly these
  values, in order, in one multi-string; no write leaves the blocks the parser allocates. The
  values have no quotes or separators, and together they stay below 4 GB.\<close>

theorem repeated_options_collect:
  assumes "find_option same opts name = Some l" "ch CHR ''='' \<notin> set name"
    and "holds_strings [] (opts ! l)" "\<forall>v \<in> set vs. plain_value v"
    and "2 * (length (msz_body vs) + 3) < 2 ^ 32"
  shows "\<exists>opt. option_loop same opts (concat (map (\<lambda>v. [wide ''++'' @ name, v]) vs)) =
      Some (opts[l := opt], Some []) \<and> holds_strings vs opt"
proof -
  let ?args = "\<lambda>ws. concat (map (\<lambda>v. [wide ''++'' @ name, v]) ws)"
  have plain: "strings ws" if "set ws \<subseteq> set vs" for ws
    using that assms(4) by (auto simp: strings_def plain_value_def)
  have "\<exists>opt. option_loop same os (?args ws) = Some (os[l := opt], Some []) \<and> holds_strings vs opt"
    if "vs = us @ ws" "find_option same os name = Some l" "holds_strings us (os ! l)" for us ws os
    using that
  proof (induction ws arbitrary: us os)
    case Nil
    then show ?case
      by (intro exI [of _ "os ! l"]) simp
  next
    case (Cons v ws)
    have "plain_value v" "strings us" using Cons.prems(1) assms(4) plain [of us] by auto
    moreover have "2 * (length (msz us) + length v + 2) < 2 ^ 32"
      using Cons.prems(1) assms(5) by (simp add: msz_def)
    ultimately obtain opt where opt: "set_option True v (os ! l) = Some opt"
      "holds_strings (us @ [v]) opt" "szName opt = szName (os ! l)"
      using set_option_appends [of us "os ! l" v] Cons.prems(3) by blast
    have bound: "l < length os" using Cons.prems(2) by (rule find_option_bound)
    have "\<exists>opt'. option_loop same (os[l := opt]) (?args ws) = Some (os[l := opt, l := opt'], Some []) \<and>
        holds_strings vs opt'"
      using Cons.prems opt bound by (intro Cons.IH [of "us @ [v]"]) (auto intro: find_option_update)
    then show ?case
      using Cons.prems(2) opt(1) assms(2) by (auto simp: option_arg_plus)
  qed
  from this [of "[]" vs opts] assms(1,3) show ?thesis by simp
qed

theorem repeated_options_collect_witness:
  "\<exists>opt. option_loop (=) [\<lparr>szName = [79], dwType = 0x10, szValue = None, dwValue = 0\<rparr>]
      (concat (map (\<lambda>v. [wide ''++'' @ [79], v]) [[97, 98], [99]])) =
      Some ([\<lparr>szName = [79], dwType = 0x10, szValue = None, dwValue = 0\<rparr>][0 := opt], Some []) \<and>
    holds_strings [[97, 98], [99]] opt"
  by (rule repeated_options_collect)
     (simp_all add: holds_strings_def has_flag_def option_flags plain_value_def)

text \<open>The two spellings of an option are equivalent: \<open>--name=value\<close> and \<open>--name value\<close>, as well
  as the ones with \<open>++\<close>, lead to the same options, the same remaining arguments and the same
  failures.\<close>

theorem option_spellings_agree:
  assumes "ch CHR ''='' \<notin> set name" "sign = wide ''++'' \<or> sign = wide ''--''"
  shows "option_loop same opts ((sign @ name @ ch CHR ''='' # v) # args) =
    option_loop same opts ((sign @ name) # v # args)"
proof -
  have joined: "split_first (ch CHR ''='') (name @ ch CHR ''='' # v) = Some (name, v)"
    using assms(1) by (simp add: split_first_Some del: of_char_Char)
  have single: "split_first (ch CHR ''='') name = None"
    using assms(1) by (rule split_first_absent)
  have "length (wide ''++'') = 2" "length (wide ''--'') = 2" by (simp_all add: wide_def)
  with assms(2) joined single
  have "option_arg (sign @ name @ ch CHR ''='' # v) = Some (sign = wide ''++'', name, Some v)"
    "option_arg (sign @ name) = Some (sign = wide ''++'', name, None)"
    by (auto simp: option_arg_def Let_def simp del: of_char_Char)
  then show ?thesis by (simp split: option.splits del: of_char_Char)
qed

theorem option_spellings_agree_witness:
  "option_loop (=) [] ((wide ''--'' @ wide ''Jvm'' @ ch CHR ''='' # wide ''auto'') # [wide ''x'']) =
    option_loop (=) [] ((wide ''--'' @ wide ''Jvm'') # wide ''auto'' # [wide ''x''])"
  by (rule option_spellings_agree) (simp_all add: wide_def)

text \<open>
  What the option loop leaves is a suffix of the arguments that does not begin with an option:
  the arguments of the application.
\<close>

theorem option_loop_rest:
  assumes "option_loop same opts args = Some (opts', Some rest)"
  shows "(\<exists>used. args = used @ rest) \<and> (rest \<noteq> [] \<longrightarrow> option_arg (hd rest) = None)"
  using assms
proof (induction same opts args arbitrary: opts' rest rule: option_loop.induct)
  case (1 same opts)
  then show ?case by simp
next
  case (2 same opts a args)
  show ?case
  proof (cases "option_arg a")
    case None
    with "2.prems" show ?thesis by auto
  next
    case (Some q)
    obtain add name e where q: "q = (add, name, e)" by (cases q)
    with Some "2.prems" obtain l where l: "find_option same opts name = Some l"
      by (auto split: option.splits)
    have go: "(\<exists>used. a # pre @ args2 = used @ rest) \<and> (rest \<noteq> [] \<longrightarrow> option_arg (hd rest) = None)"
      if "\<exists>used. args2 = used @ rest" "rest \<noteq> [] \<longrightarrow> option_arg (hd rest) = None" for pre args2
      using that by (metis append.assoc append_Cons)
    show ?thesis
    proof (cases e)
      case (Some v)
      then obtain opt where opt: "set_option add v (opts ! l) = Some opt"
        "option_loop same (opts[l := opt]) args = Some (opts', Some rest)"
        using "2.prems" \<open>option_arg a = Some q\<close> q l by (auto simp: Option.bind_eq_Some_conv)
      from "2.IH"(2) [OF \<open>option_arg a = Some q\<close> q [symmetric] refl l Some opt] show ?thesis
        using go [of args "[]"] by simp
    next
      case None
      then obtain v args' opt where args: "args = v # args'"
        "set_option add v (opts ! l) = Some opt"
        "option_loop same (opts[l := opt]) args' = Some (opts', Some rest)"
        using "2.prems" \<open>option_arg a = Some q\<close> q l
        by (cases args) (auto simp: Option.bind_eq_Some_conv Let_def)
      from "2.IH"(1) [OF \<open>option_arg a = Some q\<close> q [symmetric] refl l None args] show ?thesis
        using go [of args' "[v]"] args(1) by simp
    qed
  qed
qed

text \<open>
  A last option without a value is refused like an unknown one, although the code has marked
  it as found: the test for an option the table does not know comes too late.
\<close>

theorem last_option_needs_value:
  assumes "ch CHR ''='' \<notin> set name"
  shows "\<exists>opts'. option_loop same opts [wide ''++'' @ name] = Some (opts', None)"
  using assms by (cases "find_option same opts name") (simp_all add: option_arg_plus Let_def)

text \<open>
  A value with single quotes hides what is added after it: the block is longer than the text
  that was stored, and the next value is put behind the gap, where a reader of the
  multi-string does not look.
\<close>

theorem quotes_hide_later_values:
  assumes "dwValue opt = 0"
  shows "\<exists>o1 o2. add_strings opt [0x27, 97, 0x27] = Some o1 \<and> add_strings o1 [98] = Some o2 \<and>
    szValue o2 = Some [97, 0, 0, 0, 98, 0, 0] \<and> apxGetMultiSzLengthW (szValue o2) = Some (2, 1)"
proof -
  have zeros: "replicate 5 (0 :: wchar) = [0, 0, 0, 0, 0]" "replicate 7 (0 :: wchar) = [0, 0, 0, 0, 0, 0, 0]"
    by (simp_all add: eval_nat_numeral)
  let ?o1 = "opt\<lparr>szValue := Some [97, 0, 0, 0, 0], dwValue := 10\<rparr>"
  let ?o2 = "opt\<lparr>szValue := Some [97, 0, 0, 0, 98, 0, 0], dwValue := 14\<rparr>"
  have "add_strings opt [0x27, 97, 0x27] = Some ?o1"
    using assms by (simp add: add_strings_def Let_def zeros put_def)
  moreover have "add_strings ?o1 [98] = Some ?o2"
    by (simp add: add_strings_def Let_def zeros put_def get_block_def put_block_def)
  moreover have "apxGetMultiSzLengthW (szValue ?o2) = Some (2, 1)"
    by (simp add: apxGetMultiSzLengthW_def apxGetMultiSzLengthA_def msz_outer.simps msz_inner.simps)
  ultimately show ?thesis by (intro exI [of _ ?o1] exI [of _ ?o2]) simp
qed

text \<open>
  The variable of an option is its name behind \<open>PR_\<close>, cut to the 63 characters that fit into
  the local array.
\<close>

theorem variable_name_cut:
  assumes "0 \<notin> set name" "64 \<le> length stack"
  shows "variable_name stack name = Some (take 63 (wide ''PR_'' @ name))"
proof -
  let ?pr = "wide ''PR_''"
  have pr: "0 \<notin> set ?pr" "length ?pr = 3" by (simp_all add: wide_def)
  obtain r where r: "lstrlcpyW (take 64 stack) 64 (?pr @ [0]) = Some (?pr @ 0 # r, 4)"
    "length (?pr @ 0 # r) = 64"
    using lstrlcpy_copies [of ?pr 64 "take 64 stack" "[]"] pr assms(2)
    by (auto simp: lstrlcpyW_def)
  obtain rest where "lstrlcatW (?pr @ 0 # r) 64 (name @ [0]) =
      Some (Some (?pr @ take 60 name @ 0 # rest))"
    using lstrlcat_appends [of ?pr name 64 r "[]"] pr r(2) assms(1) by (auto simp: lstrlcatW_def)
  moreover have "text_of (?pr @ take 60 name @ 0 # rest) = ?pr @ take 60 name"
    using text_of_terminated [of "?pr @ take 60 name" rest] pr assms(1)
    by (auto dest: in_set_takeD)
  ultimately show ?thesis using r(1) pr(2) by (simp add: variable_name_def)
qed

end
