(* ===== verification/Win_Registry.thy ===== *)
theory Win_Registry
  imports Win_Prelude Win_Strings Multi_Sz Win_Env Jsvc_Prelude "HOL-Library.AList"
begin

text \<open>
  The registry access of procrun (\<^verbatim>\<open>windows/src/registry.c\<close>). The first section is the
  documented behaviour of the Windows calls the code uses, over an explicit state: the keys
  with their values, and the open handles. The names of keys and values do not distinguish
  case, a 32-bit view has its own copy of redirected keys, and access can be denied: all
  three are parameters. The sections behind it translate the code, the A functions at their
  own width left out where they differ in the character type alone.
\<close>

section \<open>The registry of Windows\<close>

datatype hive = HKEY_LOCAL_MACHINE | HKEY_CURRENT_USER

text \<open>A key: whether it is in the 32-bit view, the hive, the names from the root.\<close>

type_synonym regkey = "bool \<times> hive \<times> wtext list"
type_synonym regvalues = "(wtext \<times> dword \<times> byte list) list"

record registry =
  keys :: "(regkey \<times> regvalues) list"
  opened :: "(nat \<times> regkey \<times> dword) list"
  fresh_handle :: nat

record reg_env =
  fold_name :: "wtext \<Rightarrow> wtext"
  redirected :: "hive \<Rightarrow> wtext list \<Rightarrow> bool"
  denied :: "regkey \<Rightarrow> dword \<Rightarrow> bool"
  heap :: "nat \<Rightarrow> wtext"

definition KEY_QUERY_VALUE :: dword where "KEY_QUERY_VALUE = 0x1"
definition KEY_SET_VALUE :: dword where "KEY_SET_VALUE = 0x2"
definition KEY_CREATE_SUB_KEY :: dword where "KEY_CREATE_SUB_KEY = 0x4"
definition KEY_ENUMERATE_SUB_KEYS :: dword where "KEY_ENUMERATE_SUB_KEYS = 0x8"
definition KEY_WOW64_32KEY :: dword where "KEY_WOW64_32KEY = 0x200"
definition KEY_DELETE :: dword where "KEY_DELETE = 0x10000"
definition KEY_READ :: dword where "KEY_READ = 0x20019"
definition KEY_WRITE :: dword where "KEY_WRITE = 0x20006"

definition REG_SZ :: dword where "REG_SZ = 1"
definition REG_BINARY :: dword where "REG_BINARY = 3"
definition REG_DWORD :: dword where "REG_DWORD = 4"
definition REG_MULTI_SZ :: dword where "REG_MULTI_SZ = 7"

datatype winerror =
  ERROR_SUCCESS | ERROR_FILE_NOT_FOUND | ERROR_ACCESS_DENIED | ERROR_INVALID_HANDLE
  | ERROR_INVALID_PARAMETER | ERROR_MORE_DATA | ERROR_NO_MORE_ITEMS

text \<open>A handle argument: one of the predefined hives or an opened key.\<close>

datatype hkey = Hive hive | Hkey nat

definition may :: "dword \<Rightarrow> dword \<Rightarrow> bool" where
  "may sam right \<longleftrightarrow> sam AND right \<noteq> 0"

definition path_names :: "wtext \<Rightarrow> wtext list" where
  "path_names p = filter (\<lambda>s. s \<noteq> []) (split_all (ch CHR 0x5C) p)"

definition base_of :: "registry \<Rightarrow> hkey \<Rightarrow> regkey option" where
  "base_of st h =
     (case h of Hive v \<Rightarrow> Some (False, v, []) | Hkey n \<Rightarrow> map_option fst (map_of (opened st) n))"

text \<open>A key below one of the 32-bit view is in this view, too.\<close>

definition below :: "reg_env \<Rightarrow> bool \<Rightarrow> regkey \<Rightarrow> wtext list \<Rightarrow> regkey" where
  "below env wow k names =
     (case k of (w, v, ns) \<Rightarrow>
        let ns = ns @ map (fold_name env) names in (w \<or> wow \<and> redirected env v ns, v, ns))"

definition key_at :: "reg_env \<Rightarrow> registry \<Rightarrow> hkey \<Rightarrow> wtext \<Rightarrow> dword \<Rightarrow> regkey option" where
  "key_at env st h sub sam =
     map_option (\<lambda>k. below env (may sam KEY_WOW64_32KEY) k (path_names sub)) (base_of st h)"

definition new_handle :: "registry \<Rightarrow> regkey \<Rightarrow> dword \<Rightarrow> nat \<times> registry" where
  "new_handle st k sam =
     (fresh_handle st, st\<lparr>opened := (fresh_handle st, k, sam) # opened st,
                          fresh_handle := Suc (fresh_handle st)\<rparr>)"

definition RegOpenKeyEx ::
  "reg_env \<Rightarrow> registry \<Rightarrow> hkey \<Rightarrow> wtext \<Rightarrow> dword \<Rightarrow> (winerror + nat) \<times> registry" where
  "RegOpenKeyEx env st h sub sam =
     (case key_at env st h sub sam of
        None \<Rightarrow> (Inl ERROR_INVALID_HANDLE, st)
      | Some k \<Rightarrow>
          if map_of (keys st) k = None then (Inl ERROR_FILE_NOT_FOUND, st)
          else if denied env k sam then (Inl ERROR_ACCESS_DENIED, st)
          else apfst Inr (new_handle st k sam))"

text \<open>Creating a key creates the keys above it.\<close>

definition with_key :: "regkey \<Rightarrow> (regkey \<times> regvalues) list \<Rightarrow> (regkey \<times> regvalues) list" where
  "with_key k ks = (if map_of ks k = None then (k, []) # ks else ks)"

definition key_prefixes :: "regkey \<Rightarrow> regkey list" where
  "key_prefixes k = (case k of (w, v, ns) \<Rightarrow> map (\<lambda>i. (w, v, take i ns)) [0..<Suc (length ns)])"

definition RegCreateKeyEx ::
  "reg_env \<Rightarrow> registry \<Rightarrow> hkey \<Rightarrow> wtext \<Rightarrow> dword \<Rightarrow> (winerror + nat) \<times> registry" where
  "RegCreateKeyEx env st h sub sam =
     (case key_at env st h sub sam of
        None \<Rightarrow> (Inl ERROR_INVALID_HANDLE, st)
      | Some k \<Rightarrow>
          if denied env k sam then (Inl ERROR_ACCESS_DENIED, st)
          else apfst Inr (new_handle (st\<lparr>keys := fold with_key (key_prefixes k) (keys st)\<rparr>) k sam))"

definition RegCloseKey :: "registry \<Rightarrow> nat \<Rightarrow> registry" where
  "RegCloseKey st h = st\<lparr>opened := AList.delete h (opened st)\<rparr>"

text \<open>The value of a name: its type and its bytes.\<close>

definition RegQueryValueEx ::
  "reg_env \<Rightarrow> registry \<Rightarrow> nat \<Rightarrow> wtext \<Rightarrow> winerror + (dword \<times> byte list)" where
  "RegQueryValueEx env st h name =
     (case map_of (opened st) h of
        None \<Rightarrow> Inl ERROR_INVALID_HANDLE
      | Some (k, sam) \<Rightarrow>
          if \<not> may sam KEY_QUERY_VALUE then Inl ERROR_ACCESS_DENIED
          else (case map_of (keys st) k of
                  None \<Rightarrow> Inl ERROR_FILE_NOT_FOUND
                | Some vs \<Rightarrow>
                    (case map_of vs (fold_name env name) of
                       None \<Rightarrow> Inl ERROR_FILE_NOT_FOUND | Some tv \<Rightarrow> Inr tv)))"

definition change_values ::
  "registry \<Rightarrow> nat \<Rightarrow> (regvalues \<Rightarrow> winerror + regvalues) \<Rightarrow> winerror \<times> registry" where
  "change_values st h f =
     (case map_of (opened st) h of
        None \<Rightarrow> (ERROR_INVALID_HANDLE, st)
      | Some (k, sam) \<Rightarrow>
          if \<not> may sam KEY_SET_VALUE then (ERROR_ACCESS_DENIED, st)
          else (case map_of (keys st) k of
                  None \<Rightarrow> (ERROR_FILE_NOT_FOUND, st)
                | Some vs \<Rightarrow>
                    (case f vs of
                       Inl e \<Rightarrow> (e, st)
                     | Inr vs' \<Rightarrow> (ERROR_SUCCESS, st\<lparr>keys := AList.update k vs' (keys st)\<rparr>))))"

definition RegSetValueEx ::
  "reg_env \<Rightarrow> registry \<Rightarrow> nat \<Rightarrow> wtext \<Rightarrow> dword \<Rightarrow> byte list \<Rightarrow> winerror \<times> registry" where
  "RegSetValueEx env st h name type data =
     change_values st h (\<lambda>vs. Inr (AList.update (fold_name env name) (type, data) vs))"

definition RegDeleteValue :: "reg_env \<Rightarrow> registry \<Rightarrow> nat \<Rightarrow> wtext \<Rightarrow> winerror \<times> registry" where
  "RegDeleteValue env st h name =
     change_values st h (\<lambda>vs.
       if map_of vs (fold_name env name) = None then Inl ERROR_FILE_NOT_FOUND
       else Inr (AList.delete (fold_name env name) vs))"

definition child_of :: "regkey \<Rightarrow> regkey \<Rightarrow> bool" where
  "child_of k k' =
     (case (k, k') of ((w, v, ns), (w', v', ns')) \<Rightarrow>
        w' = w \<and> v' = v \<and> ns' \<noteq> [] \<and> butlast ns' = ns)"

text \<open>A key is deleted only if it has no subkeys.\<close>

definition RegDeleteKey :: "reg_env \<Rightarrow> registry \<Rightarrow> hkey \<Rightarrow> wtext \<Rightarrow> winerror \<times> registry" where
  "RegDeleteKey env st h sub =
     (case key_at env st h sub 0 of
        None \<Rightarrow> (ERROR_INVALID_HANDLE, st)
      | Some k \<Rightarrow>
          if map_of (keys st) k = None then (ERROR_FILE_NOT_FOUND, st)
          else if denied env k KEY_DELETE \<or> list_ex (\<lambda>(k', _). child_of k k') (keys st)
          then (ERROR_ACCESS_DENIED, st)
          else (ERROR_SUCCESS, st\<lparr>keys := AList.delete k (keys st)\<rparr>))"

definition subkey_names :: "registry \<Rightarrow> regkey \<Rightarrow> wtext list" where
  "subkey_names st k = map (\<lambda>((w, v, ns), _). last ns) (filter (\<lambda>(k', _). child_of k k') (keys st))"

definition RegEnumKeyEx :: "registry \<Rightarrow> nat \<Rightarrow> nat \<Rightarrow> winerror + wtext" where
  "RegEnumKeyEx st h i =
     (case map_of (opened st) h of
        None \<Rightarrow> Inl ERROR_INVALID_HANDLE
      | Some (k, sam) \<Rightarrow>
          if \<not> may sam KEY_ENUMERATE_SUB_KEYS then Inl ERROR_ACCESS_DENIED
          else if i < length (subkey_names st k) then Inr (subkey_names st k ! i)
          else Inl ERROR_NO_MORE_ITEMS)"

section \<open>Text as bytes\<close>

definition le16 :: "wtext \<Rightarrow> byte list" where
  "le16 s = concat (map (bytes_le 2) s)"

fun unle16 :: "byte list \<Rightarrow> wtext" where
  "unle16 (a # b # r) = (ucast a OR push_bit 8 (ucast b)) # unle16 r"
| "unle16 _ = []"

definition unle32 :: "byte list \<Rightarrow> dword" where
  "unle32 bs = fold (\<lambda>b acc. push_bit 8 acc OR ucast b) (rev (take 4 bs)) 0"

section \<open>Reading and writing values\<close>

text \<open>
  The registry object. A key that is not opened is a null pointer. \<open>hCurrKey\<close> is the last
  subkey.
\<close>

record apxreg =
  hRootKey :: "nat option"
  hServKey :: "nat option"
  hUserKey :: "nat option"
  hCurrKey :: "nat option"
  hRparamKey :: "nat option"
  hSparamKey :: "nat option"
  hUparamKey :: "nat option"
  samOptions :: dword

definition APXREG_SOFTWARE :: dword where "APXREG_SOFTWARE = 0x01"
definition APXREG_SERVICE :: dword where "APXREG_SERVICE = 0x02"
definition APXREG_USER :: dword where "APXREG_USER = 0x04"
definition APXREG_PARAMSOFTWARE :: dword where "APXREG_PARAMSOFTWARE = 0x10"
definition APXREG_PARAMSERVICE :: dword where "APXREG_PARAMSERVICE = 0x20"
definition APXREG_PARAMUSER :: dword where "APXREG_PARAMUSER = 0x40"

definition reg_get_key :: "apxreg \<Rightarrow> dword \<Rightarrow> nat option" where
  "reg_get_key r w =
     (if w = APXREG_SOFTWARE then hRootKey r
      else if w = APXREG_PARAMSOFTWARE then hRparamKey r
      else if w = APXREG_SERVICE then hServKey r
      else if w = APXREG_PARAMSERVICE then hSparamKey r
      else if w = APXREG_USER then hUserKey r
      else if w = APXREG_PARAMUSER then hUparamKey r
      else None)"

text \<open>\<open>SAFE_CLOSE_KEY\<close> on a variable with a key.\<close>

definition safe_close :: "nat option \<Rightarrow> registry \<Rightarrow> registry" where
  "safe_close k st = (case k of None \<Rightarrow> st | Some h \<Rightarrow> RegCloseKey st h)"

definition registry_callback_close :: "registry \<Rightarrow> apxreg \<Rightarrow> registry \<times> apxreg" where
  "registry_callback_close st r =
     (fold safe_close [hCurrKey r, hRparamKey r, hSparamKey r, hUparamKey r, hRootKey r, hServKey r,
                       hUserKey r] st,
      r\<lparr>hCurrKey := None, hRparamKey := None, hSparamKey := None, hUparamKey := None,
        hRootKey := None, hServKey := None, hUserKey := None\<rparr>)"

text \<open>
  What all accessors begin with: the key for the kind of access, and the subkey below it,
  which is opened for reading and created for writing. The subkey opened before is closed.
\<close>

definition accessed_key ::
  "reg_env \<Rightarrow> bool \<Rightarrow> registry \<Rightarrow> apxreg \<Rightarrow> dword \<Rightarrow> wtext option \<Rightarrow> nat option \<times> registry \<times> apxreg" where
  "accessed_key env create st r dwFrom szSubkey =
     (case reg_get_key r dwFrom of
        None \<Rightarrow> (None, st, r)
      | Some hKey \<Rightarrow>
          (case szSubkey of
             None \<Rightarrow> (Some hKey, st, r)
           | Some sub \<Rightarrow>
               let st = safe_close (hCurrKey r) st; r = r\<lparr>hCurrKey := None\<rparr>
               in case (if create then RegCreateKeyEx env st (Hkey hKey) sub (samOptions r)
                        else RegOpenKeyEx env st (Hkey hKey) sub (samOptions r)) of
                    (Inl e, st) \<Rightarrow> (None, st, r)
                  | (Inr hSub, st) \<Rightarrow> (Some hSub, st, r\<lparr>hCurrKey := Some hSub\<rparr>)))"

text \<open>
  \<open>__apxGetRegistrySzW\<close> allocates as many characters as the value has bytes and leaves the
  rest of the block as it is.
\<close>

definition getRegistrySzW :: "reg_env \<Rightarrow> registry \<Rightarrow> nat \<Rightarrow> wtext \<Rightarrow> wtext option" where
  "getRegistrySzW env st hKey name =
     (case RegQueryValueEx env st hKey name of
        Inl e \<Rightarrow> None
      | Inr (type, data) \<Rightarrow>
          if type \<noteq> REG_SZ then None
          else Some (unle16 (data @ drop (length data)
                                      (le16 (take (length data) (heap env (length data)))))))"

definition getRegistryBinaryW :: "reg_env \<Rightarrow> registry \<Rightarrow> nat \<Rightarrow> wtext \<Rightarrow> byte list option" where
  "getRegistryBinaryW env st hKey name =
     (case RegQueryValueEx env st hKey name of
        Inl e \<Rightarrow> None
      | Inr (type, data) \<Rightarrow> if data = [] then None else Some data)"

definition getRegistryDwordW :: "reg_env \<Rightarrow> registry \<Rightarrow> nat \<Rightarrow> wtext \<Rightarrow> dword" where
  "getRegistryDwordW env st hKey name =
     (case RegQueryValueEx env st hKey name of
        Inl e \<Rightarrow> 0xFFFFFFFF
      | Inr (type, data) \<Rightarrow> if length data > 4 \<or> type \<noteq> REG_DWORD then 0xFFFFFFFF else unle32 data)"

definition apxRegistryGetStringW ::
  "reg_env \<Rightarrow> registry \<Rightarrow> apxreg \<Rightarrow> dword \<Rightarrow> wtext option \<Rightarrow> wtext \<Rightarrow> wtext option \<times> registry \<times> apxreg" where
  "apxRegistryGetStringW env st r dwFrom szSubkey name =
     (case accessed_key env False st r dwFrom szSubkey of
        (None, st, r) \<Rightarrow> (None, st, r)
      | (Some hKey, st, r) \<Rightarrow> (getRegistrySzW env st hKey name, st, r))"

definition apxRegistryGetNumberW ::
  "reg_env \<Rightarrow> registry \<Rightarrow> apxreg \<Rightarrow> dword \<Rightarrow> wtext option \<Rightarrow> wtext \<Rightarrow> dword \<times> registry \<times> apxreg" where
  "apxRegistryGetNumberW env st r dwFrom szSubkey name =
     (case accessed_key env False st r dwFrom szSubkey of
        (None, st, r) \<Rightarrow> (0, st, r)
      | (Some hKey, st, r) \<Rightarrow>
          (case RegQueryValueEx env st hKey name of
             Inl e \<Rightarrow> (0, st, r)
           | Inr (type, data) \<Rightarrow>
               (if length data > 4 \<or> type \<noteq> REG_DWORD then 0 else unle32 data, st, r)))"

text \<open>
  With a buffer of the caller (its size in bytes) the type must be right; otherwise any value
  is taken, whatever its type.
\<close>

definition apxRegistryGetBinaryW ::
  "reg_env \<Rightarrow> registry \<Rightarrow> apxreg \<Rightarrow> dword \<Rightarrow> wtext option \<Rightarrow> wtext \<Rightarrow> nat option
     \<Rightarrow> byte list option \<times> registry \<times> apxreg" where
  "apxRegistryGetBinaryW env st r dwFrom szSubkey name room =
     (case accessed_key env False st r dwFrom szSubkey of
        (None, st, r) \<Rightarrow> (None, st, r)
      | (Some hKey, st, r) \<Rightarrow>
          (case room of
             Some n \<Rightarrow>
               (case RegQueryValueEx env st hKey name of
                  Inl e \<Rightarrow> (None, st, r)
                | Inr (type, data) \<Rightarrow>
                    (if length data > n \<or> type \<noteq> REG_BINARY then None else Some data, st, r))
           | None \<Rightarrow> (getRegistryBinaryW env st hKey name, st, r)))"

text \<open>Without a buffer of the caller the length that goes out is twice the number of bytes.\<close>

definition apxRegistryGetMzStrW ::
  "reg_env \<Rightarrow> registry \<Rightarrow> apxreg \<Rightarrow> dword \<Rightarrow> wtext option \<Rightarrow> wtext \<Rightarrow> nat option \<Rightarrow> dword
     \<Rightarrow> wtext option \<times> dword \<times> registry \<times> apxreg" where
  "apxRegistryGetMzStrW env st r dwFrom szSubkey name room len =
     (case accessed_key env False st r dwFrom szSubkey of
        (None, st, r) \<Rightarrow> (None, len, st, r)
      | (Some hKey, st, r) \<Rightarrow>
          (case room of
             Some n \<Rightarrow>
               (case RegQueryValueEx env st hKey name of
                  Inl e \<Rightarrow> (None, len, st, r)
                | Inr (type, data) \<Rightarrow>
                    (if length data > n \<or> type \<noteq> REG_MULTI_SZ then None else Some (unle16 data),
                     word_of_nat (length data), st, r))
           | None \<Rightarrow>
               (case getRegistryBinaryW env st hKey name of
                  None \<Rightarrow> (None, len, st, r)
                | Some data \<Rightarrow> (Some (unle16 data), word_of_nat (length data) * 2, st, r))))"

definition set_value ::
  "reg_env \<Rightarrow> registry \<Rightarrow> apxreg \<Rightarrow> dword \<Rightarrow> wtext option
     \<Rightarrow> (registry \<Rightarrow> nat \<Rightarrow> winerror \<times> registry) \<Rightarrow> bool \<times> registry \<times> apxreg" where
  "set_value env st r dwFrom szSubkey write =
     (case accessed_key env True st r dwFrom szSubkey of
        (None, st, r) \<Rightarrow> (False, st, r)
      | (Some hKey, st, r) \<Rightarrow> (case write st hKey of (e, st) \<Rightarrow> (e = ERROR_SUCCESS, st, r)))"

definition apxRegistrySetBinaryW ::
  "reg_env \<Rightarrow> registry \<Rightarrow> apxreg \<Rightarrow> dword \<Rightarrow> wtext option \<Rightarrow> wtext \<Rightarrow> byte list \<Rightarrow> bool \<times> registry \<times> apxreg" where
  "apxRegistrySetBinaryW env st r dwFrom szSubkey name data =
     set_value env st r dwFrom szSubkey (\<lambda>st h. RegSetValueEx env st h name REG_BINARY data)"

text \<open>\<open>dwLength\<close> bytes from the text; reading behind its end has no value.\<close>

definition apxRegistrySetMzStrW ::
  "reg_env \<Rightarrow> registry \<Rightarrow> apxreg \<Rightarrow> dword \<Rightarrow> wtext option \<Rightarrow> wtext \<Rightarrow> wtext \<Rightarrow> dword
     \<Rightarrow> (bool \<times> registry \<times> apxreg) option" where
  "apxRegistrySetMzStrW env st r dwFrom szSubkey name s len =
     (if unat len \<le> length (le16 s)
      then Some (set_value env st r dwFrom szSubkey
                  (\<lambda>st h. RegSetValueEx env st h name REG_MULTI_SZ (take (unat len) (le16 s))))
      else None)"

definition apxRegistrySetStrW ::
  "reg_env \<Rightarrow> registry \<Rightarrow> apxreg \<Rightarrow> dword \<Rightarrow> wtext option \<Rightarrow> wtext \<Rightarrow> wtext option
     \<Rightarrow> bool \<times> registry \<times> apxreg" where
  "apxRegistrySetStrW env st r dwFrom szSubkey name szValue =
     set_value env st r dwFrom szSubkey
       (\<lambda>st h. if szValue = None \<or> text_of (the szValue) = [] then RegDeleteValue env st h name
               else RegSetValueEx env st h name REG_SZ (le16 (text_of (the szValue) @ [0])))"

definition apxRegistrySetNumW ::
  "reg_env \<Rightarrow> registry \<Rightarrow> apxreg \<Rightarrow> dword \<Rightarrow> wtext option \<Rightarrow> wtext \<Rightarrow> dword \<Rightarrow> bool \<times> registry \<times> apxreg" where
  "apxRegistrySetNumW env st r dwFrom szSubkey name n =
     set_value env st r dwFrom szSubkey (\<lambda>st h. RegSetValueEx env st h name REG_DWORD (bytes_le 4 n))"

definition apxRegistryDeleteW ::
  "reg_env \<Rightarrow> registry \<Rightarrow> apxreg \<Rightarrow> dword \<Rightarrow> wtext option \<Rightarrow> wtext \<Rightarrow> bool \<times> registry \<times> apxreg" where
  "apxRegistryDeleteW env st r dwFrom szSubkey name =
     (case accessed_key env False st r dwFrom szSubkey of
        (None, st, r) \<Rightarrow> (False, st, r)
      | (Some hKey, st, r) \<Rightarrow>
          (case RegDeleteValue env st hKey name of (e, st) \<Rightarrow> (e = ERROR_SUCCESS, st, r)))"

section \<open>Creating and deleting\<close>

definition backslash :: string where "backslash = [CHR 0x5C]"
definition REGSERVICE_ROOT :: wtext where
  "REGSERVICE_ROOT = wide (''SYSTEM'' @ backslash @ ''CurrentControlSet'' @ backslash @ ''Services'' @ backslash)"
definition REGSOFTWARE_ROOT :: wtext where "REGSOFTWARE_ROOT = wide (''SOFTWARE'' @ backslash)"
definition REGPARAMS :: wtext where "REGPARAMS = wide ''Parameters''"
definition REGAPACHE_ROOT :: wtext where "REGAPACHE_ROOT = wide ''Apache Software Foundation''"

text \<open>Text that is copied and appended into an array of \<open>n\<close> characters.\<close>

definition in_buffer :: "nat \<Rightarrow> wtext \<Rightarrow> wtext option" where
  "in_buffer n s = (if length s < n then Some s else None)"

text \<open>
  The key \<open>buff\<close> and its subkey \<open>Parameters\<close>, opened or created; the variables hold what was
  opened before an error.
\<close>

definition open_or_create ::
  "reg_env \<Rightarrow> bool \<Rightarrow> registry \<Rightarrow> hkey \<Rightarrow> wtext \<Rightarrow> dword \<Rightarrow> (winerror + nat) \<times> registry" where
  "open_or_create env create st h sub sam =
     (if create then RegCreateKeyEx env st h sub sam else RegOpenKeyEx env st h sub sam)"

definition open_pair ::
  "reg_env \<Rightarrow> bool \<Rightarrow> registry \<Rightarrow> hive \<Rightarrow> wtext \<Rightarrow> dword
     \<Rightarrow> winerror \<times> nat option \<times> nat option \<times> registry" where
  "open_pair env create_base st v buff sam =
     (case open_or_create env create_base st (Hive v) buff sam of
        (Inl e, st) \<Rightarrow> (e, None, None, st)
      | (Inr k, st) \<Rightarrow>
          (case open_or_create env (may sam KEY_CREATE_SUB_KEY) st (Hkey k) REGPARAMS sam of
             (Inl e, st) \<Rightarrow> (e, Some k, None, st)
           | (Inr p, st) \<Rightarrow> (ERROR_SUCCESS, Some k, Some p, st)))"

definition optional_pair ::
  "bool \<Rightarrow> (registry \<Rightarrow> winerror \<times> nat option \<times> nat option \<times> registry) \<Rightarrow> registry
     \<Rightarrow> winerror \<times> nat option \<times> nat option \<times> registry" where
  "optional_pair wanted f st = (if wanted then f st else (ERROR_SUCCESS, None, None, st))"

text \<open>The result is the last error of the thread, the object and the registry.\<close>

definition apxCreateRegistryW ::
  "reg_env \<Rightarrow> registry \<Rightarrow> dword \<Rightarrow> wtext option \<Rightarrow> wtext option \<Rightarrow> dword
     \<Rightarrow> (winerror \<times> apxreg option \<times> registry) option" where
  "apxCreateRegistryW env st sam szRoot szKeyName dwOptions =
     (case szKeyName of
        None \<Rightarrow> Some (ERROR_INVALID_PARAMETER, None, st)
      | Some name \<Rightarrow>
          if length name > 255 \<or> (case szRoot of None \<Rightarrow> False | Some r \<Rightarrow> length r > 255)
          then Some (ERROR_INVALID_PARAMETER, None, st)
          else do {
            let create = may sam KEY_CREATE_SUB_KEY;
            let root = (case szRoot of None \<Rightarrow> REGAPACHE_ROOT | Some r \<Rightarrow> r);
            buff \<leftarrow> in_buffer 512 (REGSOFTWARE_ROOT @ root @ wide backslash @ name);
            let (e1, k1, p1, st) = optional_pair (may dwOptions APXREG_SOFTWARE)
                  (\<lambda>st. open_pair env create st HKEY_LOCAL_MACHINE buff sam) st;
            let (e2, k2, p2, st) = (if e1 \<noteq> ERROR_SUCCESS then (e1, None, None, st)
                  else optional_pair (may dwOptions APXREG_USER)
                    (\<lambda>st. open_pair env create st HKEY_CURRENT_USER buff sam) st);
            let (e3, k3, p3, st) = (if e2 \<noteq> ERROR_SUCCESS then (e2, None, None, st)
                  else optional_pair (may dwOptions APXREG_SERVICE)
                    (\<lambda>st. open_pair env False st HKEY_LOCAL_MACHINE (REGSERVICE_ROOT @ name) sam) st);
            Some (if e3 = ERROR_SUCCESS
                  then (e3, Some \<lparr>hRootKey = k1, hServKey = k3, hUserKey = k2, hCurrKey = None,
                                  hRparamKey = p1, hSparamKey = p3, hUparamKey = p2, samOptions = sam\<rparr>, st)
                  else (e3, None, fold safe_close [p1, p3, p2, k1, k3, k2] st)) })"

text \<open>
  \<open>apxDeleteRegistryRecursive\<close>: a call, and its loop over the first subkey of the key it has
  opened. If the enumeration failed in another way than by running out of keys, the code
  would go on with a name nobody has stored; this has no value.
\<close>

datatype delete_job = Delete_key hkey wtext | Delete_subkeys hkey wtext nat

partial_function (option) delete_recursive ::
  "reg_env \<Rightarrow> delete_job \<Rightarrow> registry \<Rightarrow> (winerror \<times> registry) option" where
  "delete_recursive env job st =
     (case job of
        Delete_key h sub \<Rightarrow>
          (case RegDeleteKey env st h sub of
             (ERROR_SUCCESS, st) \<Rightarrow> Some (ERROR_SUCCESS, st)
           | (_, st) \<Rightarrow>
               (case RegOpenKeyEx env st h sub (KEY_ENUMERATE_SUB_KEYS OR KEY_DELETE) of
                  (Inl e, st) \<Rightarrow> Some (if e = ERROR_FILE_NOT_FOUND then ERROR_SUCCESS else e, st)
                | (Inr k, st) \<Rightarrow>
                    Option.bind (delete_recursive env (Delete_subkeys h sub k) st)
                      (\<lambda>(rc, st). Some (rc, RegCloseKey st k))))
      | Delete_subkeys h sub k \<Rightarrow>
          (case RegEnumKeyEx st k 0 of
             Inl ERROR_NO_MORE_ITEMS \<Rightarrow> Some (RegDeleteKey env st h sub)
           | Inl e \<Rightarrow> None
           | Inr name \<Rightarrow>
               Option.bind (delete_recursive env (Delete_key (Hkey k) name) st)
                 (\<lambda>(rc, st). if rc \<noteq> ERROR_SUCCESS then Some (rc, st)
                             else delete_recursive env (Delete_subkeys h sub k) st)))"

declare delete_recursive.simps [code]

text \<open>One hive; \<open>rv\<close> is the value the function is going to return.\<close>

definition delete_in_hive ::
  "reg_env \<Rightarrow> dword \<Rightarrow> bool \<Rightarrow> wtext \<Rightarrow> wtext \<Rightarrow> hive \<Rightarrow> bool \<times> registry \<Rightarrow> (bool \<times> registry) option" where
  "delete_in_hive env sam bDeleteEmptyRoot buff name v s =
     (case s of (rv, st) \<Rightarrow>
        case RegOpenKeyEx env st (Hive v) REGSOFTWARE_ROOT (KEY_READ OR sam) of
          (Inl e, st) \<Rightarrow> Some (False, st)
        | (Inr software, st) \<Rightarrow> do {
            (rv, st) \<leftarrow>
              (case RegOpenKeyEx env st (Hkey software) buff (sam OR (KEY_ENUMERATE_SUB_KEYS OR KEY_DELETE)) of
                 (Inl e, st) \<Rightarrow> Some (rv, st)
               | (Inr k, st) \<Rightarrow> do {
                   (rc, st) \<leftarrow> delete_recursive env (Delete_key (Hkey k) name) st;
                   Some (rv \<or> rc = ERROR_SUCCESS, RegCloseKey st k) });
            let st = (if bDeleteEmptyRoot then snd (RegDeleteKey env st (Hkey software) buff) else st);
            Some (rv, RegCloseKey st software) })"

definition apxDeleteRegistryW ::
  "reg_env \<Rightarrow> registry \<Rightarrow> wtext option \<Rightarrow> wtext option \<Rightarrow> dword \<Rightarrow> bool \<Rightarrow> (bool \<times> registry) option" where
  "apxDeleteRegistryW env st szRoot szKeyName sam bDeleteEmptyRoot =
     (case szKeyName of
        None \<Rightarrow> Some (False, st)
      | Some name \<Rightarrow>
          if length name > 255 \<or> (case szRoot of None \<Rightarrow> False | Some r \<Rightarrow> length r > 255) then Some (False, st)
          else do {
            buff \<leftarrow> in_buffer 512 ((case szRoot of None \<Rightarrow> REGAPACHE_ROOT | Some r \<Rightarrow> r) @ wide backslash);
            s \<leftarrow> delete_in_hive env sam bDeleteEmptyRoot buff name HKEY_LOCAL_MACHINE (True, st);
            delete_in_hive env sam bDeleteEmptyRoot buff name HKEY_CURRENT_USER s })"

section \<open>Java's keys\<close>

definition JRE_REGKEY :: wtext where
  "JRE_REGKEY = wide (''SOFTWARE'' @ backslash @ ''JavaSoft'' @ backslash @ ''Java Runtime Environment'' @ backslash)"
definition JDK_REGKEY :: wtext where
  "JDK_REGKEY = wide (''SOFTWARE'' @ backslash @ ''JavaSoft'' @ backslash @ ''Java Development Kit'' @ backslash)"
definition JAVA_CURRENT :: wtext where "JAVA_CURRENT = wide ''CurrentVersion''"
definition JAVA_RUNTIME :: wtext where "JAVA_RUNTIME = wide ''RuntimeLib''"
definition JAVA_HOME :: wtext where "JAVA_HOME = wide ''JAVA_HOME''"
definition JAVAHOME :: wtext where "JAVAHOME = wide ''JavaHome''"

text \<open>
  The key of the current version: the value \<open>CurrentVersion\<close>, at most \<open>room\<close> bytes of any type,
  is stored behind the text of the key in \<open>wsBuf\<close> (\<open>stack\<close> is its old contents), and the
  result opened. \<open>Some None\<close> is the early return.
\<close>

definition current_version_key ::
  "reg_env \<Rightarrow> wtext \<Rightarrow> registry \<Rightarrow> wtext \<Rightarrow> nat \<Rightarrow> (nat option \<times> registry) option" where
  "current_version_key env stack st base room =
     (case RegOpenKeyEx env st (Hive HKEY_LOCAL_MACHINE) base KEY_READ of
        (Inl e, st) \<Rightarrow> Some (None, st)
      | (Inr k, st) \<Rightarrow>
          (case RegQueryValueEx env st k JAVA_CURRENT of
             Inl e \<Rightarrow> Some (None, RegCloseKey st k)
           | Inr (type, data) \<Rightarrow>
               if length data > room then Some (None, RegCloseKey st k)
               else do {
                 let old = le16 (0 # drop (Suc (length base)) (take 512 stack));
                 let wsBuf = base @ unle16 (data @ drop (length data) old);
                 _ \<leftarrow> wlen wsBuf;
                 Some (case RegOpenKeyEx env (RegCloseKey st k) (Hive HKEY_LOCAL_MACHINE)
                              (text_of wsBuf) KEY_READ of
                         (Inl e, st) \<Rightarrow> (None, st) | (Inr k, st) \<Rightarrow> (Some k, st)) }))"

definition apxGetJavaSoftHome ::
  "reg_env \<Rightarrow> get_env \<Rightarrow> wtext \<Rightarrow> registry \<Rightarrow> environment \<Rightarrow> bool
     \<Rightarrow> (wtext option \<times> registry \<times> environment) option" where
  "apxGetJavaSoftHome env gev stack st vars bPreferJre = do {
     home \<leftarrow> (if bPreferJre then Some None else apxGetEnvironmentVariableW gev (heap env) vars JAVA_HOME);
     (case home of
        Some h \<Rightarrow> Some (Some h, st, vars)
      | None \<Rightarrow> do {
          (k, st) \<leftarrow> current_version_key env stack st (if bPreferJre then JRE_REGKEY else JDK_REGKEY) 255;
          (case k of
             None \<Rightarrow> Some (None, st, vars)
           | Some k \<Rightarrow>
               (case getRegistrySzW env st k JAVAHOME of
                  None \<Rightarrow> Some (None, RegCloseKey st k, vars)
                | Some h \<Rightarrow> Some (Some h, RegCloseKey st k, vars(JAVA_HOME \<mapsto> text_of h)))) }) }"

definition apxGetJavaSoftRuntimeLib ::
  "reg_env \<Rightarrow> wtext \<Rightarrow> registry \<Rightarrow> (wtext option \<times> registry) option" where
  "apxGetJavaSoftRuntimeLib env stack st = do {
     (k, st) \<leftarrow> current_version_key env stack st JRE_REGKEY 256;
     Some (case k of
             None \<Rightarrow> (None, st)
           | Some k \<Rightarrow> (getRegistrySzW env st k JAVA_RUNTIME, RegCloseKey st k)) }"

section \<open>Services\<close>

definition REGSERVICE_START :: wtext where "REGSERVICE_START = wide ''Start''"
definition REGSERVICE_USER :: wtext where "REGSERVICE_USER = wide ''ObjectName''"
definition REGDESCRIPTION :: wtext where "REGDESCRIPTION = wide ''Description''"
definition CONTROL_REGKEY :: wtext where
  "CONTROL_REGKEY = wide (''SYSTEM'' @ backslash @ ''CurrentControlSet'' @ backslash @ ''Control'')"
definition REGTIMEOUT :: wtext where "REGTIMEOUT = wide ''WaitToKillServiceTimeout''"

text \<open>\<open>__apxGetRegistryStrW\<close>: \<open>room\<close> is taken as a number of bytes; a refused value leaves the buffer.\<close>

definition getRegistryStrW :: "reg_env \<Rightarrow> registry \<Rightarrow> nat \<Rightarrow> wtext \<Rightarrow> wtext \<Rightarrow> nat \<Rightarrow> bool \<times> wtext" where
  "getRegistryStrW env st k name buf room =
     (case RegQueryValueEx env st k name of
        Inl e \<Rightarrow> (False, buf)
      | Inr (type, data) \<Rightarrow>
          if length data > room then (False, buf)
          else (type = REG_SZ, unle16 (data @ drop (length data) (le16 buf))))"

record regenum =
  hServicesKey :: "nat option"
  cSubKeys :: nat
  dwIndex :: nat

record servname =
  szServiceName :: wtext
  szServiceDescription :: wtext
  szObjectName :: wtext
  dwStart :: dword

definition apxRegistryEnumServices ::
  "reg_env \<Rightarrow> registry \<Rightarrow> regenum \<Rightarrow> servname \<Rightarrow> bool \<times> registry \<times> regenum \<times> servname" where
  "apxRegistryEnumServices env st en ent =
     (let (start, st, en) =
        (case hServicesKey en of
           Some k \<Rightarrow> (Some k, st, en)
         | None \<Rightarrow>
             (case RegOpenKeyEx env st (Hive HKEY_LOCAL_MACHINE) REGSERVICE_ROOT KEY_READ of
                (Inl e, st) \<Rightarrow> (None, st, en)
              | (Inr k, st) \<Rightarrow>
                  let names = (case map_of (opened st) k of None \<Rightarrow> [] | Some (p, _) \<Rightarrow> subkey_names st p);
                      en = en\<lparr>hServicesKey := Some k, cSubKeys := length names\<rparr>
                  in if list_ex (\<lambda>n. length n > 256) names
                     then (None, RegCloseKey st k, en\<lparr>hServicesKey := None\<rparr>)
                     else (Some k, st, en)))
      in case start of
           None \<Rightarrow> (False, st, en, ent)
         | Some k \<Rightarrow>
             let stop = (\<lambda>en ent. (False, RegCloseKey st k, en\<lparr>hServicesKey := None\<rparr>, ent))
             in if cSubKeys en \<le> dwIndex en then stop en ent
                else (case RegEnumKeyEx st k (dwIndex en) of
                        Inl e \<Rightarrow> stop (en\<lparr>dwIndex := Suc (dwIndex en)\<rparr>) ent
                      | Inr name \<Rightarrow>
                          let en = en\<lparr>dwIndex := Suc (dwIndex en)\<rparr>;
                              ent = ent\<lparr>szServiceName := name\<rparr>
                          in if length name \<ge> 256 then stop en ent
                             else (case RegOpenKeyEx env st (Hkey k) name KEY_READ of
                               (Inl e, st') \<Rightarrow> stop en ent
                             | (Inr h, st') \<Rightarrow>
                                 let d = snd (getRegistryStrW env st' h REGDESCRIPTION (szServiceDescription ent) 1024);
                                     u = snd (getRegistryStrW env st' h REGSERVICE_USER (szObjectName ent) 256)
                                 in (True, RegCloseKey st' h, en,
                                     ent\<lparr>szServiceDescription := d, szObjectName := u,
                                         dwStart := getRegistryDwordW env st' h REGSERVICE_START\<rparr>))))"

text \<open>
  \<open>apxGetServiceDescriptionW\<close> and \<open>apxGetServiceUserW\<close> with the name of the value; the array
  for the key has 256 characters.
\<close>

definition get_service_text ::
  "reg_env \<Rightarrow> registry \<Rightarrow> wtext \<Rightarrow> wtext \<Rightarrow> wtext \<Rightarrow> nat \<Rightarrow> (bool \<times> wtext \<times> registry) option" where
  "get_service_text env st value name buf chars =
     (if length name > 255 then Some (False, buf, st)
      else do {
        wcName \<leftarrow> in_buffer 256 (REGSERVICE_ROOT @ name);
        Some (case RegOpenKeyEx env st (Hive HKEY_LOCAL_MACHINE) wcName KEY_READ of
                (Inl e, st) \<Rightarrow> (False, buf, st)
              | (Inr k, st) \<Rightarrow>
                  (case getRegistryStrW env st k value buf (2 * chars) of (ok, buf) \<Rightarrow>
                     (ok, buf, RegCloseKey st k))) })"

definition apxGetServiceDescriptionW ::
  "reg_env \<Rightarrow> registry \<Rightarrow> wtext \<Rightarrow> wtext \<Rightarrow> nat \<Rightarrow> (bool \<times> wtext \<times> registry) option" where
  "apxGetServiceDescriptionW env st = get_service_text env st REGDESCRIPTION"

definition apxGetServiceUserW ::
  "reg_env \<Rightarrow> registry \<Rightarrow> wtext \<Rightarrow> wtext \<Rightarrow> nat \<Rightarrow> (bool \<times> wtext \<times> registry) option" where
  "apxGetServiceUserW env st = get_service_text env st REGSERVICE_USER"

text \<open>The value is read without asking whether there is one.\<close>

definition apxGetMaxServiceTimeout :: "reg_env \<Rightarrow> registry \<Rightarrow> (dword \<times> registry) option" where
  "apxGetMaxServiceTimeout env st =
     (case RegOpenKeyEx env st (Hive HKEY_LOCAL_MACHINE) CONTROL_REGKEY KEY_READ of
        (Inl e, st) \<Rightarrow> Some (20000, st)
      | (Inr k, st) \<Rightarrow> do {
          s \<leftarrow> getRegistrySzW env st k REGTIMEOUT;
          c \<leftarrow> get s 0;
          n \<leftarrow> (if c \<noteq> 0 then apxAtoulW (Some s) else Some 20000);
          Some (n, RegCloseKey st k) })"

end
