(* ===== verification/Registry_Facts.thy ===== *)
theory Registry_Facts
  imports Win_Registry
begin

text \<open>
  Facts about the registry access of \<open>Win_Registry\<close>: what the accessors store and return,
  that no handle is lost, and what the deletion of a tree does.
\<close>

section \<open>Laws of the calls\<close>

lemma reg_get_key_curr [simp]: "reg_get_key (r\<lparr>hCurrKey := c\<rparr>) w = reg_get_key r w"
  by (simp add: reg_get_key_def)

lemma safe_close_simps [simp]:
  "keys (safe_close c st) = keys st" "fresh_handle (safe_close c st) = fresh_handle st"
  "c \<noteq> Some h \<Longrightarrow> map_of (opened (safe_close c st)) h = map_of (opened st) h"
  by (auto simp: safe_close_def RegCloseKey_def delete_conv' split: option.splits)

text \<open>What is stored for a name in a key.\<close>

definition stored :: "registry \<Rightarrow> regkey \<times> wtext \<Rightarrow> (dword \<times> byte list) option" where
  "stored st = (\<lambda>(k, n). Option.bind (map_of (keys st) k) (\<lambda>vs. map_of vs n))"

definition place_of :: "reg_env \<Rightarrow> dword \<Rightarrow> regkey \<Rightarrow> wtext option \<Rightarrow> wtext \<Rightarrow> regkey \<times> wtext" where
  "place_of env sam k sub name =
     (case sub of None \<Rightarrow> k | Some s \<Rightarrow> below env (may sam KEY_WOW64_32KEY) k (path_names s),
      fold_name env name)"

definition open_env :: "reg_env \<Rightarrow> bool" where
  "open_env env \<longleftrightarrow> denied env = (\<lambda>_ _. False)"

text \<open>An object whose key for the kind of access \<open>w\<close> is the existing key \<open>k\<close>.\<close>

definition usable :: "registry \<Rightarrow> apxreg \<Rightarrow> dword \<Rightarrow> regkey \<Rightarrow> bool" where
  "usable st r w k \<longleftrightarrow>
     (\<exists>h. reg_get_key r w = Some h \<and> hCurrKey r \<noteq> Some h \<and> h < fresh_handle st \<and>
          map_of (opened st) h = Some (k, samOptions r) \<and> map_of (keys st) k \<noteq> None)"

text \<open>The keys an object has stay usable, with the same rights.\<close>

definition keeps_access :: "registry \<Rightarrow> apxreg \<Rightarrow> registry \<Rightarrow> apxreg \<Rightarrow> bool" where
  "keeps_access st r st' r' \<longleftrightarrow>
     samOptions r' = samOptions r \<and> (\<forall>w k. usable st r w k \<longrightarrow> usable st' r' w k)"

lemma keeps_accessD:
  "keeps_access st r st' r' \<Longrightarrow> samOptions r' = samOptions r"
  "keeps_access st r st' r' \<Longrightarrow> usable st r w k \<Longrightarrow> usable st' r' w k"
  unfolding keeps_access_def by blast+

lemma keeps_access_trans:
  "keeps_access st r st1 r1 \<Longrightarrow> keeps_access st1 r1 st2 r2 \<Longrightarrow> keeps_access st r st2 r2"
  by (simp add: keeps_access_def)

lemma keeps_access_refl: "keeps_access st r st r"
  by (simp add: keeps_access_def)

lemma stored_keys: "keys st = keys st' \<Longrightarrow> stored st = stored st'"
  by (simp add: stored_def)

lemma with_key_lookup:
  "map_of (with_key k ks) k' = (if k' = k \<and> map_of ks k = None then Some [] else map_of ks k')"
  by (auto simp: with_key_def)

lemma fold_with_key_lookup:
  "map_of (fold with_key ps ks) k =
     (if map_of ks k = None \<and> k \<in> set ps then Some [] else map_of ks k)"
  by (induction ps arbitrary: ks) (auto simp: with_key_lookup)

lemma stored_with_keys: "stored (st\<lparr>keys := fold with_key ps (keys st)\<rparr>) = stored st"
  by (auto simp: stored_def fold_with_key_lookup fun_eq_iff)

lemma key_in_prefixes: "k \<in> set (key_prefixes k)"
  by (cases k) (auto simp: key_prefixes_def image_iff)

lemma stored_with_current [simp]: "stored (safe_close c st) = stored st"
  by (simp add: stored_def)

lemma safe_close_same_keys [simp]: "(safe_close c st)\<lparr>keys := keys st\<rparr> = safe_close c st"
  using safe_close_simps(1) [of c st] by (cases "safe_close c st") simp

lemma usable_closed:
  assumes "usable st r w k"
  shows "usable (safe_close (hCurrKey r) st) (r\<lparr>hCurrKey := None\<rparr>) w k"
  using assms by (auto simp: usable_def)

lemma usable_new:
  assumes "usable st r w k" "\<And>k. map_of (keys st) k \<noteq> None \<Longrightarrow> map_of ks k \<noteq> None"
  shows "usable (snd (new_handle ((safe_close (hCurrKey r) st)\<lparr>keys := ks\<rparr>) k' sam))
    (r\<lparr>hCurrKey := Some (fresh_handle st)\<rparr>) w k"
proof -
  obtain h where h: "reg_get_key r w = Some h" "hCurrKey r \<noteq> Some h" "h < fresh_handle st"
    "map_of (opened st) h = Some (k, samOptions r)" "map_of (keys st) k \<noteq> None"
    using assms(1) by (auto simp: usable_def)
  with assms(2) [of k] show ?thesis
    unfolding usable_def by (intro exI [of _ h]) (simp add: new_handle_def)
qed

text \<open>
  What an accessor finds: a handle of the subkey. For writing it always exists; for reading it
  may not, and then nothing is stored there.
\<close>

lemma accessed_for_writing:
  assumes "open_env env" "usable st r w k"
  obtains h' st' r' where "accessed_key env True st r w sub = (Some h', st', r')"
    and "map_of (opened st') h' = Some (fst (place_of env (samOptions r) k sub n), samOptions r)"
    and "map_of (keys st') (fst (place_of env (samOptions r) k sub n)) \<noteq> None"
    and "stored st' = stored st" "keeps_access st r st' r'"
proof -
  obtain h where h: "reg_get_key r w = Some h" "hCurrKey r \<noteq> Some h" "h < fresh_handle st"
    "map_of (opened st) h = Some (k, samOptions r)" "map_of (keys st) k \<noteq> None"
    using assms(2) by (auto simp: usable_def)
  show thesis
  proof (cases sub)
    case None
    show thesis
      by (rule that [of h st r])
         (use h None in \<open>simp_all add: accessed_key_def place_of_def keeps_access_refl\<close>)
  next
    case (Some s)
    let ?k = "below env (may (samOptions r) KEY_WOW64_32KEY) k (path_names s)"
    let ?st = "safe_close (hCurrKey r) st"
    let ?st1 = "?st\<lparr>keys := fold with_key (key_prefixes ?k) (keys ?st)\<rparr>"
    let ?st2 = "snd (new_handle ?st1 ?k (samOptions r))"
    show thesis
    proof (rule that)
      show "accessed_key env True st r w sub =
          (Some (fresh_handle st), ?st2, r\<lparr>hCurrKey := Some (fresh_handle st)\<rparr>)"
        using h assms(1) Some
        by (simp add: accessed_key_def RegCreateKeyEx_def key_at_def base_of_def open_env_def
            new_handle_def Let_def)
      show "map_of (opened ?st2) (fresh_handle st) =
          Some (fst (place_of env (samOptions r) k sub n), samOptions r)"
        using Some by (simp add: new_handle_def place_of_def)
      show "map_of (keys ?st2) (fst (place_of env (samOptions r) k sub n)) \<noteq> None"
        using Some key_in_prefixes by (simp add: new_handle_def place_of_def fold_with_key_lookup)
      have "stored ?st2 = stored ?st1" by (rule stored_keys) (simp add: new_handle_def)
      then show "stored ?st2 = stored st" by (simp add: stored_with_keys del: safe_close_simps(1))
      show "keeps_access st r ?st2 (r\<lparr>hCurrKey := Some (fresh_handle st)\<rparr>)"
        by (simp add: keeps_access_def usable_new fold_with_key_lookup)
    qed
  qed
qed

lemma accessed_for_reading:
  assumes "open_env env" "usable st r w k"
  obtains h' st' r' where "accessed_key env False st r w sub = (Some h', st', r')"
      and "map_of (opened st') h' = Some (fst (place_of env (samOptions r) k sub n), samOptions r)"
      and "keys st' = keys st" "keeps_access st r st' r'"
  | st' r' where "accessed_key env False st r w sub = (None, st', r')"
      and "stored st (place_of env (samOptions r) k sub n) = None"
      and "keys st' = keys st" "keeps_access st r st' r'"
proof -
  obtain h where h: "reg_get_key r w = Some h" "hCurrKey r \<noteq> Some h" "h < fresh_handle st"
    "map_of (opened st) h = Some (k, samOptions r)" "map_of (keys st) k \<noteq> None"
    using assms(2) by (auto simp: usable_def)
  show thesis
  proof (cases sub)
    case None
    show thesis
      by (rule that(1) [of h st r])
         (use h None in \<open>simp_all add: accessed_key_def place_of_def keeps_access_refl\<close>)
  next
    case (Some s)
    let ?k = "below env (may (samOptions r) KEY_WOW64_32KEY) k (path_names s)"
    let ?st = "safe_close (hCurrKey r) st"
    let ?st2 = "snd (new_handle ?st ?k (samOptions r))"
    show thesis
    proof (cases "map_of (keys st) ?k = None")
      case True
      have "accessed_key env False st r w sub = (None, ?st, r\<lparr>hCurrKey := None\<rparr>)"
        using h True Some
        by (simp add: accessed_key_def RegOpenKeyEx_def key_at_def base_of_def Let_def)
      moreover have "stored st (place_of env (samOptions r) k sub n) = None"
        using True Some by (simp add: stored_def place_of_def)
      moreover have "keeps_access st r ?st (r\<lparr>hCurrKey := None\<rparr>)"
        by (simp add: keeps_access_def usable_closed)
      ultimately show thesis
        by - (rule that(2) [of ?st "r\<lparr>hCurrKey := None\<rparr>"], simp_all)
    next
      case False
      then have "accessed_key env False st r w sub =
          (Some (fresh_handle st), ?st2, r\<lparr>hCurrKey := Some (fresh_handle st)\<rparr>)"
        using h assms(1) Some
        by (simp add: accessed_key_def RegOpenKeyEx_def key_at_def base_of_def open_env_def
            new_handle_def Let_def)
      moreover have "keeps_access st r ?st2 (r\<lparr>hCurrKey := Some (fresh_handle st)\<rparr>)"
        using usable_new [of st r _ _ "keys st"] by (simp add: keeps_access_def)
      moreover have "map_of (opened ?st2) (fresh_handle st) =
          Some (fst (place_of env (samOptions r) k sub n), samOptions r)" "keys ?st2 = keys st"
        using Some by (simp_all add: new_handle_def place_of_def)
      ultimately show thesis
        by - (rule that(1) [of "fresh_handle st" ?st2 "r\<lparr>hCurrKey := Some (fresh_handle st)\<rparr>"], simp_all)
    qed
  qed
qed

text \<open>Writing a value, and what the readers return.\<close>

lemma write_stored:
  assumes "open_env env" "usable st r w k" "may (samOptions r) KEY_SET_VALUE"
  obtains st' r' where
    "set_value env st r w sub (\<lambda>st h. RegSetValueEx env st h n t d) = (True, st', r')"
    "stored st' = (stored st)(place_of env (samOptions r) k sub n := Some (t, d))"
    "keeps_access st r st' r'"
proof -
  let ?p = "place_of env (samOptions r) k sub n"
  obtain h' st1 r' where acc: "accessed_key env True st r w sub = (Some h', st1, r')"
    and h': "map_of (opened st1) h' = Some (fst ?p, samOptions r)" "map_of (keys st1) (fst ?p) \<noteq> None"
    and st1: "stored st1 = stored st" "keeps_access st r st1 r'"
    by (rule accessed_for_writing [OF assms(1,2), where n = n and sub = sub])
  from h'(2) obtain vs where vs: "map_of (keys st1) (fst ?p) = Some vs" by blast
  let ?st2 = "st1\<lparr>keys := AList.update (fst ?p) (AList.update (fold_name env n) (t, d) vs) (keys st1)\<rparr>"
  have "set_value env st r w sub (\<lambda>st h. RegSetValueEx env st h n t d) = (True, ?st2, r')"
    using acc h' vs assms(3) by (simp add: set_value_def RegSetValueEx_def change_values_def)
  moreover have "stored ?st2 = (stored st)(?p := Some (t, d))"
    using vs unfolding st1(1) [symmetric]
    by (auto simp: stored_def update_conv' fun_eq_iff place_of_def)
  moreover have "keeps_access st1 r' ?st2 r'"
    by (auto simp: keeps_access_def usable_def update_conv')
  ultimately show thesis using keeps_access_trans [OF st1(2)] by (intro that) simp_all
qed

lemma delete_stored:
  assumes "open_env env" "usable st r w k" "may (samOptions r) KEY_SET_VALUE"
  obtains b st' r' where
    "set_value env st r w sub (\<lambda>st h. RegDeleteValue env st h n) = (b, st', r')"
    "stored st' = (stored st)(place_of env (samOptions r) k sub n := None)"
    "keeps_access st r st' r'"
proof -
  let ?p = "place_of env (samOptions r) k sub n"
  obtain h' st1 r' where acc: "accessed_key env True st r w sub = (Some h', st1, r')"
    and h': "map_of (opened st1) h' = Some (fst ?p, samOptions r)" "map_of (keys st1) (fst ?p) \<noteq> None"
    and st1: "stored st1 = stored st" "keeps_access st r st1 r'"
    by (rule accessed_for_writing [OF assms(1,2), where n = n and sub = sub])
  from h'(2) obtain vs where vs: "map_of (keys st1) (fst ?p) = Some vs" by blast
  show thesis
  proof (cases "map_of vs (fold_name env n) = None")
    case True
    have "set_value env st r w sub (\<lambda>st h. RegDeleteValue env st h n) = (False, st1, r')"
      using acc h' vs assms(3) True by (simp add: set_value_def RegDeleteValue_def change_values_def)
    moreover have "stored st1 = (stored st)(?p := None)"
      using vs True unfolding st1(1) [symmetric] by (auto simp: stored_def fun_eq_iff place_of_def)
    ultimately show thesis using st1(2) by (rule that)
  next
    case False
    let ?st2 = "st1\<lparr>keys := AList.update (fst ?p) (AList.delete (fold_name env n) vs) (keys st1)\<rparr>"
    have "set_value env st r w sub (\<lambda>st h. RegDeleteValue env st h n) = (True, ?st2, r')"
      using acc h' vs assms(3) False by (auto simp: set_value_def RegDeleteValue_def change_values_def)
    moreover have "stored ?st2 = (stored st)(?p := None)"
      using vs unfolding st1(1) [symmetric]
      by (auto simp: stored_def update_conv' delete_conv' fun_eq_iff place_of_def)
    moreover have "keeps_access st1 r' ?st2 r'"
      by (auto simp: keeps_access_def usable_def update_conv')
    ultimately show thesis using keeps_access_trans [OF st1(2)] by (intro that) simp_all
  qed
qed

section \<open>Values as bytes\<close>

lemma le16_simps [simp]: "le16 [] = []" "le16 (c # s) = ucast c # ucast (drop_bit 8 c) # le16 s"
  by (simp_all add: le16_def bytes_le_def upt_rec)

lemma le16_append [simp]: "le16 (s @ t) = le16 s @ le16 t"
  by (simp add: le16_def)

lemma length_le16 [simp]: "length (le16 s) = 2 * length s"
  by (induction s) auto

lemma two_bytes: "(ucast (ucast c :: byte) OR push_bit 8 (ucast (ucast (drop_bit 8 c) :: byte))) = (c :: wchar)"
  by (rule bit_word_eqI) (auto simp: bit_simps)

lemma unle16_le16 [simp]: "unle16 (le16 s @ r) = s @ unle16 r"
  by (induction s) (simp_all add: two_bytes)

lemma unle16_le16' [simp]: "unle16 (le16 s) = s"
  using unle16_le16 [of s "[]"] by simp

lemma drop_le16 [simp]: "drop (2 * n) (le16 s) = le16 (drop n s)"
proof (induction n arbitrary: s)
  case (Suc n)
  then show ?case by (cases s) simp_all
qed simp

lemma unle32_bytes: "unle32 (bytes_le 4 n) = n"
proof -
  have "[0..<4] = [0, 1, 2, 3]" by (simp add: upt_rec)
  then have "unle32 (bytes_le 4 n) = push_bit 8 (push_bit 8 (push_bit 8 (push_bit 8 0 OR
      ucast (ucast (drop_bit 24 n) :: byte)) OR ucast (ucast (drop_bit 16 n) :: byte)) OR
      ucast (ucast (drop_bit 8 n) :: byte)) OR ucast (ucast n :: byte)"
    by (simp add: unle32_def bytes_le_def)
  also have "\<dots> = n"
  proof (rule bit_word_eqI)
    fix i :: nat
    assume "i < LENGTH(32)"
    then consider "i < 8" | "8 \<le> i" "i < 16" | "16 \<le> i" "i < 24" | "24 \<le> i" "i < 32" by force
    then show "bit (push_bit 8 (push_bit 8 (push_bit 8 (push_bit 8 0 OR
        ucast (ucast (drop_bit 24 n) :: byte)) OR ucast (ucast (drop_bit 16 n) :: byte)) OR
        ucast (ucast (drop_bit 8 n) :: byte)) OR ucast (ucast n :: byte) :: dword) i = bit n i"
      by cases (auto simp: bit_simps)
  qed
  finally show ?thesis .
qed

section \<open>What the readers return\<close>

lemma read_query:
  assumes "open_env env" "usable st r w k" "may (samOptions r) KEY_QUERY_VALUE"
  obtains h' st' r' where "accessed_key env False st r w sub = (Some h', st', r')"
      and "RegQueryValueEx env st' h' n =
        (case stored st (place_of env (samOptions r) k sub n) of
           None \<Rightarrow> Inl ERROR_FILE_NOT_FOUND | Some tv \<Rightarrow> Inr tv)"
      and "keys st' = keys st" "keeps_access st r st' r'"
  | st' r' where "accessed_key env False st r w sub = (None, st', r')"
      and "stored st (place_of env (samOptions r) k sub n) = None"
      and "keys st' = keys st" "keeps_access st r st' r'"
proof (rule accessed_for_reading [OF assms(1,2), where n = n and sub = sub], goal_cases)
  case (1 h' st' r')
  then have "RegQueryValueEx env st' h' n = (case stored st (place_of env (samOptions r) k sub n) of
      None \<Rightarrow> Inl ERROR_FILE_NOT_FOUND | Some tv \<Rightarrow> Inr tv)"
    using assms(3) by (auto simp: RegQueryValueEx_def stored_def place_of_def split: option.split)
  with 1 show ?case by (intro that(1)) simp_all
next
  case (2 st' r')
  then show ?case by (intro that(2)) simp_all
qed

definition string_result :: "reg_env \<Rightarrow> (dword \<times> byte list) option \<Rightarrow> wtext option" where
  "string_result env tv =
     (case tv of
        None \<Rightarrow> None
      | Some (t, d) \<Rightarrow>
          if t \<noteq> REG_SZ then None
          else Some (unle16 (d @ drop (length d) (le16 (take (length d) (heap env (length d)))))))"

definition number_result :: "(dword \<times> byte list) option \<Rightarrow> dword" where
  "number_result tv =
     (case tv of None \<Rightarrow> 0 | Some (t, d) \<Rightarrow> if length d > 4 \<or> t \<noteq> REG_DWORD then 0 else unle32 d)"

definition multi_result :: "(dword \<times> byte list) option \<Rightarrow> dword \<Rightarrow> wtext option \<times> dword" where
  "multi_result tv len =
     (case tv of
        None \<Rightarrow> (None, len)
      | Some (t, d) \<Rightarrow> if d = [] then (None, len) else (Some (unle16 d), word_of_nat (length d) * 2))"

lemma get_string_stored:
  assumes "open_env env" "usable st r w k" "may (samOptions r) KEY_QUERY_VALUE"
  shows "\<exists>st' r'. apxRegistryGetStringW env st r w sub n =
      (string_result env (stored st (place_of env (samOptions r) k sub n)), st', r')
    \<and> keys st' = keys st \<and> keeps_access st r st' r'"
  by (rule read_query [OF assms, of sub n])
     (auto simp: apxRegistryGetStringW_def getRegistrySzW_def string_result_def split: option.split)

lemma get_number_stored:
  assumes "open_env env" "usable st r w k" "may (samOptions r) KEY_QUERY_VALUE"
  shows "\<exists>st' r'. apxRegistryGetNumberW env st r w sub n =
      (number_result (stored st (place_of env (samOptions r) k sub n)), st', r')
    \<and> keys st' = keys st \<and> keeps_access st r st' r'"
  by (rule read_query [OF assms, of sub n])
     (auto simp: apxRegistryGetNumberW_def number_result_def split: option.split)

lemma get_multi_stored:
  assumes "open_env env" "usable st r w k" "may (samOptions r) KEY_QUERY_VALUE"
  shows "\<exists>st' r'. apxRegistryGetMzStrW env st r w sub n None len =
      (fst (multi_result (stored st (place_of env (samOptions r) k sub n)) len),
       snd (multi_result (stored st (place_of env (samOptions r) k sub n)) len), st', r')
    \<and> keys st' = keys st \<and> keeps_access st r st' r'"
  by (rule read_query [OF assms, of sub n])
     (auto simp: apxRegistryGetMzStrW_def getRegistryBinaryW_def multi_result_def split: option.split)

text \<open>A text that was written is read back up to its terminator.\<close>

lemma string_result_text:
  "0 \<notin> set s \<Longrightarrow> \<exists>b. string_result env (Some (REG_SZ, le16 (s @ [0]))) = Some b \<and> text_of b = s"
proof -
  assume "0 \<notin> set s"
  let ?d = "le16 (s @ [0])"
  have "unle16 (?d @ r) = s @ 0 # unle16 r" for r
    using unle16_le16 [of "s @ [0]" r] by simp
  then show ?thesis using \<open>0 \<notin> set s\<close>
    by (simp add: string_result_def text_of_terminated del: le16_append)
qed

section \<open>Handles\<close>

definition handles_fresh :: "registry \<Rightarrow> bool" where
  "handles_fresh st \<longleftrightarrow> (\<forall>(h, _) \<in> set (opened st). h < fresh_handle st)"

definition key_vars :: "apxreg \<Rightarrow> nat option list" where
  "key_vars r = [hCurrKey r, hRparamKey r, hSparamKey r, hUparamKey r, hRootKey r, hServKey r, hUserKey r]"

text \<open>The handles that are left when the object is closed.\<close>

definition others :: "registry \<Rightarrow> nat option list \<Rightarrow> (nat \<times> regkey \<times> dword) list" where
  "others st vars = filter (\<lambda>(h, _). Some h \<notin> set vars) (opened st)"

lemma opened_safe_close: "opened (safe_close c st) = filter (\<lambda>(h, _). Some h \<noteq> c) (opened st)"
  by (cases c) (auto simp: safe_close_def RegCloseKey_def AList.delete_eq split_beta intro!: filter_cong)

lemma opened_fold_close: "opened (fold safe_close vars st) = others st vars"
proof (induction vars arbitrary: st)
  case (Cons c vars)
  then show ?case
    by (auto simp: others_def opened_safe_close split_beta intro!: filter_cong)
qed (simp add: others_def split_beta)

lemma opened_close: "opened (fst (registry_callback_close st r)) = others st (key_vars r)"
  unfolding registry_callback_close_def key_vars_def fst_conv by (rule opened_fold_close)

lemma others_curr:
  assumes "handles_fresh st"
  shows "others ((safe_close (hCurrKey r) st)\<lparr>opened := (fresh_handle st, x) # opened (safe_close (hCurrKey r) st)\<rparr>)
      (key_vars (r\<lparr>hCurrKey := Some (fresh_handle st)\<rparr>)) = others st (key_vars r)"
    and "others (safe_close (hCurrKey r) st) (key_vars (r\<lparr>hCurrKey := None\<rparr>)) = others st (key_vars r)"
  using assms
  by (auto simp: others_def opened_safe_close key_vars_def handles_fresh_def split_beta
      intro!: filter_cong)

text \<open>Opening a key, or creating it, gives an error or the next handle.\<close>

lemma open_shape:
  assumes "open_or_create env create st h s sam = (x, st')"
  obtains e where "x = Inl e" "st' = st"
  | k where "x = Inr (fresh_handle st)" "opened st' = (fresh_handle st, k, sam) # opened st"
      "fresh_handle st' = Suc (fresh_handle st)"
proof (cases "key_at env st h s sam")
  case None
  with assms show thesis
    by (intro that(1)) (auto simp: open_or_create_def RegCreateKeyEx_def RegOpenKeyEx_def split: if_splits)
next
  case (Some k)
  with assms have "(\<exists>e. x = Inl e \<and> st' = st) \<or> x = Inr (fresh_handle st) \<and>
      opened st' = (fresh_handle st, k, sam) # opened st \<and> fresh_handle st' = Suc (fresh_handle st)"
    by (auto simp: open_or_create_def RegCreateKeyEx_def RegOpenKeyEx_def new_handle_def
        split: if_splits)
  with that show thesis by blast
qed

lemma others_eq: "opened st = opened st' \<Longrightarrow> others st v = others st' v"
  by (simp add: others_def)

lemma accessed_key_others:
  assumes "handles_fresh st" "accessed_key env create st r w sub = (h, st', r')"
  shows "handles_fresh st' \<and> others st' (key_vars r') = others st (key_vars r)"
proof (cases "reg_get_key r w = None \<or> sub = None")
  case True
  then show ?thesis using assms by (auto simp: accessed_key_def split: option.splits)
next
  case False
  then obtain hk s where hk: "reg_get_key r w = Some hk" "sub = Some s" by auto
  let ?st = "safe_close (hCurrKey r) st"
  have f: "handles_fresh ?st" using assms(1) by (auto simp: handles_fresh_def opened_safe_close)
  obtain x st1 where x: "open_or_create env create ?st (Hkey hk) s (samOptions r) = (x, st1)"
    by fastforce
  then show ?thesis
  proof (cases rule: open_shape)
    case (1 e)
    with x hk assms(2) f others_curr(2) [OF assms(1), of r] show ?thesis
      by (auto simp: accessed_key_def open_or_create_def Let_def split: if_splits)
  next
    case (2 k)
    with x hk assms(2) have "st' = st1" "r' = r\<lparr>hCurrKey := Some (fresh_handle st)\<rparr>"
      by (auto simp: accessed_key_def open_or_create_def Let_def split: if_splits)
    moreover have "handles_fresh st1" using f 2 by (auto simp: handles_fresh_def)
    moreover have "others st1 (key_vars (r\<lparr>hCurrKey := Some (fresh_handle st)\<rparr>)) = others st (key_vars r)"
      unfolding others_curr(1) [OF assms(1), where r = r and x = "(k, samOptions r)", symmetric]
      by (rule others_eq) (simp add: 2)
    ultimately show ?thesis by simp
  qed
qed

text \<open>The calls on an object.\<close>

inductive access :: "reg_env \<Rightarrow> registry \<times> apxreg \<Rightarrow> registry \<times> apxreg \<Rightarrow> bool" for env where
  get_string: "apxRegistryGetStringW env st r w sub n = (x, s) \<Longrightarrow> access env (st, r) s"
| get_number: "apxRegistryGetNumberW env st r w sub n = (y, s) \<Longrightarrow> access env (st, r) s"
| get_binary: "apxRegistryGetBinaryW env st r w sub n room = (z, s) \<Longrightarrow> access env (st, r) s"
| get_multi: "apxRegistryGetMzStrW env st r w sub n room len = (x, len', s) \<Longrightarrow> access env (st, r) s"
| set_binary: "apxRegistrySetBinaryW env st r w sub n d = (b, s) \<Longrightarrow> access env (st, r) s"
| set_multi: "apxRegistrySetMzStrW env st r w sub n t len = Some (b, s) \<Longrightarrow> access env (st, r) s"
| set_string: "apxRegistrySetStrW env st r w sub n v = (b, s) \<Longrightarrow> access env (st, r) s"
| set_number: "apxRegistrySetNumW env st r w sub n m = (b, s) \<Longrightarrow> access env (st, r) s"
| delete_value: "apxRegistryDeleteW env st r w sub n = (b, s) \<Longrightarrow> access env (st, r) s"

definition accounted :: "(nat \<times> regkey \<times> dword) list \<Rightarrow> registry \<times> apxreg \<Rightarrow> bool" where
  "accounted base s \<longleftrightarrow> handles_fresh (fst s) \<and> others (fst s) (key_vars (snd s)) = base"

lemma change_values_opened:
  "change_values st h f = (e, st') \<Longrightarrow> opened st' = opened st \<and> fresh_handle st' = fresh_handle st"
  by (auto simp: change_values_def split: option.splits if_splits sum.splits)

lemma accounted_change:
  "accounted base (st, r) \<Longrightarrow> change_values st h f = (e, st') \<Longrightarrow> accounted base (st', r)"
  by (auto simp: accounted_def handles_fresh_def others_def dest!: change_values_opened)

lemma accessed_key_accounted:
  "accounted base (st, r) \<Longrightarrow> accessed_key env create st r w sub = (h, st', r') \<Longrightarrow>
     accounted base (st', r')"
  using accessed_key_others [of st env create r w sub h st' r'] by (simp add: accounted_def)

lemma set_value_accounted:
  assumes "accounted base (st, r)" "set_value env st r w sub f = (b, s)"
    and "\<And>st h e st'. f st h = (e, st') \<Longrightarrow> \<exists>g. change_values st h g = (e, st')"
  shows "accounted base s"
proof -
  obtain h st1 r1 where acc: "accessed_key env True st r w sub = (h, st1, r1)"
    by (metis prod_cases3)
  with assms(1) have a: "accounted base (st1, r1)" by (rule accessed_key_accounted)
  show ?thesis
  proof (cases h)
    case None
    with acc assms(2) a show ?thesis by (auto simp: set_value_def)
  next
    case (Some k)
    obtain e st2 where f: "f st1 k = (e, st2)" by fastforce
    from assms(3) [OF this] obtain g where "change_values st1 k g = (e, st2)" by blast
    with a have "accounted base (st2, r1)" by (rule accounted_change)
    with acc assms(2) Some f show ?thesis by (auto simp: set_value_def)
  qed
qed

text \<open>A reader leaves the state its access to the key leaves.\<close>

lemma reader_state:
  "apxRegistryGetStringW env st r w sub n = (x, s) \<Longrightarrow> \<exists>h. accessed_key env False st r w sub = (h, s)"
  "apxRegistryGetNumberW env st r w sub n = (y, s) \<Longrightarrow> \<exists>h. accessed_key env False st r w sub = (h, s)"
  "apxRegistryGetBinaryW env st r w sub n room = (z, s) \<Longrightarrow> \<exists>h. accessed_key env False st r w sub = (h, s)"
  "apxRegistryGetMzStrW env st r w sub n room len = (x, len', s) \<Longrightarrow>
     \<exists>h. accessed_key env False st r w sub = (h, s)"
  by (auto simp: apxRegistryGetStringW_def apxRegistryGetNumberW_def apxRegistryGetBinaryW_def
      apxRegistryGetMzStrW_def split: prod.splits option.splits sum.splits)

lemma access_accounted:
  assumes "access env s s'" "accounted base s"
  shows "accounted base s'"
  using assms
proof (cases rule: access.cases)
  case (set_binary st r w sub n d b)
  with assms(2) show ?thesis
    by (auto simp: apxRegistrySetBinaryW_def RegSetValueEx_def intro: set_value_accounted)
next
  case (set_multi st r w sub n t len b)
  with assms(2) show ?thesis
    by (auto simp: apxRegistrySetMzStrW_def RegSetValueEx_def split: if_splits intro: set_value_accounted)
next
  case (set_string st r w sub n v b)
  with assms(2) have "accounted base (st, r)" by simp
  then show ?thesis using set_string(2) unfolding apxRegistrySetStrW_def
    by (rule set_value_accounted) (auto simp: RegSetValueEx_def RegDeleteValue_def split: if_splits)
next
  case (set_number st r w sub n m b)
  with assms(2) show ?thesis
    by (auto simp: apxRegistrySetNumW_def RegSetValueEx_def intro: set_value_accounted)
next
  case (delete_value st r w sub n b)
  obtain h st1 r1 where acc: "accessed_key env False st r w sub = (h, st1, r1)" by (metis prod_cases3)
  with assms(2) delete_value(1) have a: "accounted base (st1, r1)"
    by (simp add: accessed_key_accounted)
  show ?thesis
  proof (cases h)
    case None
    with a acc delete_value show ?thesis by (simp add: apxRegistryDeleteW_def)
  next
    case (Some k)
    obtain e st2 where f: "RegDeleteValue env st1 k n = (e, st2)" by fastforce
    with a have "accounted base (st2, r1)" unfolding RegDeleteValue_def by (rule accounted_change)
    with f acc Some delete_value show ?thesis by (simp add: apxRegistryDeleteW_def)
  qed
next
  case (get_string st r w sub n x)
  with assms(2) reader_state(1) [OF get_string(2)] show ?thesis
    by (cases s') (auto dest: accessed_key_accounted)
next
  case (get_number st r w sub n x)
  with assms(2) reader_state(2) [OF get_number(2)] show ?thesis
    by (cases s') (auto dest: accessed_key_accounted)
next
  case (get_binary st r w sub n room x)
  with assms(2) reader_state(3) [OF get_binary(2)] show ?thesis
    by (cases s') (auto dest: accessed_key_accounted)
next
  case (get_multi st r w sub n room len x len')
  with assms(2) reader_state(4) [OF get_multi(2)] show ?thesis
    by (cases s') (auto dest: accessed_key_accounted)
qed

text \<open>Opening several keys: the state has the handles in \<open>vars\<close> more than before.\<close>

definition gains :: "registry \<Rightarrow> registry \<Rightarrow> nat option list \<Rightarrow> bool" where
  "gains st st' vars \<longleftrightarrow> handles_fresh st' \<and> others st' vars = opened st"

lemma gains_refl: "handles_fresh st \<Longrightarrow> gains st st [None, None]"
  by (simp add: gains_def others_def split_beta)

lemma gains_append:
  assumes "gains st st1 v1" "gains st1 st2 v2"
  shows "gains st st2 (v1 @ v2)"
proof -
  have "others st2 (v1 @ v2) = filter (\<lambda>(h, _). Some h \<notin> set v1) (others st2 v2)"
    by (auto simp: others_def split_beta intro!: filter_cong)
  with assms show ?thesis by (simp add: gains_def others_def)
qed

lemma gains_open:
  assumes "handles_fresh st" "open_or_create env create st h s sam = (x, st')"
  shows "gains st st' [case x of Inl e \<Rightarrow> None | Inr k \<Rightarrow> Some k]"
  using assms(2)
proof (cases rule: open_shape)
  case (1 e)
  with assms(1) show ?thesis by (simp add: gains_def others_def split_beta)
next
  case (2 k)
  moreover have "filter (\<lambda>(h, _). h \<noteq> fresh_handle st) (opened st) = opened st"
    using assms(1) by (intro filter_True) (auto simp: handles_fresh_def)
  ultimately show ?thesis using assms(1)
    by (auto simp: gains_def others_def handles_fresh_def split_beta)
qed

lemma open_pair_gains:
  assumes "handles_fresh st" "open_pair env create st v buff sam = (e, k, p, st')"
  shows "gains st st' [k, p]"
proof -
  obtain x st1 where x: "open_or_create env create st (Hive v) buff sam = (x, st1)" by fastforce
  note g = gains_open [OF assms(1) x]
  show ?thesis
  proof (cases x)
    case (Inl e1)
    with x g assms(2) have "k = None" "p = None" "gains st st' [None]" by (auto simp: open_pair_def)
    then show ?thesis by (simp add: gains_def others_def)
  next
    case (Inr k1)
    obtain y st2 where y: "open_or_create env (may sam KEY_CREATE_SUB_KEY) st1 (Hkey k1) REGPARAMS sam = (y, st2)"
      by fastforce
    from g have "handles_fresh st1" by (simp add: gains_def)
    from gains_append [OF g gains_open [OF this y]] Inr x y assms(2) show ?thesis
      by (cases y) (auto simp: open_pair_def)
  qed
qed

lemma optional_pair_gains:
  assumes "handles_fresh st" "optional_pair b (\<lambda>st. open_pair env create st v buff sam) st = (e, k, p, st')"
  shows "gains st st' [k, p]"
  using assms gains_refl [of st] open_pair_gains [of st env create v buff sam e k p st']
  by (auto simp: optional_pair_def split: if_splits)

lemma create_registry_gains:
  assumes "handles_fresh st" "apxCreateRegistryW env st sam root name opts = Some (e, r, st')"
  shows "case r of None \<Rightarrow> opened st' = opened st | Some r \<Rightarrow> accounted (opened st) (st', r)"
proof (cases "name = None \<or> length (the name) > 255 \<or> (case root of None \<Rightarrow> False | Some r \<Rightarrow> length r > 255)")
  case True
  with assms show ?thesis by (auto simp: apxCreateRegistryW_def split: option.splits if_splits)
next
  case False
  then obtain n where n: "name = Some n" "length n \<le> 255" by (auto simp: not_less)
  let ?root = "case root of None \<Rightarrow> REGAPACHE_ROOT | Some r \<Rightarrow> r"
  let ?buff = "REGSOFTWARE_ROOT @ ?root @ wide backslash @ n"
  define o1 where "o1 = optional_pair (may opts APXREG_SOFTWARE)
      (\<lambda>st. open_pair env (may sam KEY_CREATE_SUB_KEY) st HKEY_LOCAL_MACHINE ?buff sam) st"
  obtain e1 k1 p1 st1 where 1: "o1 = (e1, k1, p1, st1)" by (metis prod_cases4)
  define o2 where "o2 = (if e1 \<noteq> ERROR_SUCCESS then (e1, None, None, st1)
      else optional_pair (may opts APXREG_USER)
        (\<lambda>st. open_pair env (may sam KEY_CREATE_SUB_KEY) st HKEY_CURRENT_USER ?buff sam) st1)"
  obtain e2 k2 p2 st2 where 2: "o2 = (e2, k2, p2, st2)" by (metis prod_cases4)
  define o3 where "o3 = (if e2 \<noteq> ERROR_SUCCESS then (e2, None, None, st2)
      else optional_pair (may opts APXREG_SERVICE)
        (\<lambda>st. open_pair env False st HKEY_LOCAL_MACHINE (REGSERVICE_ROOT @ n) sam) st2)"
  obtain e3 k3 p3 st3 where 3: "o3 = (e3, k3, p3, st3)" by (metis prod_cases4)
  have g1: "gains st st1 [k1, p1]"
    using 1 assms(1) unfolding o1_def by (blast intro: optional_pair_gains)
  then have f1: "handles_fresh st1" by (simp add: gains_def)
  have g2: "gains st1 st2 [k2, p2]"
    using 2 f1 gains_refl [OF f1] unfolding o2_def by (auto split: if_splits intro: optional_pair_gains)
  then have f2: "handles_fresh st2" by (simp add: gains_def)
  have g3: "gains st2 st3 [k3, p3]"
    using 3 f2 gains_refl [OF f2] unfolding o3_def by (auto split: if_splits intro: optional_pair_gains)
  have g: "gains st st3 ([k1, p1] @ [k2, p2] @ [k3, p3])"
    using g1 g2 g3 by (metis gains_append)
  have vars: "others st3 v = others st3 ([k1, p1] @ [k2, p2] @ [k3, p3])"
    if "set v \<subseteq> {None, k1, p1, k2, p2, k3, p3}" "{k1, p1, k2, p2, k3, p3} \<subseteq> set v" for v
    using that unfolding others_def by (intro filter_cong) auto
  have run: "apxCreateRegistryW env st sam root name opts = Option.bind (in_buffer 512 ?buff) (\<lambda>_.
      Some (if e3 = ERROR_SUCCESS
        then (e3, Some \<lparr>hRootKey = k1, hServKey = k3, hUserKey = k2, hCurrKey = None,
                hRparamKey = p1, hSparamKey = p3, hUparamKey = p2, samOptions = sam\<rparr>, st3)
        else (e3, None, fold safe_close [p1, p3, p2, k1, k3, k2] st3)))"
    using False n 1 2 3
    by (auto simp: apxCreateRegistryW_def in_buffer_def Let_def o1_def [symmetric]
        simp flip: o2_def o3_def split: option.splits)
  have "opened (fold safe_close [p1, p3, p2, k1, k3, k2] st3) = opened st"
    using g vars [of "[p1, p3, p2, k1, k3, k2]"] unfolding opened_fold_close by (simp add: gains_def)
  moreover have "others st3 (key_vars r) = opened st"
    if "r = \<lparr>hRootKey = k1, hServKey = k3, hUserKey = k2, hCurrKey = None,
         hRparamKey = p1, hSparamKey = p3, hUparamKey = p2, samOptions = sam\<rparr>" for r
    using g vars [of "key_vars r"] that by (simp add: gains_def key_vars_def)
  moreover have "handles_fresh st3" using g by (simp add: gains_def)
  moreover have "e3 = ERROR_SUCCESS \<Longrightarrow> r = Some \<lparr>hRootKey = k1, hServKey = k3, hUserKey = k2,
      hCurrKey = None, hRparamKey = p1, hSparamKey = p3, hUparamKey = p2, samOptions = sam\<rparr> \<and> st' = st3"
    "e3 \<noteq> ERROR_SUCCESS \<Longrightarrow> r = None \<and> st' = fold safe_close [p1, p3, p2, k1, k3, k2] st3"
    using run assms(2) by (simp_all add: in_buffer_def split: if_splits)
  ultimately show ?thesis
    by (cases "e3 = ERROR_SUCCESS") (simp_all add: accounted_def)
qed

text \<open>No handle of the registry is leaked: if the object cannot be created, every key opened
  on the way is closed again, and after any sequence of accesses closing the object leaves
  exactly the handles that were open before it was created.\<close>

theorem registry_handles_closed:
  assumes "handles_fresh st" "apxCreateRegistryW env st sam root name opts = Some (e, r, st1)"
  shows "(r = None \<longrightarrow> opened st1 = opened st) \<and>
    (\<forall>r1 st2 r2. r = Some r1 \<longrightarrow> (access env)\<^sup>*\<^sup>* (st1, r1) (st2, r2) \<longrightarrow>
       opened (fst (registry_callback_close st2 r2)) = opened st)"
proof (intro conjI allI impI)
  show "opened st1 = opened st" if "r = None"
    using create_registry_gains [OF assms] that by simp
next
  fix r1 st2 r2
  assume "r = Some r1" and steps: "(access env)\<^sup>*\<^sup>* (st1, r1) (st2, r2)"
  then have "accounted (opened st) (st1, r1)" using create_registry_gains [OF assms] by simp
  with steps have "accounted (opened st) (st2, r2)"
    by (induction rule: rtranclp_induct) (auto intro: access_accounted)
  then show "opened (fst (registry_callback_close st2 r2)) = opened st"
    by (simp add: accounted_def opened_close)
qed

text \<open>The two functions that look up the description and the user of a service accept names of
  255 characters, but build the name of the key in an array of 256: every name of more than
  221 characters is written behind its end.\<close>

theorem service_text_overruns:
  "(222 \<le> length name \<and> length name \<le> 255 \<longrightarrow> get_service_text env st value name buf n = None) \<and>
   (length name \<le> 221 \<longrightarrow> get_service_text env st value name buf n \<noteq> None)"
proof -
  have "length REGSERVICE_ROOT = 34" by (simp add: REGSERVICE_ROOT_def wide_def backslash_def)
  then show ?thesis by (auto simp: get_service_text_def in_buffer_def split: prod.split sum.split)
qed

text \<open>\<open>apxGetMaxServiceTimeout\<close> reads through a null pointer when the key of the system's
  control settings can be opened but holds no text \<open>WaitToKillServiceTimeout\<close>.\<close>

theorem missing_timeout_crashes:
  assumes "RegOpenKeyEx env st (Hive HKEY_LOCAL_MACHINE) CONTROL_REGKEY KEY_READ = (Inr k, st1)"
    and "\<forall>d. RegQueryValueEx env st1 k REGTIMEOUT \<noteq> Inr (REG_SZ, d)"
  shows "apxGetMaxServiceTimeout env st = None"
  using assms by (auto simp: apxGetMaxServiceTimeout_def getRegistrySzW_def split: sum.split)

section \<open>Examples\<close>

text \<open>A system that lets nobody delete the key \<open>SOFTWARE/A/B\<close>.\<close>

definition strict_env :: reg_env where
  "strict_env = \<lparr>fold_name = id, redirected = (\<lambda>_ _. False),
     denied = (\<lambda>k sam. length (snd (snd k)) = 3 \<and> may sam KEY_DELETE), heap = (\<lambda>n. replicate n 0)\<rparr>"

definition strict_registry :: registry where
  "strict_registry = \<lparr>keys = map (\<lambda>(v, ns). ((False, v, map wide ns), []))
       [(HKEY_LOCAL_MACHINE, [''SOFTWARE'', ''A'', ''B'']), (HKEY_LOCAL_MACHINE, [''SOFTWARE'', ''A'']),
        (HKEY_LOCAL_MACHINE, [''SOFTWARE'']), (HKEY_LOCAL_MACHINE, []),
        (HKEY_CURRENT_USER, [''SOFTWARE'']), (HKEY_CURRENT_USER, [])],
     opened = [], fresh_handle = 0\<rparr>"

lemma path_names_Cons:
  "s \<noteq> [] \<Longrightarrow> ch CHR 0x5C \<notin> set s \<Longrightarrow> path_names (s @ ch CHR 0x5C # t) = s # path_names t"
  by (simp add: path_names_def split_all_append)

lemma path_names_single: "s \<noteq> [] \<Longrightarrow> ch CHR 0x5C \<notin> set s \<Longrightarrow> path_names s = [s]"
  by (simp add: path_names_def split_all_single)

lemma path_names_software:
  assumes "a \<noteq> []" "ch CHR 0x5C \<notin> set a" "b \<noteq> []" "ch CHR 0x5C \<notin> set b"
  shows "path_names (REGSOFTWARE_ROOT @ a @ wide backslash @ b) = [wide ''SOFTWARE'', a, b]"
proof -
  have "REGSOFTWARE_ROOT @ a @ wide backslash @ b =
      wide ''SOFTWARE'' @ ch CHR 0x5C # a @ ch CHR 0x5C # b"
    by (simp add: REGSOFTWARE_ROOT_def backslash_def wide_def)
  moreover have "wide ''SOFTWARE'' \<noteq> []" "ch CHR 0x5C \<notin> set (wide ''SOFTWARE'')"
    by (simp_all add: wide_def)
  ultimately show ?thesis
    using path_names_Cons [of "wide ''SOFTWARE''" "a @ ch CHR 0x5C # b"] path_names_Cons [OF assms(1,2), of b]
      path_names_single [OF assms(3,4)] by metis
qed

definition small_registry :: registry where
  "small_registry = \<lparr>keys = map (\<lambda>ns. ((False, HKEY_LOCAL_MACHINE, ns), []))
       [[wide ''SOFTWARE'', [65], [66], REGPARAMS, [74]], [wide ''SOFTWARE'', [65], [66], REGPARAMS],
        [wide ''SOFTWARE'', [65], [66]], [wide ''SOFTWARE'', [65]], [wide ''SOFTWARE''], []],
     opened = [], fresh_handle = 0\<rparr>"

lemma reg_parameters: "path_names REGPARAMS = [REGPARAMS]"
  by (rule path_names_single) (simp_all add: REGPARAMS_def wide_def)

lemma simple_rights:
  "may KEY_READ KEY_CREATE_SUB_KEY = False" "may KEY_READ KEY_WOW64_32KEY = False"
  "may KEY_READ KEY_DELETE = False" "may KEY_READ KEY_QUERY_VALUE = True"
  "may APXREG_SOFTWARE APXREG_SOFTWARE = True" "may APXREG_SOFTWARE APXREG_USER = False"
  "may APXREG_SOFTWARE APXREG_SERVICE = False"
  by (simp_all add: may_def KEY_READ_def KEY_CREATE_SUB_KEY_def KEY_WOW64_32KEY_def KEY_DELETE_def
      KEY_QUERY_VALUE_def APXREG_SOFTWARE_def APXREG_USER_def APXREG_SERVICE_def)

theorem registry_handles_closed_witness:
  "\<exists>r st1 st2 r2. apxCreateRegistryW strict_env small_registry KEY_READ (Some [65]) (Some [66])
       APXREG_SOFTWARE = Some (ERROR_SUCCESS, Some r, st1) \<and> length (opened st1) = 2 \<and>
     apxRegistryGetStringW strict_env st1 r APXREG_PARAMSOFTWARE (Some [74]) [75] = (None, st2, r2) \<and>
     length (opened st2) = 3 \<and> opened (fst (registry_callback_close st2 r2)) = []"
proof -
  let ?k = "\<lambda>ns. (False, HKEY_LOCAL_MACHINE, wide ''SOFTWARE'' # ns)"
  let ?b = "?k [[65], [66]]" and ?p = "?k [[65], [66], REGPARAMS]"
  let ?j = "?k [[65], [66], REGPARAMS, [74]]"
  let ?r = "\<lparr>hRootKey = Some 0, hServKey = None, hUserKey = None, hCurrKey = None, hRparamKey = Some 1,
      hSparamKey = None, hUparamKey = None, samOptions = KEY_READ\<rparr>"
  let ?st1 = "small_registry\<lparr>opened := [(1, ?p, KEY_READ), (0, ?b, KEY_READ)], fresh_handle := 2\<rparr>"
  let ?st2 = "small_registry\<lparr>opened := [(2, ?j, KEY_READ), (1, ?p, KEY_READ), (0, ?b, KEY_READ)], fresh_handle := 3\<rparr>"
  have names: "path_names (REGSOFTWARE_ROOT @ [65] @ wide backslash @ [66]) = [wide ''SOFTWARE'', [65], [66]]"
    "path_names [74] = [[74]]"
    by (rule path_names_software, simp_all) (simp add: path_names_def)
  have "length (REGSOFTWARE_ROOT @ [65] @ wide backslash @ [66]) < 512"
    by (simp add: REGSOFTWARE_ROOT_def backslash_def wide_def)
  then have c: "apxCreateRegistryW strict_env small_registry KEY_READ (Some [65]) (Some [66])
      APXREG_SOFTWARE = Some (ERROR_SUCCESS, Some ?r, ?st1)"
    using names(1)
    by (simp add: apxCreateRegistryW_def strict_env_def small_registry_def in_buffer_def simple_rights
        optional_pair_def open_pair_def open_or_create_def RegOpenKeyEx_def key_at_def base_of_def
        below_def new_handle_def reg_parameters Let_def)
  have g: "apxRegistryGetStringW strict_env ?st1 ?r APXREG_PARAMSOFTWARE (Some [74]) [75]
      = (None, ?st2, ?r\<lparr>hCurrKey := Some 2\<rparr>)"
    by (simp add: apxRegistryGetStringW_def accessed_key_def reg_get_key_def APXREG_PARAMSOFTWARE_def
        APXREG_SOFTWARE_def safe_close_def RegOpenKeyEx_def key_at_def base_of_def below_def names(2)
        new_handle_def getRegistrySzW_def RegQueryValueEx_def strict_env_def small_registry_def simple_rights)
  have "handles_fresh small_registry" by (simp add: handles_fresh_def small_registry_def)
  from registry_handles_closed [OF this c] access.get_string [OF g]
  have "opened (fst (registry_callback_close ?st2 (?r\<lparr>hCurrKey := Some 2\<rparr>))) = opened small_registry"
    by blast
  then have "opened (fst (registry_callback_close ?st2 (?r\<lparr>hCurrKey := Some 2\<rparr>))) = []"
    by (simp add: small_registry_def)
  with c g show ?thesis by fastforce
qed

text \<open>A registry with the key of the control settings and no value in it.\<close>

definition control_registry :: registry where
  "control_registry = \<lparr>keys = [((False, HKEY_LOCAL_MACHINE, path_names CONTROL_REGKEY), [])],
     opened = [], fresh_handle = 0\<rparr>"

theorem missing_timeout_crashes_witness: "apxGetMaxServiceTimeout strict_env control_registry = None"
proof (rule missing_timeout_crashes)
  let ?st = "control_registry\<lparr>opened :=
      [(0, (False, HKEY_LOCAL_MACHINE, path_names CONTROL_REGKEY), KEY_READ)], fresh_handle := 1\<rparr>"
  show "RegOpenKeyEx strict_env control_registry (Hive HKEY_LOCAL_MACHINE) CONTROL_REGKEY KEY_READ = (Inr 0, ?st)"
    by (simp add: RegOpenKeyEx_def key_at_def base_of_def below_def simple_rights strict_env_def
        control_registry_def new_handle_def)
  show "\<forall>d. RegQueryValueEx strict_env ?st 0 REGTIMEOUT \<noteq> Inr (REG_SZ, d)"
    by (simp add: RegQueryValueEx_def control_registry_def)
qed

end
