(* ===== verification/Registry_Delete.thy ===== *)
theory Registry_Delete
  imports Registry_Facts
begin

text \<open>
  The deletion of the settings of a service: \<open>apxDeleteRegistryRecursive\<close> ends, removes the tree
  and nothing else or has been denied access, and \<open>apxDeleteRegistryW\<close> ignores which.
\<close>

section \<open>Deleting a tree\<close>

definition inside :: "regkey \<Rightarrow> regkey \<Rightarrow> bool" where
  "inside k k' =
     (case (k, k') of ((w, v, ns), (w', v', ns')) \<Rightarrow> w' = w \<and> v' = v \<and> take (length ns) ns' = ns)"

text \<open>The names are folded and free of separators, and the key above a key exists.\<close>

definition has_key :: "registry \<Rightarrow> regkey \<Rightarrow> bool" where
  "has_key st k \<longleftrightarrow> map_of (keys st) k \<noteq> None"

definition key_ok :: "reg_env \<Rightarrow> registry \<Rightarrow> regkey \<Rightarrow> bool" where
  "key_ok env st k =
     (case k of (w, v, ns) \<Rightarrow>
        list_all (\<lambda>n. n \<noteq> [] \<and> ch CHR 0x5C \<notin> set n \<and> fold_name env n = n) ns \<and>
        (ns \<noteq> [] \<longrightarrow> has_key st (w, v, butlast ns)))"

definition wf_keys :: "reg_env \<Rightarrow> registry \<Rightarrow> bool" where
  "wf_keys env st \<longleftrightarrow> list_all (\<lambda>(k, _). key_ok env st k) (keys st)"

abbreviation tree_of :: "registry \<Rightarrow> regkey \<Rightarrow> (regkey \<times> regvalues) list" where
  "tree_of st k \<equiv> filter (\<lambda>(k', _). inside k k') (keys st)"

lemma inside_iff: "inside k k' \<longleftrightarrow> (\<exists>w v ns r. k = (w, v, ns) \<and> k' = (w, v, ns @ r))"
proof -
  have "take (length ns) ns' = ns \<longleftrightarrow> (\<exists>r. ns' = ns @ r)" for ns ns' :: "wtext list"
    by (metis append_eq_conv_conj append_take_drop_id)
  then show ?thesis by (auto simp: inside_def split: prod.splits)
qed

lemma inside_refl [simp]: "inside k k"
  by (cases k) (simp add: inside_iff)

lemma inside_trans: "inside k k1 \<Longrightarrow> inside k1 k2 \<Longrightarrow> inside k k2"
  by (auto simp: inside_iff)

lemma child_iff: "child_of k k' \<longleftrightarrow> (\<exists>w v ns n. k = (w, v, ns) \<and> k' = (w, v, ns @ [n]))"
  by (cases k; cases k') (auto simp: child_of_def intro: append_butlast_last_id [symmetric])

lemma child_inside: "child_of k k' \<Longrightarrow> inside k k'"
  by (auto simp: child_iff inside_iff)

lemma child_not_above: "child_of k k' \<Longrightarrow> \<not> inside k' k"
  by (cases k; cases k') (auto simp: child_iff inside_iff)

lemma has_key_in: "(k, x) \<in> set (keys st) \<Longrightarrow> has_key st k"
  by (auto simp: has_key_def dest: weak_map_of_SomeI)

lemma wf_has_key: "wf_keys env st \<Longrightarrow> has_key st k \<Longrightarrow> key_ok env st k"
  unfolding wf_keys_def has_key_def by (auto simp: list_all_iff dest!: map_of_SomeD)

lemma above_exists: "wf_keys env st \<Longrightarrow> has_key st (w, v, ns @ r) \<Longrightarrow> has_key st (w, v, ns)"
proof (induction r rule: rev_induct)
  case (snoc n r)
  then show ?case using wf_has_key [OF snoc.prems] by (simp add: key_ok_def butlast_append)
qed simp

lemma inside_exists: "wf_keys env st \<Longrightarrow> inside k k' \<Longrightarrow> has_key st k' \<Longrightarrow> has_key st k"
  unfolding inside_iff by (blast intro: above_exists)

lemma no_child_alone:
  assumes "wf_keys env st" "\<not> list_ex (\<lambda>(k', _). child_of k k') (keys st)" "has_key st k'"
    and "inside k k'"
  shows "k' = k"
proof (rule ccontr)
  assume ne: "k' \<noteq> k"
  from assms(4) obtain w v ns r where k: "k = (w, v, ns)" "k' = (w, v, ns @ r)"
    unfolding inside_iff by blast
  with ne obtain n r' where "k' = (w, v, (ns @ [n]) @ r')" by (cases r) auto
  with assms(3) have "has_key st (w, v, ns @ [n])" by (metis above_exists [OF assms(1)])
  then obtain x where "((w, v, ns @ [n]), x) \<in> set (keys st)"
    unfolding has_key_def by (auto dest: map_of_SomeD)
  moreover have "child_of k (w, v, ns @ [n])" using k by (simp add: child_iff)
  ultimately show False using assms(2) by (auto simp: list_ex_iff)
qed

lemma tree_root: "wf_keys env st \<Longrightarrow> \<not> has_key st k \<Longrightarrow> tree_of st k = []"
  unfolding filter_empty_conv using inside_exists [of env st k] has_key_in by fast

lemma map_of_filter_keys: "map_of (filter (\<lambda>(k', _). P k') xs) k = (if P k then map_of xs k else None)"
  by (induction xs) auto

lemma inside_up: "inside k (w, v, butlast ns) \<Longrightarrow> inside k (w, v, ns)"
  by (cases ns rule: rev_cases) (auto simp: inside_iff)

lemma wf_without_tree:
  assumes "wf_keys env st" "keys st' = filter (\<lambda>(k', _). \<not> inside k k') (keys st)"
  shows "wf_keys env st'"
proof -
  have "key_ok env st' k'" if "(k', x) \<in> set (keys st)" "\<not> inside k k'" for k' x
  proof -
    obtain w v ns where k': "k' = (w, v, ns)" by (cases k')
    have "key_ok env st k'" using wf_has_key [OF assms(1) has_key_in [OF that(1)]] .
    moreover have "\<not> inside k (w, v, butlast ns)" using that(2) inside_up k' by blast
    ultimately show ?thesis
      by (simp add: key_ok_def k' has_key_def assms(2) map_of_filter_keys [where P = "\<lambda>k'. \<not> inside k k'"])
  qed
  then show ?thesis by (auto simp: wf_keys_def assms(2) list_all_iff)
qed

text \<open>What a deletion does, whether it succeeds or not.\<close>

definition deleted :: "reg_env \<Rightarrow> registry \<Rightarrow> regkey \<Rightarrow> winerror \<Rightarrow> registry \<Rightarrow> bool" where
  "deleted env st k rc st' \<longleftrightarrow>
     opened st' = opened st \<and> fresh_handle st \<le> fresh_handle st' \<and>
     (\<forall>k'. \<not> inside k k' \<longrightarrow> map_of (keys st') k' = map_of (keys st) k') \<and>
     (rc = ERROR_SUCCESS \<longrightarrow> keys st' = filter (\<lambda>(k', _). \<not> inside k k') (keys st)) \<and>
     (rc \<noteq> ERROR_SUCCESS \<longrightarrow> (\<exists>k' sam. inside k k' \<and> denied env k' sam))"

lemma deleted_success:
  "opened st' = opened st \<Longrightarrow> fresh_handle st \<le> fresh_handle st' \<Longrightarrow>
     keys st' = filter (\<lambda>(k', _). \<not> inside k k') (keys st) \<Longrightarrow> deleted env st k ERROR_SUCCESS st'"
  by (simp add: deleted_def map_of_filter_keys [where P = "\<lambda>k'. \<not> inside k k'"])

lemma deleted_denied:
  "denied env k' sam \<Longrightarrow> inside k k' \<Longrightarrow> rc \<noteq> ERROR_SUCCESS \<Longrightarrow> deleted env st k rc st"
  unfolding deleted_def by blast

lemma delete_leaf:
  assumes "wf_keys env st" "key_at env st h sub 0 = Some k" "RegDeleteKey env st h sub = (rc, st')"
    and "rc = ERROR_SUCCESS \<or> has_key st k \<and> \<not> list_ex (\<lambda>(k', _). child_of k k') (keys st)"
  shows "deleted env st k rc st'"
proof (cases "denied env k KEY_DELETE")
  case True
  with assms show ?thesis
    by (auto simp: RegDeleteKey_def has_key_def split: if_splits intro!: deleted_denied [OF True])
next
  case False
  with assms(2-4) have leaf: "\<not> list_ex (\<lambda>(k', _). child_of k k') (keys st)" "rc = ERROR_SUCCESS"
    "st' = st\<lparr>keys := AList.delete k (keys st)\<rparr>"
    by (auto simp: RegDeleteKey_def has_key_def split: if_splits)
  have "AList.delete k (keys st) = filter (\<lambda>(k', _). \<not> inside k k') (keys st)"
    unfolding AList.delete_eq
    using no_child_alone [OF assms(1) leaf(1) has_key_in] by (auto intro!: filter_cong)
  with leaf show ?thesis by (auto intro!: deleted_success)
qed

lemma deleted_fresh: "deleted env st k rc st' \<Longrightarrow> handles_fresh st \<Longrightarrow> handles_fresh st'"
  by (fastforce simp: deleted_def handles_fresh_def)

lemma deleted_base: "opened st' = opened st \<Longrightarrow> key_at env st' h sub sam = key_at env st h sub sam"
  by (simp add: key_at_def base_of_def split: hkey.split)

lemma key_at_no_view:
  "key_at env st h sub (KEY_ENUMERATE_SUB_KEYS OR KEY_DELETE) = key_at env st h sub 0"
  by (simp add: key_at_def may_def KEY_ENUMERATE_SUB_KEYS_def KEY_DELETE_def KEY_WOW64_32KEY_def)

lemma deleted_inside:
  "deleted env st k0 rc st' \<Longrightarrow> rc \<noteq> ERROR_SUCCESS \<Longrightarrow> inside k k0 \<Longrightarrow> deleted env st k rc st'"
  unfolding deleted_def by (blast intro: inside_trans)

text \<open>After one subkey has gone, the rest of the tree.\<close>

lemma deleted_rest:
  assumes "deleted env st k0 ERROR_SUCCESS st1" "inside k k0" "deleted env st1 k rc st'"
  shows "deleted env st k rc st'"
proof -
  have "map_of (keys st1) k' = map_of (keys st) k'" if "\<not> inside k k'" for k'
    using assms(1,2) that inside_trans unfolding deleted_def by blast
  moreover have "filter (\<lambda>(k', _). \<not> inside k k') (keys st1) = filter (\<lambda>(k', _). \<not> inside k k') (keys st)"
  proof -
    have "\<not> inside k k' \<Longrightarrow> \<not> inside k0 k'" for k' using assms(2) inside_trans by blast
    then show ?thesis using assms(1) by (simp add: deleted_def split_beta) (rule filter_cong, auto)
  qed
  ultimately show ?thesis using assms(1,3) unfolding deleted_def by auto
qed

lemma filter_shrinks: "ys = filter Q xs \<Longrightarrow> x \<in> set xs \<Longrightarrow> \<not> Q x \<Longrightarrow> length ys < length xs"
  by (simp add: length_filter_less)

lemma tree_smaller:
  assumes "child_of k k0" "has_key st k"
  shows "length (tree_of st k0) < length (tree_of st k)"
proof -
  have "tree_of st k0 = filter (\<lambda>(k', _). inside k0 k') (tree_of st k)"
  proof -
    have "inside k0 k' \<Longrightarrow> inside k k'" for k' using child_inside [OF assms(1)] inside_trans by blast
    then show ?thesis by (simp add: split_beta) (rule filter_cong, auto)
  qed
  moreover obtain x where "(k, x) \<in> set (tree_of st k)"
    using assms(2) by (auto simp: has_key_def dest: map_of_SomeD)
  ultimately show ?thesis
    by (rule filter_shrinks) (simp add: child_not_above [OF assms(1)])
qed

text \<open>What the loop meets: the names of the subkeys lead to the subkeys.\<close>

lemma enumerated_child:
  assumes "wf_keys env st" "map_of (opened st) c = Some (k, KEY_ENUMERATE_SUB_KEYS OR KEY_DELETE)"
    and "list_ex (\<lambda>(k', _). child_of k k') (keys st)"
  obtains k0 n where "RegEnumKeyEx st c 0 = Inr n" "key_at env st (Hkey c) n 0 = Some k0"
    "child_of k k0" "has_key st k0"
proof -
  let ?cs = "filter (\<lambda>(k', _). child_of k k') (keys st)"
  have "?cs \<noteq> []" using assms(3) by (auto simp: filter_empty_conv list_ex_iff)
  then obtain k0 x r where cs: "?cs = (k0, x) # r" by (metis neq_Nil_conv surj_pair)
  then have "(k0, x) \<in> set ?cs" by simp
  then have k0: "child_of k k0" "(k0, x) \<in> set (keys st)" by auto
  then obtain w v ns n where k: "k = (w, v, ns)" "k0 = (w, v, ns @ [n])" unfolding child_iff by blast
  have "key_ok env st k0" using k0(2) by (blast intro: wf_has_key [OF assms(1)] has_key_in)
  then have n: "n \<noteq> []" "ch CHR 0x5C \<notin> set n" "fold_name env n = n" by (simp_all add: key_ok_def k)
  have "RegEnumKeyEx st c 0 = Inr n"
    using assms(2) cs k
    by (simp add: RegEnumKeyEx_def subkey_names_def may_def KEY_ENUMERATE_SUB_KEYS_def KEY_DELETE_def)
  moreover have "key_at env st (Hkey c) n 0 = Some k0"
    using assms(2) n k
    by (simp add: key_at_def base_of_def below_def path_names_def split_all_single may_def)
  ultimately show thesis using k0(1) has_key_in [OF k0(2)] by (rule that)
qed

lemma enumerated_none:
  assumes "map_of (opened st) c = Some (k, KEY_ENUMERATE_SUB_KEYS OR KEY_DELETE)"
    and "\<not> list_ex (\<lambda>(k', _). child_of k k') (keys st)"
  shows "RegEnumKeyEx st c 0 = Inl ERROR_NO_MORE_ITEMS"
proof -
  have "filter (\<lambda>(k', _). child_of k k') (keys st) = []"
    using assms(2) by (auto simp: filter_empty_conv list_ex_iff)
  then show ?thesis using assms(1)
    by (simp add: RegEnumKeyEx_def subkey_names_def may_def KEY_ENUMERATE_SUB_KEYS_def KEY_DELETE_def)
qed

definition deletes :: "reg_env \<Rightarrow> delete_job \<Rightarrow> registry \<Rightarrow> regkey \<Rightarrow> bool" where
  "deletes env job st k \<longleftrightarrow>
     (\<exists>rc st'. delete_recursive env job st = Some (rc, st') \<and> deleted env st k rc st')"

lemma delete_loop:
  assumes sub: "\<And>st k0 c n. length (tree_of st k0) < N \<Longrightarrow> wf_keys env st \<Longrightarrow> handles_fresh st \<Longrightarrow>
      key_at env st (Hkey c) n 0 = Some k0 \<Longrightarrow> deletes env (Delete_key (Hkey c) n) st k0"
    and "wf_keys env st" "handles_fresh st" "key_at env st h s 0 = Some k" "has_key st k"
    and "map_of (opened st) c = Some (k, KEY_ENUMERATE_SUB_KEYS OR KEY_DELETE)"
    and "length (tree_of st k) \<le> N"
  shows "deletes env (Delete_subkeys h s c) st k"
  using assms(2-)
proof (induction "length (tree_of st k)" arbitrary: st rule: less_induct)
  case less
  show ?case
  proof (cases "list_ex (\<lambda>(k', _). child_of k k') (keys st)")
    case False
    with less.prems enumerated_none [OF less.prems(5)]
    have "delete_recursive env (Delete_subkeys h s c) st = Some (RegDeleteKey env st h s)"
      by (simp add: delete_recursive.simps)
    moreover obtain rc st' where "RegDeleteKey env st h s = (rc, st')" by fastforce
    moreover have "deleted env st k rc st'"
      using less.prems False calculation(2) by (blast intro: delete_leaf)
    ultimately show ?thesis unfolding deletes_def by auto
  next
    case True
    then obtain k0 n where n: "RegEnumKeyEx st c 0 = Inr n" "key_at env st (Hkey c) n 0 = Some k0"
      "child_of k k0" "has_key st k0"
      using enumerated_child [OF less.prems(1,5)] by blast
    have small: "length (tree_of st k0) < length (tree_of st k)"
      using n(3) less.prems(4) by (rule tree_smaller)
    then obtain rc st1 where d: "delete_recursive env (Delete_key (Hkey c) n) st = Some (rc, st1)"
      "deleted env st k0 rc st1"
      using sub [where st = st and n = n and c = c and ?k0.0 = k0] n less.prems unfolding deletes_def by auto
    have unf: "delete_recursive env (Delete_subkeys h s c) st =
        (if rc \<noteq> ERROR_SUCCESS then Some (rc, st1) else delete_recursive env (Delete_subkeys h s c) st1)"
      using n(1) d(1) by (subst delete_recursive.simps) simp
    show ?thesis
    proof (cases "rc = ERROR_SUCCESS")
      case False
      with unf d(2) n(3) show ?thesis
        unfolding deletes_def by (auto intro: deleted_inside child_inside)
    next
      case True
      with d(2) have k1: "keys st1 = filter (\<lambda>(k', _). \<not> inside k0 k') (keys st)" "opened st1 = opened st"
        by (simp_all add: deleted_def)
      have "tree_of st1 k = filter (\<lambda>(k', _). \<not> inside k0 k') (tree_of st k)"
        unfolding k1(1) by (auto simp: split_beta intro!: filter_cong)
      moreover obtain x where "(k0, x) \<in> set (tree_of st k)"
        using n(4) child_inside [OF n(3)] by (auto simp: has_key_def dest: map_of_SomeD)
      ultimately have lt: "length (tree_of st1 k) < length (tree_of st k)"
        by (rule filter_shrinks) simp
      have "has_key st1 k"
        using less.prems(4) child_not_above [OF n(3)]
        by (simp add: has_key_def k1(1) map_of_filter_keys [where P = "\<lambda>k'. \<not> inside k0 k'"])
      with lt less.hyps [of st1] less.prems deleted_base [OF k1(2)] k1 deleted_fresh [OF d(2)]
        wf_without_tree [OF less.prems(1) k1(1)]
      have "deletes env (Delete_subkeys h s c) st1 k" by simp
      with unf True d(2) n(3) show ?thesis
        unfolding deletes_def by (auto intro: deleted_rest child_inside)
    qed
  qed
qed

lemma delete_tree:
  assumes "wf_keys env st" "handles_fresh st" "key_at env st h s 0 = Some k"
  shows "deletes env (Delete_key h s) st k"
  using assms
proof (induction "length (tree_of st k)" arbitrary: st h s k rule: less_induct)
  case less
  obtain rc st1 where del: "RegDeleteKey env st h s = (rc, st1)" by fastforce
  show ?case
  proof (cases "rc = ERROR_SUCCESS")
    case True
    have "deleted env st k rc st1" using delete_leaf [OF less.prems(1,3) del] True by blast
    with del True show ?thesis by (auto simp: deletes_def delete_recursive.simps)
  next
    case False
    let ?open = "RegOpenKeyEx env st h s (KEY_ENUMERATE_SUB_KEYS OR KEY_DELETE)"
    have st1: "st1 = st" using del False less.prems(3) by (auto simp: RegDeleteKey_def split: if_splits)
    have unf: "delete_recursive env (Delete_key h s) st = (case ?open of
        (Inl e, st) \<Rightarrow> Some (if e = ERROR_FILE_NOT_FOUND then ERROR_SUCCESS else e, st)
      | (Inr c, st) \<Rightarrow> Option.bind (delete_recursive env (Delete_subkeys h s c) st)
          (\<lambda>(rc, st). Some (rc, RegCloseKey st c)))"
      using del False st1 by (subst delete_recursive.simps) (cases rc; simp)
    consider "\<not> has_key st k" | "has_key st k" "denied env k (KEY_ENUMERATE_SUB_KEYS OR KEY_DELETE)"
      | "has_key st k" "\<not> denied env k (KEY_ENUMERATE_SUB_KEYS OR KEY_DELETE)" by blast
    then show ?thesis
    proof cases
      case 1
      have "keys st = filter (\<lambda>(k', _). \<not> inside k k') (keys st)"
        using tree_root [OF less.prems(1) 1] unfolding filter_empty_conv
        by (intro filter_True [symmetric]) auto
      then have "deleted env st k ERROR_SUCCESS st" by (intro deleted_success) simp_all
      with 1 unf less.prems(3) show ?thesis
        by (simp add: deletes_def RegOpenKeyEx_def key_at_no_view has_key_def)
    next
      case 2
      then have "?open = (Inl ERROR_ACCESS_DENIED, st)"
        using less.prems(3) by (auto simp: RegOpenKeyEx_def key_at_no_view has_key_def)
      with unf deleted_denied [OF 2(2) inside_refl] show ?thesis by (simp add: deletes_def)
    next
      case 3
      let ?c = "fresh_handle st"
      let ?st2 = "st\<lparr>opened := (?c, k, KEY_ENUMERATE_SUB_KEYS OR KEY_DELETE) # opened st,
                      fresh_handle := Suc ?c\<rparr>"
      have o: "?open = (Inr ?c, ?st2)"
        using 3 less.prems(3) by (simp add: RegOpenKeyEx_def key_at_no_view has_key_def new_handle_def)
      have "handles_fresh ?st2" using less.prems(2) by (auto simp: handles_fresh_def)
      moreover have "key_at env ?st2 h s 0 = Some k"
        using less.prems(2,3) by (fastforce simp: key_at_def base_of_def handles_fresh_def
            split: hkey.splits if_splits dest: map_of_SomeD)
      moreover have "wf_keys env ?st2"
        using less.prems(1) by (simp add: wf_keys_def key_ok_def has_key_def)
      ultimately have "deletes env (Delete_subkeys h s ?c) ?st2 k"
        using 3(1) less.hyps
        by (intro delete_loop [where N = "length (tree_of st k)"]) (simp_all add: has_key_def)
      then obtain rc st3 where l: "delete_recursive env (Delete_subkeys h s ?c) ?st2 = Some (rc, st3)"
        "deleted env ?st2 k rc st3" unfolding deletes_def by blast
      have "filter (\<lambda>(h, _). ?c \<noteq> h) (opened st) = opened st"
        using less.prems(2) by (intro filter_True) (auto simp: handles_fresh_def)
      then have "opened (RegCloseKey st3 ?c) = opened st"
        using l(2) by (simp add: RegCloseKey_def deleted_def AList.delete_eq)
      then have "deleted env st k rc (RegCloseKey st3 ?c)"
        using l(2) by (auto simp: deleted_def RegCloseKey_def)
      with unf o l(1) show ?thesis by (simp add: deletes_def)
    qed
  qed
qed

text \<open>C40. \<open>apxDeleteRegistryRecursive\<close> always ends, closes what it opens and touches no key outside
  the tree; when it reports success the whole tree is gone and nothing else, and when it
  fails the system has denied access to a key of the tree.\<close>

theorem delete_recursive_outcome:
  assumes "wf_keys env st" "handles_fresh st" "key_at env st h s 0 = Some k"
  shows "\<exists>rc st'. delete_recursive env (Delete_key h s) st = Some (rc, st') \<and> opened st' = opened st \<and>
    (\<forall>k'. \<not> inside k k' \<longrightarrow> map_of (keys st') k' = map_of (keys st) k') \<and>
    (rc = ERROR_SUCCESS \<longrightarrow> keys st' = filter (\<lambda>(k', _). \<not> inside k k') (keys st)) \<and>
    (rc \<noteq> ERROR_SUCCESS \<longrightarrow> (\<exists>k' sam. inside k k' \<and> denied env k' sam))"
  using delete_tree [OF assms] unfolding deletes_def deleted_def by blast

text \<open>\<open>apxDeleteRegistryW\<close> does not notice that the deletion of a key has failed: its result is
  false only if the root of the settings of a hive cannot be opened.\<close>

theorem failed_delete_unnoticed:
  assumes "apxDeleteRegistryW env st root (Some name) sam b = Some (False, st')"
    and "length name \<le> 255" "\<forall>r. root = Some r \<longrightarrow> length r \<le> 255"
  shows "\<exists>v st1 e st2. RegOpenKeyEx env st1 (Hive v) REGSOFTWARE_ROOT (KEY_READ OR sam) = (Inl e, st2)"
proof -
  have step: "rv' \<or> (\<exists>e st2. RegOpenKeyEx env st (Hive v) REGSOFTWARE_ROOT (KEY_READ OR sam) = (Inl e, st2))"
    if "delete_in_hive env sam b buff name v (rv, st) = Some (rv', st')" "rv" for buff v rv rv' st st'
    using that
    by (auto simp: delete_in_hive_def bind_eq_Some_conv Let_def split: prod.splits sum.splits)
  from assms obtain buff rv1 st1 where
    1: "delete_in_hive env sam b buff name HKEY_LOCAL_MACHINE (True, st) = Some (rv1, st1)" and
    2: "delete_in_hive env sam b buff name HKEY_CURRENT_USER (rv1, st1) = Some (False, st')"
    by (cases root) (auto simp: apxDeleteRegistryW_def bind_eq_Some_conv linorder_not_less split: if_splits)
  show ?thesis using step [OF 1] step [OF 2] by blast
qed

lemma strict_delete:
  "apxDeleteRegistryW strict_env strict_registry (Some (wide ''A'')) (Some (wide ''B'')) 0 False =
     Some (True, strict_registry\<lparr>fresh_handle := 3\<rparr>)"
  by (simp add: apxDeleteRegistryW_def delete_in_hive_def strict_env_def strict_registry_def wide_def
      in_buffer_def backslash_def REGSOFTWARE_ROOT_def RegOpenKeyEx_def key_at_def base_of_def below_def
      path_names_def may_def KEY_READ_def KEY_DELETE_def KEY_ENUMERATE_SUB_KEYS_def KEY_WOW64_32KEY_def
      new_handle_def delete_recursive.simps RegDeleteKey_def RegCloseKey_def child_of_def)

section \<open>Examples of deletions\<close>

theorem delete_recursive_outcome_witness:
  "\<exists>rc st'. delete_recursive strict_env (Delete_key (Hive HKEY_CURRENT_USER) (wide ''SOFTWARE'')) strict_registry
     = Some (rc, st') \<and> opened st' = [] \<and>
     (rc = ERROR_SUCCESS \<longrightarrow> keys st' = filter (\<lambda>(k', _). \<not> inside (False, HKEY_CURRENT_USER, [wide ''SOFTWARE'']) k')
        (keys strict_registry))"
proof -
  have "wf_keys strict_env strict_registry" "handles_fresh strict_registry"
    "key_at strict_env strict_registry (Hive HKEY_CURRENT_USER) (wide ''SOFTWARE'') 0 =
       Some (False, HKEY_CURRENT_USER, [wide ''SOFTWARE''])" "opened strict_registry = []"
    by (simp_all add: wf_keys_def key_ok_def has_key_def handles_fresh_def strict_env_def
        strict_registry_def wide_def key_at_def base_of_def below_def path_names_def may_def)
  with delete_recursive_outcome [OF this(1,2,3)] show ?thesis by fastforce
qed

definition empty_registry :: registry where
  "empty_registry = \<lparr>keys = [], opened = [], fresh_handle = 0\<rparr>"

theorem failed_delete_unnoticed_witness:
  "apxDeleteRegistryW strict_env strict_registry (Some (wide ''A'')) (Some (wide ''B'')) 0 False =
     Some (True, strict_registry\<lparr>fresh_handle := 3\<rparr>) \<and>
   (\<exists>v st1 e st2. RegOpenKeyEx strict_env st1 (Hive v) REGSOFTWARE_ROOT (KEY_READ OR 0) = (Inl e, st2))"
proof -
  have "apxDeleteRegistryW strict_env empty_registry (Some (wide ''A'')) (Some (wide ''B'')) 0 False =
      Some (False, empty_registry)"
    by (simp add: apxDeleteRegistryW_def delete_in_hive_def strict_env_def empty_registry_def wide_def
        in_buffer_def backslash_def REGSOFTWARE_ROOT_def RegOpenKeyEx_def key_at_def base_of_def
        below_def path_names_def)
  from strict_delete failed_delete_unnoticed [OF this] show ?thesis by (simp add: wide_def)
qed

end
