(* ===== verification/Win_Service.thy ===== *)
theory Win_Service
  imports Win_Registry
begin

text \<open>
  The control of services (\<^verbatim>\<open>windows/src/service.c\<close>). The service control manager answers
  calls: whether a call is granted, the status it reports and the services that depend on
  one are functions of the calls made before, the parameters of the model. The state keeps
  the calls, the open handles of the manager and the clock in milliseconds; sleeping lasts
  at least as long as asked for. The texts of a service come from the registry.
\<close>

section \<open>The service control manager\<close>

record sc_status =
  dwCurrentState :: dword
  dwCheckPoint :: dword
  dwWaitHint :: dword

datatype scm_call =
    Open_manager dword
  | Open_service wtext dword
  | Query_status nat
  | Query_config nat
  | Enum_dependents nat
  | Start_service nat
  | Control_service nat dword
  | Create_service wtext "wtext option" dword dword "wtext option" "wtext list option"
  | Delete_service nat
  | Change_config nat dword dword dword "wtext option" "wtext option" "wtext option" "wtext option"
  | Change_description nat wtext
  | Lock_database nat

record scm =
  calls :: "scm_call list" \<comment> \<open>the latest first\<close>
  sc_handles :: "nat list"
  next_sc :: nat
  now :: nat
  sleeps :: nat

record scm_env =
  grants :: "scm_call list \<Rightarrow> scm_call \<Rightarrow> bool"
  status_of :: "scm_call list \<Rightarrow> sc_status"
  dependents :: "scm_call list \<Rightarrow> wtext list option"
  late :: "nat \<Rightarrow> nat"
  same_name :: "wtext \<Rightarrow> wtext \<Rightarrow> bool"

definition scm_do :: "scm_env \<Rightarrow> scm_call \<Rightarrow> scm \<Rightarrow> bool \<times> scm" where
  "scm_do env c st = (grants env (calls st) c, st\<lparr>calls := c # calls st\<rparr>)"

text \<open>A call that reports a status when it is granted.\<close>

definition scm_status :: "scm_env \<Rightarrow> scm_call \<Rightarrow> scm \<Rightarrow> sc_status option \<times> scm" where
  "scm_status env c st =
     (case scm_do env c st of (ok, st) \<Rightarrow> (if ok then Some (status_of env (calls st)) else None, st))"

definition scm_open :: "scm_env \<Rightarrow> scm_call \<Rightarrow> scm \<Rightarrow> nat option \<times> scm" where
  "scm_open env c st =
     (case scm_do env c st of (ok, st) \<Rightarrow>
        if ok then (Some (next_sc st), st\<lparr>sc_handles := next_sc st # sc_handles st, next_sc := Suc (next_sc st)\<rparr>)
        else (None, st))"

definition close_sc :: "nat option \<Rightarrow> scm \<Rightarrow> scm" where
  "close_sc h st = (case h of None \<Rightarrow> st | Some n \<Rightarrow> st\<lparr>sc_handles := remove1 n (sc_handles st)\<rparr>)"

definition sleep_ms :: "scm_env \<Rightarrow> nat \<Rightarrow> scm \<Rightarrow> scm" where
  "sleep_ms env ms st = st\<lparr>now := now st + ms + late env (sleeps st), sleeps := Suc (sleeps st)\<rparr>"

definition tick_count :: "scm \<Rightarrow> dword" where
  "tick_count st = word_of_nat (now st)"

definition SERVICE_STOPPED :: dword where "SERVICE_STOPPED = 1"
definition SERVICE_START_PENDING :: dword where "SERVICE_START_PENDING = 2"
definition SERVICE_STOP_PENDING :: dword where "SERVICE_STOP_PENDING = 3"
definition SERVICE_RUNNING :: dword where "SERVICE_RUNNING = 4"
definition SERVICE_PAUSE_PENDING :: dword where "SERVICE_PAUSE_PENDING = 6"
definition SERVICE_PAUSED :: dword where "SERVICE_PAUSED = 7"

definition SERVICE_CONTROL_STOP :: dword where "SERVICE_CONTROL_STOP = 1"
definition SERVICE_CONTROL_PAUSE :: dword where "SERVICE_CONTROL_PAUSE = 2"
definition SERVICE_CONTROL_CONTINUE :: dword where "SERVICE_CONTROL_CONTINUE = 3"
definition SERVICE_CONTROL_INTERROGATE :: dword where "SERVICE_CONTROL_INTERROGATE = 4"
definition SERVICE_CONTROL_SHUTDOWN :: dword where "SERVICE_CONTROL_SHUTDOWN = 5"

definition SERVICE_NO_CHANGE :: dword where "SERVICE_NO_CHANGE = 0xFFFFFFFF"
definition SERVICE_WIN32_OWN_PROCESS :: dword where "SERVICE_WIN32_OWN_PROCESS = 0x10"
definition SERVICE_ALL_ACCESS :: dword where "SERVICE_ALL_ACCESS = 0xF01FF"
definition SERVICE_QUERY_STATUS :: dword where "SERVICE_QUERY_STATUS = 0x4"
definition SERVICE_STOP :: dword where "SERVICE_STOP = 0x20"
definition SERVICE_ERROR_NORMAL :: dword where "SERVICE_ERROR_NORMAL = 1"
definition GENERIC_READ :: dword where "GENERIC_READ = 0x80000000"

section \<open>The name of a service\<close>

text \<open>\<open>__apxIsValidServiceName\<close>; the inner loop of the code runs over the characters of \<open>__invalidPathChars\<close>.\<close>

definition invalidPathChars :: "wchar list" where
  "invalidPathChars = map of_char [CHR ''<'', CHR ''>'', CHR '':'', CHR 0x22, CHR ''/'', CHR 0x5C,
     CHR '':'', CHR ''|'', CHR ''?'', CHR ''*'']"

definition apxIsValidServiceName :: "wtext \<Rightarrow> bool" where
  "apxIsValidServiceName name \<longleftrightarrow>
     list_all (\<lambda>c. \<not> c < 30 \<and> c \<notin> set invalidPathChars) name \<and> length name + 1 \<le> 256"

section \<open>The object\<close>

record apxservice =
  bManagerMode :: bool
  hService :: "nat option"
  hManager :: "nat option"
  sv_name :: wtext
  sv_description :: wtext
  sv_user :: wtext
  sv_start :: dword
  lpConfig :: bool \<comment> \<open>whether a block is allocated\<close>

definition service_callback_close :: "scm \<Rightarrow> apxservice \<Rightarrow> scm \<times> apxservice" where
  "service_callback_close st s =
     (close_sc (hManager s) (close_sc (hService s) st), s\<lparr>lpConfig := False, hService := None, hManager := None\<rparr>)"

text \<open>\<open>pool_ok\<close> is whether \<open>apxHandleCreate\<close> finds a pool; if not, the manager stays open.\<close>

definition apxCreateService ::
  "scm_env \<Rightarrow> bool \<Rightarrow> dword \<Rightarrow> bool \<Rightarrow> scm \<Rightarrow> apxservice option \<times> scm" where
  "apxCreateService env pool_ok dwOptions mode st =
     (case scm_open env (Open_manager dwOptions) st of
        (None, st) \<Rightarrow> (None, st)
      | (Some m, st) \<Rightarrow>
          (if pool_ok
           then Some \<lparr>bManagerMode = mode, hService = None, hManager = Some m, sv_name = [],
                      sv_description = [], sv_user = [], sv_start = 0, lpConfig = False\<rparr>
           else None, st))"

text \<open>
  \<open>lstrlcpyW\<close> into the array of the entry truncates. The description and the user are looked
  up in the registry, into arrays of 1024 and 256 characters (\<open>stale\<close> is what they held).
\<close>

definition looked_up :: "(bool \<times> wtext \<times> registry) option \<Rightarrow> (wtext \<times> registry) option" where
  "looked_up r = map_option (\<lambda>(ok, buf, reg). (if ok then text_of buf else [], reg)) r"

definition apxServiceOpen ::
  "scm_env \<Rightarrow> reg_env \<Rightarrow> (nat \<Rightarrow> wtext) \<Rightarrow> wtext \<Rightarrow> dword \<Rightarrow> apxservice \<Rightarrow> scm \<times> registry
     \<Rightarrow> (bool \<times> apxservice \<times> scm \<times> registry) option" where
  "apxServiceOpen env renv stale name dwOptions s w =
     (case w of (st, reg) \<Rightarrow>
        if bManagerMode s then Some (False, s, st, reg)
        else
          let st = close_sc (hService s) st;
              s = s\<lparr>hService := None, sv_description := [], sv_user := [], lpConfig := False\<rparr>
          in case scm_open env (Open_service name dwOptions) st of
               (None, st) \<Rightarrow> Some (False, s, st, reg)
             | (Some h, st) \<Rightarrow> do {
                 (d, reg) \<leftarrow> looked_up (apxGetServiceDescriptionW renv reg name (stale 1024) 1024);
                 (u, reg) \<leftarrow> looked_up (apxGetServiceUserW renv reg name (stale 256) 256);
                 let s = s\<lparr>hService := Some h, sv_name := take 255 name, sv_description := d,
                           sv_user := u, lpConfig := True\<rparr>;
                 (case scm_do env (Query_config h) (snd (scm_do env (Query_config h) st)) of (ok, st) \<Rightarrow>
                    Some (ok, s, st, reg)) })"

definition apxServiceEntry ::
  "scm_env \<Rightarrow> bool \<Rightarrow> apxservice \<Rightarrow> scm \<Rightarrow> (apxservice \<times> sc_status option) option \<times> scm" where
  "apxServiceEntry env bRequeryStatus s st =
     (if bManagerMode s then (None, st)
      else if bRequeryStatus
      then (case hService s of
              None \<Rightarrow> (None, st)
            | Some h \<Rightarrow>
                (case scm_status env (Query_status h) st of
                   (None, st) \<Rightarrow> (None, st) | (Some q, st) \<Rightarrow> (Some (s, Some q), st)))
      else (Some (s, None), st))"

definition apxServiceSetNames ::
  "scm_env \<Rightarrow> wtext option \<Rightarrow> wtext option \<Rightarrow> wtext option \<Rightarrow> wtext option \<Rightarrow> wtext option
     \<Rightarrow> apxservice \<Rightarrow> scm \<Rightarrow> bool \<times> scm" where
  "apxServiceSetNames env img display description user password s st =
     (case hService s of
        None \<Rightarrow> (False, st)
      | Some h \<Rightarrow>
          if bManagerMode s then (False, st)
          else
            let type = (if user \<noteq> None \<or> password \<noteq> None then SERVICE_WIN32_OWN_PROCESS
                        else SERVICE_NO_CHANGE)
            in case scm_do env (Change_config h type SERVICE_NO_CHANGE SERVICE_NO_CHANGE img user password display) st of
                 (False, st) \<Rightarrow> (False, st)
               | (True, st) \<Rightarrow>
                   (case description of
                      None \<Rightarrow> (True, st)
                    | Some d \<Rightarrow> scm_do env (Change_description h d) st))"

definition apxServiceSetOptions ::
  "scm_env \<Rightarrow> dword \<Rightarrow> dword \<Rightarrow> dword \<Rightarrow> apxservice \<Rightarrow> scm \<Rightarrow> bool \<times> scm" where
  "apxServiceSetOptions env type start errorctl s st =
     (case hService s of
        None \<Rightarrow> (False, st)
      | Some h \<Rightarrow>
          if bManagerMode s then (False, st)
          else scm_do env (Change_config h type start errorctl None None None None) st)"

section \<open>Controlling a service\<close>

text \<open>
  \<open>__apxStopDependentServices\<close>. Waiting for one service: \<open>Sleep (INFINITE)\<close> does not return,
  which is \<open>None\<close> as a loop that does not end. The clock runs from the start of the function.
\<close>

partial_function (option) wait_stopped ::
  "scm_env \<Rightarrow> nat \<Rightarrow> dword \<Rightarrow> sc_status \<Rightarrow> scm \<Rightarrow> (bool \<times> scm) option" where
  "wait_stopped env h start q st =
     (if dwCurrentState q = SERVICE_STOPPED then Some (True, st)
      else if dwWaitHint q = 0xFFFFFFFF then None
      else case scm_status env (Query_status h) (sleep_ms env (unat (dwWaitHint q)) st) of
             (None, st) \<Rightarrow> Some (False, st)
           | (Some q, st) \<Rightarrow>
               if dwCurrentState q = SERVICE_STOPPED then Some (True, st)
               else if tick_count st - start > 30000 then Some (False, st)
               else wait_stopped env h start q st)"

definition stop_dependent ::
  "scm_env \<Rightarrow> dword \<Rightarrow> wtext \<Rightarrow> scm \<Rightarrow> (bool \<times> scm) option" where
  "stop_dependent env start name st =
     (case scm_open env (Open_service name (SERVICE_STOP OR SERVICE_QUERY_STATUS)) st of
        (None, st) \<Rightarrow> Some (True, st)
      | (Some h, st) \<Rightarrow>
          if same_name env name (wide ''Tcpip'') \<or> same_name env name (wide ''Afd'') then Some (True, st)
          else (case scm_status env (Control_service h SERVICE_CONTROL_STOP) st of
                  (None, st) \<Rightarrow> Some (False, close_sc (Some h) st)
                | (Some q, st) \<Rightarrow>
                    map_option (\<lambda>(ok, st). (ok, close_sc (Some h) st)) (wait_stopped env h start q st)))"

fun stop_all :: "scm_env \<Rightarrow> dword \<Rightarrow> wtext list \<Rightarrow> scm \<Rightarrow> (bool \<times> scm) option" where
  "stop_all env start [] st = Some (True, st)"
| "stop_all env start (n # ns) st =
     (case stop_dependent env start n st of
        None \<Rightarrow> None
      | Some (False, st) \<Rightarrow> Some (False, st)
      | Some (True, st) \<Rightarrow> stop_all env start ns st)"

definition apxStopDependentServices :: "scm_env \<Rightarrow> nat \<Rightarrow> scm \<Rightarrow> (bool \<times> scm) option" where
  "apxStopDependentServices env h st =
     (case dependents env (calls st) of
        None \<Rightarrow> Some (False, snd (scm_do env (Enum_dependents h) st))
      | Some [] \<Rightarrow> Some (True, snd (scm_do env (Enum_dependents h) st))
      | Some names \<Rightarrow>
          let start = tick_count st
          in case scm_do env (Enum_dependents h) (snd (scm_do env (Enum_dependents h) st)) of
               (False, st) \<Rightarrow> Some (False, st)
             | (True, st) \<Rightarrow> stop_all env start names st)"

text \<open>The pending and the desired state of a control code; zero where the code sets nothing.\<close>

definition control_states :: "dword \<Rightarrow> dword \<times> dword" where
  "control_states c =
     (if c = SERVICE_CONTROL_CONTINUE then (SERVICE_START_PENDING, SERVICE_RUNNING)
      else if c = SERVICE_CONTROL_STOP then (SERVICE_STOP_PENDING, SERVICE_STOPPED)
      else if c = SERVICE_CONTROL_PAUSE then (SERVICE_PAUSE_PENDING, SERVICE_PAUSED)
      else if 127 < c \<and> c < 224
      then (let g = c AND 0xE0
            in if g = 0x80 \<or> g = 0x90 then (SERVICE_START_PENDING, SERVICE_RUNNING)
               else if g = 0xA0 \<or> g = 0xB0 then (SERVICE_STOP_PENDING, SERVICE_STOPPED)
               else if g = 0xC0 \<or> g = 0xD0 then (SERVICE_PAUSE_PENDING, SERVICE_PAUSED)
               else (0, 0))
      else (0, 0))"

text \<open>
  The callback of the caller gets the phase and, while the state is pending, the number of
  the round; it can end the waiting.
\<close>

type_synonym control_callback = "(nat \<Rightarrow> nat \<Rightarrow> bool) option"

definition pending_wait :: "sc_status \<Rightarrow> nat" where
  "pending_wait q =
     (let w = unat (dwWaitHint q div 10) in if w < 1000 then 1000 else if w > 10000 then 10000 else w)"

partial_function (option) control_loop ::
  "scm_env \<Rightarrow> control_callback \<Rightarrow> nat \<Rightarrow> dword \<Rightarrow> dword \<Rightarrow> dword \<Rightarrow> nat \<Rightarrow> scm \<Rightarrow> scm option" where
  "control_loop env cb h pending dwCheck since dwTick st =
     (case scm_status env (Query_status h) st of
        (None, st) \<Rightarrow> Some st
      | (Some q, st) \<Rightarrow>
          if dwCurrentState q \<noteq> pending then Some st
          else if case cb of None \<Rightarrow> False | Some f \<Rightarrow> \<not> f 2 dwTick then Some st
          else
            let st = sleep_ms env (pending_wait q) st
            in if dwCheckPoint q > dwCheck
               then control_loop env cb h pending (dwCheckPoint q) (tick_count st) (Suc dwTick) st
               else if tick_count st - since > dwWaitHint q then Some st
               else control_loop env cb h pending dwCheck since (Suc dwTick) st)"

text \<open>Asking for the control: starting, or stopping what depends on the service and sending the code.\<close>

definition send_control ::
  "scm_env \<Rightarrow> nat \<Rightarrow> dword \<Rightarrow> sc_status \<Rightarrow> scm \<Rightarrow> (bool \<times> sc_status \<times> scm) option" where
  "send_control env h dwControl q st =
     (if dwControl = SERVICE_CONTROL_CONTINUE \<and> dwCurrentState q \<noteq> SERVICE_PAUSED
      then (case scm_do env (Start_service h) st of (ok, st) \<Rightarrow> Some (ok, q, st))
      else
        (case (if dwControl = SERVICE_CONTROL_STOP then apxStopDependentServices env h st
               else Some (True, st)) of
           None \<Rightarrow> None
         | Some (False, st) \<Rightarrow> Some (False, q, st)
         | Some (True, st) \<Rightarrow>
             (case scm_status env (Control_service h dwControl) st of
                (None, st) \<Rightarrow> Some (False, q, st) | (Some q, st) \<Rightarrow> Some (True, q, st))))"

definition apxServiceControl ::
  "scm_env \<Rightarrow> dword \<Rightarrow> control_callback \<Rightarrow> apxservice \<Rightarrow> scm \<Rightarrow> (bool \<times> scm) option" where
  "apxServiceControl env dwControl cb s st =
     (case hService s of
        None \<Rightarrow> Some (False, st)
      | Some h \<Rightarrow>
          if bManagerMode s then Some (False, st)
          else
            let (pending, desired) = control_states dwControl
            in if pending = 0 \<and> desired = 0 then Some (False, st)
               else (case scm_status env (Query_status h) st of
                  (None, st) \<Rightarrow> Some (False, st)
                | (Some q, st) \<Rightarrow>
                    (case send_control env h dwControl q st of
                       None \<Rightarrow> None
                     | Some (sent, q, st) \<Rightarrow>
                         Option.bind
                           (if sent
                            then control_loop env cb h pending (dwCheckPoint q) (tick_count st) 0 (sleep_ms env 100 st)
                            else Some st)
                           (\<lambda>st. case scm_status env (Query_status h) (sleep_ms env 1000 st) of
                                   (None, st) \<Rightarrow> Some (False, st)
                                 | (Some q, st) \<Rightarrow> Some (dwCurrentState q = desired, st)))))"

section \<open>Installing and deleting\<close>

definition default_dependencies :: "wchar list" where
  "default_dependencies = wide ''Tcpip'' @ [0] @ wide ''Afd'' @ [0, 0]"

text \<open>The texts of a multi-string as \<open>CreateServiceW\<close> reads them.\<close>

definition msz_texts :: "wchar list \<Rightarrow> wtext list option" where
  "msz_texts b = msz_walk b"

definition apxServiceInstall ::
  "scm_env \<Rightarrow> wtext \<Rightarrow> wtext option \<Rightarrow> wtext option \<Rightarrow> wchar list option \<Rightarrow> dword \<Rightarrow> dword
     \<Rightarrow> apxservice \<Rightarrow> scm \<Rightarrow> (bool \<times> apxservice \<times> scm) option" where
  "apxServiceInstall env name display img deps type start s st =
     (if bManagerMode s \<or> hManager s = None \<or> \<not> apxIsValidServiceName name then Some (False, s, st)
      else do {
        let st = close_sc (hService s) st;
        let s = s\<lparr>lpConfig := False, hService := None, sv_name := [], sv_description := [], sv_user := [], sv_start := 0\<rparr>;
        deps \<leftarrow> (case deps of
                   None \<Rightarrow> Some (Some default_dependencies)
                 | Some d \<Rightarrow> map_option fst (apxMultiSzCombine (Some d) (Some default_dependencies)));
        texts \<leftarrow> (case deps of None \<Rightarrow> Some None | Some d \<Rightarrow> map_option Some (msz_texts d));
        Some (case scm_open env (Create_service name display type start img texts) st of
                (None, st) \<Rightarrow> (False, s, st)
              | (Some h, st) \<Rightarrow>
                  (True, s\<lparr>hService := Some h, sv_name := take 255 name, sv_start := start\<rparr>, st)) })"

definition apxServiceDelete :: "scm_env \<Rightarrow> apxservice \<Rightarrow> scm \<Rightarrow> (bool \<times> apxservice \<times> scm) option" where
  "apxServiceDelete env s st =
     (case hService s of
        None \<Rightarrow> Some (False, s, st)
      | Some h \<Rightarrow>
          if bManagerMode s then Some (False, s, st)
          else (case scm_status env (Query_status h) st of
                  (None, st) \<Rightarrow> Some (False, s, st)
                | (Some q, st) \<Rightarrow> do {
                    (_, st) \<leftarrow> (if dwCurrentState q \<noteq> SERVICE_STOPPED
                               then apxServiceControl env SERVICE_CONTROL_STOP None s st else Some (True, st));
                    (case scm_do env (Delete_service h) st of (ok, st) \<Rightarrow>
                       Some (ok, s\<lparr>hService := None, hManager := None\<rparr>,
                             close_sc (hManager s) (close_sc (Some h) st))) }))"

section \<open>Browsing\<close>

text \<open>
  The four patterns are lists of wildcard expressions. A service is shown if the last result
  is zero; \<open>name\<close> and \<open>img\<close> are the arrays with the name and the path of the service, \<open>stack\<close> is
  the array of the matching routine.
\<close>

record browse_patterns =
  include_name :: "wchar list option"
  exclude_name :: "wchar list option"
  include_image :: "wchar list option"
  exclude_image :: "wchar list option"

definition SERVICE_WIN32 :: dword where "SERVICE_WIN32 = 0x30"
definition SERVICE_INTERACTIVE_PROCESS :: dword where "SERVICE_INTERACTIVE_PROCESS = 0x100"

definition when_shown ::
  "int \<Rightarrow> wchar list option \<Rightarrow> (wchar list \<Rightarrow> int option) \<Rightarrow> int option" where
  "when_shown fm pattern f =
     (case pattern of None \<Rightarrow> Some fm | Some p \<Rightarrow> if fm = 0 then f p else Some fm)"

definition browse_match ::
  "(wchar \<Rightarrow> wchar) \<Rightarrow> wchar list \<Rightarrow> browse_patterns \<Rightarrow> dword \<Rightarrow> wchar list \<Rightarrow> wchar list \<Rightarrow> int option" where
  "browse_match lower stack p type name img =
     (let match = (\<lambda>s p. apxMultiStrMatchW lower stack s p (ch CHR '';'') True);
          unmatch = (\<lambda>s p. map_option (\<lambda>m. if m = 0 then 1 else 0) (match s p))
      in do {
        let fm = (if type AND NOT SERVICE_INTERACTIVE_PROCESS AND SERVICE_WIN32 \<noteq> 0 then 0 else - 1);
        fm \<leftarrow> when_shown fm (include_name p) (match name);
        fm \<leftarrow> when_shown fm (exclude_name p) (unmatch name);
        fm \<leftarrow> when_shown fm (include_image p) (match img);
        when_shown fm (exclude_image p) (unmatch name) })"

text \<open>
  A round of the loop: \<open>config\<close> is the type and the path \<open>QueryServiceConfigW\<close> reports,
  \<open>display\<close> the callback of the caller, which gets the entry and its number. The result is
  whether the loop goes on, and its state: the enumeration, the number of entries shown, the
  manager and the registry.
\<close>

type_synonym browse_state = "regenum \<times> nat \<times> scm \<times> registry"

definition browse_step ::
  "scm_env \<Rightarrow> reg_env \<Rightarrow> (wchar list \<Rightarrow> wchar list \<Rightarrow> dword \<Rightarrow> int option)
     \<Rightarrow> (scm_call list \<Rightarrow> dword \<times> wchar list) \<Rightarrow> (servname \<Rightarrow> nat \<Rightarrow> bool)
     \<Rightarrow> browse_state \<Rightarrow> (bool \<times> browse_state) option" where
  "browse_step env renv match config display s =
     (case s of (en, found, st, reg) \<Rightarrow>
        case apxRegistryEnumServices renv reg en
               \<lparr>szServiceName = [], szServiceDescription = replicate 1024 0, szObjectName = replicate 256 0, dwStart = 0\<rparr> of
          (False, reg, en, ent) \<Rightarrow> Some (False, en, found, st, reg)
        | (True, reg, en, ent) \<Rightarrow>
            (case scm_open env (Open_service (szServiceName ent) GENERIC_READ) st of
               (None, st) \<Rightarrow> Some (True, en, found, st, reg)
             | (Some h, st) \<Rightarrow>
                 (case scm_do env (Query_config h) (snd (scm_do env (Query_config h) st)) of
                    (False, st) \<Rightarrow> Some (True, en, found, close_sc (Some h) st, reg)
                  | (True, st) \<Rightarrow> do {
                      let (type, img) = config (calls st);
                      fm \<leftarrow> match (szServiceName ent @ [0]) img type;
                      Some (if fm = 0
                            then (display ent found, en, Suc found,
                                  close_sc (Some h) (snd (scm_do env (Query_status h) st)), reg)
                            else (True, en, found, close_sc (Some h) st, reg)) })))"

partial_function (option) browse_loop ::
  "(browse_state \<Rightarrow> (bool \<times> browse_state) option) \<Rightarrow> browse_state \<Rightarrow> browse_state option" where
  "browse_loop step s = Option.bind (step s) (\<lambda>(go, s). if go then browse_loop step s else Some s)"

definition apxServiceBrowse ::
  "scm_env \<Rightarrow> reg_env \<Rightarrow> (wchar \<Rightarrow> wchar) \<Rightarrow> wchar list \<Rightarrow> (scm_call list \<Rightarrow> dword \<times> wchar list)
     \<Rightarrow> (servname \<Rightarrow> nat \<Rightarrow> bool) option \<Rightarrow> browse_patterns \<Rightarrow> apxservice \<Rightarrow> scm \<times> registry
     \<Rightarrow> (nat \<times> scm \<times> registry) option" where
  "apxServiceBrowse env renv lower stack config display p s w =
     (case (display, hManager s) of
        (Some f, Some m) \<Rightarrow>
          if \<not> bManagerMode s then Some (0, w)
          else (case scm_do env (Lock_database m) (fst w) of
                  (False, st) \<Rightarrow> Some (0, st, snd w)
                | (True, st) \<Rightarrow>
                    map_option snd
                      (browse_loop
                        (browse_step env renv (\<lambda>name img type. browse_match lower stack p type name img) config f)
                        (\<lparr>hServicesKey = None, cSubKeys = 0, dwIndex = 0\<rparr>, 0, st, snd w)))
      | _ \<Rightarrow> Some (0, w))"

end
