(* ===== verification/Service_Facts.thy ===== *)
theory Service_Facts
  imports Win_Service Registry_Facts
begin

text \<open>
  Facts about \<open>Win_Service\<close>: controlling a service ends whatever the service reports, its
  result is the last status, and what the routines do with handles, names and patterns.
\<close>

section \<open>Waiting ends\<close>

text \<open>
  A system whose sleeps are late by a bounded time, at least a millisecond, and in which no
  service asks to wait for longer than \<open>H\<close> milliseconds.
\<close>

definition timely :: "scm_env \<Rightarrow> nat \<Rightarrow> bool" where
  "timely env S \<longleftrightarrow>
     (\<forall>i c. 0 < late env i \<and> unat (dwWaitHint (status_of env c)) + late env i \<le> S \<and>
            10000 + late env i \<le> S) \<and> 2 * S + 30000 < 2 ^ 32"

lemma tick_difference:
  assumes "t0 \<le> now st" "now st - t0 < 2 ^ 32"
  shows "unat (tick_count st - word_of_nat t0) = now st - t0"
proof -
  have "tick_count st - word_of_nat t0 = word_of_nat (now st - t0)"
    using assms(1) by (simp add: tick_count_def of_nat_diff)
  then show ?thesis using assms(2) by (simp add: unat_of_nat take_bit_nat_eq_self)
qed

lemma pending_wait_bounds: "1000 \<le> pending_wait q \<and> pending_wait q \<le> 10000"
  by (simp add: pending_wait_def Let_def)

lemma scm_status_shape:
  "scm_status env c st = (x, st') \<Longrightarrow>
     now st' = now st \<and> sleeps st' = sleeps st \<and> sc_handles st' = sc_handles st \<and> next_sc st' = next_sc st \<and>
     calls st' = c # calls st \<and> (\<forall>q. x = Some q \<longrightarrow> q = status_of env (calls st'))"
  by (auto simp: scm_status_def scm_do_def split: if_splits)

lemma control_loop_ends:
  assumes "timely env S" "t0 \<le> now st" "now st - t0 \<le> S"
  shows "control_loop env cb h pending chk (word_of_nat t0) n st \<noteq> None"
  using assms(2,3)
proof (induction "(2 ^ 32 - unat chk, S - (now st - t0))" arbitrary: chk t0 n st
    rule: wf_induct_rule [OF wf_lex_prod [OF wf_less_than wf_less_than]])
  case (1 chk t0 st n)
  obtain x st1 where q: "scm_status env (Query_status h) st = (x, st1)" by fastforce
  note sh = scm_status_shape [OF q]
  show ?case
  proof (cases x)
    case None
    with q show ?thesis by (subst control_loop.simps) simp
  next
    case (Some s)
    with sh have s: "s = status_of env (calls st1)" by simp
    let ?st2 = "sleep_ms env (pending_wait s) st1"
    let ?late = "late env (sleeps st1)"
    have n2: "now ?st2 = now st + pending_wait s + ?late" using sh by (simp add: sleep_ms_def)
    have b: "0 < ?late" "unat (dwWaitHint s) + ?late \<le> S" "10000 + ?late \<le> S" "2 * S + 30000 < 2 ^ 32"
      using assms(1) s by (auto simp: timely_def)
    let ?stop = "dwCurrentState s \<noteq> pending \<or> (case cb of None \<Rightarrow> False | Some f \<Rightarrow> \<not> f 2 n)"
    have unf: "control_loop env cb h pending chk (word_of_nat t0) n st =
        (if ?stop then Some st1
         else if dwCheckPoint s > chk
         then control_loop env cb h pending (dwCheckPoint s) (tick_count ?st2) (Suc n) ?st2
         else if tick_count ?st2 - word_of_nat t0 > dwWaitHint s then Some ?st2
         else control_loop env cb h pending chk (word_of_nat t0) (Suc n) ?st2)"
      using q Some by (subst control_loop.simps) (simp add: Let_def)
    show ?thesis
    proof (cases "dwCheckPoint s > chk")
      case True
      then have "2 ^ 32 - unat (dwCheckPoint s) < 2 ^ 32 - unat chk"
        using unsigned_less [of "dwCheckPoint s", where ?'a = nat] by (simp add: word_less_nat_alt)
      then have "control_loop env cb h pending (dwCheckPoint s) (word_of_nat (now ?st2)) (Suc n) ?st2 \<noteq> None"
        by (intro 1(1)) auto
      with True unf show ?thesis by (simp add: tick_count_def)
    next
      case False
      show ?thesis
      proof (cases "?stop \<or> tick_count ?st2 - word_of_nat t0 > dwWaitHint s")
        case True
        with False unf show ?thesis by auto
      next
        case go: False
        have e: "now ?st2 - t0 = now st - t0 + pending_wait s + ?late" using n2 1(2) by simp
        have "now ?st2 - t0 < 2 ^ 32" using e 1(3) b pending_wait_bounds [of s] by linarith
        then have "now ?st2 - t0 \<le> unat (dwWaitHint s)"
          using go tick_difference [of t0 ?st2] n2 1(2) by (auto simp: word_less_nat_alt not_less)
        then have "now ?st2 - t0 \<le> S" using b by simp
        moreover have "S - (now ?st2 - t0) < S - (now st - t0)"
          using e calculation pending_wait_bounds [of s] by linarith
        ultimately have "control_loop env cb h pending chk (word_of_nat t0) (Suc n) ?st2 \<noteq> None"
          using n2 1(2) by (intro 1(1)) auto
        with False go unf show ?thesis by auto
      qed
    qed
  qed
qed


lemma unat_add_word_of_nat:
  fixes a :: dword
  assumes "unat a + k < 2 ^ 32"
  shows "unat (a + word_of_nat k) = unat a + k"
  using assms by (simp add: unat_word_ariths(1) unat_of_nat take_bit_eq_mod)

lemma elapsed_after_sleep:
  fixes start :: dword
  assumes "unat (tick_count st - start) + (ms + late env (sleeps st)) < 2 ^ 32"
  shows "unat (tick_count (sleep_ms env ms st) - start)
      = unat (tick_count st - start) + (ms + late env (sleeps st))"
proof -
  have "tick_count (sleep_ms env ms st) - start = (tick_count st - start) + word_of_nat (ms + late env (sleeps st))"
    by (simp add: tick_count_def sleep_ms_def)
  then show ?thesis using unat_add_word_of_nat [OF assms] by (rule ssubst)
qed

lemma wait_stopped_ends_early:
  assumes "timely env S" "unat (tick_count st - start) \<le> 30000" "q = status_of env (calls st)"
  shows "wait_stopped env h start q st \<noteq> None"
  using assms(2,3)
proof (induction "30000 - unat (tick_count st - start)" arbitrary: q st rule: less_induct)
  case less
  let ?w = "unat (dwWaitHint q)"
  let ?st1 = "sleep_ms env ?w st"
  have b: "0 < late env (sleeps st)" "?w + late env (sleeps st) \<le> S" "2 * S + 30000 < 2 ^ 32"
    using assms(1) less(3) by (auto simp: timely_def)
  then have nomax: "dwWaitHint q \<noteq> 0xFFFFFFFF" by auto
  obtain x st2 where q2: "scm_status env (Query_status h) ?st1 = (x, st2)" by fastforce
  note sh = scm_status_shape [OF q2]
  have tick: "tick_count st2 = tick_count ?st1" using sh by (simp add: tick_count_def)
  have el: "unat (tick_count st2 - start) = unat (tick_count st - start) + (?w + late env (sleeps st))"
    unfolding tick using less(2) b by (intro elapsed_after_sleep) linarith
  show ?case
  proof (cases x)
    case None
    with q2 nomax show ?thesis by (subst wait_stopped.simps) auto
  next
    case (Some p)
    have "wait_stopped env h start p st2 \<noteq> None" if "\<not> tick_count st2 - start > 30000"
      using that Some sh el b less(2) by (intro less(1)) (auto simp: word_less_nat_alt)
    with q2 Some nomax show ?thesis by (subst wait_stopped.simps) auto
  qed
qed

lemma wait_stopped_ends:
  assumes "timely env S" "q = status_of env (calls st)"
  shows "wait_stopped env h start q st \<noteq> None"
proof -
  let ?st1 = "sleep_ms env (unat (dwWaitHint q)) st"
  have "unat (dwWaitHint q) \<le> S" "2 * S + 30000 < 2 ^ 32"
    using assms add_leD1 unfolding timely_def by blast+
  then have nomax: "dwWaitHint q \<noteq> 0xFFFFFFFF" by auto
  obtain x st2 where q2: "scm_status env (Query_status h) ?st1 = (x, st2)" by fastforce
  note sh = scm_status_shape [OF q2]
  show ?thesis
  proof (cases x)
    case None
    with q2 nomax show ?thesis by (subst wait_stopped.simps) auto
  next
    case (Some p)
    have "wait_stopped env h start p st2 \<noteq> None" if "\<not> tick_count st2 - start > 30000"
      using that Some sh by (intro wait_stopped_ends_early [OF assms(1)]) (auto simp: word_less_nat_alt not_less)
    with q2 Some nomax show ?thesis by (subst wait_stopped.simps) auto
  qed
qed

lemma stop_all_ends:
  assumes "timely env S"
  shows "stop_all env start names st \<noteq> None"
proof (induction names arbitrary: st)
  case (Cons n ns)
  have "wait_stopped env h start q st' \<noteq> None" if "scm_status env c st0 = (Some q, st')" for h q c st0 st'
    using scm_status_shape [OF that] by (intro wait_stopped_ends [OF assms]) simp
  then have "stop_dependent env start n st \<noteq> None"
    by (auto simp: stop_dependent_def split: prod.splits option.splits)
  with Cons show ?case by (auto split: option.splits prod.splits bool.splits)
qed simp

lemma send_control_ends:
  assumes "timely env S"
  shows "send_control env h c q st \<noteq> None"
proof -
  have "apxStopDependentServices env h st \<noteq> None"
    using stop_all_ends [OF assms] not_None_eq
    by (auto simp del: stop_all.simps simp: apxStopDependentServices_def Let_def split: option.splits list.splits prod.splits bool.splits)
  then show ?thesis
    by (auto simp: send_control_def split: option.splits prod.splits bool.splits)
qed

text \<open>
  The whole routine returns. What it reports as done is what the service reported last; when
  no code is sent at all, nothing is asked of the manager.
\<close>

lemma apxServiceControl_outcome:
  assumes "timely env S"
  shows "case apxServiceControl env dwControl cb s st of
      None \<Rightarrow> False
    | Some (ok, st') \<Rightarrow> ok \<longrightarrow> dwCurrentState (status_of env (calls st')) = snd (control_states dwControl)"
proof -
  have loop: "control_loop env cb h pending chk (tick_count st0) n (sleep_ms env 100 st0) \<noteq> None" for h pending chk n st0
  proof -
    have b: "10000 + late env (sleeps st0) \<le> S" using assms by (simp add: timely_def)
    show ?thesis unfolding tick_count_def
      by (rule control_loop_ends [OF assms]) (use b in \<open>simp_all add: sleep_ms_def\<close>)
  qed
  show ?thesis
    using send_control_ends [OF assms] loop
    by (auto simp del: not_None_eq simp: apxServiceControl_def Let_def
        split: option.splits prod.splits bind_splits dest!: scm_status_shape)
qed

lemma apxServiceControl_ends: "timely env S \<Longrightarrow> apxServiceControl env dwControl cb s st \<noteq> None"
  using apxServiceControl_outcome [of env S dwControl cb s st] by (auto split: option.splits)

text \<open>Controlling a service ends, in a system whose services ask for no wait longer than \<open>S\<close>
  milliseconds and whose sleeps are late by at most that: neither the loop that follows the
  state of the service nor the waiting for its dependents runs for ever, whatever states and
  check points are reported. When it answers that the service has been controlled, the state
  reported last is the one the control code stands for.\<close>

theorem service_control_returns:
  assumes "timely env S"
  shows "case apxServiceControl env dwControl cb s st of
      None \<Rightarrow> False
    | Some (ok, st') \<Rightarrow> ok \<longrightarrow> dwCurrentState (status_of env (calls st')) = snd (control_states dwControl)"
  using assms by (rule apxServiceControl_outcome)

definition swift_env :: scm_env where
  "swift_env = \<lparr>grants = \<lambda>_ _. True, status_of = \<lambda>c. \<lparr>dwCurrentState = SERVICE_RUNNING, dwCheckPoint = 0, dwWaitHint = 0\<rparr>,
     dependents = \<lambda>_. Some [], late = \<lambda>_. 1, same_name = (=)\<rparr>"


lemma swift_timely: "timely swift_env 20000"
  by (simp add: timely_def swift_env_def)

theorem service_control_returns_witness:
  "case apxServiceControl swift_env SERVICE_CONTROL_CONTINUE None
       \<lparr>bManagerMode = False, hService = Some 1, hManager = Some 0, sv_name = [], sv_description = [],
        sv_user = [], sv_start = 0, lpConfig = True\<rparr>
       \<lparr>calls = [], sc_handles = [1, 0], next_sc = 2, now = 0, sleeps = 0\<rparr> of
     None \<Rightarrow> False
   | Some (ok, st') \<Rightarrow> ok \<longrightarrow>
       dwCurrentState (status_of swift_env (calls st')) = snd (control_states SERVICE_CONTROL_CONTINUE)"
  by (rule service_control_returns [OF swift_timely])

section \<open>Handles of the manager\<close>

lemma sleep_handles [simp]: "sc_handles (sleep_ms env ms st) = sc_handles st" "next_sc (sleep_ms env ms st) = next_sc st"
  by (simp_all add: sleep_ms_def)

lemma wait_stopped_handles:
  assumes "wait_stopped env h start q st = Some y"
  shows "sc_handles (snd y) = sc_handles st \<and> next_sc (snd y) = next_sc st"
proof (rule wait_stopped.raw_induct [OF _ assms])
  fix wait env h start q st y
  assume ih: "\<And>env h start q st y. wait env h start q st = Some y \<Longrightarrow> sc_handles (snd y) = sc_handles st \<and> next_sc (snd y) = next_sc st"
    and run: "(if dwCurrentState q = SERVICE_STOPPED then Some (True, st)
      else if dwWaitHint q = 0xFFFFFFFF then None
      else case scm_status env (Query_status h) (sleep_ms env (unat (dwWaitHint q)) st) of
             (None, st) \<Rightarrow> Some (False, st)
           | (Some q, st) \<Rightarrow>
               if dwCurrentState q = SERVICE_STOPPED then Some (True, st)
               else if tick_count st - start > 30000 then Some (False, st)
               else wait env h start q st) = Some y"
  then show "sc_handles (snd y) = sc_handles st \<and> next_sc (snd y) = next_sc st"
    by (auto split: if_splits prod.splits option.splits dest!: ih scm_status_shape)
qed

lemma control_loop_handles:
  assumes "control_loop env cb h pending chk since n st = Some y"
  shows "sc_handles y = sc_handles st \<and> next_sc y = next_sc st"
proof (rule control_loop.raw_induct [OF _ assms])
  fix loop env cb h pending dwCheck since dwTick st y
  assume ih: "\<And>env cb h pending dwCheck since dwTick st y. loop env cb h pending dwCheck since dwTick st = Some y
        \<Longrightarrow> sc_handles y = sc_handles st \<and> next_sc y = next_sc st"
    and run: "(case scm_status env (Query_status h) st of
        (None, st) \<Rightarrow> Some st
      | (Some q, st) \<Rightarrow>
          if dwCurrentState q \<noteq> pending then Some st
          else if case cb of None \<Rightarrow> False | Some f \<Rightarrow> \<not> f 2 dwTick then Some st
          else
            let st = sleep_ms env (pending_wait q) st
            in if dwCheckPoint q > dwCheck
               then loop env cb h pending (dwCheckPoint q) (tick_count st) (Suc dwTick) st
               else if tick_count st - since > dwWaitHint q then Some st
               else loop env cb h pending dwCheck since (Suc dwTick) st) = Some y"
  then show "sc_handles y = sc_handles st \<and> next_sc y = next_sc st"
    by (auto simp: Let_def split: if_splits prod.splits option.splits dest!: ih scm_status_shape)
qed

lemma scm_open_shape:
  "scm_open env c st = (x, st') \<Longrightarrow>
     (case x of None \<Rightarrow> sc_handles st' = sc_handles st \<and> next_sc st' = next_sc st
      | Some h \<Rightarrow> h = next_sc st \<and> sc_handles st' = h # sc_handles st \<and> next_sc st' = Suc h)"
  by (auto simp: scm_open_def scm_do_def split: if_splits)

text \<open>Stopping a service that depends on the one to stop closes the handle opened for it in every
  case but one: for a service named \<open>Tcpip\<close> or \<open>Afd\<close>, which the code passes over, the handle stays
  open.\<close>

theorem stop_dependent_handles:
  assumes "stop_dependent env start name st = Some (ok, st')"
  shows "sc_handles st' =
    (if grants env (calls st) (Open_service name (SERVICE_STOP OR SERVICE_QUERY_STATUS))
        \<and> (same_name env name (wide ''Tcpip'') \<or> same_name env name (wide ''Afd''))
     then next_sc st # sc_handles st else sc_handles st)"
proof (cases "scm_open env (Open_service name (SERVICE_STOP OR SERVICE_QUERY_STATUS)) st")
  case (Pair x st1)
  note op = scm_open_shape [OF Pair]
  have g: "x \<noteq> None \<longleftrightarrow> grants env (calls st) (Open_service name (SERVICE_STOP OR SERVICE_QUERY_STATUS))"
    using Pair by (auto simp: scm_open_def scm_do_def split: if_splits)
  show ?thesis
  proof (cases x)
    case None
    with assms Pair op g show ?thesis by (simp add: stop_dependent_def)
  next
    case (Some h)
    show ?thesis
    proof (cases "same_name env name (wide ''Tcpip'') \<or> same_name env name (wide ''Afd'')")
      case True
      with assms Pair op g Some show ?thesis by (auto simp: stop_dependent_def)
    next
      case False
      then have "sc_handles st' = sc_handles st"
        using assms Pair op Some
        by (auto simp: stop_dependent_def close_sc_def split: prod.splits option.splits
            dest!: scm_status_shape wait_stopped_handles)
      with False show ?thesis by auto
    qed
  qed
qed

definition plain_scm :: scm where
  "plain_scm = \<lparr>calls = [], sc_handles = [1, 0], next_sc = 2, now = 0, sleeps = 0\<rparr>"

theorem stop_dependent_handles_witness:
  "\<exists>ok st'. stop_dependent swift_env 0 (wide ''Tcpip'') plain_scm = Some (ok, st') \<and> sc_handles st' = [2, 1, 0]"
proof -
  have "\<exists>st'. stop_dependent swift_env 0 (wide ''Tcpip'') plain_scm = Some (True, st')"
    by (simp add: stop_dependent_def swift_env_def scm_open_def scm_do_def)
  then obtain st' where r: "stop_dependent swift_env 0 (wide ''Tcpip'') plain_scm = Some (True, st')" by blast
  from stop_dependent_handles [OF r] have "sc_handles st' = [2, 1, 0]"
    by (simp add: swift_env_def plain_scm_def)
  with r show ?thesis by blast
qed

section \<open>Deleting a service\<close>

text \<open>Deleting an open service whose state can be asked for always comes to the request to delete it,
  also when the service could not be stopped; the result is the answer to that request, it is
  the last call made, and the object is left without handles.\<close>

theorem service_delete_outcome:
  assumes "timely env S" "hService s = Some h" "\<not> bManagerMode s" "grants env (calls st) (Query_status h)"
  shows "case apxServiceDelete env s st of
      None \<Rightarrow> False
    | Some (ok, s', st') \<Rightarrow>
        hd (calls st') = Delete_service h \<and> ok = grants env (tl (calls st')) (Delete_service h)
        \<and> s' = s\<lparr>hService := None, hManager := None\<rparr>"
proof -
  obtain q st1 where q: "scm_status env (Query_status h) st = (Some q, st1)"
    using assms(4) by (simp add: scm_status_def scm_do_def)
  have "apxServiceControl env SERVICE_CONTROL_STOP None s st1 \<noteq> None"
    by (rule apxServiceControl_ends [OF assms(1)])
  then show ?thesis using assms(2,3) q
    by (auto simp: apxServiceDelete_def scm_do_def close_sc_def split: option.splits)
qed

theorem service_delete_outcome_witness:
  "case apxServiceDelete swift_env
       \<lparr>bManagerMode = False, hService = Some 1, hManager = Some 0, sv_name = [], sv_description = [],
        sv_user = [], sv_start = 0, lpConfig = True\<rparr> plain_scm of
     None \<Rightarrow> False
   | Some (ok, s', st') \<Rightarrow> ok \<and> hService s' = None \<and> hd (calls st') = Delete_service 1"
proof -
  let ?s = "\<lparr>bManagerMode = False, hService = Some 1, hManager = Some 0, sv_name = [], sv_description = [],
        sv_user = [], sv_start = 0, lpConfig = True\<rparr>"
  have g: "grants swift_env (calls plain_scm) (Query_status 1)" by (simp add: swift_env_def)
  show ?thesis
    using service_delete_outcome [OF swift_timely _ _ g, of ?s]
    by (auto simp: swift_env_def split: option.splits)
qed

end
