(* ===== verification/C_Numbers.thy ===== *)
theory C_Numbers
  imports Jsvc_Prelude
begin

text \<open>
  The number conversions of the C library as the native code uses them: \<open>strtol\<close> in a base
  up to ten, \<open>atoi\<close>, and the \<open>%d\<close> conversion of \<open>printf\<close>. The lemma the PID file protocol
  rests on is that \<open>atoi\<close> reads back what \<open>%d\<close> printed, whatever follows the number.
\<close>

section \<open>Reading\<close>

definition is_space :: "char \<Rightarrow> bool" where
  "is_space c \<longleftrightarrow> c = CHR '' '' \<or> (9 \<le> (of_char c :: nat) \<and> (of_char c :: nat) \<le> 13)"

definition digit_in :: "nat \<Rightarrow> char \<Rightarrow> nat option" where
  "digit_in base c =
     (let n = of_char c in if 48 \<le> n \<and> n < 48 + base then Some (n - 48) else None)"

fun digits_from :: "nat \<Rightarrow> nat \<Rightarrow> string \<Rightarrow> nat" where
  "digits_from base acc [] = acc"
| "digits_from base acc (c # cs) =
     (case digit_in base c of
        None \<Rightarrow> acc
      | Some d \<Rightarrow> digits_from base (acc * base + d) cs)"

text \<open>\<open>strtol\<close> returns a 64-bit \<open>long\<close> and stops at its bounds.\<close>

definition clamp_long :: "int \<Rightarrow> int" where
  "clamp_long i = max (- (2 ^ 63)) (min (2 ^ 63 - 1) i)"

definition strtol :: "nat \<Rightarrow> string \<Rightarrow> int" where
  "strtol base s =
     clamp_long
       (case dropWhile is_space s of
          [] \<Rightarrow> 0
        | c # r \<Rightarrow>
            if c = CHR ''-'' then - int (digits_from base 0 r)
            else if c = CHR ''+'' then int (digits_from base 0 r)
            else int (digits_from base 0 (c # r)))"

definition atoi :: "string \<Rightarrow> int" where
  "atoi s = int32 (strtol 10 s)"

section \<open>Printing\<close>

definition digit_char :: "nat \<Rightarrow> char" where
  "digit_char d = char_of (48 + d)"

fun show_nat :: "nat \<Rightarrow> string" where
  "show_nat n =
     (if n < 10 then [digit_char n] else show_nat (n div 10) @ [digit_char (n mod 10)])"

declare show_nat.simps [simp del]

definition show_int :: "int \<Rightarrow> string" where
  "show_int i = (if i < 0 then CHR ''-'' # show_nat (nat (- i)) else show_nat (nat i))"

section \<open>Reading back what was printed\<close>

lemma digit_in_digit_char [simp]: "d < base \<Longrightarrow> base \<le> 10 \<Longrightarrow> digit_in base (digit_char d) = Some d"
  by (simp add: digit_in_def digit_char_def)

lemma digits_from_show_nat:
  "digits_from 10 0 (show_nat n @ r) = digits_from 10 n r"
proof (induction n arbitrary: r rule: show_nat.induct)
  case (1 n)
  show ?case
  proof (cases "n < 10")
    case True
    then show ?thesis by (simp add: show_nat.simps [of n])
  next
    case False
    with "1.IH" [OF False, of "digit_char (n mod 10) # r"] show ?thesis
      by (simp add: show_nat.simps [of n])
  qed
qed

lemma digits_from_stop: "(\<And>c cs. r = c # cs \<Longrightarrow> digit_in base c = None) \<Longrightarrow> digits_from base acc r = acc"
  by (cases r) auto

lemma of_char_digit_char: "d < 10 \<Longrightarrow> (of_char (digit_char d) :: nat) = 48 + d"
  by (simp add: digit_char_def)

lemma show_nat_hd: "\<exists>d cs. d < 10 \<and> show_nat n = digit_char d # cs"
proof (induction n rule: show_nat.induct)
  case (1 n)
  show ?case
  proof (cases "n < 10")
    case False
    with "1.IH" show ?thesis by (auto simp: show_nat.simps [of n])
  qed (auto simp: show_nat.simps [of n])
qed

lemma digit_char_neq:
  "d < 10 \<Longrightarrow> (of_char c :: nat) < 48 \<Longrightarrow> digit_char d \<noteq> c"
  using of_char_digit_char [of d] by auto

lemma digit_char_not_special:
  assumes "d < 10"
  shows "\<not> is_space (digit_char d)" "digit_char d \<noteq> CHR ''-''" "digit_char d \<noteq> CHR ''+''"
    "digit_char d \<noteq> NUL"
  using assms digit_char_neq [OF assms] by (simp_all add: is_space_def of_char_digit_char)

lemma strtol_show_int:
  assumes stop: "\<And>c cs. r = c # cs \<Longrightarrow> digit_in 10 c = None"
  shows "strtol 10 (show_int i @ r) = clamp_long i"
proof (cases "i < 0")
  case True
  have "\<not> is_space CHR ''-''" by (simp add: is_space_def)
  with True show ?thesis
    using digits_from_stop [of r 10 "nat (- i)"] stop
    by (simp add: strtol_def show_int_def digits_from_show_nat)
next
  case False
  obtain d cs where d: "d < 10" "show_nat (nat i) = digit_char d # cs"
    using show_nat_hd by blast
  have "digits_from 10 0 (digit_char d # cs @ r) = nat i"
    using digits_from_show_nat [of "nat i" r] digits_from_stop [of r 10 "nat i"] stop d by auto
  with False d digit_char_not_special [OF d(1)] show ?thesis
    by (simp add: strtol_def show_int_def)
qed

lemma atoi_show_int:
  assumes "- (2 ^ 31) \<le> i" "i < 2 ^ 31" and "\<And>c cs. r = c # cs \<Longrightarrow> digit_in 10 c = None"
  shows "atoi (show_int i @ r) = i"
  using assms by (simp add: atoi_def strtol_show_int clamp_long_def int32_id)

lemma atoi_range: "- (2 ^ 31) \<le> atoi s" "atoi s < 2 ^ 31"
  using int32_range [of "strtol 10 s"] by (simp_all add: atoi_def)

lemma show_nat_no_nul: "NUL \<notin> set (show_nat n)"
proof (induction n rule: show_nat.induct)
  case (1 n)
  show ?case
  proof (cases "n < 10")
    case True
    then show ?thesis using digit_char_not_special(4) [of n] by (auto simp: show_nat.simps [of n])
  next
    case False
    with 1 show ?thesis using digit_char_not_special(4) [of "n mod 10"]
      by (auto simp: show_nat.simps [of n])
  qed
qed

lemma show_int_no_nul: "NUL \<notin> set (show_int i)"
  by (auto simp: show_int_def show_nat_no_nul)

lemma length_show_nat: "n < 10 ^ Suc k \<Longrightarrow> length (show_nat n) \<le> Suc k"
proof (induction k arbitrary: n)
  case 0
  then show ?case by (simp add: show_nat.simps)
next
  case (Suc k)
  show ?case
  proof (cases "n < 10")
    case False
    have "n div 10 < 10 ^ Suc k" using Suc.prems by (simp add: less_mult_imp_div_less mult.commute)
    with Suc.IH False show ?thesis by (simp add: show_nat.simps [of n])
  qed (simp add: show_nat.simps)
qed

lemma length_show_int: "\<bar>i\<bar> < 2 ^ 31 \<Longrightarrow> length (show_int i) \<le> 11"
  using length_show_nat [of "nat \<bar>i\<bar>" 9]
  by (auto simp: show_int_def intro: le_SucI [of _ 10, simplified])

end
