(* ===== verification/Srv_Options.thy ===== *)
theory Srv_Options
  imports Registry_Facts Cmdline C_Numbers
begin

text \<open>
  The options of the service runner (\<^verbatim>\<open>windows/apps/prunsrv/prunsrv.c\<close>): the table, its place
  in the registry, loading and saving the configuration, the texts that are printed, and the
  environment that is set for the worker. The columns of the table that the program changes
  are a list of \<open>cmdopt\<close>; the others are the rows of \<open>option_rows\<close>.
\<close>

section \<open>The table\<close>

definition APXCMDOPT_STE :: dword where "APXCMDOPT_STE = 0x6"
definition APXCMDOPT_BIN :: dword where "APXCMDOPT_BIN = 0x20"
definition APXCMDOPT_REG :: dword where "APXCMDOPT_REG = 0x100"
definition APXCMDOPT_SRV :: dword where "APXCMDOPT_SRV = 0x200"

text \<open>The name, the name of the value and of its subkey, the type, the number.\<close>

type_synonym option_row = "string \<times> string \<times> string option \<times> dword \<times> dword"

definition option_rows :: "option_row list" where
  "option_rows =
    [(''Description'', ''Description'', None, APXCMDOPT_STR OR APXCMDOPT_SRV, 0),
     (''DisplayName'', ''DisplayName'', None, APXCMDOPT_STR OR APXCMDOPT_SRV, 0),
     (''Install'', ''ImagePath'', None, APXCMDOPT_STE OR APXCMDOPT_SRV, 0),
     (''ServiceUser'', ''ServiceUser'', None, APXCMDOPT_STR OR APXCMDOPT_SRV, 0),
     (''ServicePassword'', ''ServicePassword'', None, APXCMDOPT_STR OR APXCMDOPT_SRV, 0),
     (''Startup'', ''Startup'', None, APXCMDOPT_STR OR APXCMDOPT_SRV, 0),
     (''Type'', ''Type'', None, APXCMDOPT_STR OR APXCMDOPT_SRV, 0),
     (''DependsOn'', ''DependsOn'', None, APXCMDOPT_MSZ OR APXCMDOPT_REG, 0),
     (''Environment'', ''Environment'', None, APXCMDOPT_MSZ OR APXCMDOPT_REG, 0),
     (''User'', ''User'', None, APXCMDOPT_STR OR APXCMDOPT_REG, 0),
     (''Password'', ''Password'', None, APXCMDOPT_BIN OR APXCMDOPT_REG, 0),
     (''LibraryPath'', ''LibraryPath'', None, APXCMDOPT_STE OR APXCMDOPT_REG, 0),
     (''JavaHome'', ''JavaHome'', Some ''Java'', APXCMDOPT_STE OR APXCMDOPT_REG, 0),
     (''Jvm'', ''Jvm'', Some ''Java'', APXCMDOPT_STE OR APXCMDOPT_REG, 0),
     (''JvmOptions'', ''Options'', Some ''Java'', APXCMDOPT_MSZ OR APXCMDOPT_REG, 0),
     (''Classpath'', ''Classpath'', Some ''Java'', APXCMDOPT_STE OR APXCMDOPT_REG, 0),
     (''JvmMs'', ''JvmMs'', Some ''Java'', APXCMDOPT_INT OR APXCMDOPT_REG, 0),
     (''JvmMx'', ''JvmMx'', Some ''Java'', APXCMDOPT_INT OR APXCMDOPT_REG, 0),
     (''JvmSs'', ''JvmSs'', Some ''Java'', APXCMDOPT_INT OR APXCMDOPT_REG, 0),
     (''StopImage'', ''Image'', Some ''Stop'', APXCMDOPT_STE OR APXCMDOPT_REG, 0),
     (''StopPath'', ''WorkingPath'', Some ''Stop'', APXCMDOPT_STE OR APXCMDOPT_REG, 0),
     (''StopClass'', ''Class'', Some ''Stop'', APXCMDOPT_STR OR APXCMDOPT_REG, 0),
     (''StopParams'', ''Params'', Some ''Stop'', APXCMDOPT_MSZ OR APXCMDOPT_REG, 0),
     (''StopMethod'', ''Method'', Some ''Stop'', APXCMDOPT_STR OR APXCMDOPT_REG, 0),
     (''StopMode'', ''Mode'', Some ''Stop'', APXCMDOPT_STR OR APXCMDOPT_REG, 0),
     (''StopTimeout'', ''Timeout'', Some ''Stop'', APXCMDOPT_INT OR APXCMDOPT_REG, 0),
     (''StartImage'', ''Image'', Some ''Start'', APXCMDOPT_STE OR APXCMDOPT_REG, 0),
     (''StartPath'', ''WorkingPath'', Some ''Start'', APXCMDOPT_STE OR APXCMDOPT_REG, 0),
     (''StartClass'', ''Class'', Some ''Start'', APXCMDOPT_STR OR APXCMDOPT_REG, 0),
     (''StartParams'', ''Params'', Some ''Start'', APXCMDOPT_MSZ OR APXCMDOPT_REG, 0),
     (''StartMethod'', ''Method'', Some ''Start'', APXCMDOPT_STR OR APXCMDOPT_REG, 0),
     (''StartMode'', ''Mode'', Some ''Start'', APXCMDOPT_STR OR APXCMDOPT_REG, 0),
     (''LogPath'', ''Path'', Some ''Log'', APXCMDOPT_STE OR APXCMDOPT_REG, 0),
     (''LogPrefix'', ''Prefix'', Some ''Log'', APXCMDOPT_STR OR APXCMDOPT_REG, 0),
     (''LogLevel'', ''Level'', Some ''Log'', APXCMDOPT_STR OR APXCMDOPT_REG, 0),
     (''StdError'', ''StdError'', Some ''Log'', APXCMDOPT_STE OR APXCMDOPT_REG, 0),
     (''StdOutput'', ''StdOutput'', Some ''Log'', APXCMDOPT_STE OR APXCMDOPT_REG, 0),
     (''LogJniMessages'', ''LogJniMessages'', Some ''Log'', APXCMDOPT_INT OR APXCMDOPT_REG, 1),
     (''PidFile'', ''PidFile'', Some ''Log'', APXCMDOPT_STR OR APXCMDOPT_REG, 0),
     (''Rotate'', ''Rotate'', Some ''Log'', APXCMDOPT_INT OR APXCMDOPT_REG, 0)]"

definition option_init :: "option_row \<Rightarrow> cmdopt" where
  "option_init row = (case row of (n, _, _, t, v) \<Rightarrow>
     \<lparr>szName = wide n, dwType = t, szValue = None, dwValue = v\<rparr>)"

definition option_table :: "cmdopt list" where
  "option_table = map option_init option_rows"

definition commands :: "string list" where
  "commands = [''TS'', ''RS'', ''ES'', ''SS'', ''US'', ''IS'', ''DS'', ''?'', ''VS'']"

definition altcmds :: "string list" where
  "altcmds = [''run'', ''service'', ''start'', ''stop'', ''update'', ''install'', ''delete'', ''help'', ''version'']"

text \<open>The options by their numbers.\<close>

definition GET_OPT_V :: "cmdopt list \<Rightarrow> nat \<Rightarrow> wtext option" where
  "GET_OPT_V opts i = szValue (opts ! i)"

definition GET_OPT_I :: "cmdopt list \<Rightarrow> nat \<Rightarrow> dword" where
  "GET_OPT_I opts i = dwValue (opts ! i)"

definition GET_OPT_T :: "cmdopt list \<Rightarrow> nat \<Rightarrow> dword" where
  "GET_OPT_T opts i = dwType (opts ! i)"

definition set_opt_v :: "nat \<Rightarrow> wtext option \<Rightarrow> cmdopt list \<Rightarrow> cmdopt list" where
  "set_opt_v i v opts = opts[i := (opts ! i)\<lparr>szValue := v\<rparr>]"

text \<open>\<open>IS_VALID_STRING\<close>, with the text it stands for.\<close>

definition valid_string :: "wtext option \<Rightarrow> wtext option" where
  "valid_string v =
     (case v of None \<Rightarrow> None | Some b \<Rightarrow> if text_of b = [] then None else Some (text_of b))"

section \<open>Loading and saving\<close>

definition PRG_REGROOT :: wtext where
  "PRG_REGROOT = wide (''Apache Software Foundation'' @ backslash @ ''Procrun 2.0'')"

definition KREG_WOW6432 :: "bool \<Rightarrow> dword" where
  "KREG_WOW6432 win64 = (if win64 then KEY_WOW64_32KEY else 0)"

text \<open>\<open>apxExpandStrW\<close>; \<open>expand\<close> is \<open>ExpandEnvironmentStringsW\<close>, which is not called for a text without percent signs.\<close>

definition apxExpandStrW :: "(wtext \<Rightarrow> wtext option) \<Rightarrow> wtext \<Rightarrow> wtext option" where
  "apxExpandStrW expand p =
     (if text_of p \<noteq> [] \<and> ch CHR ''%'' \<notin> set (text_of p) then Some (text_of p @ [0])
      else map_option (\<lambda>r. r @ [0]) (expand (text_of p)))"

definition place_names :: "option_row \<Rightarrow> wtext option \<times> wtext" where
  "place_names row = (case row of (_, v, s, _, _) \<Rightarrow> (map_option wide s, wide v))"

type_synonym reg_object = "registry \<times> apxreg"

definition load_option ::
  "reg_env \<Rightarrow> (wtext \<Rightarrow> wtext option) \<Rightarrow> option_row \<Rightarrow> cmdopt \<Rightarrow> reg_object \<Rightarrow> (cmdopt \<times> reg_object) option" where
  "load_option env expand row opt s =
     (case (place_names row, s) of ((sub, name), st, r) \<Rightarrow>
        let dwFrom = (if has_flag opt APXCMDOPT_REG then APXREG_PARAMSOFTWARE else APXREG_SERVICE)
        in if \<not> has_flag opt APXCMDOPT_FOUND
           then if has_flag opt APXCMDOPT_STR
             then (case apxRegistryGetStringW env st r dwFrom sub name of (v, s) \<Rightarrow>
                     let exp = (case v of
                                  None \<Rightarrow> None
                                | Some p \<Rightarrow> if has_flag opt APXCMDOPT_STE then apxExpandStrW expand p else Some p)
                     in Some (opt\<lparr>szValue := exp\<rparr>, s))
             else if has_flag opt APXCMDOPT_INT
             then (case apxRegistryGetNumberW env st r dwFrom sub name of (n, s) \<Rightarrow>
                     Some (opt\<lparr>dwValue := n\<rparr>, s))
             else if has_flag opt APXCMDOPT_MSZ
             then (case apxRegistryGetMzStrW env st r dwFrom sub name None (dwValue opt) of (v, n, s) \<Rightarrow>
                     Some (opt\<lparr>szValue := v, dwValue := n\<rparr>, s))
             else Some (opt, s)
           else if has_flag opt APXCMDOPT_ADD \<and> has_flag opt APXCMDOPT_MSZ
           then (case apxRegistryGetMzStrW env st r dwFrom sub name None (dwValue opt) of (ov, n, s) \<Rightarrow>
                   map_option (\<lambda>(v, len). (opt\<lparr>szValue := v, dwValue := (if v = None then n else word_of_nat len)\<rparr>, s))
                     (apxMultiSzCombine ov (szValue opt)))
           else Some (opt, s))"

fun load_options ::
  "reg_env \<Rightarrow> (wtext \<Rightarrow> wtext option) \<Rightarrow> option_row list \<Rightarrow> cmdopt list \<Rightarrow> reg_object
     \<Rightarrow> (cmdopt list \<times> reg_object) option" where
  "load_options env expand (row # rows) (opt # opts) s = do {
     (opt, s) \<leftarrow> load_option env expand row opt s;
     (opts, s) \<leftarrow> load_options env expand rows opts s;
     Some (opt # opts, s) }"
| "load_options env expand _ opts s = Some (opts, s)"

definition loadConfiguration ::
  "reg_env \<Rightarrow> (wtext \<Rightarrow> wtext option) \<Rightarrow> bool \<Rightarrow> wtext option \<Rightarrow> cmdopt list \<Rightarrow> registry
     \<Rightarrow> (bool \<times> cmdopt list \<times> registry) option" where
  "loadConfiguration env expand win64 name opts st =
     (case name of
        None \<Rightarrow> Some (False, opts, st)
      | Some app \<Rightarrow> do {
          (e, h, st) \<leftarrow> apxCreateRegistryW env st (KEY_READ OR KREG_WOW6432 win64) (Some PRG_REGROOT)
                          (Some app) (APXREG_SOFTWARE OR APXREG_SERVICE);
          (case h of
             None \<Rightarrow> Some (False, opts, st)
           | Some r \<Rightarrow> do {
               (opts, st, r) \<leftarrow> load_options env expand option_rows opts (st, r);
               Some (True, opts, fst (registry_callback_close st r)) }) })"

definition save_option :: "reg_env \<Rightarrow> option_row \<Rightarrow> cmdopt \<Rightarrow> reg_object \<Rightarrow> reg_object option" where
  "save_option env row opt s =
     (case (place_names row, s) of ((sub, name), st, r) \<Rightarrow>
        if has_flag opt APXCMDOPT_SRV \<or> \<not> has_flag opt APXCMDOPT_FOUND then Some s
        else if has_flag opt APXCMDOPT_STR
        then Some (snd (apxRegistrySetStrW env st r APXREG_PARAMSOFTWARE sub name (szValue opt)))
        else if has_flag opt APXCMDOPT_INT
        then Some (snd (apxRegistrySetNumW env st r APXREG_PARAMSOFTWARE sub name (dwValue opt)))
        else if has_flag opt APXCMDOPT_MSZ
        then (case szValue opt of
                None \<Rightarrow> None
              | Some v \<Rightarrow> map_option snd (apxRegistrySetMzStrW env st r APXREG_PARAMSOFTWARE sub name v (dwValue opt)))
        else Some s)"

fun save_options ::
  "reg_env \<Rightarrow> option_row list \<Rightarrow> cmdopt list \<Rightarrow> reg_object \<Rightarrow> reg_object option" where
  "save_options env (row # rows) (opt # opts) s =
     Option.bind (save_option env row opt s) (save_options env rows opts)"
| "save_options env _ _ s = Some s"

definition saveConfiguration ::
  "reg_env \<Rightarrow> bool \<Rightarrow> wtext option \<Rightarrow> cmdopt list \<Rightarrow> registry \<Rightarrow> (bool \<times> registry) option" where
  "saveConfiguration env win64 name opts st = do {
     (e, h, st) \<leftarrow> apxCreateRegistryW env st (KEY_WRITE OR KREG_WOW6432 win64) (Some PRG_REGROOT)
                     name (APXREG_SOFTWARE OR APXREG_SERVICE);
     (case h of
        None \<Rightarrow> Some (False, st)
      | Some r \<Rightarrow> do {
          (st, r) \<leftarrow> save_options env option_rows opts (st, r);
          Some (True, fst (registry_callback_close st r)) }) }"

section \<open>Texts\<close>

definition text_line :: "wtext \<Rightarrow> wtext" where "text_line t = t @ [10]"

definition printUsage :: "wtext \<Rightarrow> bool \<Rightarrow> cmdopt list \<Rightarrow> wtext" where
  "printUsage exe isHelp opts =
     text_line (wide ''Usage: '' @ exe @ wide '' command [ServiceName] [--options]'')
     @ text_line (wide ''  Commands:'')
     @ (if isHelp then text_line (wide ''  help                   This page'') else [])
     @ text_line (wide ''  install [ServiceName]  Install Service'')
     @ text_line (wide ''  update  [ServiceName]  Update Service parameters'')
     @ text_line (wide ''  delete  [ServiceName]  Delete Service'')
     @ text_line (wide ''  start   [ServiceName]  Start Service'')
     @ text_line (wide ''  stop    [ServiceName]  Stop Service'')
     @ text_line (wide ''  run     [ServiceName]  Run Service as console application'')
     @ text_line (wide ''  pause   [Num Seconds]  Sleep for n Seconds (defaults to 60)'')
     @ text_line (wide ''  version                Display version'')
     @ text_line (wide ''  Options:'')
     @ concat (map (\<lambda>opt. text_line (wide ''  --'' @ szName opt)) opts)"

definition PRG_VERSION :: string where "PRG_VERSION = ''1.0.15.0''"

definition printVersion :: "bool \<Rightarrow> string \<Rightarrow> wtext" where
  "printVersion win64 date =
     text_line (wide (''Commons Daemon Service Runner version '' @ PRG_VERSION @ ''/Win''
       @ (if win64 then ''64'' else ''32'') @ '' ('' @ date @ '')''))
     @ text_line (text_line (wide ''Copyright (c) 2000-2013 The Apache Software Foundation.''))
     @ text_line (wide ''For bug reporting instructions, please see:'')
     @ wide ''<URL:https://issues.apache.org/jira/browse/DAEMON>.''"

text \<open>\<open>%-16s\<close>.\<close>

definition left_16 :: "wtext \<Rightarrow> wtext" where
  "left_16 t = t @ replicate (16 - length t) 32"

definition dumpCmdline :: "cmdopt list \<Rightarrow> wtext" where
  "dumpCmdline opts = concat (map (\<lambda>opt.
     text_line (wide ''--'' @ left_16 (szName opt) @ wide '' '' @
       (if has_flag opt APXCMDOPT_INT then wide (show_int (sint (dwValue opt)))
        else case szValue opt of None \<Rightarrow> wide ''<NULL>'' | Some v \<Rightarrow> text_of v))) opts)"

section \<open>The environment of the worker\<close>

text \<open>
  \<open>_wputenv\<close> with \<open>NAME=text\<close>: an empty text removes the variable, a string without a name or
  an equals sign is refused. A null pointer ends the process (\<open>None\<close>), as reading past the
  block does.
\<close>

definition wputenv :: "wtext \<Rightarrow> environment \<Rightarrow> environment" where
  "wputenv s vars =
     (case split_first (ch CHR ''='') s of
        None \<Rightarrow> vars
      | Some (n, v) \<Rightarrow> if n = [] then vars else vars(n := if v = [] then None else Some v))"

function put_strings ::
  "(environment \<Rightarrow> wtext \<Rightarrow> wtext option) \<Rightarrow> wtext \<Rightarrow> environment \<Rightarrow> environment option" where
  "put_strings expand p vars =
     (case p of
        [] \<Rightarrow> None
      | c # _ \<Rightarrow>
          if c = 0 then Some vars
          else do {
            e \<leftarrow> apxExpandStrW (expand vars) p;
            n \<leftarrow> wlen p;
            put_strings expand (drop (Suc n) p) (wputenv (text_of e) vars) })"
  by pat_completeness auto
termination by (relation "measure (\<lambda>(_, p, _). length p)") auto

declare put_strings.simps [simp del]

definition setInprocEnvironment ::
  "(environment \<Rightarrow> wtext \<Rightarrow> wtext option) \<Rightarrow> wtext option \<Rightarrow> environment \<Rightarrow> environment option" where
  "setInprocEnvironment expand v vars =
     (case v of None \<Rightarrow> Some vars | Some p \<Rightarrow> put_strings expand p vars)"

end
