(* ===== verification/Srv_Config.thy ===== *)
theory Srv_Config
  imports Srv_Options
begin

text \<open>
  What saving and loading the configuration do to the registry: an interface for stores that
  are written one setting at a time, its interpretation on \<open>save_option\<close>, the object both
  functions open, and the round trip through the registry.
\<close>

section \<open>Stores written one setting at a time\<close>

text \<open>
  \<open>put\<close> writes a setting into a state; \<open>view\<close> is what the state holds for a place. A setting has
  a place and contents, \<open>None\<close> if it is not to be written.
\<close>

locale setting_store =
  fixes ok :: "'s \<Rightarrow> bool" and view :: "'s \<Rightarrow> 'p \<Rightarrow> 'v option" and sound :: "'o \<Rightarrow> bool"
    and put :: "'o \<Rightarrow> 's \<Rightarrow> 's option" and place :: "'o \<Rightarrow> 'p" and contents :: "'o \<Rightarrow> 'v option option"
  assumes effect: "ok s \<Longrightarrow> sound x \<Longrightarrow>
    \<exists>s'. put x s = Some s' \<and> ok s' \<and>
      view s' = (case contents x of None \<Rightarrow> view s | Some v \<Rightarrow> (view s)(place x := v))"
begin

fun put_all :: "'o list \<Rightarrow> 's \<Rightarrow> 's option" where
  "put_all [] s = Some s"
| "put_all (x # xs) s = Option.bind (put x s) (put_all xs)"

lemma put_all_view:
  assumes "ok s" "\<forall>x \<in> set xs. sound x" "distinct (map place xs)"
  shows "\<exists>s'. put_all xs s = Some s' \<and> ok s' \<and>
    (\<forall>x \<in> set xs. view s' (place x) = (case contents x of None \<Rightarrow> view s (place x) | Some v \<Rightarrow> v)) \<and>
    (\<forall>p. p \<notin> place ` set xs \<longrightarrow> view s' p = view s p)"
  using assms
proof (induction xs arbitrary: s)
  case (Cons x xs)
  from Cons.prems effect [of s x] obtain s1 where s1: "put x s = Some s1" "ok s1"
    "view s1 = (case contents x of None \<Rightarrow> view s | Some v \<Rightarrow> (view s)(place x := v))" by auto
  from Cons.IH [OF s1(2)] Cons.prems obtain s' where s': "put_all xs s1 = Some s'" "ok s'"
    "\<forall>y \<in> set xs. view s' (place y) = (case contents y of None \<Rightarrow> view s1 (place y) | Some v \<Rightarrow> v)"
    "\<forall>p. p \<notin> place ` set xs \<longrightarrow> view s' p = view s1 p" by auto
  have other: "view s1 p = view s p" if "p \<noteq> place x" for p
    using s1(3) that by (simp split: option.splits)
  have "view s' (place y) = (case contents y of None \<Rightarrow> view s (place y) | Some v \<Rightarrow> v)"
    if "y \<in> set (x # xs)" for y
  proof (cases "y \<in> set xs")
    case True
    with Cons.prems(3) have "place y \<noteq> place x" by (auto simp: image_iff)
    with s'(3) True other show ?thesis by (auto split: option.splits)
  next
    case False
    with that have "y = x" by simp
    with Cons.prems(3) s'(4) s1(3) show ?thesis by (simp split: option.splits)
  qed
  moreover have "view s' p = view s p" if "p \<notin> place ` set (x # xs)" for p
    using that s'(4) other by auto
  ultimately show ?case using s1(1) s'(1,2) by auto
qed simp

end

section \<open>Saving one option\<close>

definition row_place :: "reg_env \<Rightarrow> dword \<Rightarrow> regkey \<Rightarrow> option_row \<Rightarrow> regkey \<times> wtext" where
  "row_place env sam k row = place_of env sam k (fst (place_names row)) (snd (place_names row))"

text \<open>What \<open>save_option\<close> stores; an empty text is stored by deleting the value.\<close>

definition saved :: "cmdopt \<Rightarrow> (dword \<times> byte list) option option" where
  "saved opt =
     (if has_flag opt APXCMDOPT_SRV \<or> \<not> has_flag opt APXCMDOPT_FOUND then None
      else if has_flag opt APXCMDOPT_STR
      then Some (map_option (\<lambda>t. (REG_SZ, le16 (t @ [0]))) (valid_string (szValue opt)))
      else if has_flag opt APXCMDOPT_INT then Some (Some (REG_DWORD, bytes_le 4 (dwValue opt)))
      else if has_flag opt APXCMDOPT_MSZ
      then Some (Some (REG_MULTI_SZ, take (unat (dwValue opt)) (le16 (the (szValue opt)))))
      else None)"

text \<open>A multi-valued option holds a block of at least the length that goes with it.\<close>

definition block_sound :: "cmdopt \<Rightarrow> bool" where
  "block_sound opt \<longleftrightarrow>
     (has_flag opt APXCMDOPT_MSZ \<longrightarrow> has_flag opt APXCMDOPT_FOUND \<longrightarrow>
        (case szValue opt of None \<Rightarrow> False | Some v \<Rightarrow> unat (dwValue opt) \<le> 2 * length v))"

text \<open>The object while it is written: its keys \<open>us\<close> stay as they are.\<close>

definition open_object :: "reg_env \<Rightarrow> dword \<Rightarrow> (dword \<times> regkey) list \<Rightarrow> regkey \<Rightarrow> reg_object \<Rightarrow> bool" where
  "open_object env sam us k s \<longleftrightarrow>
     open_env env \<and> usable (fst s) (snd s) APXREG_PARAMSOFTWARE k \<and> samOptions (snd s) = sam \<and>
     may sam KEY_SET_VALUE \<and> (\<forall>(w, k) \<in> set us. usable (fst s) (snd s) w k)"

lemma set_string_as: "apxRegistrySetStrW env st r w sub name v =
    set_value env st r w sub (case valid_string v of
      None \<Rightarrow> \<lambda>st h. RegDeleteValue env st h name
    | Some t \<Rightarrow> \<lambda>st h. RegSetValueEx env st h name REG_SZ (le16 (t @ [0])))"
  by (cases v) (auto simp: apxRegistrySetStrW_def valid_string_def)

lemma save_option_effect:
  assumes "open_object env sam us k s" "block_sound opt"
  shows "\<exists>s'. save_option env row opt s = Some s' \<and> open_object env sam us k s' \<and>
    stored (fst s') = (case saved opt of None \<Rightarrow> stored (fst s)
                       | Some v \<Rightarrow> (stored (fst s))(row_place env sam k row := v))"
proof -
  obtain st r where s: "s = (st, r)" by fastforce
  obtain sub name where pn: "place_names row = (sub, name)" by fastforce
  have u: "open_env env" "usable st r APXREG_PARAMSOFTWARE k" "may (samOptions r) KEY_SET_VALUE"
    and sam: "samOptions r = sam" "may sam KEY_SET_VALUE"
    using assms(1) s by (auto simp: open_object_def)
  have pl: "place_of env (samOptions r) k sub name = row_place env sam k row"
    by (simp add: row_place_def pn sam)
  have kept: "open_object env sam us k (st', r')" if "keeps_access st r st' r'" for st' r'
    using keeps_accessD [OF that] u sam assms(1) s by (auto simp: open_object_def)
  note w = write_stored [OF u, of sub name, unfolded pl]
  note d = delete_stored [OF u, of sub name, unfolded pl]
  consider (skip) "has_flag opt APXCMDOPT_SRV \<or> \<not> has_flag opt APXCMDOPT_FOUND"
    | (text_) "\<not> has_flag opt APXCMDOPT_SRV" "has_flag opt APXCMDOPT_FOUND" "has_flag opt APXCMDOPT_STR"
    | (num) "\<not> has_flag opt APXCMDOPT_SRV" "has_flag opt APXCMDOPT_FOUND" "\<not> has_flag opt APXCMDOPT_STR"
        "has_flag opt APXCMDOPT_INT"
    | (multi) "\<not> has_flag opt APXCMDOPT_SRV" "has_flag opt APXCMDOPT_FOUND" "\<not> has_flag opt APXCMDOPT_STR"
        "\<not> has_flag opt APXCMDOPT_INT" "has_flag opt APXCMDOPT_MSZ"
    | (other) "\<not> has_flag opt APXCMDOPT_SRV" "has_flag opt APXCMDOPT_FOUND" "\<not> has_flag opt APXCMDOPT_STR"
        "\<not> has_flag opt APXCMDOPT_INT" "\<not> has_flag opt APXCMDOPT_MSZ" by blast
  then show ?thesis
  proof cases
    case skip
    then show ?thesis using assms(1) s pn by (auto simp: save_option_def saved_def)
  next
    case text_
    show ?thesis
    proof (cases "valid_string (szValue opt)")
      case None
      obtain b st' r' where "set_value env st r APXREG_PARAMSOFTWARE sub (\<lambda>st h. RegDeleteValue env st h name) = (b, st', r')"
        "stored st' = (stored st)(row_place env sam k row := None)" "keeps_access st r st' r'"
        by (rule d)
      with None text_ s pn kept show ?thesis by (simp add: save_option_def saved_def set_string_as)
    next
      case (Some t)
      obtain st' r' where "set_value env st r APXREG_PARAMSOFTWARE sub
          (\<lambda>st h. RegSetValueEx env st h name REG_SZ (le16 (t @ [0]))) = (True, st', r')"
        "stored st' = (stored st)(row_place env sam k row := Some (REG_SZ, le16 (t @ [0])))" "keeps_access st r st' r'"
        by (rule w)
      with Some text_ s pn kept show ?thesis
        by (simp add: save_option_def saved_def set_string_as del: le16_append)
    qed
  next
    case num
    obtain st' r' where "set_value env st r APXREG_PARAMSOFTWARE sub
        (\<lambda>st h. RegSetValueEx env st h name REG_DWORD (bytes_le 4 (dwValue opt))) = (True, st', r')"
      "stored st' = (stored st)(row_place env sam k row := Some (REG_DWORD, bytes_le 4 (dwValue opt)))"
      "keeps_access st r st' r'" by (rule w)
    with num s pn kept show ?thesis by (simp add: save_option_def saved_def apxRegistrySetNumW_def)
  next
    case multi
    then obtain v where v: "szValue opt = Some v" "unat (dwValue opt) \<le> 2 * length v"
      using assms(2) by (auto simp: block_sound_def split: option.splits)
    let ?d = "take (unat (dwValue opt)) (le16 v)"
    obtain st' r' where "set_value env st r APXREG_PARAMSOFTWARE sub
        (\<lambda>st h. RegSetValueEx env st h name REG_MULTI_SZ ?d) = (True, st', r')"
      "stored st' = (stored st)(row_place env sam k row := Some (REG_MULTI_SZ, ?d))"
      "keeps_access st r st' r'" by (rule w)
    with multi v s pn kept show ?thesis by (simp add: save_option_def saved_def apxRegistrySetMzStrW_def)
  next
    case other
    then show ?thesis using assms(1) s pn by (auto simp: save_option_def saved_def)
  qed
qed

interpretation saving: setting_store "open_object env sam us k" "\<lambda>s. stored (fst s)" "\<lambda>(row, opt). block_sound opt"
    "\<lambda>(row, opt). save_option env row opt" "\<lambda>(row, opt). row_place env sam k row" "\<lambda>(row, opt). saved opt"
  for env sam us k
  by unfold_locales (simp only: split_beta save_option_effect)

lemma save_options_as:
  "save_options env rows opts s = saving.put_all env (zip rows opts) s"
proof (induction env rows opts s rule: save_options.induct)
  case (1 env row rows opt opts s)
  then show ?case by (cases "save_option env row opt s") simp_all
qed auto


section \<open>Loading options\<close>

text \<open>What loading makes of an option that was not given, from what is stored at its place.\<close>

definition loaded :: "reg_env \<Rightarrow> (wtext \<Rightarrow> wtext option) \<Rightarrow> cmdopt \<Rightarrow> (dword \<times> byte list) option \<Rightarrow> cmdopt" where
  "loaded env expand opt tv =
     (if has_flag opt APXCMDOPT_STR
      then opt\<lparr>szValue := Option.bind (string_result env tv)
                (if has_flag opt APXCMDOPT_STE then apxExpandStrW expand else Some)\<rparr>
      else if has_flag opt APXCMDOPT_INT then opt\<lparr>dwValue := number_result tv\<rparr>
      else if has_flag opt APXCMDOPT_MSZ
      then opt\<lparr>szValue := fst (multi_result tv (dwValue opt)), dwValue := snd (multi_result tv (dwValue opt))\<rparr>
      else opt)"

definition readable :: "reg_env \<Rightarrow> dword \<Rightarrow> regkey \<Rightarrow> regkey \<Rightarrow> reg_object \<Rightarrow> bool" where
  "readable env sam k ks s \<longleftrightarrow>
     open_env env \<and> usable (fst s) (snd s) APXREG_PARAMSOFTWARE k \<and> usable (fst s) (snd s) APXREG_SERVICE ks \<and>
     samOptions (snd s) = sam \<and> may sam KEY_QUERY_VALUE"

definition option_key :: "regkey \<Rightarrow> regkey \<Rightarrow> cmdopt \<Rightarrow> regkey" where
  "option_key k ks opt = (if has_flag opt APXCMDOPT_REG then k else ks)"

lemma load_option_effect:
  assumes "readable env sam k ks s" "\<not> has_flag opt APXCMDOPT_FOUND"
  shows "\<exists>s'. load_option env expand row opt s =
      Some (loaded env expand opt (stored (fst s) (row_place env sam (option_key k ks opt) row)), s') \<and>
    readable env sam k ks s' \<and> keys (fst s') = keys (fst s)"
proof -
  obtain st r where s: "s = (st, r)" by fastforce
  obtain sub name where pn: "place_names row = (sub, name)" by fastforce
  let ?w = "if has_flag opt APXCMDOPT_REG then APXREG_PARAMSOFTWARE else APXREG_SERVICE"
  have u: "open_env env" "usable st r ?w (option_key k ks opt)" "may (samOptions r) KEY_QUERY_VALUE"
    and sam: "samOptions r = sam" "may sam KEY_QUERY_VALUE"
    using assms(1) s by (auto simp: readable_def option_key_def)
  have pl: "place_of env (samOptions r) k' sub name = row_place env sam k' row" for k'
    by (simp add: row_place_def pn sam)
  have kept: "readable env sam k ks (st', r')" if "keeps_access st r st' r'" for st' r'
    using keeps_accessD [OF that] assms(1) s sam by (simp add: readable_def)
  note g = get_string_stored [OF u, of sub name, unfolded pl] get_number_stored [OF u, of sub name, unfolded pl]
    get_multi_stored [OF u, of sub name "dwValue opt", unfolded pl]
  show ?thesis
  proof (cases "has_flag opt APXCMDOPT_STR \<or> has_flag opt APXCMDOPT_INT \<or> has_flag opt APXCMDOPT_MSZ")
    case True
    then consider "has_flag opt APXCMDOPT_STR"
      | "\<not> has_flag opt APXCMDOPT_STR" "has_flag opt APXCMDOPT_INT"
      | "\<not> has_flag opt APXCMDOPT_STR" "\<not> has_flag opt APXCMDOPT_INT" "has_flag opt APXCMDOPT_MSZ" by blast
    then show ?thesis
    proof cases
      case 1
      from g(1) obtain st' r' where get: "apxRegistryGetStringW env st r ?w sub name =
          (string_result env (stored st (row_place env sam (option_key k ks opt) row)), st', r')"
        "keys st' = keys st" "keeps_access st r st' r'" by blast
      from 1 get s pn kept [OF get(3)] assms(2) show ?thesis
        by (cases "string_result env (stored st (row_place env sam (option_key k ks opt) row))")
           (simp_all add: load_option_def loaded_def Let_def)
    next
      case 2
      from g(2) obtain st' r' where get: "apxRegistryGetNumberW env st r ?w sub name =
          (number_result (stored st (row_place env sam (option_key k ks opt) row)), st', r')"
        "keys st' = keys st" "keeps_access st r st' r'" by blast
      with 2 s pn kept [OF get(3)] assms(2) show ?thesis by (simp add: load_option_def loaded_def Let_def)
    next
      case 3
      from g(3) obtain st' r' where get: "apxRegistryGetMzStrW env st r ?w sub name None (dwValue opt) =
          (fst (multi_result (stored st (row_place env sam (option_key k ks opt) row)) (dwValue opt)),
           snd (multi_result (stored st (row_place env sam (option_key k ks opt) row)) (dwValue opt)), st', r')"
        "keys st' = keys st" "keeps_access st r st' r'" by blast
      with 3 s pn kept [OF get(3)] assms(2) show ?thesis by (simp add: load_option_def loaded_def Let_def)
    qed
  next
    case False
    with s pn assms show ?thesis by (auto simp: load_option_def loaded_def Let_def)
  qed
qed

lemma load_options_effect:
  assumes "readable env sam k ks s" "\<forall>opt \<in> set opts. \<not> has_flag opt APXCMDOPT_FOUND" "length opts = length rows"
  shows "\<exists>s'. load_options env expand rows opts s =
      Some (map2 (\<lambda>row opt. loaded env expand opt
                    (stored (fst s) (row_place env sam (option_key k ks opt) row))) rows opts, s')"
  using assms
proof (induction env expand rows opts s rule: load_options.induct)
  case (1 env expand row rows opt opts s)
  from load_option_effect [OF "1.prems"(1), of opt expand row] "1.prems"(2) obtain s1 where s1:
    "load_option env expand row opt s =
      Some (loaded env expand opt (stored (fst s) (row_place env sam (option_key k ks opt) row)), s1)"
    "readable env sam k ks s1" "keys (fst s1) = keys (fst s)" by auto
  from "1.IH" [OF s1(1) refl s1(2)] "1.prems"(2,3) obtain s' where
    "load_options env expand rows opts s1 = Some (map2 (\<lambda>row opt. loaded env expand opt
        (stored (fst s1) (row_place env sam (option_key k ks opt) row))) rows opts, s')" by auto
  with s1(1) stored_keys [OF s1(3)] show ?case by simp
qed auto

section \<open>The object\<close>

text \<open>The keys of a service: the root of its configuration, and its key among the services.\<close>

definition software_key :: "reg_env \<Rightarrow> bool \<Rightarrow> wtext \<Rightarrow> regkey" where
  "software_key env wow app = below env wow (False, HKEY_LOCAL_MACHINE, [])
     (path_names (REGSOFTWARE_ROOT @ PRG_REGROOT @ wide backslash @ app))"

definition service_key :: "reg_env \<Rightarrow> bool \<Rightarrow> wtext \<Rightarrow> regkey" where
  "service_key env wow app = below env wow (False, HKEY_LOCAL_MACHINE, []) (path_names (REGSERVICE_ROOT @ app))"

definition params_key :: "reg_env \<Rightarrow> bool \<Rightarrow> regkey \<Rightarrow> regkey" where
  "params_key env wow k = below env wow k (path_names REGPARAMS)"

definition exists_key :: "registry \<Rightarrow> regkey \<Rightarrow> bool" where
  "exists_key st k \<longleftrightarrow> map_of (keys st) k \<noteq> None"

text \<open>A key that is opened, or created: the new handle, and nothing that was there is lost.\<close>

definition grown :: "registry \<Rightarrow> registry \<Rightarrow> bool" where
  "grown st st' \<longleftrightarrow> stored st' = stored st \<and> (\<forall>k. exists_key st k \<longrightarrow> exists_key st' k) \<and>
     fresh_handle st \<le> fresh_handle st' \<and>
     (\<forall>h. h < fresh_handle st \<longrightarrow> map_of (opened st') h = map_of (opened st) h)"

lemma grown_exists: "grown st st' \<Longrightarrow> exists_key st k \<Longrightarrow> exists_key st' k"
  unfolding grown_def by blast

lemma grown_trans: "grown st st1 \<Longrightarrow> grown st1 st2 \<Longrightarrow> grown st st2"
  by (simp add: grown_def)

lemma grown_refl: "grown st st"
  by (simp add: grown_def)

lemma open_or_create_key:
  assumes "open_env env" "key_at env st h s sam = Some k" "create \<or> exists_key st k"
  obtains st' where "open_or_create env create st h s sam = (Inr (fresh_handle st), st')"
    "map_of (opened st') (fresh_handle st) = Some (k, sam)" "fresh_handle st' = Suc (fresh_handle st)"
    "exists_key st' k" "grown st st'"
proof (cases create)
  case True
  let ?st1 = "st\<lparr>keys := fold with_key (key_prefixes k) (keys st)\<rparr>"
  let ?st' = "snd (new_handle ?st1 k sam)"
  show thesis
  proof (rule that)
    show "open_or_create env create st h s sam = (Inr (fresh_handle st), ?st')"
      using assms(1,2) True by (simp add: open_or_create_def RegCreateKeyEx_def open_env_def new_handle_def)
    show "exists_key ?st' k"
      using key_in_prefixes by (simp add: exists_key_def new_handle_def fold_with_key_lookup)
    have "stored ?st' = stored ?st1" by (rule stored_keys) (simp add: new_handle_def)
    then show "grown st ?st'"
      by (auto simp: grown_def stored_with_keys exists_key_def new_handle_def fold_with_key_lookup)
  qed (simp_all add: new_handle_def)
next
  case False
  let ?st' = "snd (new_handle st k sam)"
  show thesis
  proof (rule that)
    show "open_or_create env create st h s sam = (Inr (fresh_handle st), ?st')"
      using assms False by (simp add: open_or_create_def RegOpenKeyEx_def open_env_def new_handle_def exists_key_def)
    show "exists_key ?st' k" using assms(3) False by (simp add: exists_key_def new_handle_def)
    have "stored ?st' = stored st" by (rule stored_keys) (simp add: new_handle_def)
    then show "grown st ?st'" by (auto simp: grown_def exists_key_def new_handle_def)
  qed (simp_all add: new_handle_def)
qed


lemma open_pair_keys:
  assumes "open_env env" "base = below env (may sam KEY_WOW64_32KEY) (False, v, []) (path_names buff)"
    and "create \<or> exists_key st base"
    and "may sam KEY_CREATE_SUB_KEY \<or> exists_key st (params_key env (may sam KEY_WOW64_32KEY) base)"
  obtains h p st' where "open_pair env create st v buff sam = (ERROR_SUCCESS, Some h, Some p, st')"
    "map_of (opened st') h = Some (base, sam)"
    "map_of (opened st') p = Some (params_key env (may sam KEY_WOW64_32KEY) base, sam)"
    "h < fresh_handle st'" "p < fresh_handle st'" "h \<noteq> p" "exists_key st' base"
    "exists_key st' (params_key env (may sam KEY_WOW64_32KEY) base)" "grown st st'"
proof -
  have b: "key_at env st (Hive v) buff sam = Some base"
    by (simp add: key_at_def base_of_def assms(2))
  obtain st1 where st1: "open_or_create env create st (Hive v) buff sam = (Inr (fresh_handle st), st1)"
    "map_of (opened st1) (fresh_handle st) = Some (base, sam)" "fresh_handle st1 = Suc (fresh_handle st)"
    "exists_key st1 base" "grown st st1"
    by (rule open_or_create_key [OF assms(1) b assms(3)])
  let ?p = "params_key env (may sam KEY_WOW64_32KEY) base"
  have q: "key_at env st1 (Hkey (fresh_handle st)) REGPARAMS sam = Some ?p"
    by (simp add: key_at_def base_of_def st1(2) params_key_def)
  have "may sam KEY_CREATE_SUB_KEY \<or> exists_key st1 ?p" using assms(4) grown_exists [OF st1(5)] by blast
  then obtain st2 where st2: "open_or_create env (may sam KEY_CREATE_SUB_KEY) st1 (Hkey (fresh_handle st)) REGPARAMS sam =
      (Inr (fresh_handle st1), st2)" "map_of (opened st2) (fresh_handle st1) = Some (?p, sam)"
    "fresh_handle st2 = Suc (fresh_handle st1)" "exists_key st2 ?p" "grown st1 st2"
    by (rule open_or_create_key [OF assms(1) q])
  show thesis
  proof (rule that)
    show "open_pair env create st v buff sam = (ERROR_SUCCESS, Some (fresh_handle st), Some (fresh_handle st1), st2)"
      using st1(1) st2(1) by (simp add: open_pair_def)
    show "map_of (opened st2) (fresh_handle st) = Some (base, sam)" using st1(2,3) st2(5) by (simp add: grown_def)
    show "exists_key st2 base" using st1(4) grown_exists [OF st2(5)] by blast
    show "grown st st2" using st1(5) st2(5) by (rule grown_trans)
  qed (use st1(3) st2 in simp_all)
qed

definition config_keys :: "reg_env \<Rightarrow> bool \<Rightarrow> wtext \<Rightarrow> regkey list" where
  "config_keys env wow app =
     [software_key env wow app, params_key env wow (software_key env wow app),
      service_key env wow app, params_key env wow (service_key env wow app)]"

lemma software_path_fits:
  "length app \<le> 255 \<Longrightarrow> length (REGSOFTWARE_ROOT @ PRG_REGROOT @ wide backslash @ app) < 512"
  by (simp add: REGSOFTWARE_ROOT_def PRG_REGROOT_def backslash_def wide_def)

lemma regroot_short: "length PRG_REGROOT \<le> 255"
  by (simp add: PRG_REGROOT_def backslash_def wide_def)

lemma config_rights:
  "may (APXREG_SOFTWARE OR APXREG_SERVICE) APXREG_SOFTWARE" "\<not> may (APXREG_SOFTWARE OR APXREG_SERVICE) APXREG_USER"
  "may (APXREG_SOFTWARE OR APXREG_SERVICE) APXREG_SERVICE"
  by (simp_all add: may_def APXREG_SOFTWARE_def APXREG_SERVICE_def APXREG_USER_def)

text \<open>
  The object that both functions open: with the right to create it needs the key of the
  service only, without it all four keys.
\<close>

lemma config_object:
  assumes "open_env env" "length app \<le> 255" "may sam KEY_WOW64_32KEY = wow"
    and "exists_key st (service_key env wow app)"
    and "may sam KEY_CREATE_SUB_KEY \<or> (\<forall>k \<in> set (config_keys env wow app). exists_key st k)"
  obtains r st' where
    "apxCreateRegistryW env st sam (Some PRG_REGROOT) (Some app) (APXREG_SOFTWARE OR APXREG_SERVICE) =
       Some (ERROR_SUCCESS, Some r, st')"
    "usable st' r APXREG_PARAMSOFTWARE (params_key env wow (software_key env wow app))"
    "usable st' r APXREG_SERVICE (service_key env wow app)" "samOptions r = sam"
    "usable st' r APXREG_SOFTWARE (software_key env wow app)"
    "usable st' r APXREG_PARAMSERVICE (params_key env wow (service_key env wow app))"
    "\<forall>k \<in> set (config_keys env wow app). exists_key st' k" "grown st st'"
proof -
  let ?so = "software_key env wow app" and ?se = "service_key env wow app"
  have so: "?so = below env (may sam KEY_WOW64_32KEY) (False, HKEY_LOCAL_MACHINE, [])
      (path_names (REGSOFTWARE_ROOT @ PRG_REGROOT @ wide backslash @ app))"
    by (simp add: software_key_def assms(3))
  have se: "?se = below env (may sam KEY_WOW64_32KEY) (False, HKEY_LOCAL_MACHINE, []) (path_names (REGSERVICE_ROOT @ app))"
    by (simp add: service_key_def assms(3))
  obtain h p st1 where st1: "open_pair env (may sam KEY_CREATE_SUB_KEY) st HKEY_LOCAL_MACHINE
      (REGSOFTWARE_ROOT @ PRG_REGROOT @ wide backslash @ app) sam = (ERROR_SUCCESS, Some h, Some p, st1)"
    "map_of (opened st1) h = Some (?so, sam)" "map_of (opened st1) p = Some (params_key env wow ?so, sam)"
    "h < fresh_handle st1" "p < fresh_handle st1" "h \<noteq> p" "exists_key st1 ?so"
    "exists_key st1 (params_key env wow ?so)" "grown st st1"
    by (rule open_pair_keys [OF assms(1) so, of "may sam KEY_CREATE_SUB_KEY" st])
       (use assms(3,5) in \<open>auto simp: config_keys_def\<close>)
  have ex: "False \<or> exists_key st1 ?se"
    "may sam KEY_CREATE_SUB_KEY \<or> exists_key st1 (params_key env (may sam KEY_WOW64_32KEY) ?se)"
    using assms(4,5) grown_exists [OF st1(9), of ?se] grown_exists [OF st1(9), of "params_key env wow ?se"]
    unfolding config_keys_def assms(3) by auto
  obtain h' p' st2 where st2: "open_pair env False st1 HKEY_LOCAL_MACHINE (REGSERVICE_ROOT @ app) sam =
      (ERROR_SUCCESS, Some h', Some p', st2)"
    "map_of (opened st2) h' = Some (?se, sam)" "map_of (opened st2) p' = Some (params_key env wow ?se, sam)"
    "h' < fresh_handle st2" "p' < fresh_handle st2" "h' \<noteq> p'" "exists_key st2 ?se"
    "exists_key st2 (params_key env wow ?se)" "grown st1 st2"
    by (rule open_pair_keys [OF assms(1) se ex]) (simp add: assms(3))
  let ?r = "\<lparr>hRootKey = Some h, hServKey = Some h', hUserKey = None, hCurrKey = None, hRparamKey = Some p,
      hSparamKey = Some p', hUparamKey = None, samOptions = sam\<rparr>"
  show thesis
  proof (rule that)
    show "apxCreateRegistryW env st sam (Some PRG_REGROOT) (Some app) (APXREG_SOFTWARE OR APXREG_SERVICE) =
        Some (ERROR_SUCCESS, Some ?r, st2)"
      using assms(2) regroot_short software_path_fits [OF assms(2)] st1(1) st2(1)
      by (simp add: apxCreateRegistryW_def in_buffer_def optional_pair_def config_rights Let_def)
    show "usable st2 ?r APXREG_PARAMSOFTWARE (params_key env wow ?so)"
      using st1(3,5) st2(9) grown_exists [OF st2(9) st1(8)] unfolding usable_def
      by (intro exI [of _ p]) (simp add: reg_get_key_def APXREG_PARAMSOFTWARE_def APXREG_SOFTWARE_def
          grown_def exists_key_def)
    show "usable st2 ?r APXREG_SERVICE ?se"
      using st2(2,4,7) unfolding usable_def
      by (intro exI [of _ h']) (simp add: reg_get_key_def APXREG_SERVICE_def APXREG_PARAMSOFTWARE_def
          APXREG_SOFTWARE_def exists_key_def)
    show "usable st2 ?r APXREG_SOFTWARE ?so"
      using st1(2,4) st2(9) grown_exists [OF st2(9) st1(7)] unfolding usable_def
      by (intro exI [of _ h]) (simp add: reg_get_key_def APXREG_SOFTWARE_def grown_def exists_key_def)
    show "usable st2 ?r APXREG_PARAMSERVICE (params_key env wow ?se)"
      using st2(3,5,8) unfolding usable_def
      by (intro exI [of _ p']) (simp add: reg_get_key_def APXREG_SERVICE_def APXREG_PARAMSOFTWARE_def
          APXREG_SOFTWARE_def APXREG_PARAMSERVICE_def exists_key_def)
    show "\<forall>k \<in> set (config_keys env wow app). exists_key st2 k"
      using st1(7,8) st2(7,8) grown_exists [OF st2(9)] by (simp add: config_keys_def)
    show "grown st st2" using st1(9) st2(9) by (rule grown_trans)
  qed simp
qed


lemma keys_callback_close [simp]: "keys (fst (registry_callback_close st r)) = keys st"
  by (simp add: registry_callback_close_def)

lemma exists_callback_close: "exists_key (fst (registry_callback_close st r)) k = exists_key st k"
  by (simp add: exists_key_def)

lemma stored_callback_close: "stored (fst (registry_callback_close st r)) = stored st"
  by (rule stored_keys) simp

section \<open>The places of the table\<close>

text \<open>
  Names that differ in the table are not folded to the same name: all that is needed of the
  comparison of names in the registry.
\<close>

definition table_words :: "string set" where
  "table_words = (\<Union>(n, v, s, t, d) \<in> set option_rows. insert v (case s of None \<Rightarrow> {} | Some x \<Rightarrow> {x}))"

definition names_apart :: "reg_env \<Rightarrow> bool" where
  "names_apart env \<longleftrightarrow> inj_on (\<lambda>s. fold_name env (wide s)) table_words"

definition row_words :: "option_row \<Rightarrow> string list \<times> string" where
  "row_words row = (case row of (_, v, s, _, _) \<Rightarrow> (case s of None \<Rightarrow> [] | Some x \<Rightarrow> [x], v))"

definition param_rows :: "option_row list" where
  "param_rows = filter (\<lambda>(_, _, _, t, _). t AND APXCMDOPT_REG \<noteq> 0) option_rows"

lemma row_words_distinct: "distinct (map row_words option_rows)"
  by code_simp

lemma row_words_subset: "row \<in> set option_rows \<Longrightarrow> set (fst (row_words row)) \<subseteq> table_words \<and> snd (row_words row) \<in> table_words"
proof -
  assume "row \<in> set option_rows"
  moreover obtain n v s t d where "row = (n, v, s, t, d)" by (cases row)
  ultimately have "insert v (case s of None \<Rightarrow> {} | Some x \<Rightarrow> {x}) \<subseteq> table_words"
    unfolding table_words_def by blast
  with \<open>row = (n, v, s, t, d)\<close> show ?thesis by (auto simp: row_words_def split: option.splits)
qed

lemma row_subkeys: "list_all (\<lambda>(_, _, s, _, _). case s of None \<Rightarrow> True | Some x \<Rightarrow> x \<noteq> [] \<and> CHR 0x5C \<notin> set x) option_rows"
  by (simp add: option_rows_def)

lemma of_char_inj: "(of_char c :: wchar) = of_char d \<longleftrightarrow> c = d"
proof
  assume e: "(of_char c :: wchar) = of_char d"
  have "unat (of_char x :: wchar) = of_char x" for x :: char
  proof -
    have "(of_char x :: nat) < 65536" using nat_of_char_less_256 [of x] by linarith
    moreover have "(of_char x :: wchar) = word_of_nat (of_char x)" by (rule of_nat_of_char [symmetric])
    ultimately show ?thesis by (simp only: unat_of_nat) (simp add: take_bit_nat_eq_self)
  qed
  then have "(of_char c :: nat) = of_char d" using e by metis
  then show "c = d" by simp
qed simp

lemma wide_backslash: "ch CHR 0x5C \<in> set (wide s) \<longleftrightarrow> CHR 0x5C \<in> set s"
  by (auto simp: wide_def of_char_inj simp del: of_char_Char)

lemma path_names_word: "x \<noteq> [] \<Longrightarrow> CHR 0x5C \<notin> set x \<Longrightarrow> path_names (wide x) = [wide x]"
  unfolding path_names_def using wide_backslash [of x] by (simp add: split_all_single) (simp add: wide_def)

text \<open>The place of an option below the key \<open>k\<close>, from its words.\<close>

lemma row_place_words:
  assumes "row \<in> set option_rows"
  shows "snd (snd (fst (row_place env sam k row))) = snd (snd k) @ map (\<lambda>s. fold_name env (wide s)) (fst (row_words row))"
    "snd (row_place env sam k row) = fold_name env (wide (snd (row_words row)))"
proof -
  obtain n v s t d where row: "row = (n, v, s, t, d)" by (cases row)
  obtain w h ns where k: "k = (w, h, ns)" by (cases k)
  have "case s of None \<Rightarrow> True | Some x \<Rightarrow> x \<noteq> [] \<and> CHR 0x5C \<notin> set x"
    using row_subkeys assms row by (auto simp: list_all_iff)
  then show "snd (snd (fst (row_place env sam k row))) = snd (snd k) @ map (\<lambda>s. fold_name env (wide s)) (fst (row_words row))"
    "snd (row_place env sam k row) = fold_name env (wide (snd (row_words row)))"
    by (auto simp: row k row_place_def place_of_def place_names_def row_words_def below_def
        path_names_word Let_def split: option.splits)
qed

lemma row_places_distinct:
  assumes "names_apart env"
  shows "distinct (map (row_place env sam k) option_rows)"
proof -
  let ?f = "\<lambda>s. fold_name env (wide s)"
  have "inj_on (row_place env sam k) (set option_rows)"
  proof (rule inj_onI)
    fix a b assume ab: "a \<in> set option_rows" "b \<in> set option_rows" "row_place env sam k a = row_place env sam k b"
    have "map ?f (fst (row_words a)) = map ?f (fst (row_words b))" "?f (snd (row_words a)) = ?f (snd (row_words b))"
      using row_place_words [OF ab(1), of env sam k] row_place_words [OF ab(2), of env sam k] ab(3) by auto
    moreover have "inj_on ?f (set (fst (row_words a)) \<union> set (fst (row_words b)))"
      using assms row_words_subset [OF ab(1)] row_words_subset [OF ab(2)]
      unfolding names_apart_def by (meson Un_subset_iff inj_on_subset)
    ultimately have "row_words a = row_words b"
      using assms row_words_subset [OF ab(1)] row_words_subset [OF ab(2)]
      unfolding names_apart_def by (metis inj_onD map_inj_on prod_eqI)
    with ab(1,2) row_words_distinct show "a = b"
      by (simp add: distinct_map inj_on_def)
  qed
  moreover have "distinct option_rows" using row_words_distinct by (simp add: distinct_map)
  ultimately show ?thesis by (simp add: distinct_map)
qed

section \<open>The round trip\<close>

lemma APXCMDOPT_flags_init:
  "list_all (\<lambda>(_, _, _, t, _). t AND APXCMDOPT_FOUND = 0 \<and> (t AND APXCMDOPT_REG = 0 \<or> t AND APXCMDOPT_SRV = 0)) option_rows"
  by (simp add: option_rows_def option_flags APXCMDOPT_STE_def APXCMDOPT_BIN_def APXCMDOPT_REG_def APXCMDOPT_SRV_def)


text \<open>Options with a type that is saved, and not one of the service manager, have their place below \<open>Parameters\<close>.\<close>

definition param_typed :: "cmdopt \<Rightarrow> bool" where
  "param_typed opt \<longleftrightarrow> \<not> has_flag opt APXCMDOPT_SRV \<and>
     (has_flag opt APXCMDOPT_STR \<or> has_flag opt APXCMDOPT_INT \<or> has_flag opt APXCMDOPT_MSZ)"

lemma param_rows_typed:
  "list_all (\<lambda>row. has_flag (option_init row) APXCMDOPT_REG \<or> \<not> param_typed (option_init row)) option_rows"
  by (simp add: option_rows_def option_init_def param_typed_def has_flag_def option_flags APXCMDOPT_STE_def
      APXCMDOPT_BIN_def APXCMDOPT_REG_def APXCMDOPT_SRV_def)

text \<open>
  The options of a run: the types are those of the table but for the flags of the command
  line, and a multi-valued option that was given holds its strings, with their length in bytes.
\<close>

definition runner_options :: "cmdopt list \<Rightarrow> bool" where
  "runner_options opts \<longleftrightarrow>
     length opts = length option_rows \<and>
     (\<forall>i < length option_rows.
        dwType (opts ! i) AND NOT (APXCMDOPT_FOUND OR APXCMDOPT_ADD) = dwType (option_table ! i) \<and>
        (has_flag (opts ! i) APXCMDOPT_FOUND \<longrightarrow> has_flag (opts ! i) APXCMDOPT_MSZ \<longrightarrow>
           (\<exists>vs. szValue (opts ! i) = Some (msz vs) \<and> unat (dwValue (opts ! i)) = 2 * length (msz vs))))"

text \<open>What is read for an option that was saved: texts are expanded, an empty text is no text.\<close>

definition read_back :: "(wtext \<Rightarrow> wtext option) \<Rightarrow> cmdopt \<Rightarrow> cmdopt \<Rightarrow> bool" where
  "read_back expand opt opt' \<longleftrightarrow>
     (if has_flag opt APXCMDOPT_STR
      then szValue opt' = Option.bind (valid_string (szValue opt)) (apxExpandStrW expand)
      else if has_flag opt APXCMDOPT_INT then dwValue opt' = dwValue opt
      else has_flag opt APXCMDOPT_MSZ \<longrightarrow> szValue opt' = szValue opt)"

lemma same_flag:
  assumes "x AND NOT (APXCMDOPT_FOUND OR APXCMDOPT_ADD) = t"
    and "f \<in> {APXCMDOPT_STR, APXCMDOPT_INT, APXCMDOPT_MSZ, APXCMDOPT_STE, APXCMDOPT_REG, APXCMDOPT_SRV}"
  shows "x AND f = t AND f"
proof -
  have "NOT (APXCMDOPT_FOUND OR APXCMDOPT_ADD) AND f = f"
    using assms(2) by (auto simp: option_flags APXCMDOPT_STE_def APXCMDOPT_REG_def APXCMDOPT_SRV_def)
  then have "x AND f = (x AND NOT (APXCMDOPT_FOUND OR APXCMDOPT_ADD)) AND f" by (metis and.assoc)
  then show ?thesis using assms(1) by simp
qed

lemma STE_of_STR: "has_flag opt APXCMDOPT_STR \<Longrightarrow> has_flag opt APXCMDOPT_STE"
proof -
  have "APXCMDOPT_STE AND APXCMDOPT_STR = APXCMDOPT_STR" by (simp add: APXCMDOPT_STE_def APXCMDOPT_STR_def)
  then have "(dwType opt AND APXCMDOPT_STE) AND APXCMDOPT_STR = dwType opt AND APXCMDOPT_STR"
    by (simp only: and.assoc)
  moreover assume "has_flag opt APXCMDOPT_STR"
  ultimately show ?thesis by (auto simp: has_flag_def)
qed

lemma loaded_saved:
  assumes "saved opt = Some tv" "\<And>f. f \<in> {APXCMDOPT_STR, APXCMDOPT_INT, APXCMDOPT_MSZ} \<Longrightarrow> has_flag opt0 f = has_flag opt f"
    and "has_flag opt APXCMDOPT_MSZ \<longrightarrow> \<not> has_flag opt APXCMDOPT_STR \<longrightarrow> \<not> has_flag opt APXCMDOPT_INT \<longrightarrow>
      (\<exists>vs. szValue opt = Some (msz vs) \<and> unat (dwValue opt) = 2 * length (msz vs))"
  shows "read_back expand opt (loaded env expand opt0 tv)"
proof -
  have flags: "has_flag opt0 APXCMDOPT_STR = has_flag opt APXCMDOPT_STR"
    "has_flag opt0 APXCMDOPT_INT = has_flag opt APXCMDOPT_INT"
    "has_flag opt0 APXCMDOPT_MSZ = has_flag opt APXCMDOPT_MSZ" using assms(2) by simp_all
  consider (text_) "has_flag opt APXCMDOPT_STR"
    | (num) "\<not> has_flag opt APXCMDOPT_STR" "has_flag opt APXCMDOPT_INT"
    | (multi) "\<not> has_flag opt APXCMDOPT_STR" "\<not> has_flag opt APXCMDOPT_INT" "has_flag opt APXCMDOPT_MSZ"
    | (other) "\<not> has_flag opt APXCMDOPT_STR" "\<not> has_flag opt APXCMDOPT_INT" "\<not> has_flag opt APXCMDOPT_MSZ"
    by blast
  then show ?thesis
  proof cases
    case text_
    then have ste: "has_flag opt0 APXCMDOPT_STE" using STE_of_STR flags(1) by blast
    show ?thesis
    proof (cases "valid_string (szValue opt)")
      case None
      with assms(1) text_ have "tv = None" by (auto simp: saved_def split: if_splits)
      with None text_ flags show ?thesis by (simp add: read_back_def loaded_def string_result_def)
    next
      case (Some t)
      then have t: "0 \<notin> set t" by (auto simp: valid_string_def split: option.splits if_splits)
      with assms(1) text_ Some have "tv = Some (REG_SZ, le16 (t @ [0]))" by (auto simp: saved_def split: if_splits)
      moreover obtain b where "string_result env (Some (REG_SZ, le16 (t @ [0]))) = Some b" "text_of b = t"
        using string_result_text [OF t, of env] by blast
      moreover have "text_of t = t" using t by (simp add: text_of_def takeWhile_eq_all_conv) blast
      ultimately show ?thesis using Some text_ flags ste
        by (simp add: read_back_def loaded_def apxExpandStrW_def del: le16_append)
    qed
  next
    case num
    with assms(1) have "tv = Some (REG_DWORD, bytes_le 4 (dwValue opt))" by (auto simp: saved_def split: if_splits)
    with num flags show ?thesis by (simp add: read_back_def loaded_def number_result_def unle32_bytes)
  next
    case multi
    with assms(3) obtain vs where vs: "szValue opt = Some (msz vs)" "unat (dwValue opt) = 2 * length (msz vs)" by blast
    with assms(1) multi have "tv = Some (REG_MULTI_SZ, le16 (msz vs))" by (auto simp: saved_def split: if_splits)
    moreover have "le16 (msz vs) \<noteq> []" by (simp add: msz_def)
    ultimately show ?thesis using multi flags vs by (simp add: read_back_def loaded_def multi_result_def)
  next
    case other
    then show ?thesis by (simp add: read_back_def)
  qed
qed


lemma write_rights:
  "may (KEY_WRITE OR KREG_WOW6432 w) KEY_WOW64_32KEY = w" "may (KEY_WRITE OR KREG_WOW6432 w) KEY_CREATE_SUB_KEY"
  "may (KEY_WRITE OR KREG_WOW6432 w) KEY_SET_VALUE"
  by (simp_all add: may_def KREG_WOW6432_def KEY_WRITE_def KEY_WOW64_32KEY_def KEY_CREATE_SUB_KEY_def KEY_SET_VALUE_def)

lemma read_rights:
  "may (KEY_READ OR KREG_WOW6432 w) KEY_WOW64_32KEY = w" "may (KEY_READ OR KREG_WOW6432 w) KEY_QUERY_VALUE"
  by (simp_all add: may_def KREG_WOW6432_def KEY_READ_def KEY_WOW64_32KEY_def KEY_QUERY_VALUE_def)

lemma place_wow: "may sam KEY_WOW64_32KEY = may sam' KEY_WOW64_32KEY \<Longrightarrow> row_place env sam k row = row_place env sam' k row"
  by (simp only: row_place_def place_of_def)

lemma save_configuration_stores:
  assumes "open_env env" "names_apart env" "length app \<le> 255" "exists_key st (service_key env win64 app)"
    and "length opts = length option_rows" "\<forall>opt \<in> set opts. block_sound opt"
  obtains st1 where "saveConfiguration env win64 (Some app) opts st = Some (True, st1)"
    "\<forall>k \<in> set (config_keys env win64 app). exists_key st1 k"
    "\<forall>i < length option_rows. \<forall>v. saved (opts ! i) = Some v \<longrightarrow>
       stored st1 (row_place env (KEY_WRITE OR KREG_WOW6432 win64)
                     (params_key env win64 (software_key env win64 app)) (option_rows ! i)) = v"
proof -
  let ?sam = "KEY_WRITE OR KREG_WOW6432 win64" and ?k = "params_key env win64 (software_key env win64 app)"
  let ?us = "[(APXREG_SOFTWARE, software_key env win64 app), (APXREG_SERVICE, service_key env win64 app),
      (APXREG_PARAMSERVICE, params_key env win64 (service_key env win64 app))]"
  obtain r st' where c: "apxCreateRegistryW env st ?sam (Some PRG_REGROOT) (Some app) (APXREG_SOFTWARE OR APXREG_SERVICE) =
      Some (ERROR_SUCCESS, Some r, st')"
    and u: "usable st' r APXREG_PARAMSOFTWARE ?k" "usable st' r APXREG_SERVICE (service_key env win64 app)"
      "samOptions r = ?sam" "usable st' r APXREG_SOFTWARE (software_key env win64 app)"
      "usable st' r APXREG_PARAMSERVICE (params_key env win64 (service_key env win64 app))"
    by (rule config_object [OF assms(1,3), of ?sam win64 st]) (use assms(4) write_rights in simp_all)
  have o: "open_object env ?sam ?us ?k (st', r)"
    using u assms(1) write_rights by (simp add: open_object_def)
  let ?xs = "zip option_rows opts"
  have sound: "\<forall>x \<in> set ?xs. case x of (row, opt) \<Rightarrow> block_sound opt"
    using assms(6) by (auto dest: set_zip_rightD)
  have "map (\<lambda>(row, opt). row_place env ?sam ?k row) ?xs = map (row_place env ?sam ?k) option_rows"
    using assms(5) by (intro nth_equalityI) simp_all
  then have d: "distinct (map (\<lambda>(row, opt). row_place env ?sam ?k row) ?xs)"
    using row_places_distinct [OF assms(2)] by simp
  from saving.put_all_view [OF o sound d] obtain s' where s': "saving.put_all env ?xs (st', r) = Some s'"
    "open_object env ?sam ?us ?k s'"
    "\<And>x. x \<in> set ?xs \<Longrightarrow> stored (fst s') (case x of (row, opt) \<Rightarrow> row_place env ?sam ?k row) =
      (case case x of (row, opt) \<Rightarrow> saved opt of
         None \<Rightarrow> stored (fst (st', r)) (case x of (row, opt) \<Rightarrow> row_place env ?sam ?k row) | Some v \<Rightarrow> v)"
    by blast
  show thesis
  proof (rule that)
    show "saveConfiguration env win64 (Some app) opts st = Some (True, fst (registry_callback_close (fst s') (snd s')))"
      using c s'(1) by (cases s') (simp add: saveConfiguration_def save_options_as)
    show "\<forall>k \<in> set (config_keys env win64 app). exists_key (fst (registry_callback_close (fst s') (snd s'))) k"
      using s'(2) by (auto simp: exists_callback_close config_keys_def open_object_def exists_key_def usable_def)
    show "\<forall>i < length option_rows. \<forall>v. saved (opts ! i) = Some v \<longrightarrow>
        stored (fst (registry_callback_close (fst s') (snd s'))) (row_place env ?sam ?k (option_rows ! i)) = v"
    proof (intro allI impI)
      fix i v assume i: "i < length option_rows" and v: "saved (opts ! i) = Some v"
      then have "(option_rows ! i, opts ! i) \<in> set ?xs" using assms(5) by (auto simp: set_zip)
      from s'(3) [OF this] v
      show "stored (fst (registry_callback_close (fst s') (snd s'))) (row_place env ?sam ?k (option_rows ! i)) = v"
        by (simp add: stored_callback_close)
    qed
  qed
qed

lemma load_configuration_reads:
  assumes "open_env env" "length app \<le> 255" "\<forall>k \<in> set (config_keys env win64 app). exists_key st k"
    and "length opts = length option_rows" "\<forall>opt \<in> set opts. \<not> has_flag opt APXCMDOPT_FOUND"
  obtains st1 where "loadConfiguration env expand win64 (Some app) opts st =
    Some (True, map2 (\<lambda>row opt. loaded env expand opt
        (stored st (row_place env (KEY_READ OR KREG_WOW6432 win64)
           (option_key (params_key env win64 (software_key env win64 app)) (service_key env win64 app) opt) row)))
      option_rows opts, st1)"
proof -
  let ?sam = "KEY_READ OR KREG_WOW6432 win64" and ?k = "params_key env win64 (software_key env win64 app)"
  have se: "exists_key st (service_key env win64 app)" using assms(3) by (simp add: config_keys_def)
  obtain r st' where c: "apxCreateRegistryW env st ?sam (Some PRG_REGROOT) (Some app) (APXREG_SOFTWARE OR APXREG_SERVICE) =
      Some (ERROR_SUCCESS, Some r, st')"
    and u: "usable st' r APXREG_PARAMSOFTWARE ?k" "usable st' r APXREG_SERVICE (service_key env win64 app)"
      "samOptions r = ?sam" and g: "grown st st'"
    by (rule config_object [OF assms(1,2), of ?sam win64 st]) (use assms(3) se read_rights in simp_all)
  have "readable env ?sam ?k (service_key env win64 app) (st', r)"
    using u assms(1) read_rights by (simp add: readable_def)
  from load_options_effect [OF this assms(5,4), of expand] obtain s' where
    "load_options env expand option_rows opts (st', r) =
      Some (map2 (\<lambda>row opt. loaded env expand opt
        (stored st (row_place env ?sam (option_key ?k (service_key env win64 app) opt) row))) option_rows opts, s')"
    using g by (auto simp: grown_def)
  with c show thesis by (cases s') (auto simp: loadConfiguration_def intro: that)
qed




definition plain_env :: reg_env where
  "plain_env = \<lparr>fold_name = \<lambda>s. s, redirected = \<lambda>_ _. False, denied = \<lambda>_ _. False, heap = \<lambda>n. replicate n 0\<rparr>"

definition installed_registry :: "wtext \<Rightarrow> registry" where
  "installed_registry app = \<lparr>keys = [(service_key plain_env True app, [])], opened = [], fresh_handle = 0\<rparr>"

text \<open>The options of \<open>update --JvmMs=7\<close>.\<close>

definition given_ms :: "cmdopt list" where
  "given_ms = option_table[16 := (option_table ! 16)\<lparr>dwType := dwType (option_table ! 16) OR APXCMDOPT_FOUND, dwValue := 7\<rparr>]"

lemma wide_inj: "inj wide"
  by (auto simp: inj_def wide_def of_char_inj intro: map_injective [of of_char])

lemma table_types: "list_all (\<lambda>opt. dwType opt AND NOT (APXCMDOPT_FOUND OR APXCMDOPT_ADD) = dwType opt \<and>
    \<not> has_flag opt APXCMDOPT_FOUND) option_table"
  by (simp add: option_table_def option_rows_def option_init_def has_flag_def option_flags APXCMDOPT_STE_def
      APXCMDOPT_BIN_def APXCMDOPT_REG_def APXCMDOPT_SRV_def)

lemma row_16: "option_table ! 16 =
    \<lparr>szName = wide ''JvmMs'', dwType = APXCMDOPT_INT OR APXCMDOPT_REG, szValue = None, dwValue = 0\<rparr>"
  by (simp add: option_table_def option_rows_def option_init_def)

lemma rows_count: "length option_rows = 40"
  by (simp add: option_rows_def)

lemma table_count: "length option_table = 40"
  by (simp add: option_table_def rows_count)

lemma given_16: "given_ms ! 16 =
    \<lparr>szName = wide ''JvmMs'', dwType = APXCMDOPT_INT OR APXCMDOPT_REG OR APXCMDOPT_FOUND, szValue = None, dwValue = 7\<rparr>"
  by (simp add: given_ms_def table_count row_16 or.assoc)

lemma given_other: "i \<noteq> 16 \<Longrightarrow> given_ms ! i = option_table ! i"
  by (simp add: given_ms_def)

lemma runner_given_ms: "runner_options given_ms"
  unfolding runner_options_def
proof (intro conjI allI impI)
  show "length given_ms = length option_rows" by (simp add: given_ms_def table_count rows_count)
  fix i assume i: "i < length option_rows"
  have t: "dwType (option_table ! i) AND NOT (APXCMDOPT_FOUND OR APXCMDOPT_ADD) = dwType (option_table ! i)"
    "\<not> has_flag (option_table ! i) APXCMDOPT_FOUND"
    using table_types i by (auto simp: list_all_length table_count rows_count)
  show "dwType (given_ms ! i) AND NOT (APXCMDOPT_FOUND OR APXCMDOPT_ADD) = dwType (option_table ! i)"
    using t by (cases "i = 16") (simp_all add: given_16 row_16 given_other option_flags APXCMDOPT_REG_def)
  assume "has_flag (given_ms ! i) APXCMDOPT_FOUND" "has_flag (given_ms ! i) APXCMDOPT_MSZ"
  then show "\<exists>vs. szValue (given_ms ! i) = Some (msz vs) \<and> unat (dwValue (given_ms ! i)) = 2 * length (msz vs)"
    using t by (cases "i = 16") (simp_all add: given_16 given_other has_flag_def option_flags APXCMDOPT_REG_def)
qed



text \<open>The option \<open>--Password\<close> has a type that is neither saved nor loaded.\<close>

lemma password_not_saved:
  assumes "runner_options opts"
  shows "saved (opts ! 10) = None \<and> loaded env expand (option_table ! 10) tv = option_table ! 10"
proof -
  have row: "dwType (option_table ! 10) = APXCMDOPT_BIN OR APXCMDOPT_REG"
    by (simp add: option_table_def option_rows_def option_init_def)
  with assms have ty: "dwType (opts ! 10) AND NOT (APXCMDOPT_FOUND OR APXCMDOPT_ADD) = APXCMDOPT_BIN OR APXCMDOPT_REG"
    by (simp add: runner_options_def rows_count)
  show ?thesis using same_flag [OF ty] row
    by (simp add: saved_def loaded_def has_flag_def option_flags APXCMDOPT_BIN_def APXCMDOPT_REG_def APXCMDOPT_SRV_def)
qed

end
