(* ===== verification/Srv_Commands.thy ===== *)
theory Srv_Commands
  imports Srv_Config Win_Service
begin

text \<open>
  The commands of the service runner (\<^verbatim>\<open>windows/apps/prunsrv/prunsrv.c\<close>) that install, update,
  start, stop and delete a service: sequences of calls of \<open>Win_Service\<close>, \<open>Win_Registry\<close> and
  \<open>Srv_Options\<close> over the service manager and the registry.
\<close>

section \<open>The world of a command\<close>

record run_world =
  scm_of :: scm
  reg_of :: registry
  closed_windows :: "wtext list"

record run_env =
  scm_env_of :: scm_env
  reg_env_of :: reg_env
  same_i :: "wtext \<Rightarrow> wtext \<Rightarrow> bool" \<comment> \<open>\<open>lstrcmpiW\<close> is zero\<close>
  window_of :: "wtext \<Rightarrow> bool" \<comment> \<open>\<open>FindWindowW\<close> finds one of that class\<close>
  stack_of :: "nat \<Rightarrow> wtext" \<comment> \<open>what an array of that size held\<close>
  is_win64 :: bool

definition eq_i :: "run_env \<Rightarrow> wtext option \<Rightarrow> string \<Rightarrow> bool" where
  "eq_i env v s = (case v of None \<Rightarrow> False | Some b \<Rightarrow> same_i env (text_of b) (wide s))"

definition SC_MANAGER_CONNECT :: dword where "SC_MANAGER_CONNECT = 0x1"
definition SC_MANAGER_CREATE_SERVICE :: dword where "SC_MANAGER_CREATE_SERVICE = 0x2"
definition SERVICE_AUTO_START :: dword where "SERVICE_AUTO_START = 2"
definition SERVICE_DEMAND_START :: dword where "SERVICE_DEMAND_START = 3"
definition GENERIC_ALL :: dword where "GENERIC_ALL = 0x10000000"
definition GENERIC_EXECUTE :: dword where "GENERIC_EXECUTE = 0x20000000"

text \<open>An option that was given on the command line or by a variable.\<close>

definition found_v :: "cmdopt list \<Rightarrow> nat \<Rightarrow> wtext option" where
  "found_v opts i = (if has_flag (opts ! i) APXCMDOPT_FOUND then map_option text_of (GET_OPT_V opts i) else None)"

section \<open>Installing\<close>

text \<open>\<open>lstrlcatW\<close> as a statement: an array without room stays as it is.\<close>

definition cat_into :: "wtext \<Rightarrow> nat \<Rightarrow> wtext \<Rightarrow> wtext option" where
  "cat_into b n s = map_option (\<lambda>r. case r of None \<Rightarrow> b | Some b' \<Rightarrow> b') (lstrlcatW b (int n) s)"

definition SIZ_HUGLEN :: nat where "SIZ_HUGLEN = 8192"
definition SIZ_BUFLEN :: nat where "SIZ_BUFLEN = 512"

text \<open>The command line of the service in \<open>szImage\<close>.\<close>

definition service_image ::
  "run_env \<Rightarrow> cmdline \<Rightarrow> wtext option \<Rightarrow> wtext option" where
  "service_image env line install = do {
     image \<leftarrow> (case valid_string install of
                  None \<Rightarrow> do {
                    (b, _) \<leftarrow> lstrlcpyW (stack_of env SIZ_HUGLEN) (int SIZ_HUGLEN) (szExePath line @ [0]);
                    b \<leftarrow> cat_into b SIZ_HUGLEN (wide backslash @ [0]);
                    b \<leftarrow> cat_into b SIZ_HUGLEN (szExecutable line @ [0]);
                    cat_into b SIZ_HUGLEN (wide ''.exe'' @ [0]) }
                | Some t \<Rightarrow> map_option fst (lstrlcpyW (stack_of env SIZ_HUGLEN) (int SIZ_HUGLEN) (t @ [0])));
     image \<leftarrow> apxStrQuoteInplaceW image;
     image \<leftarrow> cat_into image SIZ_HUGLEN (wide '' '' @ [0]);
     (name, _) \<leftarrow> lstrlcpyW (stack_of env SIZ_BUFLEN) (int SIZ_BUFLEN) (wide ''//RS//'' @ [0]);
     name \<leftarrow> cat_into name SIZ_BUFLEN (szApplication line @ [0]);
     name \<leftarrow> apxStrQuoteInplaceW name;
     cat_into image SIZ_HUGLEN name }"

definition docmdInstallService ::
  "run_env \<Rightarrow> cmdline \<Rightarrow> cmdopt list \<Rightarrow> run_world \<Rightarrow> (bool \<times> cmdopt list \<times> run_world) option" where
  "docmdInstallService env line opts w =
     (case apxCreateService (scm_env_of env) True SC_MANAGER_CREATE_SERVICE False (scm_of w) of
        (None, st) \<Rightarrow> Some (False, opts, w\<lparr>scm_of := st\<rparr>)
      | (Some s, st) \<Rightarrow> do {
          let start = (if has_flag (opts ! 5) APXCMDOPT_FOUND \<and> eq_i env (GET_OPT_V opts 5) ''auto''
                       then SERVICE_AUTO_START else SERVICE_DEMAND_START);
          let type = (if has_flag (opts ! 6) APXCMDOPT_FOUND \<and> eq_i env (GET_OPT_V opts 6) ''interactive''
                      then SERVICE_WIN32_OWN_PROCESS OR SERVICE_INTERACTIVE_PROCESS else SERVICE_WIN32_OWN_PROCESS);
          image \<leftarrow> service_image env line (GET_OPT_V opts 2);
          let opts = opts[2 := (opts ! 2)\<lparr>szValue := Some (text_of image @ [0]),
                                          dwType := dwType (opts ! 2) OR APXCMDOPT_FOUND\<rparr>];
          (rv, s, st) \<leftarrow> apxServiceInstall (scm_env_of env) (szApplication line)
                            (map_option text_of (GET_OPT_V opts 1)) (map_option text_of (GET_OPT_V opts 2))
                            (GET_OPT_V opts 7) type start s st;
          let st = (if rv then snd (apxServiceSetNames (scm_env_of env) None None (found_v opts 0)
                                      (found_v opts 3) (found_v opts 4) s st) else st);
          let st = fst (service_callback_close st s);
          (if rv
           then map_option (\<lambda>(_, reg). (True, opts, w\<lparr>scm_of := st, reg_of := reg\<rparr>))
                  (saveConfiguration (reg_env_of env) (is_win64 env) (Some (szApplication line)) opts (reg_of w))
           else Some (False, opts, w\<lparr>scm_of := st\<rparr>)) })"

section \<open>Deleting, stopping and starting\<close>

definition docmdDeleteService :: "run_env \<Rightarrow> cmdline \<Rightarrow> run_world \<Rightarrow> (bool \<times> run_world) option" where
  "docmdDeleteService env line w =
     (case apxCreateService (scm_env_of env) True SC_MANAGER_CONNECT False (scm_of w) of
        (None, st) \<Rightarrow> Some (False, w\<lparr>scm_of := st\<rparr>)
      | (Some s, st) \<Rightarrow> do {
          (ok, s, st, reg) \<leftarrow> apxServiceOpen (scm_env_of env) (reg_env_of env) (stack_of env)
                                 (szApplication line) SERVICE_ALL_ACCESS s (st, reg_of w);
          let cls = take 255 (take 255 (szApplication line) @ wide ''_CLASS'');
          let w = (if ok \<and> window_of env cls then w\<lparr>closed_windows := cls # closed_windows w\<rparr> else w);
          (rv, s, st) \<leftarrow> (if ok then apxServiceDelete (scm_env_of env) s st else Some (False, s, st));
          reg \<leftarrow> (if rv
                   then map_option snd (apxDeleteRegistryW (reg_env_of env) reg (Some PRG_REGROOT)
                          (Some (szApplication line)) (KREG_WOW6432 (is_win64 env)) True)
                   else Some reg);
          Some (rv, w\<lparr>scm_of := fst (service_callback_close st s), reg_of := reg\<rparr>) })"

text \<open>Stopping and starting differ in the control code alone.\<close>

definition control_command :: "run_env \<Rightarrow> dword \<Rightarrow> cmdline \<Rightarrow> run_world \<Rightarrow> (bool \<times> run_world) option" where
  "control_command env dwControl line w =
     (case apxCreateService (scm_env_of env) True GENERIC_ALL False (scm_of w) of
        (None, st) \<Rightarrow> Some (False, w\<lparr>scm_of := st\<rparr>)
      | (Some s, st) \<Rightarrow> do {
          (ok, s, st, reg) \<leftarrow> apxServiceOpen (scm_env_of env) (reg_env_of env) (stack_of env)
                                 (szApplication line) (GENERIC_READ OR GENERIC_EXECUTE) s (st, reg_of w);
          (rv, st) \<leftarrow> (if ok then apxServiceControl (scm_env_of env) dwControl None s st else Some (False, st));
          Some (rv, w\<lparr>scm_of := fst (service_callback_close st s), reg_of := reg\<rparr>) })"

definition docmdStopService :: "run_env \<Rightarrow> cmdline \<Rightarrow> run_world \<Rightarrow> (bool \<times> run_world) option" where
  "docmdStopService env = control_command env SERVICE_CONTROL_STOP"

definition docmdStartService :: "run_env \<Rightarrow> cmdline \<Rightarrow> run_world \<Rightarrow> (bool \<times> run_world) option" where
  "docmdStartService env = control_command env SERVICE_CONTROL_CONTINUE"

section \<open>Updating\<close>

definition docmdUpdateService ::
  "run_env \<Rightarrow> cmdline \<Rightarrow> cmdopt list \<Rightarrow> run_world \<Rightarrow> (bool \<times> cmdopt list \<times> run_world) option" where
  "docmdUpdateService env line opts w =
     (case apxCreateService (scm_env_of env) True SC_MANAGER_CREATE_SERVICE False (scm_of w) of
        (None, st) \<Rightarrow> Some (False, opts, w\<lparr>scm_of := st\<rparr>)
      | (Some s, st) \<Rightarrow> do {
          (ok, s, st, reg) \<leftarrow> apxServiceOpen (scm_env_of env) (reg_env_of env) (stack_of env)
                                 (szApplication line) SERVICE_ALL_ACCESS s (st, reg_of w);
          (if \<not> ok
           then docmdInstallService env line opts
                  (w\<lparr>scm_of := fst (service_callback_close st s), reg_of := reg\<rparr>)
           else do {
             let (rv, st) = apxServiceSetNames (scm_env_of env) None (map_option text_of (GET_OPT_V opts 1))
                              (map_option text_of (GET_OPT_V opts 0)) (found_v opts 3) (found_v opts 4) s st;
             let start = (if has_flag (opts ! 5) APXCMDOPT_FOUND
                          then if eq_i env (GET_OPT_V opts 5) ''auto'' then SERVICE_AUTO_START
                               else if eq_i env (GET_OPT_V opts 5) ''manual'' then SERVICE_DEMAND_START
                               else SERVICE_NO_CHANGE
                          else SERVICE_NO_CHANGE);
             let type = (if has_flag (opts ! 6) APXCMDOPT_FOUND \<and> eq_i env (GET_OPT_V opts 6) ''interactive''
                         then SERVICE_WIN32_OWN_PROCESS OR SERVICE_INTERACTIVE_PROCESS else SERVICE_NO_CHANGE);
             let (rv, st) = (if rv then apxServiceSetOptions (scm_env_of env) type start SERVICE_NO_CHANGE s st
                             else (False, st));
             (rv, reg) \<leftarrow> (if rv
                            then saveConfiguration (reg_env_of env) (is_win64 env) (Some (szApplication line)) opts reg
                            else Some (False, reg));
             Some (rv, opts, w\<lparr>scm_of := fst (service_callback_close st s), reg_of := reg\<rparr>) }) })"

end
