(* ===== verification/Srv_Command_Facts.thy ===== *)
theory Srv_Command_Facts
  imports Srv_Commands Service_Facts
begin

text \<open>
  Facts about the commands of the service runner: the command line that installing registers
  is the one that the parser of the command line takes for running that service, and the
  handles of the service manager are given back.
\<close>

section \<open>Texts in arrays\<close>

lemma cat_into_appends:
  assumes "0 \<notin> set t" "0 \<notin> set s" "length t + length s < n" "n \<le> length (t @ 0 # r)"
  shows "\<exists>rest. cat_into (t @ 0 # r) n (s @ 0 # z) = Some (t @ s @ 0 # rest) \<and>
    length (t @ s @ 0 # rest) = length (t @ 0 # r)"
proof -
  let ?k = "n - length t"
  let ?rest = "drop (Suc (length s)) (take ?k (0 # r)) @ drop ?k (0 # r)"
  have "cat_end (t @ 0 # r) 0 (int n) = Some (length t)"
    using cat_end_terminated [of t "int n" "[]" r] assms by simp
  moreover have "int n - int (length t) = int ?k" using assms by simp
  moreover have "cat_copy (t @ 0 # r) (length t) (int ?k) (s @ 0 # z) = Some (t @ s @ 0 # ?rest)"
    using cat_copy_truncates [of s ?k "take ?k (0 # r)" t "drop ?k (0 # r)" z] assms by simp
  ultimately have "cat_into (t @ 0 # r) n (s @ 0 # z) = Some (t @ s @ 0 # ?rest)"
    using assms by (simp add: cat_into_def lstrlcatW_def lstrlcatA_def Let_def)
  moreover have "length (t @ s @ 0 # ?rest) = length (t @ 0 # r)" using assms(3,4) by simp
  ultimately show ?thesis by blast
qed

lemma copy_fits:
  assumes "0 \<notin> set s" "length s < n" "n \<le> length b"
  shows "\<exists>r. lstrlcpyW b (int n) (s @ [0]) = Some (s @ 0 # r, if length s < n - 1 then Suc (length s) else n - 1) \<and>
    length (s @ 0 # r) = length b"
  using lstrlcpy_copies [of s n b "[]"] assms by (simp add: lstrlcpyW_def)

definition quoted :: "wtext \<Rightarrow> wtext" where
  "quoted s = (if ch CHR '' '' \<in> set s then [ch CHR 0x22] @ s @ [ch CHR 0x22] else s)"

lemma quoted_no_zero: "0 \<notin> set s \<Longrightarrow> 0 \<notin> set (quoted s)"
  by (simp add: quoted_def)

lemma quoted_set: "set (quoted s) \<subseteq> insert (ch CHR 0x22) (set s)"
  by (auto simp: quoted_def)

lemma length_quoted: "length (quoted s) \<le> length s + 2"
  by (simp add: quoted_def)

lemma quote_in_place:
  assumes "0 \<notin> set s" "2 \<le> length r"
  shows "\<exists>r'. apxStrQuoteInplaceW (s @ 0 # r) = Some (quoted s @ 0 # r') \<and>
    length (quoted s @ 0 # r') = length (s @ 0 # r)"
proof (cases "ch CHR '' '' \<in> set s")
  case True
  obtain x y r' where r: "r = x # y # r'" using assms(2) by (metis Suc_le_length_iff numeral_2_eq_2)
  have b: "get_block (s @ 0 # r) 0 (length s) = Some s" by (simp add: get_block_def)
  obtain c s' where s: "s = c # s'" using True by (cases s) auto
  have p: "put_block (s @ 0 # r) 1 s = Some (c # s @ x # y # r')"
    using put_block_at [of "[c]" 1 s "s' @ 0 # x # y # r'"] by (simp add: r s)
  have q: "put (c # s @ x # y # r') 0 (ch CHR ''\"'') = Some (ch CHR ''\"'' # s @ x # y # r')"
    by (simp add: put_def)
  have l: "put (ch CHR ''\"'' # s @ x # y # r') (Suc (length s)) (ch CHR ''\"'') =
      Some (ch CHR ''\"'' # s @ ch CHR ''\"'' # y # r')"
    using put_append [of "ch CHR ''\"'' # s" "Suc (length s)" x "y # r'" "ch CHR ''\"''"] by simp
  have z: "put (ch CHR ''\"'' # s @ ch CHR ''\"'' # y # r') (Suc (Suc (length s))) 0 =
      Some (ch CHR ''\"'' # s @ ch CHR ''\"'' # 0 # r')"
    using put_append [of "ch CHR ''\"'' # s @ [ch CHR ''\"'']" "Suc (Suc (length s))" y r' 0] by simp
  show ?thesis
    using True assms(1) b p q l z
    by (simp add: apxStrQuoteInplaceW_def has_space_text wlen_text quoted_def r)
next
  case False
  then show ?thesis using assms(1) by (simp add: apxStrQuoteInplaceW_def has_space_text quoted_def)
qed

section \<open>The command line of the service\<close>

definition image_base :: "cmdline \<Rightarrow> wtext option \<Rightarrow> wtext" where
  "image_base line install = (case valid_string install of
     None \<Rightarrow> szExePath line @ wide backslash @ szExecutable line @ wide ''.exe'' | Some t \<Rightarrow> t)"

definition run_argument :: "cmdline \<Rightarrow> wtext" where
  "run_argument line = wide ''//RS//'' @ szApplication line"

definition image_text :: "cmdline \<Rightarrow> wtext option \<Rightarrow> wtext" where
  "image_text line install = quoted (image_base line install) @ wide '' '' @ quoted (run_argument line)"

lemma wide_no_zero: "CHR 0x00 \<notin> set s \<Longrightarrow> 0 \<notin> set (wide s)"
proof -
  assume s: "CHR 0x00 \<notin> set s"
  show ?thesis
  proof
    assume "0 \<in> set (wide s)"
    then obtain x where "x \<in> set s" "of_char x = (of_char CHR 0x00 :: wchar)" by (auto simp: wide_def)
    with s show False unfolding of_char_inj by simp
  qed
qed

lemma image_base_array:
  assumes "0 \<notin> set (szExePath line)" "0 \<notin> set (szExecutable line)"
    and "length (image_base line install) < 8000" "length (stack_of env SIZ_HUGLEN) = SIZ_HUGLEN"
  shows "\<exists>r. (case valid_string install of
        None \<Rightarrow> do {
          (b, _) \<leftarrow> lstrlcpyW (stack_of env SIZ_HUGLEN) (int SIZ_HUGLEN) (szExePath line @ [0]);
          b \<leftarrow> cat_into b SIZ_HUGLEN (wide backslash @ [0]);
          b \<leftarrow> cat_into b SIZ_HUGLEN (szExecutable line @ [0]);
          cat_into b SIZ_HUGLEN (wide ''.exe'' @ [0]) }
      | Some t \<Rightarrow> map_option fst (lstrlcpyW (stack_of env SIZ_HUGLEN) (int SIZ_HUGLEN) (t @ [0]))) =
      Some (image_base line install @ 0 # r) \<and> length (image_base line install @ 0 # r) = SIZ_HUGLEN"
proof (cases "valid_string install")
  case None
  let ?e = "szExePath line" and ?x = "szExecutable line"
  have n: "SIZ_HUGLEN = 8192" by (simp add: SIZ_HUGLEN_def)
  have len: "length ?e + length ?x + 5 < 8000"
    using assms(3) None by (simp add: image_base_def wide_def backslash_def)
  have z: "0 \<notin> set (wide backslash)" "0 \<notin> set (wide ''.exe'')"
    by (rule wide_no_zero, simp add: backslash_def)+
  have wl: "length (wide backslash) = 1" "length (wide ''.exe'') = 4" by (simp_all add: wide_def backslash_def)
  obtain r1 where r1: "lstrlcpyW (stack_of env SIZ_HUGLEN) (int SIZ_HUGLEN) (?e @ [0]) =
      Some (?e @ 0 # r1, if length ?e < SIZ_HUGLEN - 1 then Suc (length ?e) else SIZ_HUGLEN - 1)"
    "length (?e @ 0 # r1) = SIZ_HUGLEN"
    using copy_fits [of ?e SIZ_HUGLEN "stack_of env SIZ_HUGLEN"] assms(1,4) len n by auto
  obtain r2 where r2: "cat_into (?e @ 0 # r1) SIZ_HUGLEN (wide backslash @ [0]) = Some (?e @ wide backslash @ 0 # r2)"
    "length (?e @ wide backslash @ 0 # r2) = SIZ_HUGLEN"
    using cat_into_appends [of ?e "wide backslash" SIZ_HUGLEN r1 "[]"] assms(1) z r1 len n wl by auto
  let ?e2 = "?e @ wide backslash"
  obtain r3 where r3: "cat_into (?e2 @ 0 # r2) SIZ_HUGLEN (?x @ [0]) = Some (?e2 @ ?x @ 0 # r3)"
    "length (?e2 @ ?x @ 0 # r3) = SIZ_HUGLEN"
    using cat_into_appends [of ?e2 ?x SIZ_HUGLEN r2 "[]"] assms(1,2) z r2 len n wl by auto
  let ?e3 = "?e2 @ ?x"
  obtain r4 where r4: "cat_into (?e3 @ 0 # r3) SIZ_HUGLEN (wide ''.exe'' @ [0]) = Some (?e3 @ wide ''.exe'' @ 0 # r4)"
    "length (?e3 @ wide ''.exe'' @ 0 # r4) = SIZ_HUGLEN"
    using cat_into_appends [of ?e3 "wide ''.exe''" SIZ_HUGLEN r3 "[]"] assms(1,2) z r3 len n wl by auto
  show ?thesis using None r1(1) r2(1) r3(1) r4 by (simp add: image_base_def)
next
  case (Some t)
  then have "0 \<notin> set t" by (auto simp: valid_string_def split: option.splits if_splits)
  then show ?thesis
    using copy_fits [of t SIZ_HUGLEN "stack_of env SIZ_HUGLEN"] assms(3,4) Some
    by (auto simp: image_base_def SIZ_HUGLEN_def)
qed

lemma service_image_array:
  assumes "0 \<notin> set (szExePath line)" "0 \<notin> set (szExecutable line)" "0 \<notin> set (szApplication line)"
    and "length (image_base line install) + length (szApplication line) < 7900" "length (szApplication line) \<le> 255"
    and "length (stack_of env SIZ_HUGLEN) = SIZ_HUGLEN" "length (stack_of env SIZ_BUFLEN) = SIZ_BUFLEN"
  shows "\<exists>r. service_image env line install = Some (image_text line install @ 0 # r)"
proof -
  let ?b = "image_base line install" and ?a = "szApplication line"
  have n: "SIZ_HUGLEN = 8192" "SIZ_BUFLEN = 512" by (simp_all add: SIZ_HUGLEN_def SIZ_BUFLEN_def)
  have zx: "0 \<notin> set (wide '' '')" "0 \<notin> set (wide ''//RS//'')" "0 \<notin> set (wide backslash)" "0 \<notin> set (wide ''.exe'')"
    by (rule wide_no_zero, simp add: backslash_def)+
  have wl: "length (wide '' '') = 1" "length (wide ''//RS//'') = 6" by (simp_all add: wide_def)
  have zb: "0 \<notin> set ?b"
    using assms(1,2) zx by (auto simp: image_base_def valid_string_def split: option.splits if_splits)
  obtain r0 where r0: "(case valid_string install of
        None \<Rightarrow> do {
          (b, _) \<leftarrow> lstrlcpyW (stack_of env SIZ_HUGLEN) (int SIZ_HUGLEN) (szExePath line @ [0]);
          b \<leftarrow> cat_into b SIZ_HUGLEN (wide backslash @ [0]);
          b \<leftarrow> cat_into b SIZ_HUGLEN (szExecutable line @ [0]);
          cat_into b SIZ_HUGLEN (wide ''.exe'' @ [0]) }
      | Some t \<Rightarrow> map_option fst (lstrlcpyW (stack_of env SIZ_HUGLEN) (int SIZ_HUGLEN) (t @ [0]))) =
      Some (?b @ 0 # r0)" "length (?b @ 0 # r0) = SIZ_HUGLEN"
    using image_base_array [OF assms(1,2), of install env] assms(4,6) by auto
  obtain r1 where r1: "apxStrQuoteInplaceW (?b @ 0 # r0) = Some (quoted ?b @ 0 # r1)" "length (quoted ?b @ 0 # r1) = SIZ_HUGLEN"
    using quote_in_place [OF zb, of r0] r0(2) assms(4) n by auto
  obtain r2 where r2: "cat_into (quoted ?b @ 0 # r1) SIZ_HUGLEN (wide '' '' @ [0]) = Some (quoted ?b @ wide '' '' @ 0 # r2)"
    "length (quoted ?b @ wide '' '' @ 0 # r2) = SIZ_HUGLEN"
    using cat_into_appends [of "quoted ?b" "wide '' ''" SIZ_HUGLEN r1 "[]"] quoted_no_zero [OF zb] zx(1) r1(2)
      length_quoted [of ?b] assms(4) n wl by auto
  obtain r3 m where r3: "lstrlcpyW (stack_of env SIZ_BUFLEN) (int SIZ_BUFLEN) (wide ''//RS//'' @ [0]) =
      Some (wide ''//RS//'' @ 0 # r3, m)" "length (wide ''//RS//'' @ 0 # r3) = SIZ_BUFLEN"
    using copy_fits [of "wide ''//RS//''" SIZ_BUFLEN "stack_of env SIZ_BUFLEN"] zx(2) assms(7) n wl by auto
  obtain r4 where r4: "cat_into (wide ''//RS//'' @ 0 # r3) SIZ_BUFLEN (?a @ [0]) = Some (run_argument line @ 0 # r4)"
    "length (run_argument line @ 0 # r4) = SIZ_BUFLEN"
    using cat_into_appends [of "wide ''//RS//''" ?a SIZ_BUFLEN r3 "[]"] zx(2) assms(3,5) r3(2) n wl
    by (auto simp: run_argument_def)
  have zr: "0 \<notin> set (run_argument line)" using zx(2) assms(3) by (simp add: run_argument_def)
  obtain r5 where r5: "apxStrQuoteInplaceW (run_argument line @ 0 # r4) = Some (quoted (run_argument line) @ 0 # r5)"
    using quote_in_place [OF zr, of r4] r4(2) assms(5) n wl by (auto simp: run_argument_def)
  let ?i = "quoted ?b @ wide '' ''"
  obtain r6 where r6: "cat_into (?i @ 0 # r2) SIZ_HUGLEN (quoted (run_argument line) @ 0 # r5) =
      Some (?i @ quoted (run_argument line) @ 0 # r6)"
    using cat_into_appends [of ?i "quoted (run_argument line)" SIZ_HUGLEN r2 r5] quoted_no_zero [OF zb]
      quoted_no_zero [OF zr] zx(1) r2(2) length_quoted [of ?b] length_quoted [of "run_argument line"] assms(4,5) n wl
    by (auto simp: run_argument_def)
  show ?thesis
    unfolding service_image_def r0(1)
    using r1(1) r2(1) r3(1) r4(1) r5 r6 by (simp add: image_text_def)
qed


section \<open>What the parser makes of it\<close>

lemma wide_words: "wide s = wide t \<longleftrightarrow> s = t"
  using wide_inj by (simp add: inj_eq)

lemma run_argument_parsed:
  assumes "ch CHR ''/'' \<notin> set (szApplication line)" "szApplication line \<noteq> []"
  shows "command_of (=) alnum (map wide commands) (map wide altcmds) [a0, run_argument line] exe =
    Some (2, szApplication line, 2)"
proof -
  let ?a = "szApplication line"
  have r: "run_argument line = wide ''//'' @ wide ''RS'' @ ch CHR ''/'' # ch CHR ''/'' # ?a"
    by (simp add: run_argument_def wide_def)
  have "ch CHR ''/'' \<notin> set (wide ''RS'')"
    by (simp add: wide_def)
  then have "split_first (ch CHR ''/'') (wide ''RS'' @ ch CHR ''/'' # ch CHR ''/'' # ?a) = Some (wide ''RS'', ch CHR ''/'' # ?a)"
    by (simp add: split_first_Some)
  moreover have "dropWhile (\<lambda>c. c = ch CHR ''/'') (ch CHR ''/'' # ?a) = ?a"
    using assms by (cases ?a) auto
  ultimately have s: "slash_command (wide ''RS'' @ ch CHR ''/'' # ch CHR ''/'' # ?a) = (wide ''RS'', Some ?a)"
    using assms(1) hd_in_set [OF assms(2)] by (auto simp: slash_command_def Let_def intro!: bexI [of _ "hd ?a"])
  have "command_index (=) (map wide commands) (wide ''RS'') 0 = 2"
    by (simp add: commands_def wide_words)
  moreover have "take 2 (run_argument line) = wide ''//''" "drop 2 (run_argument line) = wide ''RS'' @ ch CHR ''/'' # ch CHR ''/'' # ?a"
    by (simp_all add: r wide_def)
  ultimately show ?thesis using s by (simp add: command_of_def Let_def)
qed

section \<open>Installing\<close>

lemma set_names_shape:
  "apxServiceSetNames env a b c d e s st = (ok, st') \<Longrightarrow>
     sc_handles st' = sc_handles st \<and> next_sc st' = next_sc st \<and> set (calls st) \<subseteq> set (calls st')"
  by (auto simp: apxServiceSetNames_def scm_do_def Let_def split: option.splits if_splits prod.splits bool.splits)

lemma service_install_success:
  assumes "apxServiceInstall env name display img deps type start s st = Some (True, s', st')" "hService s = None"
  shows "(\<exists>d. Create_service name display type start img d \<in> set (calls st')) \<and>
    hService s' = Some (next_sc st) \<and> hManager s' = hManager s \<and>
    sc_handles st' = next_sc st # sc_handles st \<and> apxIsValidServiceName name"
  using assms
  by (auto simp: apxServiceInstall_def Let_def scm_open_def scm_do_def close_sc_def
      split: if_splits option.splits bind_splits prod.splits)

lemma create_service_shape:
  "apxCreateService env True opts m st = (x, st') \<Longrightarrow>
     (case x of
        None \<Rightarrow> sc_handles st' = sc_handles st
      | Some s \<Rightarrow> hService s = None \<and> hManager s = Some (next_sc st) \<and> bManagerMode s = m \<and>
          sc_handles st' = next_sc st # sc_handles st \<and> next_sc st' = Suc (next_sc st))"
  by (auto simp: apxCreateService_def scm_open_def scm_do_def split: if_splits)

text \<open>A service that was installed successfully is registered with a command line whose last argument
  the program's own parser takes for the command to run a service, with the same name; for
  every path of the program that leaves room in the array, quotes included. The handles of
  the service manager that the command opened are closed again.\<close>

theorem install_registers_runner:
  assumes "docmdInstallService env line opts w = Some (True, opts', w')"
    and "0 \<notin> set (szExePath line)" "0 \<notin> set (szExecutable line)" "0 \<notin> set (szApplication line)"
    and "szApplication line \<noteq> []" "length (image_base line (GET_OPT_V opts 2)) < 7600" "2 < length opts"
    and "length (stack_of env SIZ_HUGLEN) = SIZ_HUGLEN" "length (stack_of env SIZ_BUFLEN) = SIZ_BUFLEN"
  shows "(\<exists>display type start deps.
      Create_service (szApplication line) display type start (Some (image_text line (GET_OPT_V opts 2))) deps
        \<in> set (calls (scm_of w'))) \<and>
    command_of (=) alnum (map wide commands) (map wide altcmds) [argv0, run_argument line] exe =
      Some (2, szApplication line, 2) \<and>
    sc_handles (scm_of w') = sc_handles (scm_of w)"
proof -
  let ?se = "scm_env_of env" and ?img = "image_text line (GET_OPT_V opts 2)"
  obtain s st where c: "apxCreateService ?se True SC_MANAGER_CREATE_SERVICE False (scm_of w) = (Some s, st)"
    using assms(1) by (auto simp: docmdInstallService_def split: prod.splits option.splits)
  note cs = create_service_shape [OF c]
  obtain image opts2 type start rv s2 st2 where
    img: "service_image env line (GET_OPT_V opts 2) = Some image"
    and inst: "apxServiceInstall ?se (szApplication line) (map_option text_of (GET_OPT_V opts2 1))
        (map_option text_of (GET_OPT_V opts2 2)) (GET_OPT_V opts2 7) type start s st = Some (rv, s2, st2)"
    and opts2: "opts2 = opts[2 := (opts ! 2)\<lparr>szValue := Some (text_of image @ [0]),
        dwType := dwType (opts ! 2) OR APXCMDOPT_FOUND\<rparr>]"
    and rest: "rv" "scm_of w' = fst (service_callback_close (snd (apxServiceSetNames ?se None None (found_v opts2 0)
        (found_v opts2 3) (found_v opts2 4) s2 st2)) s2)"
    using assms(1) c by (auto simp: docmdInstallService_def Let_def split: bind_splits if_splits prod.splits)
  obtain ok st3 where sn: "apxServiceSetNames ?se None None (found_v opts2 0) (found_v opts2 3) (found_v opts2 4) s2 st2 = (ok, st3)"
    by fastforce
  note nm = set_names_shape [OF sn]
  have i: "(\<exists>d. Create_service (szApplication line) (map_option text_of (GET_OPT_V opts2 1)) type start
        (map_option text_of (GET_OPT_V opts2 2)) d \<in> set (calls st2))"
    "hService s2 = Some (next_sc st)" "hManager s2 = Some (next_sc (scm_of w))"
    "sc_handles st2 = next_sc st # next_sc (scm_of w) # sc_handles (scm_of w)"
    "apxIsValidServiceName (szApplication line)"
    using service_install_success [OF inst [unfolded rest(1) [THEN Eq_TrueI]]] cs by auto
  have valid: "length (szApplication line) \<le> 255" "ch CHR ''/'' \<notin> set (szApplication line)"
    using i(5) by (auto simp: apxIsValidServiceName_def list_all_iff invalidPathChars_def)
  have b: "0 \<notin> set (wide '' '')" "0 \<notin> set (wide ''//RS//'')" "0 \<notin> set (wide backslash)" "0 \<notin> set (wide ''.exe'')"
    by (rule wide_no_zero, simp add: backslash_def)+
  have zi: "0 \<notin> set ?img"
    using assms(2-4) b unfolding image_text_def
    by (auto simp: image_base_def run_argument_def valid_string_def dest!: subsetD [OF quoted_set]
        split: option.splits if_splits)
  obtain r where "service_image env line (GET_OPT_V opts 2) = Some (?img @ 0 # r)"
    using service_image_array [OF assms(2-4), of "GET_OPT_V opts 2" env] assms(6,8,9) valid(1) by auto
  with img zi have "text_of image = ?img" by (metis option.inject text_of_terminated)
  then have "map_option text_of (GET_OPT_V opts2 2) = Some ?img"
    using zi assms(7) by (simp add: opts2 GET_OPT_V_def text_of_terminated)
  with i(1) nm have "\<exists>display type start deps. Create_service (szApplication line) display type start (Some ?img) deps \<in> set (calls st3)"
    by (metis subsetD)
  moreover have "sc_handles (scm_of w') = sc_handles (scm_of w)" "calls (scm_of w') = calls st3"
    using rest(2) sn nm i(2-4) by (simp_all add: service_callback_close_def close_sc_def)
  ultimately show ?thesis using run_argument_parsed [OF valid(2) assms(5)] by metis
qed


definition swift_run :: run_env where
  "swift_run = \<lparr>scm_env_of = swift_env, reg_env_of = plain_env, same_i = (=), window_of = (\<lambda>_. False),
     stack_of = (\<lambda>n. replicate n 0), is_win64 = True\<rparr>"

definition runner_line :: cmdline where
  "runner_line = \<lparr>lpOptions = option_table, szArgv0 = [], szExePath = wide ''C'', szExecutable = wide ''runner'',
     szApplication = wide ''demo'', dwCmdIndex = 6, lpArgvw = []\<rparr>"

definition runner_world :: run_world where
  "runner_world = \<lparr>scm_of = \<lparr>calls = [], sc_handles = [], next_sc = 0, now = 0, sleeps = 0\<rparr>,
     reg_of = installed_registry (wide ''demo''), closed_windows = []\<rparr>"

lemma default_walk: "msz_texts default_dependencies = Some [wide ''Tcpip'', wide ''Afd'']"
  by (simp add: msz_texts_def default_dependencies_def wide_def msz_walk.simps)

theorem install_registers_runner_witness:
  "\<exists>opts' w'. docmdInstallService swift_run runner_line option_table runner_world = Some (True, opts', w') \<and>
     command_of (=) (\<lambda>_. True) (map wide commands) (map wide altcmds) [[], run_argument runner_line] [] =
       Some (2, wide ''demo'', 2) \<and>
     sc_handles (scm_of w') = []"
proof -
  let ?l = runner_line
  have z: "0 \<notin> set (szExePath ?l)" "0 \<notin> set (szExecutable ?l)" "0 \<notin> set (szApplication ?l)"
    by (simp_all add: runner_line_def wide_def)
  have v2: "GET_OPT_V option_table 2 = None" "GET_OPT_V option_table 1 = None" "GET_OPT_V option_table 7 = None"
    "dwType (option_table ! 0) AND APXCMDOPT_FOUND = 0" "dwType (option_table ! 3) AND APXCMDOPT_FOUND = 0"
    "dwType (option_table ! 4) AND APXCMDOPT_FOUND = 0" "dwType (option_table ! 2) = APXCMDOPT_STE OR APXCMDOPT_SRV"
    by (simp_all add: GET_OPT_V_def option_table_def option_rows_def option_init_def option_flags APXCMDOPT_STE_def APXCMDOPT_SRV_def)
  have base: "length (image_base ?l None) < 7600" by (simp add: image_base_def valid_string_def runner_line_def wide_def backslash_def)
  have st: "length (stack_of swift_run SIZ_HUGLEN) = SIZ_HUGLEN" "length (stack_of swift_run SIZ_BUFLEN) = SIZ_BUFLEN"
    by (simp_all add: swift_run_def)
  obtain r where img: "service_image swift_run ?l None = Some (image_text ?l None @ 0 # r)"
    using service_image_array [OF z _ _ st, of None] base by (auto simp: runner_line_def wide_def)
  let ?o = "option_table[2 := (option_table ! 2)\<lparr>szValue := Some (text_of (image_text ?l None @ 0 # r) @ [0]),
      dwType := dwType (option_table ! 2) OR APXCMDOPT_FOUND\<rparr>]"
  have bs: "\<forall>opt \<in> set ?o. block_sound opt"
  proof
    fix opt assume "opt \<in> set ?o"
    then have "opt \<in> set option_table \<or> opt = (option_table ! 2)\<lparr>szValue := Some (text_of (image_text ?l None @ 0 # r) @ [0]),
        dwType := dwType (option_table ! 2) OR APXCMDOPT_FOUND\<rparr>"
      using set_update_subset_insert by fastforce
    then show "block_sound opt"
      using table_types v2(7) by (auto simp: block_sound_def list_all_iff has_flag_def option_flags APXCMDOPT_STE_def APXCMDOPT_SRV_def)
  qed
  have e: "open_env plain_env" "names_apart plain_env" "length (wide ''demo'') \<le> 255"
    "exists_key (installed_registry (wide ''demo'')) (service_key plain_env True (wide ''demo''))"
    "length ?o = length option_rows"
    using wide_inj by (auto simp: open_env_def plain_env_def names_apart_def inj_on_def exists_key_def
        installed_registry_def option_table_def) (simp add: wide_def)
  obtain reg where save: "saveConfiguration plain_env True (Some (wide ''demo'')) ?o (installed_registry (wide ''demo'')) = Some (True, reg)"
    by (rule save_configuration_stores [OF e bs])
  have valid: "apxIsValidServiceName (wide ''demo'')"
    by (simp add: apxIsValidServiceName_def invalidPathChars_def wide_def)
  let ?st0 = "\<lparr>calls = [Open_manager SC_MANAGER_CREATE_SERVICE], sc_handles = [0], next_sc = 1, now = 0, sleeps = 0\<rparr>"
  let ?s0 = "\<lparr>bManagerMode = False, hService = None, hManager = Some 0, sv_name = [], sv_description = [],
      sv_user = [], sv_start = 0, lpConfig = False\<rparr>"
  have c: "apxCreateService (scm_env_of swift_run) True SC_MANAGER_CREATE_SERVICE False (scm_of runner_world) = (Some ?s0, ?st0)"
    by (simp add: apxCreateService_def scm_open_def scm_do_def swift_run_def swift_env_def runner_world_def)
  have "\<exists>s1 st1. apxServiceInstall (scm_env_of swift_run) (wide ''demo'') d i None ty start ?s0 ?st0 = Some (True, s1, st1)" for d i ty start
    using valid default_walk
    by (simp add: apxServiceInstall_def Let_def scm_open_def scm_do_def swift_run_def swift_env_def close_sc_def)
  then obtain s1 st1 where inst: "apxServiceInstall (scm_env_of swift_run) (wide ''demo'') None
      (Some (text_of (text_of (image_text ?l None @ 0 # r) @ [0]))) None SERVICE_WIN32_OWN_PROCESS SERVICE_DEMAND_START ?s0 ?st0 = Some (True, s1, st1)"
    by blast
  have unset: "\<not> has_flag (option_table ! i) APXCMDOPT_FOUND" if "i < 40" for i
    using table_types that by (simp add: list_all_length table_count)
  have app: "szApplication ?l = wide ''demo''" "reg_env_of swift_run = plain_env" "is_win64 swift_run"
      "reg_of runner_world = installed_registry (wide ''demo'')"
    by (simp_all add: runner_line_def swift_run_def runner_world_def)
  have opts: "GET_OPT_V ?o 1 = None" "GET_OPT_V ?o 7 = None" "GET_OPT_V ?o 2 = Some (text_of (image_text ?l None @ 0 # r) @ [0])"
    using v2(1-3) by (simp_all add: GET_OPT_V_def table_count)
  have "\<exists>opts' w'. docmdInstallService swift_run ?l option_table runner_world = Some (True, opts', w')"
    using save inst unset [of 5] unset [of 6]
    by (simp del: One_nat_def add: docmdInstallService_def c v2(1) img app opts Let_def)
  then obtain opts' w' where run: "docmdInstallService swift_run ?l option_table runner_world = Some (True, opts', w')" by blast
  have "szApplication ?l = wide ''demo''" "szApplication ?l \<noteq> []" "2 < length option_table" "scm_of runner_world = \<lparr>calls = [], sc_handles = [], next_sc = 0, now = 0, sleeps = 0\<rparr>"
    by (simp_all add: runner_line_def wide_def option_table_def option_rows_def runner_world_def)
  with install_registers_runner [OF run z _ _ _ st, of "\<lambda>_. True" "[]" "[]"] base v2(1) run show ?thesis by auto
qed

end
