(* ===== verification/Win_Java_Args.thy ===== *)
theory Win_Java_Args
  imports Win_Strings Multi_Sz Win_Env C_Numbers Jsvc_Prelude
begin

text \<open>
  The arguments of Java in procrun (\<^verbatim>\<open>windows/src/javajni.c\<close>): the command line of a \<open>java\<close>
  process, the class path with its wildcards and the options of a JVM that is created in the
  process. Blocks are arrays with checked access; an access outside has no value.
\<close>

section \<open>The command line of a Java process\<close>

definition JAVA_CLASSPATH_W :: "'w::len word list" where
  "JAVA_CLASSPATH_W = map of_char ''-Djava.class.path=''"

text \<open>A slot of the array of pointers: not written, the null pointer, or a text.\<close>

datatype arg_slot = Unset | Nul | Arg wtext

text \<open>
  A block from the pool for \<open>n\<close> characters. The heap gives blocks in larger units: \<open>slack\<close> is the
  number of characters by which a block is longer than what was asked for.
\<close>

definition alloc_chars :: "nat \<Rightarrow> nat \<Rightarrow> wtext" where
  "alloc_chars slack n = replicate (n + slack) 0"

text \<open>The strings of a block that was copied: as many slots as there are strings, from \<open>i\<close> on.\<close>

fun set_args :: "nat \<Rightarrow> wtext \<Rightarrow> nat \<Rightarrow> arg_slot list \<Rightarrow> (nat \<times> arg_slot list) option" where
  "set_args 0 p i arr = Some (i, arr)"
| "set_args (Suc n) p i arr = do {
     k \<leftarrow> wlen p;
     arr \<leftarrow> put arr i (Arg (take k p));
     set_args n (drop (Suc k) p) (Suc i) arr }"

text \<open>\<open>AplCopyMemory (p, s, (l + 1) * sizeof (WCHAR) + sizeof (WCHAR))\<close>; the source block has the slack, too.\<close>

definition copy_multi :: "nat \<Rightarrow> wtext option \<Rightarrow> nat \<Rightarrow> wtext option" where
  "copy_multi slack s l = do {
     w \<leftarrow> get_block (the s @ replicate slack 0) 0 (l + 2);
     put_block (alloc_chars slack (l + 1)) 0 w }"

text \<open>A text that is stored with its terminator into a block of \<open>n\<close> characters, and its slot.\<close>

definition add_arg :: "nat \<Rightarrow> nat \<Rightarrow> wtext \<Rightarrow> nat \<times> arg_slot list \<Rightarrow> (nat \<times> arg_slot list) option" where
  "add_arg slack n s st = do {
     _ \<leftarrow> put_block (alloc_chars slack n) 0 (s @ [0]);
     arr \<leftarrow> put (snd st) (fst st) (Arg s);
     Some (Suc (fst st), arr) }"

definition add_number :: "nat \<Rightarrow> string \<Rightarrow> string \<Rightarrow> dword \<Rightarrow> nat \<times> arg_slot list \<Rightarrow> (nat \<times> arg_slot list) option" where
  "add_number slack pre post n st =
     (if n = 0 then Some st else add_arg slack 64 (wide (pre @ show_int (sint n) @ post)) st)"

text \<open>\<open>i\<close> is the value of the variable at the start of the function, which nothing has set.\<close>

definition apxJavaCmdInitialize ::
  "nat \<Rightarrow> nat \<Rightarrow> wtext option \<Rightarrow> wtext option \<Rightarrow> wtext option \<Rightarrow> dword \<Rightarrow> dword \<Rightarrow> dword \<Rightarrow> wtext option
     \<Rightarrow> (nat \<times> arg_slot list) option" where
  "apxJavaCmdInitialize slack i szClassPath szClass szOptions dwMs dwMx dwSs szCmdArgs = do {
     (lJVM, nJVM) \<leftarrow> apxGetMultiSzLengthW szOptions;
     (lCmd, nCmd) \<leftarrow> apxGetMultiSzLengthW szCmdArgs;
     let nTotal = (if szClassPath = None then 0 else 1) + (if szClass = None then 0 else 1) + nJVM + nCmd
           + (if dwMs = 0 then 0 else 1) + (if dwMx = 0 then 0 else 1) + (if dwSs = 0 then 0 else 1);
     (if nTotal = 0 then Some (0, [])
      else do {
        let arr = replicate (nTotal + 2) Unset;
        st \<leftarrow> (if nJVM \<noteq> 0 \<and> lJVM \<noteq> 0
               then do { p \<leftarrow> copy_multi slack szOptions lJVM; set_args nJVM p 0 arr }
               else Some (i, arr));
        st \<leftarrow> add_number slack ''-Xms'' ''m'' dwMs st;
        st \<leftarrow> add_number slack ''-Xmx'' ''m'' dwMx st;
        st \<leftarrow> add_number slack ''-Xss'' ''k'' dwSs st;
        st \<leftarrow> (case szClassPath of
                None \<Rightarrow> Some st
              | Some c \<Rightarrow> add_arg slack (length (JAVA_CLASSPATH_W :: wtext) + length (text_of c)) (JAVA_CLASSPATH_W @ text_of c) st);
        st \<leftarrow> (case szClass of
                None \<Rightarrow> Some st
              | Some c \<Rightarrow> add_arg slack (length (text_of c)) (text_of c) st);
        st \<leftarrow> (if nCmd \<noteq> 0 \<and> lCmd \<noteq> 0
               then do { p \<leftarrow> copy_multi slack szCmdArgs lCmd; set_args (nTotal - fst st) p (fst st) (snd st) }
               else Some st);
        arr \<leftarrow> put (snd st) (Suc (fst st)) Nul;
        Some (nTotal, arr) }) }"

section \<open>The class path\<close>

type_synonym atext = "byte list"

definition narrow :: "string \<Rightarrow> atext" where "narrow s = map of_char s"

text \<open>\<open>__apxStrnCatA\<close>: the text, which may be a null pointer, and two to append.\<close>

definition apxStrnCatA :: "atext option \<Rightarrow> atext option \<Rightarrow> atext option \<Rightarrow> atext" where
  "apxStrnCatA pOrg szStr szAdd =
     (case pOrg of None \<Rightarrow> [] | Some p \<Rightarrow> p) @ (case szStr of None \<Rightarrow> [] | Some s \<Rightarrow> s)
       @ (case szAdd of None \<Rightarrow> [] | Some s \<Rightarrow> s)"

text \<open>\<open>files\<close> is \<open>FindFirstFileA\<close> with \<open>FindNextFileA\<close>: the first name found and the others.\<close>

definition eval_path_part ::
  "(atext \<Rightarrow> (atext \<times> atext list) option) \<Rightarrow> atext \<Rightarrow> atext \<Rightarrow> atext" where
  "eval_path_part files pStr szPattern =
     (if length szPattern > 261 - 5 then apxStrnCatA (Some pStr) (Some szPattern) None
      else let szPath = butlast (narrow '';'' @ szPattern)
           in case files (szPattern @ narrow ''.jar'') of
                None \<Rightarrow> pStr
              | Some (f, fs) \<Rightarrow>
                  foldl (\<lambda>p g. apxStrnCatA (Some p) (Some szPath) (Some g))
                    (apxStrnCatA (Some pStr) (Some (drop 1 szPath)) (Some f)) fs)"

definition class_sep :: "atext option \<Rightarrow> atext" where
  "class_sep pGcp =
     (case pGcp of
        Some g \<Rightarrow> apxStrnCatA (Some g) (Some (narrow '';'')) None
      | None \<Rightarrow> apxStrnCatA None (Some (narrow ''-Djava.class.path='')) None)"

definition class_part :: "(atext \<Rightarrow> (atext \<times> atext list) option) \<Rightarrow> atext \<Rightarrow> atext \<Rightarrow> atext" where
  "class_part files pGcp part =
     (if part \<noteq> [] \<and> last part = of_char CHR ''*'' then eval_path_part files pGcp part
      else apxStrnCatA (Some pGcp) (Some part) None)"

function class_parts ::
  "(atext \<Rightarrow> (atext \<times> atext list) option) \<Rightarrow> atext option \<Rightarrow> atext \<Rightarrow> atext option" where
  "class_parts files pGcp pPtr =
     (case split_first (of_char CHR '';'') pPtr of
        Some (part, rest) \<Rightarrow> class_parts files (Some (class_part files (class_sep pGcp) part)) rest
      | None \<Rightarrow> if pPtr = [] then pGcp else Some (class_part files (class_sep pGcp) pPtr))"
  by pat_completeness auto
termination
  by (relation "measure (\<lambda>(files, pGcp, pPtr). length pPtr)") (auto simp: split_facts)

declare class_parts.simps [simp del]

definition apxEvalClasspath :: "(atext \<Rightarrow> (atext \<times> atext list) option) \<Rightarrow> atext \<Rightarrow> atext" where
  "apxEvalClasspath files szCp =
     (case class_parts files None szCp of
        Some g \<Rightarrow> g
      | None \<Rightarrow> apxStrnCatA None (Some (narrow ''-Djava.class.path='')) (Some szCp))"

section \<open>The options of a JVM\<close>

text \<open>An option: not set, a text, or one of the two hooks.\<close>

datatype jvm_option = No_option | Text_option atext | Vfprintf_hook | Exit_hook

text \<open>
  The loop of \<open>__apxMultiSzToJvmOptions\<close>: every string loses its quotes in place, which leaves
  a gap of as many characters behind it.
\<close>

fun unquote_strings :: "nat \<Rightarrow> atext \<Rightarrow> atext list option" where
  "unquote_strings 0 p = Some []"
| "unquote_strings (Suc n) p = do {
     (p, qr) \<leftarrow> apxStrUnQuoteInplaceA p;
     k \<leftarrow> wlen p;
     ts \<leftarrow> unquote_strings n (drop (k + 1 + unat qr) p);
     Some (take k p # ts) }"

definition apxMultiSzToJvmOptions :: "atext option \<Rightarrow> nat \<Rightarrow> (nat \<times> jvm_option list) option" where
  "apxMultiSzToJvmOptions lpString nExtra =
     (case lpString of
        None \<Rightarrow> Some (nExtra, replicate (nExtra + 1) No_option)
      | Some s \<Rightarrow> do {
          (l, n) \<leftarrow> apxGetMultiSzLengthA (Some s);
          p \<leftarrow> get_block s 0 (l + 1);
          ts \<leftarrow> unquote_strings n p;
          Some (n + nExtra, map Text_option ts @ replicate (nExtra + 1) No_option) })"

text \<open>\<open>lpJvmOptions[nOptions - sOptions] = ...; --sOptions;\<close>, if there is such an option.\<close>

definition jvm_slot ::
  "nat \<Rightarrow> bool \<Rightarrow> jvm_option \<Rightarrow> nat \<times> jvm_option list \<Rightarrow> (nat \<times> jvm_option list) option" where
  "jvm_slot nOptions wanted v st =
     (if wanted then map_option (\<lambda>arr. (fst st - 1, arr)) (put (snd st) (nOptions - fst st) v) else Some st)"

text \<open>The array that \<open>apxJavaInitialize\<close> passes to \<open>JNI_CreateJavaVM\<close>, and how many options it says there are.\<close>

definition jvm_options ::
  "(atext \<Rightarrow> (atext \<times> atext list) option) \<Rightarrow> atext option \<Rightarrow> atext option \<Rightarrow> dword \<Rightarrow> dword \<Rightarrow> dword \<Rightarrow> bool
     \<Rightarrow> (nat \<times> jvm_option list) option" where
  "jvm_options files szClassPath lpOptions dwMs dwMx dwSs bJniVfprintf = do {
     let cp = (case szClassPath of None \<Rightarrow> False | Some c \<Rightarrow> c \<noteq> []);
     let sOptions = (if dwMs = 0 then 0 else 1) + (if dwMx = 0 then 0 else 1) + (if dwSs = 0 then 0 else 1)
           + (if bJniVfprintf then 1 else 0) + (if cp then 1 else 0) + 1;
     (nOptions, arr) \<leftarrow> apxMultiSzToJvmOptions lpOptions sOptions;
     st \<leftarrow> jvm_slot nOptions cp (Text_option (apxEvalClasspath files (the szClassPath))) (sOptions, arr);
     st \<leftarrow> jvm_slot nOptions bJniVfprintf Vfprintf_hook st;
     st \<leftarrow> jvm_slot nOptions True Exit_hook st;
     st \<leftarrow> jvm_slot nOptions (dwMs \<noteq> 0) (Text_option (narrow (''-Xms'' @ show_int (sint dwMs) @ ''m''))) st;
     st \<leftarrow> jvm_slot nOptions (dwMx \<noteq> 0) (Text_option (narrow (''-Xmx'' @ show_int (sint dwMx) @ ''m''))) st;
     st \<leftarrow> jvm_slot nOptions (dwSs \<noteq> 0) (Text_option (narrow (''-Xss'' @ show_int (sint dwSs) @ ''k''))) st;
     Some (nOptions, take nOptions (snd st)) }"

end
