(* ===== verification/Win_Java_Args_Facts.thy ===== *)
theory Win_Java_Args_Facts
  imports Win_Java_Args
begin

text \<open>
  Facts about the arguments of Java: the options of a JVM are complete and in order, and the
  command line of a Java process, which is right only on blocks that are longer than asked for.
\<close>

section \<open>The options of a JVM\<close>

definition unquoted :: "atext \<Rightarrow> atext" where
  "unquoted s = (if scan_quotes False (s @ [0]) = Some True then s else filter (\<lambda>x. x \<noteq> ch CHR ''\"'') s)"

lemma scan_quotes_text: "0 \<notin> set s \<Longrightarrow> scan_quotes b (s @ 0 # r) = scan_quotes b (s @ [0]) \<and> scan_quotes b (s @ [0]) \<noteq> None"
  by (induction s arbitrary: b) auto

lemma unquote_in_place:
  assumes "0 \<notin> set s" "s \<noteq> []" "length s < 2 ^ 32"
  shows "\<exists>rest qr. apxStrUnQuoteInplaceA (s @ 0 # r) = Some (unquoted s @ 0 # rest @ r, qr) \<and> unat qr = length rest"
proof (cases "scan_quotes False (s @ [0]) = Some True")
  case True
  then show ?thesis
    using scan_quotes_text [OF assms(1), of False r]
    by (intro exI [of _ "[]"] exI [of _ 0]) (simp add: apxStrUnQuoteInplaceA_def unquoted_def)
next
  case False
  then have sc: "scan_quotes False (s @ 0 # r) = Some False"
    using scan_quotes_text [OF assms(1), of False r] by (cases "scan_quotes False (s @ [0])") auto
  obtain rest where rest: "char_remove_loop (s @ 0 # r) 0 0 (ch CHR ''\"'') 0 =
      Some (filter (\<lambda>x. x \<noteq> ch CHR ''\"'') s @ 0 # rest @ r, of_nat (count_list s (ch CHR ''\"'')))"
    "length rest = count_list s (ch CHR ''\"'')"
    using char_remove_keeps [OF assms(1), of "[]" "[]" r "ch CHR ''\"''" 0] by auto
  have "\<not> is_empty (Some (s @ 0 # r))"
    using assms(1,2) by (cases s) (auto simp: is_empty_def get_def)
  then have "apxStrUnQuoteInplaceA (s @ 0 # r) = Some (unquoted s @ 0 # rest @ r, of_nat (count_list s (ch CHR ''\"'')))"
    using sc rest(1) False by (simp add: apxStrUnQuoteInplaceA_def apxStrCharRemoveA_def unquoted_def)
  moreover have "unat (of_nat (count_list s (ch CHR ''\"'')) :: dword) = length rest"
    using assms(3) count_le_length [of s "ch CHR ''\"''"] rest(2)
    by (simp add: unat_of_nat take_bit_nat_eq_self)
  ultimately show ?thesis by blast
qed

lemma unquoted_no_zero: "0 \<notin> set s \<Longrightarrow> 0 \<notin> set (unquoted s)"
  by (simp add: unquoted_def)

lemma unquote_strings_all:
  assumes "strings ss" "length (msz_body ss) < 2 ^ 32"
  shows "unquote_strings (length ss) (msz_body ss @ r) = Some (map unquoted ss)"
  using assms
proof (induction ss)
  case (Cons s ss)
  have l: "length (msz_body ss) < 2 ^ 32" "length s < 2 ^ 32" using Cons.prems(2) by simp_all
  obtain rest qr where u: "apxStrUnQuoteInplaceA (s @ 0 # msz_body ss @ r) =
      Some (unquoted s @ 0 # rest @ msz_body ss @ r, qr)" "unat qr = length rest"
    using unquote_in_place [of s "msz_body ss @ r"] Cons.prems(1) l(2) by auto
  have w: "wlen (unquoted s @ 0 # rest @ msz_body ss @ r) = Some (length (unquoted s))"
    using Cons.prems(1) by (intro wlen_text unquoted_no_zero) simp
  have d: "drop (length (unquoted s) + 1 + unat qr) (unquoted s @ 0 # rest @ msz_body ss @ r) = msz_body ss @ r"
    using u(2) by simp
  show ?case
    using Cons.IH Cons.prems(1) l(1) u(1) w d by (simp del: drop_append)
qed simp

lemma jvm_slot_step:
  assumes "length done + s = nO" "s = of_bool w + s'"
  shows "jvm_slot nO w v (s, done @ replicate (Suc s) No_option) =
    Some (s', (done @ (if w then [v] else [])) @ replicate (Suc s') No_option)"
proof (cases w)
  case True
  then have "nO - s = length done" "s = Suc s'" using assms by simp_all
  moreover have "put (done @ replicate (Suc s) No_option) (length done) v = Some (done @ v # replicate s No_option)"
    by (simp add: put_append)
  ultimately show ?thesis using True by (simp add: jvm_slot_def)
next
  case False
  then show ?thesis using assms by (simp add: jvm_slot_def)
qed

definition extra_options ::
  "(atext \<Rightarrow> (atext \<times> atext list) option) \<Rightarrow> atext option \<Rightarrow> dword \<Rightarrow> dword \<Rightarrow> dword \<Rightarrow> bool \<Rightarrow> jvm_option list" where
  "extra_options files cp ms mx ss vf =
     (case cp of None \<Rightarrow> [] | Some c \<Rightarrow> if c = [] then [] else [Text_option (apxEvalClasspath files c)])
     @ (if vf then [Vfprintf_hook] else []) @ [Exit_hook]
     @ (if ms = 0 then [] else [Text_option (narrow (''-Xms'' @ show_int (sint ms) @ ''m''))])
     @ (if mx = 0 then [] else [Text_option (narrow (''-Xmx'' @ show_int (sint mx) @ ''m''))])
     @ (if ss = 0 then [] else [Text_option (narrow (''-Xss'' @ show_int (sint ss) @ ''k''))])"

text \<open>The options a JVM is created with are complete: the strings that were configured, without
  their quotes unless a space needs them, then the class path, the hooks for messages and for
  the exit code, and the three sizes, as far as they are given. As many options are announced
  as there are, no slot is left unset, and the array is not overrun.\<close>

theorem jvm_options_complete:
  assumes "strings opts" "length (msz_body opts) < 2 ^ 32"
  shows "jvm_options files cp (Some (msz opts @ r)) ms mx ss vf =
    Some (length opts + length (extra_options files cp ms mx ss vf),
          map Text_option (map unquoted opts) @ extra_options files cp ms mx ss vf)"
proof -
  let ?cp = "case cp of None \<Rightarrow> False | Some c \<Rightarrow> c \<noteq> []"
  let ?o = "map Text_option (map unquoted opts)"
  let ?n = "\<lambda>k. length opts + k"
  have m: "apxMultiSzToJvmOptions (Some (msz opts @ r)) k = Some (?n k, ?o @ replicate (Suc k) No_option)" for k
  proof -
    have "get_block (msz opts @ r) 0 (length (msz_body opts) + 1) = Some (msz opts)"
      by (simp add: get_block_def msz_def)
    then show ?thesis
      using assms msz_length [OF assms(1), of r] unquote_strings_all [OF assms, of "[0]"]
      by (simp add: apxMultiSzToJvmOptions_def msz_def)
  qed
  define b where "b w = (if w then 1 else 0 :: nat)" for w
  have ofb: "b w = of_bool w" for w by (simp add: b_def)
  define cpw where "cpw = ?cp"
  define v where "v k x u = (if x = 0 then [] else [Text_option (narrow (k @ show_int (sint x) @ u))])" for k u and x :: dword
  let ?s5 = "b (ss \<noteq> 0)" let ?s4 = "b (mx \<noteq> 0) + ?s5" let ?s3 = "b (ms \<noteq> 0) + ?s4"
  let ?s2 = "1 + ?s3" let ?s1 = "b vf + ?s2" let ?s0 = "b cpw + ?s1"
  let ?e1 = "if cpw then [Text_option (apxEvalClasspath files (the cp))] else []"
  let ?e2 = "if vf then [Vfprintf_hook] else []"
  let ?d1 = "?o @ ?e1" let ?d2 = "?d1 @ ?e2" let ?d3 = "?d2 @ [Exit_hook]"
  let ?d4 = "?d3 @ v ''-Xms'' ms ''m''" let ?d5 = "?d4 @ v ''-Xmx'' mx ''m''" let ?d6 = "?d5 @ v ''-Xss'' ss ''k''"
  let ?fill = "\<lambda>d s. d @ replicate (Suc s) No_option"
  have 1: "jvm_slot (?n ?s0) cpw (Text_option (apxEvalClasspath files (the cp))) (?s0, ?fill ?o ?s0) = Some (?s1, ?fill ?d1 ?s1)"
    by (rule jvm_slot_step) (simp_all add: ofb)
  have 2: "jvm_slot (?n ?s0) vf Vfprintf_hook (?s1, ?fill ?d1 ?s1) = Some (?s2, ?fill ?d2 ?s2)"
    by (rule jvm_slot_step) (simp_all add: ofb)
  have 3: "jvm_slot (?n ?s0) True Exit_hook (?s2, ?fill ?d2 ?s2) = Some (?s3, ?fill ?d3 ?s3)"
    using jvm_slot_step [of ?d2 ?s2 "?n ?s0" True ?s3] by (simp add: ofb)
  have 4: "jvm_slot (?n ?s0) (ms \<noteq> 0) (Text_option (narrow (''-Xms'' @ show_int (sint ms) @ ''m''))) (?s3, ?fill ?d3 ?s3)
      = Some (?s4, ?fill ?d4 ?s4)"
    using jvm_slot_step [of ?d3 ?s3 "?n ?s0" "ms \<noteq> 0" ?s4] by (simp add: ofb v_def split: if_splits)
  have 5: "jvm_slot (?n ?s0) (mx \<noteq> 0) (Text_option (narrow (''-Xmx'' @ show_int (sint mx) @ ''m''))) (?s4, ?fill ?d4 ?s4)
      = Some (?s5, ?fill ?d5 ?s5)"
    using jvm_slot_step [of ?d4 ?s4 "?n ?s0" "mx \<noteq> 0" ?s5] by (simp add: ofb v_def split: if_splits)
  have 6: "jvm_slot (?n ?s0) (ss \<noteq> 0) (Text_option (narrow (''-Xss'' @ show_int (sint ss) @ ''k''))) (?s5, ?fill ?d5 ?s5)
      = Some (0, ?fill ?d6 0)"
    using jvm_slot_step [of ?d5 ?s5 "?n ?s0" "ss \<noteq> 0" 0] by (simp add: ofb v_def split: if_splits)
  have s0: "(if ms = 0 then 0 else 1) + (if mx = 0 then 0 else 1) + (if ss = 0 then 0 else 1)
      + (if vf then 1 else 0) + (if cpw then 1 else 0) + 1 = ?s0"
    by (simp add: b_def)
  have e: "extra_options files cp ms mx ss vf = ?e1 @ ?e2 @ [Exit_hook] @ v ''-Xms'' ms ''m'' @ v ''-Xmx'' mx ''m'' @ v ''-Xss'' ss ''k''"
    by (cases cp) (simp_all add: extra_options_def cpw_def v_def)
  then have d6: "?d6 = ?o @ extra_options files cp ms mx ss vf" by simp
  have l: "length (extra_options files cp ms mx ss vf) = ?s0" unfolding e by (simp add: v_def b_def)
  have tk: "take (?n ?s0) (?fill ?d6 0) = ?d6"
  proof -
    have "length ?d6 = ?n ?s0" unfolding d6 using l by simp
    moreover have "take (length xs) (xs @ zs) = xs" for xs zs :: "jvm_option list" by simp
    ultimately show ?thesis by metis
  qed
  have "jvm_options files cp (Some (msz opts @ r)) ms mx ss vf = Some (?n ?s0, take (?n ?s0) (?fill ?d6 0))"
    unfolding jvm_options_def Let_def cpw_def [symmetric] s0 m
    by (simp only: bind.bind_lunit Option.bind.simps prod.case snd_conv 1 2 3 4 5 6)
  then show ?thesis unfolding tk unfolding d6 l .
qed

lemma jvm_options_complete_witness:
  "\<exists>os. jvm_options (\<lambda>_. None) None (Some (msz [narrow ''-Da=1'', narrow ''-Xrs''])) 64 0 0 False = Some (4, os)
     \<and> take 2 os = [Text_option (unquoted (narrow ''-Da=1'')), Text_option (unquoted (narrow ''-Xrs''))] \<and> os ! 2 = Exit_hook"
proof -
  have "strings [narrow ''-Da=1'' :: atext, narrow ''-Xrs'']" by (simp add: narrow_def of_char_def)
  moreover have "length (msz_body [narrow ''-Da=1'' :: atext, narrow ''-Xrs'']) < 2 ^ 32" by (simp add: narrow_def)
  ultimately show ?thesis
    using jvm_options_complete [of "[narrow ''-Da=1'', narrow ''-Xrs'']" "\<lambda>_. None" None "[]" 64 0 0 False]
    by (simp add: extra_options_def)
qed

section \<open>The command line of a Java process\<close>

text \<open>The slots are filled from the left: \<open>done\<close> of them are written, \<open>n\<close> are left.\<close>

definition filled_to :: "arg_slot list \<Rightarrow> nat \<Rightarrow> nat \<times> arg_slot list" where
  "filled_to done n = (length done, done @ replicate n Unset)"

lemma add_arg_exact: "add_arg 0 (length s) s st = None"
  by (simp add: add_arg_def alloc_chars_def put_block_def)

lemma add_arg_filled:
  "length s \<le> k \<Longrightarrow> 1 \<le> slack \<Longrightarrow>
     add_arg slack k s (filled_to done (Suc n)) = Some (filled_to (done @ [Arg s]) n)"
  by (simp add: add_arg_def alloc_chars_def put_block_def filled_to_def put_append)

lemma set_args_filled:
  "strings ss \<Longrightarrow>
     set_args (length ss) (msz_body ss @ r) (length done) (done @ replicate (length ss + n) Unset)
       = Some (filled_to (done @ map Arg ss) n)"
proof (induction ss arbitrary: "done")
  case (Cons s ss)
  have "put (done @ replicate (Suc (length ss + n)) Unset) (length done) (Arg s) =
      Some ((done @ [Arg s]) @ replicate (length ss + n) Unset)"
    by (simp add: put_append)
  moreover have "wlen (s @ 0 # msz_body ss @ r) = Some (length s)"
    using Cons.prems by (intro wlen_text) simp
  ultimately show ?case
    using Cons.IH [of "done @ [Arg s]"] Cons.prems by simp
qed (simp add: filled_to_def)

lemma copy_multi_slack:
  assumes "1 \<le> slack"
  shows "copy_multi slack (Some (msz ss)) (length (msz_body ss)) = Some (msz_body ss @ 0 # 0 # replicate (slack - 1) 0)"
proof -
  obtain k where "slack = Suc k" using assms by (cases slack) auto
  then show ?thesis
    by (simp add: copy_multi_def get_block_def put_block_def alloc_chars_def msz_def replicate_append_same)
qed

definition size_args :: "string \<Rightarrow> string \<Rightarrow> dword \<Rightarrow> arg_slot list" where
  "size_args pre post n = (if n = 0 then [] else [Arg (wide (pre @ show_int (sint n) @ post))])"

definition java_command :: "wtext list \<Rightarrow> dword \<Rightarrow> dword \<Rightarrow> dword \<Rightarrow> wtext option \<Rightarrow> wtext option \<Rightarrow> wtext list \<Rightarrow> arg_slot list" where
  "java_command opts ms mx ss cp cls cmd =
     map Arg opts @ size_args ''-Xms'' ''m'' ms @ size_args ''-Xmx'' ''m'' mx @ size_args ''-Xss'' ''k'' ss
       @ (case cp of None \<Rightarrow> [] | Some c \<Rightarrow> [Arg (JAVA_CLASSPATH_W @ text_of c)])
       @ (case cls of None \<Rightarrow> [] | Some c \<Rightarrow> [Arg (text_of c)]) @ map Arg cmd"

lemma length_show_size: "length (show_int (sint (n :: dword))) \<le> 11"
proof -
  have b: "- (2 ^ 31) \<le> sint n" "sint n < 2 ^ 31"
    using sint_ge [of n] sint_lt [of n] by simp_all
  then have "nat (sint n) < 10 ^ Suc 9" "nat (- sint n) < 10 ^ Suc 9" by simp_all
  then show ?thesis
    using length_show_nat [of "nat (sint n)" 9] length_show_nat [of "nat (- sint n)" 9] by (simp add: show_int_def)
qed

lemma add_number_filled:
  assumes "length (size_args pre post n) \<le> m" "length pre + length post \<le> 50" "1 \<le> slack"
  shows "add_number slack pre post n (filled_to done m) =
    Some (filled_to (done @ size_args pre post n) (m - length (size_args pre post n)))"
proof (cases "n = 0")
  case False
  then obtain m' where m: "m = Suc m'" using assms(1) by (cases m) (auto simp: size_args_def)
  have "length (wide (pre @ show_int (sint n) @ post) :: wtext) \<le> 64"
    using length_show_size [of n] assms(2) by (simp add: wide_def)
  then show ?thesis using False assms(3) by (simp add: m add_number_def size_args_def add_arg_filled)
qed (simp_all add: add_number_def size_args_def)

text \<open>Where the blocks of the heap are longer than asked for, the argument list of the Java process
  is right: the options, the sizes, the class path, the class and the arguments, in this order,
  with every text whole. The slot behind the last argument is left as it is and the one after
  it is the null pointer.\<close>

theorem java_command_complete:
  assumes "strings opts" "strings cmd" "opts \<noteq> []" "1 \<le> slack"
  shows "apxJavaCmdInitialize slack i cp cls (Some (msz opts)) ms mx ss (Some (msz cmd)) =
    (let args = java_command opts ms mx ss cp cls cmd in Some (length args, args @ [Unset, Nul]))"
proof -
  let ?a1 = "size_args ''-Xms'' ''m'' ms" and ?a2 = "size_args ''-Xmx'' ''m'' mx" and ?a3 = "size_args ''-Xss'' ''k'' ss"
  let ?a4 = "case cp of None \<Rightarrow> [] | Some c \<Rightarrow> [Arg (JAVA_CLASSPATH_W @ text_of c)]"
  let ?a5 = "case cls of None \<Rightarrow> [] | Some c \<Rightarrow> [Arg (text_of c)]"
  let ?c = "length cmd" let ?n5 = "?c + 2" let ?n4 = "length ?a5 + ?n5" let ?n3 = "length ?a4 + ?n4"
  let ?n2 = "length ?a3 + ?n3" let ?n1 = "length ?a2 + ?n2" let ?n0 = "length ?a1 + ?n1"
  let ?o = "map Arg opts"
  let ?d1 = "?o @ ?a1" let ?d2 = "?d1 @ ?a2" let ?d3 = "?d2 @ ?a3" let ?d4 = "?d3 @ ?a4" let ?d5 = "?d4 @ ?a5"
  define nT where "nT = (if cp = None then 0 else 1) + (if cls = None then 0 else 1) + length opts + ?c
           + (if ms = 0 then 0 else 1) + (if mx = 0 then 0 else 1) + (if ss = 0 then 0 else (1 :: nat))"
  have nT: "nT + 2 = length opts + ?n0"
    unfolding nT_def size_args_def by (cases cp; cases cls) simp_all
  have 0: "set_args (length opts) (msz_body opts @ r) 0 (replicate (nT + 2) Unset) = Some (filled_to ?o ?n0)" for r
    using set_args_filled [OF assms(1), of r "[]" ?n0] by (simp only: nT list.size(3) append_Nil)
  have 1: "add_number slack ''-Xms'' ''m'' ms (filled_to ?o ?n0) = Some (filled_to ?d1 ?n1)"
    using add_number_filled [of "''-Xms''" "''m''" ms ?n0 slack ?o] assms(4) by simp
  have 2: "add_number slack ''-Xmx'' ''m'' mx (filled_to ?d1 ?n1) = Some (filled_to ?d2 ?n2)"
    using add_number_filled [of "''-Xmx''" "''m''" mx ?n1 slack ?d1] assms(4) by simp
  have 3: "add_number slack ''-Xss'' ''k'' ss (filled_to ?d2 ?n2) = Some (filled_to ?d3 ?n3)"
    using add_number_filled [of "''-Xss''" "''k''" ss ?n2 slack ?d2] assms(4) by simp
  have 4: "(case cp of None \<Rightarrow> Some (filled_to ?d3 ?n3)
      | Some c \<Rightarrow> add_arg slack (length (JAVA_CLASSPATH_W :: wtext) + length (text_of c)) (JAVA_CLASSPATH_W @ text_of c) (filled_to ?d3 ?n3))
      = Some (filled_to ?d4 ?n4)"
    using assms(4) by (cases cp) (simp_all add: add_arg_filled)
  have 5: "(case cls of None \<Rightarrow> Some (filled_to ?d4 ?n4)
      | Some c \<Rightarrow> add_arg slack (length (text_of c)) (text_of c) (filled_to ?d4 ?n4)) = Some (filled_to ?d5 ?n5)"
    using assms(4) by (cases cls) (simp_all add: add_arg_filled)
  have n5: "nT - length ?d5 = ?c" using nT by simp
  have 6: "(if ?c \<noteq> 0 \<and> length (msz_body cmd) \<noteq> 0
      then do { p \<leftarrow> copy_multi slack (Some (msz cmd)) (length (msz_body cmd));
                set_args (nT - fst (filled_to ?d5 ?n5)) p (fst (filled_to ?d5 ?n5)) (snd (filled_to ?d5 ?n5)) }
      else Some (filled_to ?d5 ?n5)) = Some (filled_to (?d5 @ map Arg cmd) 2)"
    using copy_multi_slack [OF assms(4), of cmd] n5 set_args_filled [OF assms(2), of _ ?d5 2] assms(2)
    by (cases cmd) (auto simp: filled_to_def simp del: length_append)
  have l: "apxGetMultiSzLengthW (Some (msz opts)) = Some (length (msz_body opts), length opts)"
    "apxGetMultiSzLengthW (Some (msz cmd)) = Some (length (msz_body cmd), ?c)"
    using msz_length [OF assms(1), of "[]"] msz_length [OF assms(2), of "[]"] by (simp_all add: apxGetMultiSzLengthW_def)
  have j: "length opts \<noteq> 0" "length (msz_body opts) \<noteq> 0" "nT \<noteq> 0"
    using assms(3) by (cases opts; simp add: nT_def)+
  have 7: "put (snd (filled_to ds 2)) (Suc (fst (filled_to ds 2))) Nul = Some (ds @ [Unset, Nul])" for ds
    using put_append [of "ds @ [Unset]" "Suc (length ds)" Unset "[]" Nul] by (simp add: filled_to_def numeral_2_eq_2)
  have "apxJavaCmdInitialize slack i cp cls (Some (msz opts)) ms mx ss (Some (msz cmd)) =
      Some (nT, (?d5 @ map Arg cmd) @ [Unset, Nul])"
    unfolding apxJavaCmdInitialize_def Let_def l Option.bind.simps prod.case nT_def [symmetric] 6 7
    using j 0 1 2 3 4 5 6 7 by (simp only: if_False if_True simp_thms copy_multi_slack [OF assms(4)] Option.bind.simps)
  moreover have "nT = length (?d5 @ map Arg cmd)" using nT by simp
  ultimately show ?thesis by (simp add: java_command_def)
qed

text \<open>Where the heap gives exactly what is asked for, a class or a class path is written past the end of its block:
  the block is allocated without room for the terminator.\<close>

theorem java_command_overruns:
  assumes "cls \<noteq> None \<or> cp \<noteq> None"
  shows "apxJavaCmdInitialize 0 i cp cls opts ms mx ss cmd = None"
proof -
  have a: "add_arg 0 (length (JAVA_CLASSPATH_W :: wtext) + length s) (JAVA_CLASSPATH_W @ s) st = None" for s st
    using add_arg_exact [of "JAVA_CLASSPATH_W @ s" st] by simp
  show ?thesis
    using assms by (cases cp; cases cls) (auto simp: apxJavaCmdInitialize_def Let_def a add_arg_exact bind_eq_None_conv)
qed

lemma java_command_overruns_witness:
  "apxJavaCmdInitialize 0 0 None (Some (wide ''Main'' @ [0])) None 0 0 0 None = None"
  by (rule java_command_overruns) simp

lemma java_command_complete_witness:
  "apxJavaCmdInitialize 8 0 None None (Some (msz [[45, 88]])) 0 0 0 (Some (msz [[97], [98]])) =
     Some (3, [Arg [45, 88], Arg [97], Arg [98], Unset, Nul])"
  using java_command_complete [of "[[45, 88]]" "[[97], [98]]" 8 0 None None 0 0 0]
  by (simp add: java_command_def size_args_def)

end
