(* ===== verification/Win_Process.thy ===== *)
theory Win_Process
  imports Win_Strings Multi_Sz Win_Env Jsvc_Prelude
begin

text \<open>
  Redirected processes (\<^verbatim>\<open>windows/src/rprocess.c\<close>). Windows answers the calls: what a call
  returns is a function of the calls made before, the parameter of the model (zero is failure
  where the call can fail). The state keeps the calls, the open handles and the three standard
  handles. A string of the process object is null, allocated or freed; freeing a freed string
  reads the header of a freed block, which is undefined (\<open>None\<close>).
\<close>

section \<open>The system\<close>

datatype sys_call =
    Logon_user "wtext" "wtext option" bool
  | Duplicate_token
  | Impersonate nat
  | Duplicate_handle
  | Create_pipe
  | Set_handle_information nat
  | Create_process "wtext option" "wtext option" "wtext option" "nat option" dword
  | Process_id nat
  | Create_thread nat
  | Resume_thread nat
  | Get_exit_code "nat option"
  | Exit_code_of "nat option"
  | Wait_for "nat option list" dword
  | Wait_input_idle "nat option"
  | Create_remote_thread nat
  | Terminate_process "nat option" dword
  | Write_file "nat option" "byte list"
  | Bytes_written "nat option"
  | Read_file "nat option" nat
  | Char_read "nat option"
  | Flush_buffers "nat option"
  | Create_event
  | Create_named_event wtext
  | Set_event "nat option"
  | Reset_event "nat option"
  | Exit_code_thread "nat option"
  | Thread_exit_code "nat option"
  | Terminate_thread "nat option" dword
  | Sleep_ms dword
  | File_there wtext
  | Delete_file wtext
  | Create_new_file wtext
  | Current_process_id
  | Set_current_directory wtext
  | Register_ctrl_handler wtext
  | Set_service_status
  | Attach_console
  | Console_break
  | Display_error string
  | Start_dispatcher wtext
  | User_callback dword dword dword

record winsys =
  sys_calls :: "sys_call list" \<comment> \<open>the latest first\<close>
  open_handles :: "nat list"
  next_handle :: nat
  std_handles :: "nat option \<times> nat option \<times> nat option"

type_synonym sys_env = "sys_call list \<Rightarrow> sys_call \<Rightarrow> dword"

definition ask :: "sys_env \<Rightarrow> sys_call \<Rightarrow> winsys \<Rightarrow> dword \<times> winsys" where
  "ask env c s = (env (sys_calls s) c, s\<lparr>sys_calls := c # sys_calls s\<rparr>)"

definition new_handle :: "winsys \<Rightarrow> nat \<times> winsys" where
  "new_handle s = (next_handle s, s\<lparr>open_handles := next_handle s # open_handles s, next_handle := Suc (next_handle s)\<rparr>)"

text \<open>A call that returns a handle, or the null handle.\<close>

definition ask_handle :: "sys_env \<Rightarrow> sys_call \<Rightarrow> winsys \<Rightarrow> nat option \<times> winsys" where
  "ask_handle env c s =
     (case ask env c s of (r, s) \<Rightarrow>
        if r = 0 then (None, s) else (case new_handle s of (h, s) \<Rightarrow> (Some h, s)))"

text \<open>\<open>SAFE_CLOSE_HANDLE\<close>; the caller clears the variable.\<close>

definition close_handle :: "nat option \<Rightarrow> winsys \<Rightarrow> winsys" where
  "close_handle h s = (case h of None \<Rightarrow> s | Some n \<Rightarrow> s\<lparr>open_handles := remove1 n (open_handles s)\<rparr>)"

section \<open>The process object\<close>

definition CHILD_RUNNING :: dword where "CHILD_RUNNING = 0x1"
definition CHILD_INITIALIZED :: dword where "CHILD_INITIALIZED = 0x2"
definition CHILD_MAINTREAD_FINISHED :: dword where "CHILD_MAINTREAD_FINISHED = 0x4"
definition PROC_INITIALIZED :: dword where "PROC_INITIALIZED = 0x8"
definition CHILD_TERMINATE_CODE :: dword where "CHILD_TERMINATE_CODE = 19640323"
definition STILL_ACTIVE :: dword where "STILL_ACTIVE = 259"
definition WAIT_OBJECT_0 :: dword where "WAIT_OBJECT_0 = 0"
definition WAIT_ABANDONED :: dword where "WAIT_ABANDONED = 0x80"
definition WAIT_TIMEOUT :: dword where "WAIT_TIMEOUT = 258"
definition INFINITE :: dword where "INFINITE = 0xFFFFFFFF"
definition WM_CLOSE :: dword where "WM_CLOSE = 0x10"
definition WM_QUIT :: dword where "WM_QUIT = 0x12"
definition WM_SETTEXT :: dword where "WM_SETTEXT = 0xC"
definition WM_CHAR :: dword where "WM_CHAR = 0x102"
definition CREATE_UNICODE_ENVIRONMENT :: dword where "CREATE_UNICODE_ENVIRONMENT = 0x400"
definition CREATE_SUSPENDED :: dword where "CREATE_SUSPENDED = 0x4"
definition APXHANDLE_TYPE_PROCESS :: dword where "APXHANDLE_TYPE_PROCESS = 0x06000000"

datatype 'a ptr = Null | Live 'a | Freed

definition apxFree :: "'a ptr \<Rightarrow> 'a ptr option" where
  "apxFree p = (case p of Null \<Rightarrow> Some Null | Live _ \<Rightarrow> Some Freed | Freed \<Rightarrow> None)"

text \<open>A string that is passed to a call: the null pointer, or its text; a freed one is undefined.\<close>

definition passed :: "'a ptr \<Rightarrow> 'a option option" where
  "passed p = (case p of Null \<Rightarrow> Some None | Live a \<Rightarrow> Some (Some a) | Freed \<Rightarrow> None)"

record apxprocess =
  dwHandleType :: dword
  dwChildStatus :: dword
  dwOptions :: dword
  hProcess :: "nat option"
  hThread :: "nat option"
  dwProcessId :: dword
  chSize :: nat
  szWorkingPath :: "wtext ptr"
  szApplicationExec :: "wtext ptr"
  szCommandLine :: "wtext ptr"
  lpEnvironment :: "unit ptr"
  hChildStdInp :: "nat option"
  hChildStdOut :: "nat option"
  hChildStdErr :: "nat option"
  hChildInpWr :: "nat option"
  hChildOutRd :: "nat option"
  hChildErrRd :: "nat option"
  hParentStdSave :: "nat option \<times> nat option \<times> nat option"
  hWorkerThreads :: "nat option \<times> nat option \<times> nat option"
  hUserToken :: "nat option"
  hCurrentProcess :: "nat option"
  bSaveHandles :: bool
  fnUserCallback :: bool

definition is_process :: "apxprocess \<Rightarrow> bool" where
  "is_process p \<longleftrightarrow> dwHandleType p = APXHANDLE_TYPE_PROCESS"

definition child_flag :: "apxprocess \<Rightarrow> dword \<Rightarrow> bool" where
  "child_flag p f \<longleftrightarrow> dwChildStatus p AND f \<noteq> 0"

definition user_callback :: "sys_env \<Rightarrow> apxprocess \<Rightarrow> dword \<Rightarrow> dword \<Rightarrow> dword \<Rightarrow> winsys \<Rightarrow> winsys" where
  "user_callback env p m w l s = (if fnUserCallback p then snd (ask env (User_callback m w l) s) else s)"

section \<open>Creating\<close>

definition new_process :: "apxprocess" where
  "new_process = \<lparr>dwHandleType = APXHANDLE_TYPE_PROCESS, dwChildStatus = 0, dwOptions = 0, hProcess = None,
     hThread = None, dwProcessId = 0, chSize = 0, szWorkingPath = Null, szApplicationExec = Null,
     szCommandLine = Null, lpEnvironment = Null, hChildStdInp = None, hChildStdOut = None, hChildStdErr = None,
     hChildInpWr = None, hChildOutRd = None, hChildErrRd = None, hParentStdSave = (None, None, None),
     hWorkerThreads = (None, None, None), hUserToken = None, hCurrentProcess = None, bSaveHandles = False,
     fnUserCallback = False\<rparr>"

text \<open>The token of the user: \<open>None\<close> if the function gives up.\<close>

definition user_token ::
  "sys_env \<Rightarrow> bool \<Rightarrow> wtext option \<Rightarrow> wtext option \<Rightarrow> bool \<Rightarrow> winsys \<Rightarrow> nat option option \<times> winsys" where
  "user_token env nt4 szUsername szPassword bLogonAsService s =
     (case szUsername of
        Some u \<Rightarrow>
          if nt4
          then (case ask_handle env (Logon_user u szPassword bLogonAsService) s of
                  (None, s) \<Rightarrow> (None, s)
                | (hUser, s) \<Rightarrow>
                    (case ask_handle env Duplicate_token s of
                       (None, s) \<Rightarrow> (None, close_handle hUser s)
                     | (Some t, s) \<Rightarrow>
                         (case ask env (Impersonate t) s of (r, s) \<Rightarrow>
                            if r = 0 then (None, close_handle (Some t) (close_handle hUser s))
                            else (Some (Some t), close_handle hUser s))))
          else (Some None, s)
      | None \<Rightarrow> (Some None, s))"

definition apxCreateProcessW ::
  "sys_env \<Rightarrow> bool \<Rightarrow> dword \<Rightarrow> bool \<Rightarrow> wtext option \<Rightarrow> wtext option \<Rightarrow> bool \<Rightarrow> winsys
     \<Rightarrow> apxprocess option \<times> winsys" where
  "apxCreateProcessW env nt4 dwOpts fnCallback szUsername szPassword bLogonAsService s =
     (case user_token env nt4 szUsername szPassword bLogonAsService s of
        (None, s) \<Rightarrow> (None, s)
      | (Some token, s) \<Rightarrow>
          (case ask_handle env Duplicate_handle s of (h, s) \<Rightarrow>
             (Some (new_process\<lparr>dwOptions := dwOpts, fnUserCallback := fnCallback, hUserToken := token,
                 chSize := (if dwOpts AND CREATE_UNICODE_ENVIRONMENT \<noteq> 0 then 2 else 1),
                 hCurrentProcess := h\<rparr>), s)))"

section \<open>Its texts\<close>

text \<open>\<open>apxPoolStrdupW\<close>, and \<open>apxPoolWStrdupA\<close> with \<open>MultiByteToWideChar\<close> as a parameter.\<close>

definition apxPoolStrdupW :: "wtext option \<Rightarrow> wtext ptr" where
  "apxPoolStrdupW s = (case s of None \<Rightarrow> Null | Some t \<Rightarrow> Live t)"

definition apxPoolWStrdupA :: "(byte list \<Rightarrow> wtext option) \<Rightarrow> byte list option \<Rightarrow> wtext ptr" where
  "apxPoolWStrdupA utf8 s = (case s of None \<Rightarrow> Null | Some t \<Rightarrow> apxPoolStrdupW (utf8 t))"

definition set_executable :: "wtext ptr \<Rightarrow> apxprocess \<Rightarrow> (bool \<times> apxprocess) option" where
  "set_executable new p =
     (if \<not> is_process p then Some (False, p)
      else do { _ \<leftarrow> apxFree (szApplicationExec p); Some (new \<noteq> Null, p\<lparr>szApplicationExec := new\<rparr>) })"

definition apxProcessSetExecutableA :: "(byte list \<Rightarrow> wtext option) \<Rightarrow> byte list option \<Rightarrow> apxprocess \<Rightarrow> (bool \<times> apxprocess) option" where
  "apxProcessSetExecutableA utf8 szName = set_executable (apxPoolWStrdupA utf8 szName)"

definition apxProcessSetExecutableW :: "wtext option \<Rightarrow> apxprocess \<Rightarrow> (bool \<times> apxprocess) option" where
  "apxProcessSetExecutableW szName = set_executable (apxPoolStrdupW szName)"

definition set_command_line :: "wtext ptr \<Rightarrow> apxprocess \<Rightarrow> (bool \<times> apxprocess) option" where
  "set_command_line new p =
     (if \<not> is_process p then Some (False, p)
      else do { _ \<leftarrow> apxFree (szCommandLine p); Some (new \<noteq> Null, p\<lparr>szCommandLine := new\<rparr>) })"

definition apxProcessSetCommandLineA :: "(byte list \<Rightarrow> wtext option) \<Rightarrow> byte list option \<Rightarrow> apxprocess \<Rightarrow> (bool \<times> apxprocess) option" where
  "apxProcessSetCommandLineA utf8 szCmdline = set_command_line (apxPoolWStrdupA utf8 szCmdline)"

definition apxProcessSetCommandLineW :: "wtext option \<Rightarrow> apxprocess \<Rightarrow> (bool \<times> apxprocess) option" where
  "apxProcessSetCommandLineW szCmdline = set_command_line (apxPoolStrdupW szCmdline)"

definition apxProcessSetWorkingPathA :: "(byte list \<Rightarrow> wtext option) \<Rightarrow> byte list option \<Rightarrow> apxprocess \<Rightarrow> (bool \<times> apxprocess) option" where
  "apxProcessSetWorkingPathA utf8 szPath p =
     (if \<not> is_process p then Some (False, p)
      else do { _ \<leftarrow> apxFree (szWorkingPath p);
                let new = apxPoolWStrdupA utf8 szPath;
                Some (new \<noteq> Null, p\<lparr>szWorkingPath := new\<rparr>) })"

definition apxProcessSetWorkingPathW :: "wtext option \<Rightarrow> apxprocess \<Rightarrow> (bool \<times> apxprocess) option" where
  "apxProcessSetWorkingPathW szPath p =
     (if \<not> is_process p then Some (False, p)
      else do { _ \<leftarrow> apxFree (szWorkingPath p); Some (True, p\<lparr>szWorkingPath := apxPoolStrdupW szPath\<rparr>) })"

section \<open>The command line\<close>

text \<open>\<open>__apxStrQuote\<close>: the text is written at \<open>i\<close>, the result is the place behind it.\<close>

definition has_space :: "wtext \<Rightarrow> bool" where "has_space s \<longleftrightarrow> ch CHR '' '' \<in> set s \<or> 9 \<in> set s"

definition quote_arg :: "wtext \<Rightarrow> wtext" where
  "quote_arg s = (if has_space s \<and> ch CHR ''\"'' \<notin> set s then ch CHR ''\"'' # s @ [ch CHR ''\"''] else s)"

definition apxStrQuote :: "wtext \<Rightarrow> nat \<Rightarrow> wtext \<Rightarrow> (wtext \<times> nat) option" where
  "apxStrQuote b i szSrc = do {
     b \<leftarrow> put_block b i (quote_arg szSrc);
     Some (b, i + length (quote_arg szSrc)) }"

fun put_args :: "wtext \<Rightarrow> nat \<Rightarrow> wtext list \<Rightarrow> (wtext \<times> nat) option" where
  "put_args b i [] = Some (b, i)"
| "put_args b i (a # as) = do {
     b \<leftarrow> put b i (ch CHR '' '');
     (b, i) \<leftarrow> apxStrQuote b (Suc i) a;
     put_args b i as }"

definition apxProcessSetCommandArgsW :: "wtext \<Rightarrow> wtext list \<Rightarrow> apxprocess \<Rightarrow> (bool \<times> apxprocess) option" where
  "apxProcessSetCommandArgsW szTitle lpArgs p =
     (if \<not> is_process p then Some (False, p)
      else do {
        _ \<leftarrow> apxFree (szCommandLine p);
        let l = length szTitle + 3 + (\<Sum>a\<leftarrow>lpArgs. length a + 3);
        (b, i) \<leftarrow> apxStrQuote (replicate l 0) 0 szTitle;
        (b, i) \<leftarrow> put_args b i lpArgs;
        b \<leftarrow> put b i 0;
        Some (True, p\<lparr>szCommandLine := Live (text_of b)\<rparr>) })"

section \<open>Running\<close>

type_synonym proc_state = "apxprocess \<times> winsys"

definition pipe_ends :: "sys_env \<Rightarrow> winsys \<Rightarrow> (nat \<times> nat) option \<times> winsys" where
  "pipe_ends env s =
     (case ask env Create_pipe s of (r, s) \<Rightarrow>
        if r = 0 then (None, s)
        else (case new_handle s of (a, s) \<Rightarrow> case new_handle s of (b, s) \<Rightarrow> (Some (a, b), s)))"

definition no_inherit :: "sys_env \<Rightarrow> nat \<Rightarrow> winsys \<Rightarrow> bool \<times> winsys" where
  "no_inherit env h s = (case ask env (Set_handle_information h) s of (r, s) \<Rightarrow> (r \<noteq> 0, s))"

text \<open>One of the three pipes: it is created, and the end that stays with the parent is not inherited.\<close>

definition pipe_stage ::
  "sys_env \<Rightarrow> bool \<Rightarrow> (nat \<Rightarrow> nat \<Rightarrow> apxprocess \<Rightarrow> apxprocess) \<Rightarrow> proc_state \<Rightarrow> bool \<times> proc_state" where
  "pipe_stage env parent_writes upd = (\<lambda>(p, s).
     case pipe_ends env s of
       (None, s) \<Rightarrow> (False, p, s)
     | (Some (r, w), s) \<Rightarrow>
         (case no_inherit env (if parent_writes then w else r) s of (ok, s) \<Rightarrow> (ok, upd r w p, s)))"

definition apxProcCreateChildPipes :: "sys_env \<Rightarrow> proc_state \<Rightarrow> bool \<times> proc_state" where
  "apxProcCreateChildPipes env st =
     (case pipe_stage env True (\<lambda>r w p. p\<lparr>hChildStdInp := Some r, hChildInpWr := Some w\<rparr>) st of
        (False, st) \<Rightarrow> (False, st)
      | (True, st) \<Rightarrow>
     (case pipe_stage env False (\<lambda>r w p. p\<lparr>hChildOutRd := Some r, hChildStdOut := Some w\<rparr>) st of
        (False, st) \<Rightarrow> (False, st)
      | (True, st) \<Rightarrow>
      pipe_stage env False (\<lambda>r w p. p\<lparr>hChildErrRd := Some r, hChildStdErr := Some w\<rparr>) st))"

definition close_parent_pipes :: "proc_state \<Rightarrow> proc_state" where
  "close_parent_pipes = (\<lambda>(p, s).
     (p\<lparr>hChildInpWr := None, hChildOutRd := None, hChildErrRd := None\<rparr>,
      close_handle (hChildErrRd p) (close_handle (hChildOutRd p) (close_handle (hChildInpWr p) s))))"

definition close_child_pipes :: "proc_state \<Rightarrow> proc_state" where
  "close_child_pipes = (\<lambda>(p, s).
     (p\<lparr>hChildStdInp := None, hChildStdOut := None, hChildStdErr := None\<rparr>,
      close_handle (hChildStdErr p) (close_handle (hChildStdOut p) (close_handle (hChildStdInp p) s))))"

text \<open>\<open>CreateProcessW\<close> or \<open>CreateProcessAsUserW\<close>: the process and its first thread.\<close>

definition start_child :: "sys_env \<Rightarrow> proc_state \<Rightarrow> (bool \<times> proc_state) option" where
  "start_child env = (\<lambda>(p, s). do {
     exec \<leftarrow> passed (szApplicationExec p);
     line \<leftarrow> passed (szCommandLine p);
     path \<leftarrow> passed (szWorkingPath p);
     (case ask env (Create_process exec line path (hUserToken p)
                      (CREATE_SUSPENDED OR CREATE_UNICODE_ENVIRONMENT OR dwOptions p)) s of (r, s) \<Rightarrow>
        if r = 0 then Some (False, p, s)
        else case new_handle s of (hp, s) \<Rightarrow> case new_handle s of (ht, s) \<Rightarrow>
             case ask env (Process_id hp) s of (pid, s) \<Rightarrow>
               Some (True, p\<lparr>hProcess := Some hp, hThread := Some ht, dwProcessId := pid\<rparr>, s)) })"

definition start_threads :: "sys_env \<Rightarrow> proc_state \<Rightarrow> proc_state" where
  "start_threads env = (\<lambda>(p, s).
     case ask_handle env (Create_thread 0) s of (t0, s) \<Rightarrow>
     case ask_handle env (Create_thread 1) s of (t1, s) \<Rightarrow>
     let s = (case hThread p of None \<Rightarrow> s | Some h \<Rightarrow> snd (ask env (Resume_thread h) s)) in
     case ask_handle env (Create_thread 2) s of (t2, s) \<Rightarrow>
       (p\<lparr>hWorkerThreads := (t0, t1, t2), hThread := None\<rparr>, close_handle (hThread p) s))"

definition apxProcessExecute :: "sys_env \<Rightarrow> proc_state \<Rightarrow> (bool \<times> proc_state) option" where
  "apxProcessExecute env = (\<lambda>(p, s).
     if \<not> is_process p then Some (False, p, s)
     else if child_flag p PROC_INITIALIZED then Some (False, p, s)
     else
       let p = p\<lparr>bSaveHandles := True, hParentStdSave := std_handles s\<rparr> in
       case apxProcCreateChildPipes env (p, s) of (ok, p, s) \<Rightarrow>
       if \<not> ok then Some (False, close_parent_pipes (p, s))
       else do {
         let s = s\<lparr>std_handles := (hChildStdInp p, hChildStdOut p, hChildStdErr p)\<rparr>;
         _ \<leftarrow> (if lpEnvironment p = Null then Some Null else apxFree (lpEnvironment p));
         let p = p\<lparr>lpEnvironment := Live ()\<rparr>;
         (bS, p, s) \<leftarrow> start_child env (p, s);
         let (p, s) = close_child_pipes (p, s);
         (if \<not> bS then Some (False, close_parent_pipes (p, s))
          else let p = p\<lparr>dwChildStatus := dwChildStatus p OR CHILD_RUNNING OR PROC_INITIALIZED\<rparr>
               in Some (True, start_threads env (p, s))) })"

section \<open>The threads\<close>

text \<open>The first result is the exit code for \<open>apxSetVmExitCode\<close>, if the wait succeeds.\<close>

definition apxProcWorkerThread :: "sys_env \<Rightarrow> proc_state \<Rightarrow> dword option \<times> proc_state" where
  "apxProcWorkerThread env = (\<lambda>(p, s).
     case ask env (Wait_input_idle (hProcess p)) s of (_, s) \<Rightarrow>
     let p = p\<lparr>dwChildStatus := dwChildStatus p OR CHILD_INITIALIZED\<rparr> in
     case ask env (Wait_for [hProcess p] INFINITE) s of (r, s) \<Rightarrow>
     if r = WAIT_OBJECT_0
     then (let p = p\<lparr>dwChildStatus := dwChildStatus p OR CHILD_MAINTREAD_FINISHED\<rparr> in
           case ask env (Get_exit_code (hProcess p)) s of (ok, s) \<Rightarrow>
           case (if ok = 0 then (0, s) else ask env (Exit_code_of (hProcess p)) s) of (code, s) \<Rightarrow> (Some code, p, s))
     else (None, p, s))"

text \<open>
  A round of the threads that read the output of the child (\<open>k\<close> is 0) and its errors (1);
  the result says whether it goes on. The calls of the two loops differ in the pipe and \<open>k\<close>.
\<close>

definition output_round :: "sys_env \<Rightarrow> dword \<Rightarrow> proc_state \<Rightarrow> bool \<times> proc_state" where
  "output_round env k = (\<lambda>(p, s).
     if \<not> child_flag p CHILD_RUNNING then (False, p, s)
     else let h = (if k = 0 then hChildOutRd p else hChildErrRd p) in
          case ask env (Read_file h (chSize p)) s of (r, s) \<Rightarrow>
          if r = 0 then (False, p, s)
          else case ask env (Char_read h) s of (c, s) \<Rightarrow> (True, p, user_callback env p WM_CHAR c k s))"

fun output_thread :: "nat \<Rightarrow> sys_env \<Rightarrow> dword \<Rightarrow> proc_state \<Rightarrow> proc_state option" where
  "output_thread 0 env k st = None"
| "output_thread (Suc n) env k st =
     (case output_round env k st of (go, st) \<Rightarrow> if go then output_thread n env k st else Some st)"

section \<open>Writing\<close>

definition apxProcessPutc :: "sys_env \<Rightarrow> byte list \<Rightarrow> proc_state \<Rightarrow> dword \<times> proc_state" where
  "apxProcessPutc env c = (\<lambda>(p, s).
     if child_flag p CHILD_RUNNING
     then case ask env (Write_file (hChildInpWr p) c) s of (ok, s) \<Rightarrow>
          if ok = 0 then (0, p, s)
          else case ask env (Bytes_written (hChildInpWr p)) s of (wr, s) \<Rightarrow>
               (if unat wr = length c then 1 else 0, p, s)
     else (0, p, s))"

text \<open>
  The loop of \<open>__apxProcessWrite\<close>, with the bytes that are left and the number written. A write
  that succeeds with no byte is repeated, so the loop has fuel.
\<close>

fun write_loop :: "nat \<Rightarrow> sys_env \<Rightarrow> byte list \<Rightarrow> dword \<Rightarrow> proc_state \<Rightarrow> (dword \<times> proc_state) option" where
  "write_loop 0 env buf n st = None"
| "write_loop (Suc k) env buf n (p, s) =
     (if \<not> child_flag p CHILD_RUNNING then Some (n, p, s)
      else case ask env (Write_file (hChildInpWr p) buf) s of (ok, s) \<Rightarrow>
           if ok = 0 then Some (n, p, s)
           else case ask env (Bytes_written (hChildInpWr p)) s of (wr, s) \<Rightarrow>
                if unat wr < length buf then write_loop k env (drop (unat wr) buf) (n + wr) (p, s)
                else Some (n + wr, p, s))"

definition apxProcessWrite :: "nat \<Rightarrow> sys_env \<Rightarrow> byte list option \<Rightarrow> proc_state \<Rightarrow> (dword \<times> proc_state) option" where
  "apxProcessWrite fuel env lpData st =
     (case lpData of
        None \<Rightarrow> Some (0, st)
      | Some b \<Rightarrow> if b = [] \<or> \<not> is_process (fst st) then Some (0, st) else write_loop fuel env b 0 st)"

text \<open>
  \<open>__apxProcessPuts\<close>: \<open>l\<close> counts \<open>chSize\<close> for every character, while the string is one of
  16-bit characters, and \<open>szString\<close> advances by \<open>wr\<close> characters after a partial write of \<open>wr\<close>
  bytes. \<open>b\<close> holds the bytes from \<open>szString\<close> on.
\<close>

fun puts_loop :: "nat \<Rightarrow> sys_env \<Rightarrow> byte list \<Rightarrow> nat \<Rightarrow> dword \<Rightarrow> proc_state \<Rightarrow> (dword \<times> proc_state) option" where
  "puts_loop 0 env b l n st = None"
| "puts_loop (Suc k) env b l n (p, s) = do {
     w \<leftarrow> get_block b 0 l;
     (case ask env (Write_file (hChildInpWr p) w) s of (ok, s) \<Rightarrow>
        if ok = 0 then Some (n, p, s)
        else case ask env (Bytes_written (hChildInpWr p)) s of (wr, s) \<Rightarrow>
             if unat wr < l then puts_loop k env (drop (2 * unat wr) b) (l - unat wr) (n + wr) (p, s)
             else Some (n + wr, p, snd (ask env (Flush_buffers (hChildInpWr p)) s))) }"

definition wide_bytes :: "wtext \<Rightarrow> byte list" where
  "wide_bytes t = concat (map (bytes_le 2) t)"

definition apxProcessPuts :: "nat \<Rightarrow> sys_env \<Rightarrow> wtext \<Rightarrow> proc_state \<Rightarrow> (dword \<times> proc_state) option" where
  "apxProcessPuts fuel env t st =
     (let l = length t * chSize (fst st)
      in if child_flag (fst st) CHILD_RUNNING \<and> l \<noteq> 0
         then puts_loop fuel env (wide_bytes (t @ [0])) l 0 st else Some (0, st))"

definition apxProcessPutcA :: "sys_env \<Rightarrow> dword \<Rightarrow> proc_state \<Rightarrow> dword \<times> proc_state" where
  "apxProcessPutcA env c st = (if is_process (fst st) then apxProcessPutc env (bytes_le 1 c) st else (0, st))"

definition apxProcessPutcW :: "sys_env \<Rightarrow> dword \<Rightarrow> proc_state \<Rightarrow> dword \<times> proc_state" where
  "apxProcessPutcW env c st = (if is_process (fst st) then apxProcessPutc env (bytes_le 2 c) st else (0, st))"

definition flush_input :: "sys_env \<Rightarrow> proc_state \<Rightarrow> proc_state" where
  "flush_input env = (\<lambda>(p, s). (p, snd (ask env (Flush_buffers (hChildInpWr p)) s)))"

definition apxProcessPutsA :: "nat \<Rightarrow> sys_env \<Rightarrow> byte list option \<Rightarrow> proc_state \<Rightarrow> (dword \<times> proc_state) option" where
  "apxProcessPutsA fuel env szString st =
     map_option (\<lambda>(n, st). (n, if n \<noteq> 0 then flush_input env st else st)) (apxProcessWrite fuel env szString st)"

definition apxProcessPutsW :: "nat \<Rightarrow> sys_env \<Rightarrow> wtext option \<Rightarrow> proc_state \<Rightarrow> (dword \<times> proc_state) option" where
  "apxProcessPutsW fuel env szString st =
     map_option (\<lambda>(n, st). (n div 2, if n \<noteq> 0 then flush_input env st else st))
       (apxProcessWrite fuel env (map_option wide_bytes szString) st)"

definition apxProcessFlushStdin :: "sys_env \<Rightarrow> proc_state \<Rightarrow> bool \<times> proc_state" where
  "apxProcessFlushStdin env = (\<lambda>(p, s).
     if is_process p \<and> child_flag p CHILD_RUNNING
     then case ask env (Flush_buffers (hChildInpWr p)) s of (r, s) \<Rightarrow> (r \<noteq> 0, p, s) else (False, p, s))"

definition apxProcessCloseInputStream :: "proc_state \<Rightarrow> proc_state" where
  "apxProcessCloseInputStream = (\<lambda>(p, s).
     if is_process p \<and> child_flag p CHILD_RUNNING
     then (p\<lparr>hChildInpWr := None\<rparr>, close_handle (hChildInpWr p) s) else (p, s))"

section \<open>Closing\<close>

text \<open>\<open>CHECK_IF_ACTIVE\<close>.\<close>

definition check_if_active :: "sys_env \<Rightarrow> proc_state \<Rightarrow> bool \<times> proc_state" where
  "check_if_active env = (\<lambda>(p, s).
     case ask env (Get_exit_code (hProcess p)) s of (ok, s) \<Rightarrow>
     if ok = 0 then (False, p, s)
     else case ask env (Exit_code_of (hProcess p)) s of (code, s) \<Rightarrow> (code = STILL_ACTIVE, p, s))"

definition terminate_child :: "sys_env \<Rightarrow> proc_state \<Rightarrow> proc_state" where
  "terminate_child env = (\<lambda>(p, s). (p, snd (ask env (Terminate_process (hProcess p) CHILD_TERMINATE_CODE) s)))"

text \<open>The thread that calls \<open>ExitProcess\<close> in the child: the rest of \<open>__apxProcessClose\<close> before its label.\<close>

definition exit_child :: "sys_env \<Rightarrow> proc_state \<Rightarrow> proc_state" where
  "exit_child env = (\<lambda>(p, s).
     case ask_handle env Duplicate_handle s of
       (None, s) \<Rightarrow> terminate_child env (p, s)
     | (Some hDup, s) \<Rightarrow>
         (case ask_handle env (Create_remote_thread hDup) s of
            (None, s) \<Rightarrow> (p, close_handle (Some hDup) s)
          | (hRemote, s) \<Rightarrow>
              (case ask env (Wait_for [hProcess p] 2000) s of (r, s) \<Rightarrow>
               case (if r = WAIT_OBJECT_0 then (p, s) else terminate_child env (p, s)) of (p, s) \<Rightarrow>
                 (p, close_handle (Some hDup) (close_handle hRemote s)))))"

definition apxProcessClose :: "sys_env \<Rightarrow> proc_state \<Rightarrow> proc_state" where
  "apxProcessClose env st =
     (case (case check_if_active env st of (active, p, s) \<Rightarrow>
              if \<not> active then (p, s)
              else let s = close_handle (hChildInpWr p) s; p = p\<lparr>hChildInpWr := None\<rparr> in
                   case ask env (Wait_for [hProcess p] 1000) s of (r, s) \<Rightarrow>
                   if r = WAIT_OBJECT_0 then (p, s)
                   else case check_if_active env (p, s) of (active, st) \<Rightarrow>
                        if active then exit_child env st else st) of
        (p, s) \<Rightarrow> (p\<lparr>hProcess := None, dwChildStatus := dwChildStatus p AND NOT CHILD_RUNNING\<rparr>,
                   close_handle (hProcess p) s))"

datatype process_msg = Msg_close | Msg_quit | Msg_char dword dword | Msg_data "byte list" | Msg_text wtext | Msg_other dword

definition close_message :: "sys_env \<Rightarrow> proc_state \<Rightarrow> proc_state option" where
  "close_message env = (\<lambda>(p, s).
     let (p, s) = (if child_flag p CHILD_RUNNING
           then (case apxProcessClose env (p, s) of (p, s) \<Rightarrow>
                   (p, case hWorkerThreads p of (t0, t1, t2) \<Rightarrow> snd (ask env (Wait_for [t0, t1, t2] INFINITE) s)))
           else (p, s));
         s = close_handle (hProcess p) s;
         (p, s) = close_parent_pipes (p\<lparr>hProcess := None\<rparr>, s);
         s = (case hWorkerThreads p of (t0, t1, t2) \<Rightarrow> close_handle t2 (close_handle t1 (close_handle t0 s)));
         s = close_handle (hUserToken p) s;
         p = p\<lparr>hWorkerThreads := (None, None, None), hUserToken := None\<rparr>
     in do {
       e \<leftarrow> apxFree (szApplicationExec p);
       c \<leftarrow> apxFree (szCommandLine p);
       w \<leftarrow> apxFree (szWorkingPath p);
       let s = (if bSaveHandles p then s\<lparr>std_handles := hParentStdSave p\<rparr> else s);
       let s = close_handle (hCurrentProcess p) s;
       v \<leftarrow> apxFree (lpEnvironment p);
       Some (p\<lparr>szApplicationExec := e, szCommandLine := c, szWorkingPath := w, lpEnvironment := v,
               hCurrentProcess := None, dwChildStatus := dwChildStatus p AND NOT CHILD_RUNNING\<rparr>, s) })"

definition apxProcessCallback :: "nat \<Rightarrow> sys_env \<Rightarrow> process_msg \<Rightarrow> proc_state \<Rightarrow> proc_state option" where
  "apxProcessCallback fuel env m st =
     (case st of (p, s) \<Rightarrow>
      case m of
        Msg_close \<Rightarrow> close_message env (p, user_callback env p WM_CLOSE 0 0 s)
      | Msg_quit \<Rightarrow> Some (p\<lparr>dwChildStatus := dwChildStatus p AND NOT CHILD_RUNNING\<rparr>, user_callback env p WM_QUIT 0 0 s)
      | Msg_char w l \<Rightarrow> Some (snd (apxProcessPutc env (bytes_le (chSize p) l) (p, user_callback env p WM_CHAR w l s)))
      | Msg_data b \<Rightarrow>
          map_option snd (apxProcessWrite fuel env (Some b) (p, user_callback env p WM_SETTEXT (of_nat (length b)) 0 s))
      | Msg_text t \<Rightarrow> map_option snd (apxProcessPuts fuel env t (p, user_callback env p WM_SETTEXT 0 0 s))
      | Msg_other u \<Rightarrow> Some (p, user_callback env p u 0 0 s))"

definition apxProcessWait :: "sys_env \<Rightarrow> dword \<Rightarrow> bool \<Rightarrow> proc_state \<Rightarrow> (dword \<times> proc_state) option" where
  "apxProcessWait env dwMilliseconds bKill = (\<lambda>(p, s).
     if \<not> is_process p then Some (WAIT_ABANDONED, p, s)
     else if child_flag p CHILD_RUNNING
     then (case hWorkerThreads p of (t0, t1, t2) \<Rightarrow>
           case ask env (Wait_for [t0, t1, t2] dwMilliseconds) s of (rv, s) \<Rightarrow>
           if rv = WAIT_TIMEOUT \<and> bKill
           then map_option (Pair rv) (apxProcessCallback 0 env Msg_close (p, s))
           else Some (rv, p, s))
     else Some (WAIT_OBJECT_0, p, s))"

definition apxProcessRunning :: "apxprocess \<Rightarrow> bool" where
  "apxProcessRunning p \<longleftrightarrow> is_process p \<and> child_flag p CHILD_RUNNING"

definition apxProcessGetPid :: "apxprocess \<Rightarrow> dword" where
  "apxProcessGetPid p = (if is_process p then dwProcessId p else 0)"

end
