(* ===== verification/Win_Process_Facts.thy ===== *)
theory Win_Process_Facts
  imports Win_Process "HOL-Library.Multiset"
begin

text \<open>
  Facts about redirected processes: the command line fits its block and is read back as the
  arguments it was made of, every handle of a process is closed with it, and a process that
  was killed frees its strings again when it is closed.
\<close>

section \<open>The command line\<close>

lemma length_quote_arg: "length (quote_arg s) \<le> length s + 2"
  by (simp add: quote_arg_def)

lemma quote_arg_no_zero: "0 \<notin> set s \<Longrightarrow> 0 \<notin> set (quote_arg s)"
  by (simp add: quote_arg_def of_char_def)

definition args_text :: "wtext list \<Rightarrow> wtext" where
  "args_text as = concat (map (\<lambda>a. ch CHR '' '' # quote_arg a) as)"

lemma args_text_simps [simp]:
  "args_text [] = []" "args_text (a # as) = ch CHR '' '' # quote_arg a @ args_text as"
  by (simp_all add: args_text_def)

definition command_text :: "wtext \<Rightarrow> wtext list \<Rightarrow> wtext" where
  "command_text t as = quote_arg t @ args_text as"

lemma put_args_text:
  assumes "length p = i" "(\<Sum>a\<leftarrow>as. length a + 3) + 1 \<le> k"
  shows "\<exists>n. put_args (p @ replicate k 0) i as = Some (p @ args_text as @ replicate (Suc n) 0, i + length (args_text as))"
  using assms
proof (induction as arbitrary: p i k)
  case Nil
  then show ?case by (cases k) auto
next
  case (Cons a as)
  let ?q = "quote_arg a"
  obtain k' where k: "k = Suc (length ?q + k')" "(\<Sum>a\<leftarrow>as. length a + 3) + 1 \<le> k'"
    using Cons.prems(2) length_quote_arg [of a]
    by (intro that [of "k - Suc (length ?q)"]) auto
  have 1: "put (p @ replicate k 0) i (ch CHR '' '') = Some ((p @ [ch CHR '' '']) @ replicate (length ?q + k') 0)"
    using Cons.prems(1) k(1) by (simp add: put_append)
  have 2: "apxStrQuote ((p @ [ch CHR '' '']) @ replicate (length ?q + k') 0) (Suc i) a =
      Some ((p @ ch CHR '' '' # ?q) @ replicate k' 0, Suc i + length ?q)"
    using Cons.prems(1) put_block_at [of "p @ [ch CHR '' '']" "Suc i" ?q "replicate (length ?q + k') 0"]
    by (simp add: apxStrQuote_def)
  obtain n where 3: "put_args ((p @ ch CHR '' '' # ?q) @ replicate k' 0) (Suc i + length ?q) as =
      Some ((p @ ch CHR '' '' # ?q) @ args_text as @ replicate (Suc n) 0, Suc i + length ?q + length (args_text as))"
    using Cons.IH [of "p @ ch CHR '' '' # ?q" "Suc i + length ?q" k'] Cons.prems(1) k(2) by auto
  have "put_args (p @ replicate k 0) i (a # as) =
      Some ((p @ ch CHR '' '' # ?q) @ args_text as @ replicate (Suc n) 0, Suc i + length ?q + length (args_text as))"
    by (simp only: put_args.simps 1 2 3 Option.bind.simps prod.case)
  then show ?case by (intro exI [of _ n]) simp
qed

text \<open>The command line of a process is written inside its block, whatever the arguments: the
  title and the arguments, each in quotes if it has a space or a tab and no quote, with a space
  between them.\<close>

theorem command_args_fit:
  assumes "is_process p" "szCommandLine p \<noteq> Freed" "0 \<notin> set t" "\<forall>a \<in> set as. 0 \<notin> set a"
  shows "apxProcessSetCommandArgsW t as p = Some (True, p\<lparr>szCommandLine := Live (command_text t as)\<rparr>)"
proof -
  let ?l = "length t + 3 + (\<Sum>a\<leftarrow>as. length a + 3)"
  obtain k where k: "?l = length (quote_arg t) + k" "(\<Sum>a\<leftarrow>as. length a + 3) + 1 \<le> k"
    using length_quote_arg [of t] by (intro that [of "?l - length (quote_arg t)"]) auto
  have 1: "apxStrQuote (replicate ?l 0) 0 t = Some (quote_arg t @ replicate k 0, length (quote_arg t))"
    using put_block_at [of "[]" 0 "quote_arg t" "replicate ?l 0"] by (simp add: k(1) apxStrQuote_def)
  obtain n where 2: "put_args (quote_arg t @ replicate k 0) (length (quote_arg t)) as =
      Some (command_text t as @ replicate (Suc n) 0, length (command_text t as))"
    using put_args_text [of "quote_arg t" "length (quote_arg t)" as k] k(2) by (auto simp: command_text_def)
  have 3: "put (command_text t as @ replicate (Suc n) 0) (length (command_text t as)) 0 =
      Some (command_text t as @ 0 # replicate n 0)"
    by (simp add: put_append)
  have "0 \<notin> set (command_text t as)"
    using assms(3,4) quote_arg_no_zero by (auto simp: command_text_def args_text_def of_char_def)
  then have 4: "text_of (command_text t as @ 0 # replicate n 0) = command_text t as"
    by (rule text_of_terminated)
  obtain f where "apxFree (szCommandLine p) = Some f"
    using assms(2) by (cases "szCommandLine p") (auto simp: apxFree_def)
  then show ?thesis
    unfolding apxProcessSetCommandArgsW_def Let_def using assms(1) 1 2 3 4
    by (simp del: replicate_Suc)
qed

lemma command_args_fit_witness:
  "\<exists>p. apxProcessSetCommandArgsW [97] [[98, 32, 99], [100]] new_process = Some (True, p)
     \<and> szCommandLine p = Live [97, 32, 34, 98, 32, 99, 34, 32, 100]"
  using command_args_fit [of new_process "[97]" "[[98, 32, 99], [100]]"]
  by (simp add: new_process_def is_process_def command_text_def quote_arg_def has_space_def)

text \<open>
  How a program reads its command line: blanks separate arguments outside quotes, \<open>n\<close>
  backslashes before a quote stand for half as many, and the quote counts as a character if
  \<open>n\<close> is odd. The state: inside quotes, the backslashes just read, the argument so far.
\<close>

abbreviation bsl :: wchar where "bsl \<equiv> ch CHR 0x5C"
abbreviation dq :: wchar where "dq \<equiv> ch CHR ''\"''"

fun read_args :: "bool \<Rightarrow> nat \<Rightarrow> wtext option \<Rightarrow> wtext \<Rightarrow> wtext list" where
  "read_args q n cur [] = (case cur of None \<Rightarrow> [] | Some a \<Rightarrow> [a @ replicate n bsl])"
| "read_args q n cur (c # cs) =
     (if c = bsl then read_args q (Suc n) (Some (case cur of None \<Rightarrow> [] | Some a \<Rightarrow> a)) cs
      else let a = (case cur of None \<Rightarrow> [] | Some a \<Rightarrow> a) in
        if c = dq then (if even n then read_args (\<not> q) 0 (Some (a @ replicate (n div 2) bsl)) cs
                        else read_args q 0 (Some (a @ replicate (n div 2) bsl @ [dq])) cs)
        else if (c = ch CHR '' '' \<or> c = 9) \<and> \<not> q
             then (case cur of None \<Rightarrow> read_args q 0 None cs | Some a \<Rightarrow> (a @ replicate n bsl) # read_args q 0 None cs)
             else read_args q 0 (Some (a @ replicate n bsl @ [c])) cs)"

definition plain_arg :: "wtext \<Rightarrow> bool" where
  "plain_arg a \<longleftrightarrow> a \<noteq> [] \<and> 0 \<notin> set a \<and> dq \<notin> set a \<and> (has_space a \<longrightarrow> last a \<noteq> bsl)"

text \<open>A stretch of characters without quotes, and without blanks outside quotes.\<close>

lemma read_stretch:
  "dq \<notin> set s \<Longrightarrow> q \<or> \<not> has_space s \<Longrightarrow> s \<noteq> [] \<Longrightarrow>
     \<exists>a n. read_args q m cur (s @ r) = read_args q n (Some a) r
       \<and> a @ replicate n bsl = (case cur of None \<Rightarrow> [] | Some a \<Rightarrow> a) @ replicate m bsl @ s
       \<and> (last s \<noteq> bsl \<longrightarrow> n = 0)"
proof (induction s arbitrary: m cur)
  case (Cons c s)
  let ?a = "case cur of None \<Rightarrow> [] | Some a \<Rightarrow> a"
  have blank: "q \<or> \<not> (c = ch CHR '' '' \<or> c = 9)" "q \<or> \<not> has_space s" "c \<noteq> dq" "dq \<notin> set s"
    using Cons.prems(1,2) by (auto simp: has_space_def)
  show ?case
  proof (cases "c = bsl")
    case True
    have step: "read_args q m cur ((c # s) @ r) = read_args q (Suc m) (Some ?a) (s @ r)" using True by simp
    show ?thesis
    proof (cases "s = []")
      case True
      then show ?thesis using step \<open>c = bsl\<close>
        by (intro exI [of _ ?a] exI [of _ "Suc m"]) (simp add: replicate_append_same [symmetric])
    next
      case False
      from Cons.IH [OF blank(4,2) False, of "Suc m" "Some ?a"] obtain a n where
        "read_args q (Suc m) (Some ?a) (s @ r) = read_args q n (Some a) r"
        "a @ replicate n bsl = ?a @ replicate (Suc m) bsl @ s" "last s \<noteq> bsl \<longrightarrow> n = 0"
        by auto
      then show ?thesis using step False \<open>c = bsl\<close>
        by (intro exI [of _ a] exI [of _ n]) (simp add: replicate_app_Cons_same)
    qed
  next
    case False
    have step: "read_args q m cur ((c # s) @ r) = read_args q 0 (Some (?a @ replicate m bsl @ [c])) (s @ r)"
      using False blank by (auto simp: Let_def)
    show ?thesis
    proof (cases "s = []")
      case True
      then show ?thesis using step by (intro exI [of _ "?a @ replicate m bsl @ [c]"] exI [of _ 0]) simp
    next
      case sn: False
      from Cons.IH [OF blank(4,2) sn, of 0 "Some (?a @ replicate m bsl @ [c])"] obtain a n where
        "read_args q 0 (Some (?a @ replicate m bsl @ [c])) (s @ r) = read_args q n (Some a) r"
        "a @ replicate n bsl = (?a @ replicate m bsl @ [c]) @ s" "last s \<noteq> bsl \<longrightarrow> n = 0"
        by auto
      then show ?thesis using step sn by (intro exI [of _ a] exI [of _ n]) simp
    qed
  qed
qed simp

lemma read_quoted_arg:
  assumes "plain_arg a" "r = [] \<or> (\<exists>r'. r = ch CHR '' '' # r')"
  shows "read_args False 0 None (quote_arg a @ r) = a # read_args False 0 None (drop 1 r)"
proof (cases "has_space a")
  case True
  then have q: "quote_arg a = dq # a @ [dq]" using assms(1) by (simp add: quote_arg_def plain_arg_def)
  obtain b n where "read_args True 0 (Some []) (a @ dq # r) = read_args True n (Some b) (dq # r)"
    "b @ replicate n bsl = a" "n = 0"
    using read_stretch [of a True 0 "Some []" "dq # r"] assms(1) True by (auto simp: plain_arg_def)
  then show ?thesis using assms(2) by (auto simp: q)
next
  case False
  then have q: "quote_arg a = a" by (simp add: quote_arg_def)
  obtain b n where "read_args False 0 None (a @ r) = read_args False n (Some b) r" "b @ replicate n bsl = a"
    using read_stretch [of a False 0 None r] assms(1) False by (auto simp: plain_arg_def)
  then show ?thesis using assms(2) by (auto simp: q)
qed

lemma read_args_text: "\<forall>a \<in> set as. plain_arg a \<Longrightarrow> read_args False 0 None (drop 1 (args_text as)) = as"
proof (induction as)
  case (Cons a as)
  have "args_text as = [] \<or> (\<exists>r'. args_text as = ch CHR '' '' # r')" by (cases as) auto
  then have "read_args False 0 None (quote_arg a @ args_text as) = a # read_args False 0 None (drop 1 (args_text as))"
    using Cons.prems by (intro read_quoted_arg) simp_all
  then show ?case using Cons by simp
qed simp

text \<open>The command line that is built for a process is read back as the program and the arguments it was
  built from, if no argument is empty or has a quote, and none with a blank ends in a backslash.\<close>

theorem command_line_read_back:
  assumes "plain_arg t" "\<forall>a \<in> set as. plain_arg a"
  shows "read_args False 0 None (command_text t as) = t # as"
proof -
  have "args_text as = [] \<or> (\<exists>r'. args_text as = ch CHR '' '' # r')" by (cases as) auto
  then show ?thesis
    using read_quoted_arg [OF assms(1)] read_args_text [OF assms(2)] by (simp add: command_text_def)
qed

lemma command_line_read_back_witness:
  "read_args False 0 None (command_text [97] [[98, 32, 92, 99], [100, 92]]) = [[97], [98, 32, 92, 99], [100, 92]]"
  by (rule command_line_read_back) (simp_all add: plain_arg_def has_space_def)

text \<open>C39. \<open>apxProcessSetCommandArgsW\<close> builds its command line inside the allocated block, and the program that
  is started reads it back as the title and the arguments it was built from, if none of them is
  empty or has a quote, and none with a blank ends in a backslash.\<close>

theorem command_line_built:
  assumes "is_process p" "szCommandLine p \<noteq> Freed"
    and "plain_arg t" "\<forall>a \<in> set as. plain_arg a" "0 \<notin> set t" "\<forall>a \<in> set as. 0 \<notin> set a"
  shows "\<exists>line. apxProcessSetCommandArgsW t as p = Some (True, p\<lparr>szCommandLine := Live line\<rparr>)
    \<and> read_args False 0 None line = t # as"
  using command_args_fit [OF assms(1,2,5,6)] command_line_read_back [OF assms(3,4)] by blast

theorem command_line_built_witness:
  "\<exists>line. apxProcessSetCommandArgsW [97] [[98, 32, 92, 99], [100, 92]] new_process
      = Some (True, new_process\<lparr>szCommandLine := Live line\<rparr>)
    \<and> read_args False 0 None line = [[97], [98, 32, 92, 99], [100, 92]]"
  by (rule command_line_built) (simp_all add: new_process_def is_process_def plain_arg_def has_space_def)

text \<open>
  The conditions are needed: an empty argument disappears, and a directory with a blank that
  ends in a backslash takes the next argument with it, as the backslash escapes the quote
  that is put behind it.
\<close>

lemma empty_argument_lost: "read_args False 0 None (command_text [97] [[], [98]]) = [[97], [98]]"
  by (simp add: command_text_def quote_arg_def has_space_def)

lemma trailing_backslash_joins:
  "read_args False 0 None (command_text [97] [[98, 32, 99, bsl], [100]]) = [[97], [98, 32, 99, dq, 32, 100]]"
  by (simp add: command_text_def quote_arg_def has_space_def)

section \<open>The handles\<close>

definition handle_ms :: "nat option \<Rightarrow> nat multiset" where
  "handle_ms h = (case h of None \<Rightarrow> {#} | Some n \<Rightarrow> {#n#})"

lemma handle_ms_simps [simp]: "handle_ms None = {#}" "handle_ms (Some n) = {#n#}"
  by (simp_all add: handle_ms_def)

definition child_ends :: "apxprocess \<Rightarrow> nat multiset" where
  "child_ends p = handle_ms (hChildStdInp p) + handle_ms (hChildStdOut p) + handle_ms (hChildStdErr p)"

definition parent_ends :: "apxprocess \<Rightarrow> nat multiset" where
  "parent_ends p = handle_ms (hChildInpWr p) + handle_ms (hChildOutRd p) + handle_ms (hChildErrRd p)"

definition thread_handles :: "apxprocess \<Rightarrow> nat multiset" where
  "thread_handles p = (case hWorkerThreads p of (a, b, c) \<Rightarrow> handle_ms a + handle_ms b + handle_ms c)"

definition own_handles :: "apxprocess \<Rightarrow> nat multiset" where
  "own_handles p = handle_ms (hProcess p) + handle_ms (hThread p) + handle_ms (hUserToken p) + handle_ms (hCurrentProcess p)"

lemmas handle_defs = child_ends_def parent_ends_def thread_handles_def own_handles_def

text \<open>The open handles are \<open>b\<close> and those in the variables of the process.\<close>

definition owns :: "nat multiset \<Rightarrow> proc_state \<Rightarrow> bool" where
  "owns b st \<longleftrightarrow> mset (open_handles (snd st)) =
     b + own_handles (fst st) + thread_handles (fst st) + parent_ends (fst st) + child_ends (fst st)"

lemma ask_handles: "ask env c s = (r, s') \<Longrightarrow> open_handles s' = open_handles s"
  by (auto simp: ask_def)

lemma ask_keeps_handles [simp]: "open_handles (snd (ask env c s)) = open_handles s"
  by (simp add: ask_def)

lemma ask_handle_adds: "ask_handle env c s = (h, s') \<Longrightarrow> mset (open_handles s') = handle_ms h + mset (open_handles s)"
  by (auto simp: ask_handle_def new_handle_def ask_def split: if_splits prod.splits)

lemma close_handle_removes:
  "mset (open_handles s) = handle_ms h + b \<Longrightarrow> mset (open_handles (close_handle h s)) = b"
  by (cases h) (simp_all add: close_handle_def)

lemma user_callback_handles [simp]: "open_handles (user_callback env p m w l s) = open_handles s"
  by (simp add: user_callback_def)

lemma pipe_stage_adds:
  assumes "pipe_stage env b upd (p, s) = (ok, p', s')"
  shows "(\<exists>r w. p' = upd r w p \<and> mset (open_handles s') = {#r, w#} + mset (open_handles s))
    \<or> \<not> ok \<and> p' = p \<and> open_handles s' = open_handles s"
proof (cases "env (sys_calls s) Create_pipe = 0")
  case True
  then show ?thesis using assms by (auto simp: pipe_stage_def pipe_ends_def ask_def)
next
  case False
  then have "p' = upd (next_handle s) (Suc (next_handle s)) p"
    "mset (open_handles s') = {#next_handle s, Suc (next_handle s)#} + mset (open_handles s)"
    using assms by (auto simp: pipe_stage_def pipe_ends_def no_inherit_def new_handle_def ask_def)
  then show ?thesis by blast
qed

definition no_pipes :: "apxprocess \<Rightarrow> bool" where
  "no_pipes p \<longleftrightarrow> hChildStdInp p = None \<and> hChildStdOut p = None \<and> hChildStdErr p = None
     \<and> hChildInpWr p = None \<and> hChildOutRd p = None \<and> hChildErrRd p = None"

lemma pipes_owned:
  assumes "owns b (p, s)" "no_pipes p" "apxProcCreateChildPipes env (p, s) = (ok, p', s')"
  shows "owns b (p', s')"
proof -
  obtain ok1 p1 s1 where 1: "pipe_stage env True (\<lambda>r w p. p\<lparr>hChildStdInp := Some r, hChildInpWr := Some w\<rparr>) (p, s) = (ok1, p1, s1)"
    by (metis prod_cases3)
  obtain ok2 p2 s2 where 2: "pipe_stage env False (\<lambda>r w p. p\<lparr>hChildOutRd := Some r, hChildStdOut := Some w\<rparr>) (p1, s1) = (ok2, p2, s2)"
    by (metis prod_cases3)
  obtain ok3 p3 s3 where 3: "pipe_stage env False (\<lambda>r w p. p\<lparr>hChildErrRd := Some r, hChildStdErr := Some w\<rparr>) (p2, s2) = (ok3, p3, s3)"
    by (metis prod_cases3)
  have o1: "owns b (p1, s1) \<and> hChildStdOut p1 = None \<and> hChildStdErr p1 = None \<and> hChildOutRd p1 = None \<and> hChildErrRd p1 = None"
    using pipe_stage_adds [OF 1] assms(1,2) by (auto simp: owns_def handle_defs no_pipes_def)
  have o2: "owns b (p2, s2) \<and> hChildStdErr p2 = None \<and> hChildErrRd p2 = None"
    using pipe_stage_adds [OF 2] o1 by (auto simp: owns_def handle_defs)
  have o3: "owns b (p3, s3)"
    using pipe_stage_adds [OF 3] o2 by (auto simp: owns_def handle_defs)
  show ?thesis
    using assms(3) 1 2 3 o1 o2 o3 by (auto simp: apxProcCreateChildPipes_def split: bool.splits)
qed

lemma close_parent_owned:
  assumes "owns b (p, s)"
  shows "owns b (close_parent_pipes (p, s))"
proof -
  let ?r = "b + own_handles p + thread_handles p + child_ends p"
  have "mset (open_handles (close_handle (hChildErrRd p) (close_handle (hChildOutRd p) (close_handle (hChildInpWr p) s)))) = ?r"
    using assms by (intro close_handle_removes) (simp_all add: owns_def parent_ends_def ac_simps)
  then show ?thesis by (simp add: close_parent_pipes_def owns_def handle_defs)
qed

lemma close_child_owned:
  assumes "owns b (p, s)"
  shows "owns b (close_child_pipes (p, s))"
proof -
  let ?r = "b + own_handles p + thread_handles p + parent_ends p"
  have "mset (open_handles (close_handle (hChildStdErr p) (close_handle (hChildStdOut p) (close_handle (hChildStdInp p) s)))) = ?r"
    using assms by (intro close_handle_removes) (simp_all add: owns_def child_ends_def ac_simps)
  then show ?thesis by (simp add: close_child_pipes_def owns_def handle_defs)
qed

definition not_started :: "apxprocess \<Rightarrow> bool" where
  "not_started p \<longleftrightarrow> is_process p \<and> no_pipes p \<and> hProcess p = None \<and> hThread p = None \<and> hWorkerThreads p = (None, None, None)
     \<and> \<not> child_flag p PROC_INITIALIZED"

lemma start_child_owned:
  assumes "owns b (p, s)" "hProcess p = None" "hThread p = None" "start_child env (p, s) = Some (r, p', s')"
  shows "owns b (p', s') \<and> hWorkerThreads p' = hWorkerThreads p"
  using assms
  by (auto simp: start_child_def owns_def handle_defs new_handle_def ask_def bind_eq_Some_conv split: if_splits prod.splits)

lemma start_threads_owned:
  assumes "owns b (p, s)" "hWorkerThreads p = (None, None, None)"
  shows "owns b (start_threads env (p, s)) \<and> hThread (fst (start_threads env (p, s))) = None"
proof -
  obtain t0 s0 where 0: "ask_handle env (Create_thread 0) s = (t0, s0)" by fastforce
  obtain t1 s1 where 1: "ask_handle env (Create_thread 1) s0 = (t1, s1)" by fastforce
  let ?s1 = "case hThread p of None \<Rightarrow> s1 | Some h \<Rightarrow> snd (ask env (Resume_thread h) s1)"
  have r: "open_handles ?s1 = open_handles s1" by (simp split: option.splits)
  obtain t2 s2 where 2: "ask_handle env (Create_thread 2) ?s1 = (t2, s2)" by fastforce
  let ?p = "p\<lparr>hWorkerThreads := (t0, t1, t2), hThread := None\<rparr>"
  have "mset (open_handles (close_handle (hThread p) s2)) =
      b + own_handles ?p + thread_handles ?p + parent_ends ?p + child_ends ?p"
    using ask_handle_adds [OF 0] ask_handle_adds [OF 1] ask_handle_adds [OF 2] assms r
    by (intro close_handle_removes) (simp add: owns_def handle_defs ac_simps)
  then show ?thesis using 0 1 2 by (simp add: start_threads_def owns_def Let_def)
qed

lemma execute_owned:
  assumes "owns b (p, s)" "not_started p" "apxProcessExecute env (p, s) = Some (r, p', s')"
  shows "owns b (p', s') \<and> hThread p' = None \<and> (r \<longrightarrow> child_ends p' = {#})"
proof -
  let ?p = "p\<lparr>bSaveHandles := True, hParentStdSave := std_handles s\<rparr>"
  obtain ok p1 s1 where 1: "apxProcCreateChildPipes env (?p, s) = (ok, p1, s1)" by (metis prod_cases3)
  have o1: "owns b (p1, s1)"
    using assms(1,2) by (intro pipes_owned [OF _ _ 1]) (simp_all add: owns_def handle_defs not_started_def no_pipes_def)
  have k1: "hProcess p1 = None \<and> hThread p1 = None \<and> hWorkerThreads p1 = (None, None, None)"
    using 1 assms(2)
    by (auto simp: apxProcCreateChildPipes_def pipe_stage_def not_started_def split: prod.splits bool.splits option.splits)
  show ?thesis
  proof (cases ok)
    case False
    then have "(p', s') = close_parent_pipes (p1, s1) \<and> \<not> r"
      using assms(2,3) 1 by (auto simp: apxProcessExecute_def not_started_def Let_def)
    then show ?thesis using close_parent_owned [OF o1] k1 by (auto simp: close_parent_pipes_def)
  next
    case True
    let ?p1 = "p1\<lparr>lpEnvironment := Live ()\<rparr>"
    let ?s1 = "s1\<lparr>std_handles := (hChildStdInp p1, hChildStdOut p1, hChildStdErr p1)\<rparr>"
    let ?rest = "\<lambda>bS p s. let (p, s) = close_child_pipes (p, s) in
         if \<not> bS then (False, close_parent_pipes (p, s))
         else let p = p\<lparr>dwChildStatus := dwChildStatus p OR CHILD_RUNNING OR PROC_INITIALIZED\<rparr>
              in (True, start_threads env (p, s))"
    obtain u where u: "(if lpEnvironment p1 = Null then Some Null else apxFree (lpEnvironment p1)) = Some u"
      and e: "do { (bS, p, s) \<leftarrow> start_child env (?p1, ?s1); Some (?rest bS p s) } = Some (r, p', s')"
      using assms(2,3) 1 True
      by (cases "if lpEnvironment p1 = Null then Some Null else apxFree (lpEnvironment p1)")
        (simp_all add: apxProcessExecute_def not_started_def case_prod_beta Let_def if_distrib [of Some] cong: if_cong)
    then obtain bS p2 s2 where 2: "start_child env (?p1, ?s1) = Some (bS, p2, s2)" and res: "(r, p', s') = ?rest bS p2 s2"
      by (cases "start_child env (?p1, ?s1)") auto
    have "owns b (?p1, ?s1)" using o1 by (simp add: owns_def handle_defs)
    then have o2: "owns b (p2, s2) \<and> hWorkerThreads p2 = (None, None, None)"
      using start_child_owned [OF _ _ _ 2] k1 by simp
    obtain p3 s3 where 3: "close_child_pipes (p2, s2) = (p3, s3)" by fastforce
    have o3: "owns b (p3, s3)" using close_child_owned [of b p2 s2] o2 3 by simp
    have k3: "child_ends p3 = {#} \<and> hWorkerThreads p3 = (None, None, None) \<and> hThread p3 = hThread p2"
      using 3 o2 by (auto simp: close_child_pipes_def child_ends_def)
    show ?thesis
    proof (cases bS)
      case True
      let ?p3 = "p3\<lparr>dwChildStatus := dwChildStatus p3 OR CHILD_RUNNING OR PROC_INITIALIZED\<rparr>"
      have "owns b (?p3, s3)" using o3 by (simp add: owns_def handle_defs)
      moreover have "r \<and> (p', s') = start_threads env (?p3, s3)" using res 3 True by (simp add: Let_def)
      moreover have "child_ends (fst (start_threads env (?p3, s3))) = {#}"
        using k3 by (auto simp: start_threads_def child_ends_def Let_def split: prod.splits)
      moreover have "hWorkerThreads ?p3 = (None, None, None)" using k3 by simp
      ultimately show ?thesis using start_threads_owned [of b ?p3 s3 env] by (cases "start_threads env (?p3, s3)") simp
    next
      case False
      have "hThread p2 = None"
        using 2 False k1 by (auto simp: start_child_def new_handle_def ask_def bind_eq_Some_conv split: if_splits prod.splits)
      then show ?thesis using res 3 False close_parent_owned [OF o3] k3 by (auto simp: Let_def close_parent_pipes_def)
    qed
  qed
qed

lemma exit_child_owned:
  assumes "owns b (p, s)"
  shows "owns b (exit_child env (p, s)) \<and> fst (exit_child env (p, s)) = p"
proof -
  obtain d s1 where 1: "ask_handle env Duplicate_handle s = (d, s1)" by fastforce
  show ?thesis
  proof (cases d)
    case None
    then show ?thesis using 1 ask_handle_adds [OF 1] assms by (simp add: exit_child_def terminate_child_def owns_def)
  next
    case (Some n)
    obtain r s2 where 2: "ask_handle env (Create_remote_thread n) s1 = (r, s2)" by fastforce
    show ?thesis
    proof (cases r)
      case None
      then show ?thesis
        using 1 2 ask_handle_adds [OF 1] ask_handle_adds [OF 2] assms Some close_handle_removes [of s2 d "mset (open_handles s)"]
        by (simp add: exit_child_def owns_def)
    next
      case (Some m)
      obtain w s3 where 3: "ask env (Wait_for [hProcess p] 2000) s2 = (w, s3)" by fastforce
      let ?s4 = "snd (if w = WAIT_OBJECT_0 then (p, s3) else terminate_child env (p, s3))"
      have "mset (open_handles ?s4) = handle_ms r + (handle_ms d + mset (open_handles s))"
        using ask_handle_adds [OF 1] ask_handle_adds [OF 2] ask_handles [OF 3]
        by (simp add: terminate_child_def)
      then have "mset (open_handles (close_handle d (close_handle r ?s4))) = mset (open_handles s)"
        by (intro close_handle_removes)
      then show ?thesis
        using 1 2 3 \<open>d = Some n\<close> Some assms by (auto simp: exit_child_def owns_def terminate_child_def)
    qed
  qed
qed

lemma check_if_active_keeps:
  "check_if_active env (p, s) = (a, p', s') \<Longrightarrow> p' = p \<and> open_handles s' = open_handles s"
  by (auto simp: check_if_active_def ask_def split: prod.splits if_splits)

lemma close_input_owned:
  assumes "owns b (p, s)"
  shows "owns b (p\<lparr>hChildInpWr := None\<rparr>, close_handle (hChildInpWr p) s)"
proof -
  let ?p = "p\<lparr>hChildInpWr := None\<rparr>"
  have "mset (open_handles (close_handle (hChildInpWr p) s)) =
      b + own_handles ?p + thread_handles ?p + parent_ends ?p + child_ends ?p"
    using assms by (intro close_handle_removes) (simp add: owns_def handle_defs ac_simps)
  then show ?thesis by (simp add: owns_def)
qed

lemma close_process_owned:
  assumes "owns b (p, s)"
  shows "owns b (p\<lparr>hProcess := None\<rparr>, close_handle (hProcess p) s)"
proof -
  let ?p = "p\<lparr>hProcess := None\<rparr>"
  have "mset (open_handles (close_handle (hProcess p) s)) =
      b + own_handles ?p + thread_handles ?p + parent_ends ?p + child_ends ?p"
    using assms by (intro close_handle_removes) (simp add: owns_def handle_defs ac_simps)
  then show ?thesis by (simp add: owns_def)
qed

lemma owns_same: "open_handles s' = open_handles s \<Longrightarrow> owns b (p, s') = owns b (p, s)"
  by (simp add: owns_def)

lemma process_close_owned:
  assumes "owns b (p, s)"
  shows "owns b (apxProcessClose env (p, s)) \<and> hThread (fst (apxProcessClose env (p, s))) = hThread p
    \<and> child_ends (fst (apxProcessClose env (p, s))) = child_ends p"
proof -
  let ?m = "case check_if_active env (p, s) of (active, p, s) \<Rightarrow>
              if \<not> active then (p, s)
              else let s = close_handle (hChildInpWr p) s; p = p\<lparr>hChildInpWr := None\<rparr> in
                   case ask env (Wait_for [hProcess p] 1000) s of (r, s) \<Rightarrow>
                   if r = WAIT_OBJECT_0 then (p, s)
                   else case check_if_active env (p, s) of (active, st) \<Rightarrow> if active then exit_child env st else st"
  obtain a1 p1 s1 where 1: "check_if_active env (p, s) = (a1, p1, s1)" by (metis prod_cases3)
  have o1: "owns b (p, s1)" "p1 = p" using check_if_active_keeps [OF 1] assms by (simp_all add: owns_def)
  let ?p = "p\<lparr>hChildInpWr := None\<rparr>" and ?s = "close_handle (hChildInpWr p) s1"
  obtain r s2 where 2: "ask env (Wait_for [hProcess p] 1000) ?s = (r, s2)" by fastforce
  obtain a3 p3 s3 where 3: "check_if_active env (?p, s2) = (a3, p3, s3)" by (metis prod_cases3)
  have o3: "owns b (?p, s2)" "owns b (?p, s3)" "p3 = ?p"
    using close_input_owned [OF o1(1)] ask_handles [OF 2] check_if_active_keeps [OF 3] by (simp_all add: owns_def)
  have m: "owns b ?m \<and> (fst ?m = p \<or> fst ?m = ?p)"
    using 1 2 3 o1 o3 exit_child_owned [OF o3(2), of env] by (simp add: Let_def)
  obtain pm sm where pm: "?m = (pm, sm)" by fastforce
  then have e: "apxProcessClose env (p, s) =
      (pm\<lparr>hProcess := None, dwChildStatus := dwChildStatus pm AND NOT CHILD_RUNNING\<rparr>, close_handle (hProcess pm) sm)"
    by (simp add: apxProcessClose_def)
  have "owns b (pm\<lparr>hProcess := None\<rparr>, close_handle (hProcess pm) sm)" using m pm by (intro close_process_owned) simp
  then show ?thesis using m pm unfolding e by (auto simp: owns_def handle_defs)
qed

text \<open>What the message \<open>WM_CLOSE\<close> leaves open of the handles of a process: the ends of pipes that were meant for the child.\<close>

lemma close_message_owned:
  assumes "owns b (p, s)" "hThread p = None" "close_message env (p, s) = Some (p', s')"
  shows "mset (open_handles s') = b + child_ends p"
proof -
  let ?c = "if child_flag p CHILD_RUNNING
           then (case apxProcessClose env (p, s) of (p, s) \<Rightarrow>
                   (p, case hWorkerThreads p of (t0, t1, t2) \<Rightarrow> snd (ask env (Wait_for [t0, t1, t2] INFINITE) s)))
           else (p, s)"
  obtain p1 s1 where 1: "?c = (p1, s1)" by fastforce
  have o1: "owns b (p1, s1) \<and> hThread p1 = None \<and> child_ends p1 = child_ends p"
    using 1 process_close_owned [OF assms(1), of env] assms(1,2)
    by (cases "apxProcessClose env (p, s)") (auto simp: owns_def split: if_splits prod.splits)
  let ?p2 = "p1\<lparr>hProcess := None\<rparr>" and ?s2 = "close_handle (hProcess p1) s1"
  obtain p3 s3 where 3: "close_parent_pipes (?p2, ?s2) = (p3, s3)" by fastforce
  have o3: "owns b (p3, s3) \<and> hProcess p3 = None \<and> parent_ends p3 = {#} \<and> hThread p3 = None \<and> child_ends p3 = child_ends p"
    using close_parent_owned [OF close_process_owned] o1 3
    by (auto simp: close_parent_pipes_def handle_defs)
  obtain t0 t1 t2 where t: "hWorkerThreads p3 = (t0, t1, t2)" by (metis prod_cases3)
  let ?s4 = "close_handle t2 (close_handle t1 (close_handle t0 s3))"
  have "mset (open_handles (close_handle (hUserToken p3) ?s4)) = handle_ms (hCurrentProcess p3) + (b + child_ends p)"
    using o3 t by (intro close_handle_removes) (simp add: owns_def own_handles_def thread_handles_def ac_simps)
  moreover let ?s5 = "if bSaveHandles p3 then close_handle (hUserToken p3) ?s4\<lparr>std_handles := hParentStdSave p3\<rparr>
      else close_handle (hUserToken p3) ?s4"
  have "s' = close_handle (hCurrentProcess p3) ?s5"
    using assms(3) 1 3 t by (auto simp: close_message_def Let_def bind_eq_Some_conv split: if_splits)
  ultimately show ?thesis using close_handle_removes [of ?s5 "hCurrentProcess p3" "b + child_ends p"] by simp
qed

lemma user_token_handles:
  assumes "user_token env nt4 user pass logon s = (t, s')"
  shows "mset (open_handles s') = (case t of None \<Rightarrow> {#} | Some h \<Rightarrow> handle_ms h) + mset (open_handles s)"
proof (cases "user = None \<or> \<not> nt4")
  case True
  then show ?thesis using assms by (auto simp: user_token_def split: option.splits)
next
  case False
  then obtain u where u: "user = Some u" nt4 by auto
  obtain h1 s1 where 1: "ask_handle env (Logon_user u pass logon) s = (h1, s1)" by fastforce
  obtain h2 s2 where 2: "ask_handle env Duplicate_token s1 = (h2, s2)" by fastforce
  have c: "mset (open_handles (close_handle h1 s2)) = handle_ms h2 + mset (open_handles s)"
    using ask_handle_adds [OF 1] ask_handle_adds [OF 2] by (intro close_handle_removes) (simp add: ac_simps)
  have d: "mset (open_handles (close_handle h2 (close_handle h1 s3))) = mset (open_handles s)"
    "mset (open_handles (close_handle h1 s3)) = handle_ms h2 + mset (open_handles s)"
    if "open_handles s3 = open_handles s2" for s3
  proof -
    show "mset (open_handles (close_handle h1 s3)) = handle_ms h2 + mset (open_handles s)"
      using c that by (cases h1) (simp_all add: close_handle_def)
    then show "mset (open_handles (close_handle h2 (close_handle h1 s3))) = mset (open_handles s)"
      by (rule close_handle_removes)
  qed
  show ?thesis
    using assms u 1 2 ask_handle_adds [OF 1] c d [OF ask_handles]
    by (cases h1; cases h2) (auto simp: user_token_def split: prod.splits if_splits)
qed

text \<open>A process that is created, given its texts, started or tried to be started, and closed
  leaves no handle open that was not open before, whatever Windows answers. If it could not be
  started, the ends of pipes that were meant for the child may be left, which is where a later
  pipe could not be made.\<close>

theorem process_handles_closed:
  assumes "apxCreateProcessW env nt4 opts cb user pass logon s0 = (Some p0, s1)"
    and "p = p0\<lparr>szApplicationExec := exec, szCommandLine := args, szWorkingPath := path\<rparr>"
    and "apxProcessExecute env (p, s1) = Some (r, p', s2)" "close_message env (p', s2) = Some (p'', s3)"
  shows "mset (open_handles s3) = mset (open_handles s0) + child_ends p' \<and> (r \<longrightarrow> child_ends p' = {#})"
proof -
  obtain t s' where 1: "user_token env nt4 user pass logon s0 = (Some t, s')"
    using assms(1) by (auto simp: apxCreateProcessW_def split: prod.splits option.splits)
  obtain h s'' where 2: "ask_handle env Duplicate_handle s' = (h, s'')" by fastforce
  have "s1 = s'' \<and> not_started p \<and> own_handles p = handle_ms t + handle_ms h"
    using assms(1,2) 1 2
    by (auto simp: apxCreateProcessW_def new_process_def not_started_def no_pipes_def is_process_def child_flag_def own_handles_def)
  then have p: "owns (mset (open_handles s0)) (p, s1)" "not_started p"
    using user_token_handles [OF 1] ask_handle_adds [OF 2] by (simp_all add: owns_def not_started_def no_pipes_def parent_ends_def child_ends_def thread_handles_def)
  then show ?thesis using execute_owned [OF p assms(3)] close_message_owned [OF _ _ assms(4)] by simp
qed

section \<open>Closing twice\<close>

lemma free_twice: "apxFree a = Some b \<Longrightarrow> a \<noteq> Null \<Longrightarrow> apxFree b = None"
  by (auto simp: apxFree_def split: ptr.splits)

lemma process_close_texts:
  "szApplicationExec (fst (apxProcessClose env (p, s))) = szApplicationExec p"
  "szCommandLine (fst (apxProcessClose env (p, s))) = szCommandLine p"
  "szWorkingPath (fst (apxProcessClose env (p, s))) = szWorkingPath p"
  "lpEnvironment (fst (apxProcessClose env (p, s))) = lpEnvironment p"
  by (auto simp: apxProcessClose_def check_if_active_def exit_child_def terminate_child_def Let_def
      split: prod.splits if_splits option.splits)

lemma close_message_frees:
  assumes "close_message env (p, s) = Some (p', s')" "szApplicationExec p \<noteq> Null"
  shows "apxFree (szApplicationExec p') = None"
  using assms process_close_texts(1) [of env p s] free_twice [of "szApplicationExec p"]
  by (auto simp: close_message_def close_parent_pipes_def Let_def bind_eq_Some_conv split: prod.splits if_splits)

text \<open>A process that is killed when the time of a wait is over is closed a second time when its handle is
  closed, and that frees strings that are free already: the pointers are not cleared.\<close>

theorem killed_process_freed_twice:
  assumes "apxProcessWait env ms True (p, s) = Some (WAIT_TIMEOUT, p', s')"
    and "szApplicationExec p \<noteq> Null"
  shows "apxProcessCallback k env' Msg_close (p', s'') = None"
proof -
  obtain s1 where "apxProcessCallback 0 env Msg_close (p, s1) = Some (p', s')"
    using assms(1) by (auto simp: apxProcessWait_def WAIT_TIMEOUT_def WAIT_ABANDONED_def WAIT_OBJECT_0_def split: if_splits prod.splits)
  then have f: "apxFree (szApplicationExec p') = None"
    using close_message_frees assms(2) by (auto simp: apxProcessCallback_def)
  have "close_message env' (p', s2) = None" for s2
    using f process_close_texts(1) [of env' p' s2]
    by (auto simp: close_message_def close_parent_pipes_def Let_def split: prod.splits if_splits)
  then show ?thesis by (simp add: apxProcessCallback_def)
qed

text \<open>An environment for the witnesses: everything is granted; a wait for a child that was told to end lasts too long.\<close>

definition granting :: sys_env where
  "granting cs c =
     (case c of Wait_for _ ms \<Rightarrow> if ms = INFINITE then WAIT_OBJECT_0 else WAIT_TIMEOUT
      | Exit_code_of _ \<Rightarrow> STILL_ACTIVE
      | _ \<Rightarrow> 1)"

definition first_system :: winsys where
  "first_system = \<lparr>sys_calls = [], open_handles = [1, 2], next_handle = 3, std_handles = (None, None, None)\<rparr>"

lemmas process_evaluation =
  apxCreateProcessW_def user_token_def ask_handle_def ask_def new_handle_def new_process_def apxProcessExecute_def
  is_process_def child_flag_def apxProcCreateChildPipes_def pipe_stage_def pipe_ends_def no_inherit_def start_child_def
  passed_def close_child_pipes_def close_handle_def start_threads_def granting_def first_system_def Let_def
  APXHANDLE_TYPE_PROCESS_def PROC_INITIALIZED_def CHILD_RUNNING_def CREATE_SUSPENDED_def CREATE_UNICODE_ENVIRONMENT_def

lemma started_process:
  obtains p0 s0 p s where "apxCreateProcessW granting True 0 False None None False first_system = (Some p0, s0)"
    "apxProcessExecute granting (p0\<lparr>szApplicationExec := Live [97], szCommandLine := Live [97], szWorkingPath := Null\<rparr>, s0) = Some (True, p, s)"
    "szApplicationExec p = Live [97]" "szCommandLine p = Live [97]" "szWorkingPath p = Null" "lpEnvironment p = Live ()"
    "child_flag p CHILD_RUNNING" "is_process p"
  by (simp add: process_evaluation)

lemma free_live: "a \<noteq> Freed \<Longrightarrow> \<exists>b. apxFree a = Some b"
  by (auto simp: apxFree_def split: ptr.splits)

lemma close_message_some:
  assumes "szApplicationExec p \<noteq> Freed" "szCommandLine p \<noteq> Freed" "szWorkingPath p \<noteq> Freed" "lpEnvironment p \<noteq> Freed"
  shows "\<exists>p' s'. close_message env (p, s) = Some (p', s')"
proof -
  obtain a b c d where "apxFree (szApplicationExec p) = Some a" "apxFree (szCommandLine p) = Some b"
    "apxFree (szWorkingPath p) = Some c" "apxFree (lpEnvironment p) = Some d"
    using assms free_live by metis
  then show ?thesis
    using process_close_texts [of env p s]
    by (cases "apxProcessClose env (p, s)") (simp add: close_message_def close_parent_pipes_def Let_def split: prod.splits)
qed

lemma process_handles_closed_witness:
  "\<exists>p0 s0 p s p' s'. apxCreateProcessW granting True 0 False None None False first_system = (Some p0, s0)
     \<and> apxProcessExecute granting (p0\<lparr>szApplicationExec := Live [97], szCommandLine := Live [97], szWorkingPath := Null\<rparr>, s0) = Some (True, p, s)
     \<and> close_message granting (p, s) = Some (p', s') \<and> mset (open_handles s') = {#1, 2#}"
proof (rule started_process)
  fix p0 s0 p s
  assume a: "apxCreateProcessW granting True 0 False None None False first_system = (Some p0, s0)"
    "apxProcessExecute granting (p0\<lparr>szApplicationExec := Live [97], szCommandLine := Live [97], szWorkingPath := Null\<rparr>, s0) = Some (True, p, s)"
    "szApplicationExec p = Live [97]" "szCommandLine p = Live [97]" "szWorkingPath p = Null" "lpEnvironment p = Live ()"
  then obtain p' s' where c: "close_message granting (p, s) = Some (p', s')" using close_message_some [of p granting s] by auto
  from process_handles_closed [OF a(1) refl a(2) c] a(1,2) c show ?thesis by (auto simp: first_system_def)
qed

lemma killed_process_freed_twice_witness:
  "\<exists>q p s. szApplicationExec (fst q) = Live [97] \<and> apxProcessWait granting 5000 True q = Some (WAIT_TIMEOUT, p, s)
     \<and> apxProcessCallback 0 granting Msg_close (p, s) = None"
proof (rule started_process)
  fix p0 s0 p s
  assume a: "szApplicationExec p = Live [97]" "szCommandLine p = Live [97]" "szWorkingPath p = Null" "lpEnvironment p = Live ()"
    "child_flag p CHILD_RUNNING" "is_process p"
  let ?s = "user_callback granting p WM_CLOSE 0 0 (snd (ask granting (Wait_for (case hWorkerThreads p of (a, b, c) \<Rightarrow> [a, b, c]) 5000) s))"
  obtain p' s' where c: "close_message granting (p, ?s) = Some (p', s')"
    using a close_message_some [of p granting ?s] by auto
  have w: "apxProcessWait granting 5000 True (p, s) = Some (WAIT_TIMEOUT, p', s')"
    using a c by (auto simp: apxProcessWait_def apxProcessCallback_def ask_def granting_def INFINITE_def split: prod.splits)
  have "szApplicationExec p \<noteq> Null" using a by simp
  from killed_process_freed_twice [OF w this] show ?thesis using a(1) w by (intro exI [of _ "(p, s)"]) auto
qed

section \<open>Writing to the child\<close>

text \<open>What was written: of every write the bytes that it reported.\<close>

fun delivered :: "sys_env \<Rightarrow> sys_call list \<Rightarrow> byte list" where
  "delivered env (Bytes_written h # Write_file h' w # cs) =
     delivered env cs @ take (unat (env (Write_file h' w # cs) (Bytes_written h))) w"
| "delivered env (c # cs) = delivered env cs"
| "delivered env [] = []"

text \<open>Data are written to a running child completely and in order, by as many partial writes as it takes, if every
  write takes at least one byte and not more than it was given; a write that succeeds without taking any would be repeated for ever.\<close>

theorem process_write_complete:
  assumes "\<And>cs h w. env cs (Write_file h w) \<noteq> 0"
    and "\<And>cs h w. w \<noteq> [] \<Longrightarrow> 1 \<le> unat (env (Write_file h w # cs) (Bytes_written h))
           \<and> unat (env (Write_file h w # cs) (Bytes_written h)) \<le> length w"
    and "is_process p" "child_flag p CHILD_RUNNING" "b \<noteq> []"
  shows "\<exists>s'. apxProcessWrite (length b) env (Some b) (p, s) = Some (of_nat (length b), p, s')
    \<and> delivered env (sys_calls s') = delivered env (sys_calls s) @ b"
proof -
  have "b \<noteq> [] \<Longrightarrow> length b \<le> k \<Longrightarrow> \<exists>s'. write_loop k env b n (p, s) = Some (n + of_nat (length b), p, s')
      \<and> delivered env (sys_calls s') = delivered env (sys_calls s) @ b" for k n
  proof (induction k arbitrary: b n s)
    case (Suc k)
    let ?h = "hChildInpWr p"
    let ?cs = "Write_file ?h b # sys_calls s"
    let ?wr = "env ?cs (Bytes_written ?h)"
    let ?s = "s\<lparr>sys_calls := Bytes_written ?h # ?cs\<rparr>"
    have wr: "1 \<le> unat ?wr" "unat ?wr \<le> length b" using assms(2) Suc.prems(1) by blast+
    have step: "write_loop (Suc k) env b n (p, s) =
        (if unat ?wr < length b then write_loop k env (drop (unat ?wr) b) (n + ?wr) (p, ?s) else Some (n + ?wr, p, ?s))"
      using assms(1,4) by (simp add: ask_def)
    show ?case
    proof (cases "unat ?wr < length b")
      case True
      have "drop (unat ?wr) b \<noteq> []" "length (drop (unat ?wr) b) \<le> k"
        using True Suc.prems wr(1) by simp_all
      from Suc.IH [OF this, of "n + ?wr" ?s] obtain s' where s': "write_loop k env (drop (unat ?wr) b) (n + ?wr) (p, ?s) =
          Some (n + ?wr + of_nat (length (drop (unat ?wr) b)), p, s')"
        "delivered env (sys_calls s') = delivered env (sys_calls ?s) @ drop (unat ?wr) b"
        by blast
      have "n + ?wr + of_nat (length (drop (unat ?wr) b)) = n + of_nat (length b)"
        using wr(2) by (simp add: of_nat_diff)
      then show ?thesis using s' step True by (intro exI [of _ s']) simp
    next
      case False
      then have l: "unat ?wr = length b" using wr by simp
      then have "?wr = of_nat (length b)" by (metis of_nat_unat ucast_id)
      then show ?thesis using step False l by (intro exI [of _ ?s]) simp
    qed
  qed simp
  from this [of "length b" 0] show ?thesis using assms(3,5) by (simp add: apxProcessWrite_def)
qed

lemma process_write_complete_witness:
  "\<exists>s'. apxProcessWrite 2 (\<lambda>_ _. 1) (Some [7, 8]) (new_process\<lparr>dwChildStatus := CHILD_RUNNING\<rparr>, first_system) =
     Some (2, new_process\<lparr>dwChildStatus := CHILD_RUNNING\<rparr>, s') \<and> delivered (\<lambda>_ _. 1) (sys_calls s') = [7, 8]"
proof -
  let ?p = "new_process\<lparr>dwChildStatus := CHILD_RUNNING\<rparr>"
  have "is_process ?p" "child_flag ?p CHILD_RUNNING"
    by (simp_all add: new_process_def is_process_def child_flag_def CHILD_RUNNING_def)
  from process_write_complete [OF _ _ this, of "\<lambda>_ _. 1" "[7, 8]" first_system] show ?thesis
    by (simp add: first_system_def Suc_le_eq numeral_2_eq_2)
qed

end
