(* ===== verification/Win_Java.thy ===== *)
theory Win_Java
  imports Win_Java_Args Win_Process
begin

text \<open>
  The JVM as a worker (\<^verbatim>\<open>windows/src/javajni.c\<close>): loading the library, the virtual machine, the
  class and the thread that runs it. The virtual machine and the loader answer calls as Windows
  does: what a call returns is a function of the calls made before. A status is zero
  (\<open>JNI_OK\<close>) for success, an object or a library is zero when there is none.
\<close>

section \<open>The library and the machine\<close>

datatype jni_call =
    File_attributes wtext
  | Load_library wtext dword
  | Free_library nat
  | Set_dll_directory wtext
  | Symbol string
  | Created_vms
  | Created_vm_count
  | Created_vm
  | Java_stack_size
  | Create_vm "jvm_option list" nat dword
  | New_vm
  | Get_env nat dword
  | Attach_thread nat
  | Detach_thread nat
  | Destroy_vm nat
  | Get_version
  | Find_class atext
  | New_global nat
  | Delete_local nat
  | Delete_global nat
  | Static_method nat atext atext
  | Get_method nat atext atext
  | New_object nat nat "nat list"
  | Object_array nat nat
  | Set_element nat nat nat
  | New_string wtext
  | New_string_utf atext
  | Call_static nat nat "8 word" "nat list"
  | Exception_check
  | Exception_clear
  | Dump_all_stacks

record jvm_world =
  jni_calls :: "jni_call list" \<comment> \<open>the latest first\<close>
  jvm_dll :: "nat option"
  dump_symbol :: bool
  sys_jvm :: "nat option"
  vm_exit_code :: dword
  os_of :: winsys

type_synonym jni_env = "jni_call list \<Rightarrow> jni_call \<Rightarrow> dword"

definition jni :: "jni_env \<Rightarrow> jni_call \<Rightarrow> jvm_world \<Rightarrow> dword \<times> jvm_world" where
  "jni env c w = (env (jni_calls w) c, w\<lparr>jni_calls := c # jni_calls w\<rparr>)"

text \<open>A call whose answer is not looked at, and one that returns an object.\<close>

definition jni_do :: "jni_env \<Rightarrow> jni_call \<Rightarrow> jvm_world \<Rightarrow> jvm_world" where
  "jni_do env c w = snd (jni env c w)"

definition jni_obj :: "jni_env \<Rightarrow> jni_call \<Rightarrow> jvm_world \<Rightarrow> nat option \<times> jvm_world" where
  "jni_obj env c w = (case jni env c w of (r, w) \<Rightarrow> (if r = 0 then None else Some (unat r), w))"

definition file_exists :: "jni_env \<Rightarrow> wtext \<Rightarrow> jvm_world \<Rightarrow> bool \<times> jvm_world" where
  "file_exists env f w = (case jni env (File_attributes f) w of (r, w) \<Rightarrow> (r \<noteq> 0, w))"

definition SIZ_PATHLEN :: nat where "SIZ_PATHLEN = 4096"
definition LOAD_WITH_ALTERED_SEARCH_PATH :: dword where "LOAD_WITH_ALTERED_SEARCH_PATH = 0x8"

text \<open>Texts in arrays of \<open>SIZ_PATHLEN\<close> characters: \<open>lstrlcpyW\<close> and \<open>lstrlcatW\<close>.\<close>

definition path_copy :: "wtext \<Rightarrow> wtext" where "path_copy s = take (SIZ_PATHLEN - 1) s"

definition path_cat :: "wtext \<Rightarrow> wtext \<Rightarrow> wtext" where
  "path_cat p s = (if SIZ_PATHLEN \<le> Suc (length p) then p else take (SIZ_PATHLEN - 1) (p @ s))"

definition MSVCRT71_DLLNAME :: wtext where "MSVCRT71_DLLNAME = ch CHR 0x5C # wide ''msvcrt71.dll''"

text \<open>
  \<open>for (i = lstrlenW (p); i > 0, l < 2; i--)\<close>: the comma makes \<open>l < 2\<close> the condition. The
  array is cut at each separator, and \<open>act\<close> is done with what is left; it says whether to leave the loop.
  An index below zero wraps around and is outside the array.
\<close>

definition is_separator :: "wchar \<Rightarrow> bool" where
  "is_separator c \<longleftrightarrow> c = ch CHR 0x5C \<or> c = ch CHR ''/''"

fun walk_up :: "(wtext \<Rightarrow> 's \<Rightarrow> bool \<times> 's) \<Rightarrow> wtext \<Rightarrow> nat \<Rightarrow> nat \<Rightarrow> 's \<Rightarrow> 's option" where
  "walk_up act b i l s =
     (if 2 \<le> l then Some s
      else do {
        c \<leftarrow> get b i;
        let (brk, b, l, s) = (if is_separator c
              then (case act (take i b) s of (brk, s) \<Rightarrow> (brk, b[i := 0], Suc l, s)) else (False, b, l, s));
        (if brk then Some s
         else case i of
                0 \<Rightarrow> if 2 \<le> l then Some s else None
              | Suc k \<Rightarrow> walk_up act b k l s) })"

declare walk_up.simps [simp del]

definition preload_crt :: "jni_env \<Rightarrow> wtext \<Rightarrow> jvm_world \<Rightarrow> bool \<times> jvm_world" where
  "preload_crt env dir w =
     (let crt = path_cat (path_copy dir) MSVCRT71_DLLNAME in
      case file_exists env crt w of (ok, w) \<Rightarrow>
      if ok then (case jni_obj env (Load_library crt 0) w of (h, w) \<Rightarrow> (h \<noteq> None, w)) else (False, w))"

definition set_directory :: "jni_env \<Rightarrow> wtext \<Rightarrow> jvm_world \<Rightarrow> bool \<times> jvm_world" where
  "set_directory env dir w = (False, jni_do env (Set_dll_directory dir) w)"

text \<open>
  The path of the library: the given one has to exist; else \<open>lib\<close> is what
  \<open>apxGetJavaSoftRuntimeLib\<close> gives and \<open>jre\<close> what \<open>apxGetJavaSoftHome\<close> gives.
\<close>

definition jvm_path :: "jni_env \<Rightarrow> wtext option \<Rightarrow> wtext option \<Rightarrow> wtext option \<Rightarrow> jvm_world \<Rightarrow> wtext option \<times> jvm_world" where
  "jvm_path env given lib jre w =
     (case (case given of
              Some p \<Rightarrow> if p \<noteq> [] then (case file_exists env p w of (ok, w) \<Rightarrow> (if ok then Some p else None, w)) else (lib, w)
            | None \<Rightarrow> (lib, w)) of
        (None, w) \<Rightarrow> (None, w)
      | (Some p, w) \<Rightarrow>
          (case file_exists env p w of (ok, w) \<Rightarrow>
             (Some (if ok then p
                    else case jre of
                           None \<Rightarrow> p
                         | Some h \<Rightarrow> path_cat (path_copy h)
                             (ch CHR 0x5C # wide ''bin'' @ ch CHR 0x5C # wide ''server'' @ ch CHR 0x5C # wide ''jvm.dll'')), w)))"

text \<open>Whether the registry is asked for the library, and whether for the home of a run-time environment.\<close>

definition needs_lib :: "wtext option \<Rightarrow> jvm_world \<Rightarrow> bool" where
  "needs_lib given w \<longleftrightarrow> jvm_dll w = None \<and> given \<in> {None, Some []}"

definition needs_jre :: "jni_env \<Rightarrow> wtext option \<Rightarrow> wtext option \<Rightarrow> jvm_world \<Rightarrow> bool" where
  "needs_jre env given lib w \<longleftrightarrow> jvm_dll w = None \<and>
     (let (p, w) = (if given \<in> {None, Some []} then (lib, w)
                    else case file_exists env (the given) w of (ok, w) \<Rightarrow> (if ok then given else None, w))
      in case p of None \<Rightarrow> False | Some f \<Rightarrow> \<not> fst (file_exists env f w))"

definition load_attempts :: "jni_env \<Rightarrow> wtext \<Rightarrow> jvm_world \<Rightarrow> (nat option \<times> jvm_world) option" where
  "load_attempts env p w =
     (let b = path_copy p @ [0]; n = length (path_copy p) in
      case jni_obj env (Load_library p 0) w of
        (Some h, w) \<Rightarrow> Some (Some h, w)
      | (None, w) \<Rightarrow> do {
          w \<leftarrow> (case file_exists env p w of (ok, w) \<Rightarrow> if ok then walk_up (preload_crt env) b n 0 w else Some w);
          (case jni_obj env (Load_library p LOAD_WITH_ALTERED_SEARCH_PATH) w of
             (Some h, w) \<Rightarrow> Some (Some h, w)
           | (None, w) \<Rightarrow> do {
               w \<leftarrow> walk_up (set_directory env) b n 0 w;
               Some (case jni_obj env (Load_library p 0) w of
                       (Some h, w) \<Rightarrow> (Some h, w)
                     | (None, w) \<Rightarrow> jni_obj env (Load_library p LOAD_WITH_ALTERED_SEARCH_PATH) w) }) })"

definition apxLoadJvmDll ::
  "jni_env \<Rightarrow> wtext option \<Rightarrow> wtext option \<Rightarrow> wtext option \<Rightarrow> jvm_world \<Rightarrow> (bool \<times> jvm_world) option" where
  "apxLoadJvmDll env given lib jre w =
     (if jvm_dll w \<noteq> None then Some (True, w)
      else case jvm_path env given lib jre w of
             (None, w) \<Rightarrow> Some (False, w)
           | (Some p, w) \<Rightarrow> do {
               (h, w) \<leftarrow> load_attempts env p w;
               (case h of
                  None \<Rightarrow> Some (False, w)
                | Some n \<Rightarrow>
                    (case jni_obj env (Symbol ''JNI_GetDefaultJavaVMInitArgs'') w of (a, w) \<Rightarrow>
                     case jni_obj env (Symbol ''JNI_CreateJavaVM'') w of (b, w) \<Rightarrow>
                     case jni_obj env (Symbol ''JNI_GetCreatedJavaVMs'') w of (c, w) \<Rightarrow>
                     case jni_obj env (Symbol ''JVM_DumpAllStacks'') w of (d, w) \<Rightarrow>
                     let w = w\<lparr>dump_symbol := d \<noteq> None\<rparr> in
                     if a = None \<or> b = None \<or> c = None then Some (False, jni_do env (Free_library n) w)
                     else Some (True, w\<lparr>jvm_dll := Some n\<rparr>))) })"

section \<open>The object\<close>

definition APXHANDLE_TYPE_JVM :: dword where "APXHANDLE_TYPE_JVM = 0x07000000"
definition JNI_VERSION_1_2 :: dword where "JNI_VERSION_1_2 = 0x00010002"
definition JNI_VERSION_DEFAULT :: dword where "JNI_VERSION_DEFAULT = 0x00010004"
definition JNI_EDETACHED :: dword where "JNI_EDETACHED = - 2"

record javavm =
  dwJavaType :: dword
  dwJavaOptions :: dword
  sClazz :: atext
  sMethod :: atext
  string_class :: "nat option"
  worker_class :: "nat option"
  worker_method :: "nat option"
  worker_args :: nat
  iVersion :: dword
  iVmCount :: dword
  lpEnv :: bool \<comment> \<open>whether it is not null\<close>
  lpJvm :: "nat option"
  hWorkerThread :: "nat option"
  dwWorkerStatus :: dword
  szStackSize :: dword
  hWorkerSync :: "nat option"
  hWorkerInit :: "nat option"

type_synonym java_state = "javavm \<times> jvm_world"

definition is_jvm :: "javavm \<Rightarrow> bool" where "is_jvm j \<longleftrightarrow> dwJavaType j = APXHANDLE_TYPE_JVM"

text \<open>\<open>__apxJvmAttachEnv\<close>: whether there is an environment, and whether the thread was attached for it.\<close>

definition apxJvmAttachEnv :: "jni_env \<Rightarrow> java_state \<Rightarrow> (bool \<times> bool) option \<times> jvm_world" where
  "apxJvmAttachEnv env = (\<lambda>(j, w).
     case (sys_jvm w, lpJvm j) of
       (Some _, Some vm) \<Rightarrow>
         (case jni env (Get_env vm (iVersion j)) w of (st, w) \<Rightarrow>
          case (if st = JNI_EDETACHED then (case jni env (Attach_thread vm) w of (st, w) \<Rightarrow> (st, True, w))
                else (st, False, w)) of (st, att, w) \<Rightarrow> (Some (st = 0, att), w))
     | _ \<Rightarrow> (None, w))"

text \<open>\<open>__apxJvmAttach\<close>: without a machine the environment stays as it is.\<close>

definition apxJvmAttach :: "jni_env \<Rightarrow> java_state \<Rightarrow> bool \<times> java_state" where
  "apxJvmAttach env = (\<lambda>(j, w).
     case apxJvmAttachEnv env (j, w) of
       (None, w) \<Rightarrow> (False, j, w)
     | (Some (ok, _), w) \<Rightarrow> (ok, j\<lparr>lpEnv := ok\<rparr>, w))"

definition apxJvmDetach :: "jni_env \<Rightarrow> java_state \<Rightarrow> bool \<times> java_state" where
  "apxJvmDetach env = (\<lambda>(j, w).
     case (sys_jvm w, lpJvm j) of
       (Some _, Some vm) \<Rightarrow>
         (case jni env (Detach_thread vm) w of (st, w) \<Rightarrow>
            if st \<noteq> 0 then (False, j\<lparr>lpEnv := False\<rparr>, w) else (True, j, w))
     | _ \<Rightarrow> (False, j, w))"

definition apxCreateJava ::
  "jni_env \<Rightarrow> wtext option \<Rightarrow> wtext option \<Rightarrow> wtext option \<Rightarrow> jvm_world \<Rightarrow> (javavm option \<times> jvm_world) option" where
  "apxCreateJava env given lib jre w = do {
     (ok, w) \<leftarrow> apxLoadJvmDll env given lib jre w;
     (if \<not> ok then Some (None, w)
      else case jni env Created_vms w of (st, w) \<Rightarrow>
        if st \<noteq> 0 then Some (None, w)
        else case jni env Created_vm_count w of (n, w) \<Rightarrow>
             case (if n = 0 then (None, w) else jni_obj env Created_vm w) of (vm, w) \<Rightarrow>
        if n \<noteq> 0 \<and> vm = None then Some (None, w)
        else case jni env Java_stack_size w of (sz, w) \<Rightarrow>
          Some (Some \<lparr>dwJavaType = APXHANDLE_TYPE_JVM, dwJavaOptions = 0, sClazz = [], sMethod = [],
                  string_class = None, worker_class = None, worker_method = None, worker_args = 0, iVersion = 0,
                  iVmCount = n, lpEnv = False, lpJvm = vm, hWorkerThread = None, dwWorkerStatus = 0,
                  szStackSize = (if sint sz < 0 \<or> sint sz > 2048 * 1024 then 0 else sz),
                  hWorkerSync = None, hWorkerInit = None\<rparr>,
                w\<lparr>sys_jvm := (if sys_jvm w = None then vm else sys_jvm w)\<rparr>)) }"

text \<open>\<open>apxDestroyJvm\<close>; the thread that destroys the machine is waited for.\<close>

definition apxDestroyJvm :: "jni_env \<Rightarrow> sys_env \<Rightarrow> dword \<Rightarrow> jvm_world \<Rightarrow> bool \<times> jvm_world" where
  "apxDestroyJvm env sys dwTimeout w =
     (case sys_jvm w of
        None \<Rightarrow> (False, w)
      | Some vm \<Rightarrow>
          let w = jni_do env (Detach_thread vm) (w\<lparr>sys_jvm := None\<rparr>) in
          case ask_handle sys (Create_thread 3) (os_of w) of
            (None, s) \<Rightarrow> (False, w\<lparr>os_of := s\<rparr>)
          | (h, s) \<Rightarrow>
              let w = jni_do env (Destroy_vm vm) w in
              (case ask sys (Wait_for [h] dwTimeout) s of (r, s) \<Rightarrow>
                 (r = WAIT_OBJECT_0, w\<lparr>os_of := close_handle h s\<rparr>)))"

section \<open>Classes and methods\<close>

text \<open>\<open>JVM_EXCEPTION_CHECK\<close>, and \<open>JVM_EXCEPTION_CLEAR\<close>.\<close>

definition exception_check :: "jni_env \<Rightarrow> jvm_world \<Rightarrow> bool \<times> jvm_world" where
  "exception_check env w = (case jni env Exception_check w of (r, w) \<Rightarrow> (r \<noteq> 0, w))"

definition exception_clear :: "jni_env \<Rightarrow> jvm_world \<Rightarrow> jvm_world" where
  "exception_clear env w = (case exception_check env w of (e, w) \<Rightarrow> if e then jni_do env Exception_clear w else w)"

text \<open>An object that was asked for: none, and the exception cleared, if there is an exception.\<close>

definition checked_obj :: "jni_env \<Rightarrow> jni_call \<Rightarrow> jvm_world \<Rightarrow> nat option \<times> jvm_world" where
  "checked_obj env c w =
     (case jni_obj env c w of
        (None, w) \<Rightarrow> (None, exception_clear env w)
      | (Some n, w) \<Rightarrow> (case exception_check env w of (e, w) \<Rightarrow> if e then (None, exception_clear env w) else (Some n, w)))"

definition apxJavaCreateClassV :: "jni_env \<Rightarrow> atext \<Rightarrow> atext \<Rightarrow> nat list \<Rightarrow> java_state \<Rightarrow> nat option \<times> java_state" where
  "apxJavaCreateClassV env szClassName szSignature lpArgs st =
     (if \<not> is_jvm (fst st) then (None, st)
      else case apxJvmAttach env st of
        (False, st) \<Rightarrow> (None, st)
      | (True, j, w) \<Rightarrow>
          (case checked_obj env (Find_class szClassName) w of
             (None, w) \<Rightarrow> (None, j, w)
           | (Some c, w) \<Rightarrow>
               (case checked_obj env (Get_method c (narrow ''<init>'') szSignature) w of
                  (None, w) \<Rightarrow> (None, j, w)
                | (Some m, w) \<Rightarrow> (case checked_obj env (New_object c m lpArgs) w of (r, w) \<Rightarrow> (r, j, w)))))"

definition apxJavaCreateStringA :: "jni_env \<Rightarrow> atext \<Rightarrow> java_state \<Rightarrow> nat option \<times> java_state" where
  "apxJavaCreateStringA env s = (\<lambda>(j, w).
     if \<not> is_jvm j then (None, j, w) else case checked_obj env (New_string_utf s) w of (r, w) \<Rightarrow> (r, j, w))"

definition apxJavaCreateStringW :: "jni_env \<Rightarrow> wtext \<Rightarrow> java_state \<Rightarrow> nat option \<times> java_state" where
  "apxJavaCreateStringW env s = (\<lambda>(j, w).
     if \<not> is_jvm j then (None, j, w) else case checked_obj env (New_string s) w of (r, w) \<Rightarrow> (r, j, w))"

text \<open>The character behind the closing bracket of a signature; zero is the end of the string.\<close>

definition return_char :: "atext \<Rightarrow> byte option" where
  "return_char s = (case dropWhile (\<lambda>c. c \<noteq> of_char CHR '')'') s of [] \<Rightarrow> None | [c] \<Rightarrow> Some 0 | _ # d # _ \<Rightarrow> Some d)"

definition apxJavaCallStaticMethodV ::
  "jni_env \<Rightarrow> nat \<Rightarrow> atext \<Rightarrow> atext \<Rightarrow> nat list \<Rightarrow> java_state \<Rightarrow> dword \<times> java_state" where
  "apxJavaCallStaticMethodV env cls name sig args = (\<lambda>(j, w).
     if \<not> is_jvm j then (0, j, w)
     else case return_char sig of
       None \<Rightarrow> (0, j, w)
     | Some c \<Rightarrow>
         (case checked_obj env (Static_method cls name sig) w of
            (None, w) \<Rightarrow> (0, j, w)
          | (Some m, w) \<Rightarrow>
              if c = of_char CHR ''V'' then (0, j, jni_do env (Call_static cls m c args) w)
              else if c \<in> of_char ` set ''L[ZBCSIJFD''
                   then (case jni env (Call_static cls m c args) w of (r, w) \<Rightarrow> (r, j, w))
                   else (0, j, w)))"

text \<open>\<open>System.setErr (new PrintStream (new FileOutputStream (name, true)))\<close>.\<close>

definition apxJavaSetOut :: "jni_env \<Rightarrow> bool \<Rightarrow> wtext option \<Rightarrow> java_state \<Rightarrow> bool \<times> java_state" where
  "apxJavaSetOut env setErrorOrOut szFilename st =
     (case szFilename of
        None \<Rightarrow> (False, st)
      | Some f \<Rightarrow>
          if \<not> is_jvm (fst st) then (False, st) else
          (case apxJvmAttach env st of
             (False, st) \<Rightarrow> (False, st)
           | (True, st) \<Rightarrow>
          (case apxJavaCreateStringW env f st of
             (None, st) \<Rightarrow> (False, st)
           | (Some fn, st) \<Rightarrow>
          (case apxJavaCreateClassV env (narrow ''java/io/FileOutputStream'') (narrow ''(Ljava/lang/String;Z)V'') [fn, 1] st of
             (None, st) \<Rightarrow> (False, st)
           | (Some fs, st) \<Rightarrow>
          (case apxJavaCreateClassV env (narrow ''java/io/PrintStream'') (narrow ''(Ljava/io/OutputStream;)V'') [fs] st of
             (None, st) \<Rightarrow> (False, st)
           | (Some ps, j, w) \<Rightarrow>
          (case checked_obj env (Find_class (narrow ''java/lang/System'')) w of
             (None, w) \<Rightarrow> (False, j, w)
           | (Some sys, w) \<Rightarrow>
          (case apxJavaCallStaticMethodV env sys (narrow (if setErrorOrOut then ''setErr'' else ''setOut''))
                  (narrow ''(Ljava/io/PrintStream;)V'') [ps] (j, w) of (_, j, w) \<Rightarrow>
           case exception_check env w of (e, w) \<Rightarrow>
             if e then (False, j, exception_clear env w) else (True, j, w))))))))"

section \<open>Starting the machine and the class\<close>

record java_args =
  ja_class_path :: "atext option"
  ja_options :: "atext option"
  ja_ms :: dword
  ja_mx :: dword
  ja_ss :: dword
  ja_vfprintf :: bool
  ja_class :: atext
  ja_method :: "atext option"
  ja_arguments :: "wtext option"
  ja_stderr :: "wtext option"
  ja_stdout :: "wtext option"
  ja_library_path :: "wtext option"

definition apxJavaInitialize ::
  "jni_env \<Rightarrow> (atext \<Rightarrow> (atext \<times> atext list) option) \<Rightarrow> java_args \<Rightarrow> java_state \<Rightarrow> (bool \<times> java_state) option" where
  "apxJavaInitialize env files a st =
     (if \<not> is_jvm (fst st) then Some (False, st)
      else if iVmCount (fst st) \<noteq> 0
      then (case (if lpEnv (fst st) then (True, st)
                  else case apxJvmAttach env st of
                         (True, st) \<Rightarrow> (True, st)
                       | (False, j, w) \<Rightarrow>
                           if iVersion j = JNI_VERSION_1_2 then (False, j, w)
                           else apxJvmAttach env (j\<lparr>iVersion := JNI_VERSION_1_2\<rparr>, w)) of
              (False, st) \<Rightarrow> Some (False, st)
            | (True, j, w) \<Rightarrow>
                (case jni env Get_version w of (v, w) \<Rightarrow>
                   Some (\<not> sint v < sint JNI_VERSION_1_2, j\<lparr>iVersion := v\<rparr>, w)))
      else do {
        (n, opts) \<leftarrow> jvm_options files (ja_class_path a) (ja_options a) (ja_ms a) (ja_mx a) (ja_ss a) (ja_vfprintf a);
        (case st of (j, w) \<Rightarrow>
         let j = j\<lparr>iVersion := JNI_VERSION_DEFAULT\<rparr> in
         case jni env (Create_vm opts n JNI_VERSION_DEFAULT) w of (r, w) \<Rightarrow>
         if r \<noteq> 0 then Some (False, j, w)
         else case jni_obj env New_vm w of (vm, w) \<Rightarrow>
              Some (True, j\<lparr>lpJvm := vm, lpEnv := True\<rparr>, w\<lparr>sys_jvm := (if sys_jvm w = None then vm else sys_jvm w)\<rparr>)) })"

text \<open>The strings of a multi-string, put into an array of Java strings one by one.\<close>

fun set_elements :: "jni_env \<Rightarrow> nat \<Rightarrow> nat \<Rightarrow> wtext list \<Rightarrow> jvm_world \<Rightarrow> jvm_world" where
  "set_elements env arr i [] w = w"
| "set_elements env arr i (s # ss) w =
     (case jni env (New_string s) w of (r, w) \<Rightarrow>
        set_elements env arr (Suc i) ss (jni_do env (Set_element arr i (unat r)) w))"

definition argument_texts :: "wtext option \<Rightarrow> wtext list option" where
  "argument_texts v = do {
     (n, arr, copy) \<leftarrow> apxMultiSzToArrayW v;
     those (map (\<lambda>s. case s of Ptr i \<Rightarrow> Some (text_of (drop i copy)) | _ \<Rightarrow> None) (take n arr)) }"

definition global_class :: "jni_env \<Rightarrow> nat \<Rightarrow> jvm_world \<Rightarrow> nat option \<times> jvm_world" where
  "global_class env c w =
     (case jni_obj env (New_global c) w of (g, w) \<Rightarrow> (g, jni_do env (Delete_local c) w))"

definition JAVA_SYSTEM :: atext where "JAVA_SYSTEM = narrow ''java/lang/System''"

definition apxJavaLoadMainClass :: "jni_env \<Rightarrow> java_args \<Rightarrow> java_state \<Rightarrow> (bool \<times> java_state) option" where
  "apxJavaLoadMainClass env a st =
     (if \<not> is_jvm (fst st) then Some (False, st)
      else case st of (j, w) \<Rightarrow>
        let system = (ja_class a = JAVA_SYSTEM);
            name = (if system then narrow ''exit''
                    else case ja_method a of None \<Rightarrow> narrow ''main'' | Some m \<Rightarrow> if m = [] then narrow ''main'' else m);
            sig = (if system then narrow ''(I)V'' else narrow ''([Ljava/lang/String;)V'');
            j = j\<lparr>sClazz := take 1023 (ja_class a), sMethod := take 511 name\<rparr>
        in case jni_obj env (Find_class (narrow ''java/lang/String'')) w of
          (None, w) \<Rightarrow> Some (False, j, exception_clear env w)
        | (Some c, w) \<Rightarrow>
            (case global_class env c w of (str, w) \<Rightarrow>
             let j = j\<lparr>string_class := str\<rparr> in
             case jni_obj env (Find_class (ja_class a)) w of
               (None, w) \<Rightarrow> Some (False, j, exception_clear env w)
             | (Some c, w) \<Rightarrow>
                 (case global_class env c w of (cls, w) \<Rightarrow>
                  let j = j\<lparr>worker_class := cls\<rparr> in
                  case jni_obj env (Static_method (case cls of None \<Rightarrow> 0 | Some n \<Rightarrow> n) name sig) w of
                    (None, w) \<Rightarrow> Some (False, j\<lparr>worker_method := None\<rparr>, exception_clear env w)
                  | (Some m, w) \<Rightarrow>
                      let j = j\<lparr>worker_method := Some m\<rparr> in
                      if system then Some (True, j, w)
                      else do {
                        args \<leftarrow> argument_texts (ja_arguments a);
                        (case jni env (Object_array (length args) (case str of None \<Rightarrow> 0 | Some n \<Rightarrow> n)) w of (arr, w) \<Rightarrow>
                           Some (True, j\<lparr>worker_args := unat arr\<rparr>, set_elements env (unat arr) 0 args w)) })))"

section \<open>The worker thread\<close>

text \<open>
  The thread up to the place where it reports that it is ready: the exit code if it fails
  before, or the state in which it waits for \<open>apxJavaStart\<close>.
\<close>

definition set_library_path :: "jni_env \<Rightarrow> java_args \<Rightarrow> jvm_world \<Rightarrow> jvm_world" where
  "set_library_path env a w =
     (case ja_library_path a of Some p \<Rightarrow> if p \<noteq> [] then jni_do env (Set_dll_directory p) w else w | None \<Rightarrow> w)"

definition worker_setup ::
  "jni_env \<Rightarrow> (atext \<Rightarrow> (atext \<times> atext list) option) \<Rightarrow> java_args \<Rightarrow> java_state \<Rightarrow> (dword \<times> java_state) option" where
  "worker_setup env files a st =
     (if \<not> is_jvm (fst st) then Some (1, st)
      else do {
        (ok, st) \<leftarrow> apxJavaInitialize env files a st;
        (if \<not> ok then Some (2, st)
         else do {
           (ok, st) \<leftarrow> apxJavaLoadMainClass env a (fst st, set_library_path env a (snd st));
           (if \<not> ok then Some (3, st)
            else do {
              let st = snd (apxJavaSetOut env True (ja_stderr a) st);
              let st = snd (apxJavaSetOut env False (ja_stdout a) st);
              (if worker_class (fst st) = None \<or> worker_method (fst st) = None then Some (4, st)
               else case apxJvmAttach env st of
                      (False, st) \<Rightarrow> Some (5, st)
                    | (True, j, w) \<Rightarrow> Some (0, j\<lparr>dwWorkerStatus := 1\<rparr>, w)) }) }) })"

text \<open>The rest of the thread: the method is called; an exception gives the exit code 1.\<close>

definition worker_main :: "jni_env \<Rightarrow> java_state \<Rightarrow> dword \<times> java_state" where
  "worker_main env = (\<lambda>(j, w).
     let w = jni_do env (Call_static (the (worker_class j)) (the (worker_method j)) (of_char CHR ''V'') [worker_args j]) w in
     case exception_check env w of (e, w) \<Rightarrow>
     let w = (if e then w\<lparr>vm_exit_code := 1\<rparr> else w) in
     case apxJvmDetach env (j, w) of (_, j, w) \<Rightarrow> ((if e then 6 else 0), j\<lparr>dwWorkerStatus := 0\<rparr>, w))"

definition on_os :: "(winsys \<Rightarrow> 'r \<times> winsys) \<Rightarrow> jvm_world \<Rightarrow> 'r \<times> jvm_world" where
  "on_os f w = (case f (os_of w) of (r, s) \<Rightarrow> (r, w\<lparr>os_of := s\<rparr>))"

text \<open>
  \<open>apxJavaStart\<close>. The order of the two threads is that of their events, see
  \<open>Java_Handshake\<close>: the worker does its part before the wait of \<open>apxJavaStart\<close> ends.
\<close>

definition apxJavaStart ::
  "jni_env \<Rightarrow> sys_env \<Rightarrow> (atext \<Rightarrow> (atext \<times> atext list) option) \<Rightarrow> java_args \<Rightarrow> java_state \<Rightarrow> (bool \<times> java_state) option" where
  "apxJavaStart env sys files a = (\<lambda>(j, w).
     case on_os (ask_handle sys Create_event) w of (ini, w) \<Rightarrow>
     case on_os (ask_handle sys Create_event) w of (syn, w) \<Rightarrow>
     case on_os (ask_handle sys (Create_thread 4)) w of (thr, w) \<Rightarrow>
     let j = j\<lparr>dwWorkerStatus := 0, hWorkerInit := ini, hWorkerSync := syn, hWorkerThread := thr\<rparr> in
     if thr = None then Some (False, j, w)
     else do {
       (rv, j, w) \<leftarrow> worker_setup env files a (j, w);
       (if dwWorkerStatus j = 0 then Some (False, j, w)
        else let w = snd (on_os (ask sys (Set_event syn)) w);
                 w = (if sClazz j \<noteq> JAVA_SYSTEM then snd (on_os (ask sys (Sleep_ms 1000)) w) else w)
             in Some (True, j, w)) })"

definition apxJavaSetOptions :: "dword \<Rightarrow> javavm \<Rightarrow> dword \<times> javavm" where
  "apxJavaSetOptions dwOpts j = (if is_jvm j then (dwJavaOptions j, j\<lparr>dwJavaOptions := dwOpts\<rparr>) else (0, j))"

section \<open>Closing and waiting\<close>

definition delete_class :: "jni_env \<Rightarrow> bool \<Rightarrow> nat option \<Rightarrow> jvm_world \<Rightarrow> nat option \<times> jvm_world" where
  "delete_class env has_env c w =
     (case c of Some n \<Rightarrow> if has_env then (None, jni_do env (Delete_global n) w) else (c, w) | None \<Rightarrow> (c, w))"

text \<open>\<open>__apxJavaJniCallback\<close> with \<open>WM_CLOSE\<close>; the other messages do nothing.\<close>

definition java_close :: "jni_env \<Rightarrow> sys_env \<Rightarrow> java_state \<Rightarrow> java_state" where
  "java_close env sys = (\<lambda>(j, w).
     if sys_jvm w = None \<or> lpJvm j = None then (j, w)
     else
       let w = (if hWorkerThread j = None then w
                else case on_os (ask sys (Exit_code_thread (hWorkerThread j))) w of (ok, w) \<Rightarrow>
                     if ok = 0 then w
                     else case on_os (ask sys (Thread_exit_code (hWorkerThread j))) w of (c, w) \<Rightarrow>
                          if c = STILL_ACTIVE then snd (on_os (ask sys (Terminate_thread (hWorkerThread j) 5)) w) else w);
           w = w\<lparr>os_of := close_handle (hWorkerThread j) (os_of w)\<rparr>
       in case apxJvmAttach env (j\<lparr>hWorkerThread := None\<rparr>, w) of (_, j, w) \<Rightarrow>
          case delete_class env (lpEnv j) (worker_class j) w of (c1, w) \<Rightarrow>
          case delete_class env (lpEnv j) (string_class j) w of (c2, w) \<Rightarrow>
          case apxJvmDetach env (j\<lparr>worker_class := c1, string_class := c2\<rparr>, w) of (_, j, w) \<Rightarrow>
          let w = (if iVmCount j = 0 then
                     (case jvm_dll w of None \<Rightarrow> w | Some d \<Rightarrow> (jni_do env (Free_library d) w)\<lparr>jvm_dll := None\<rparr>)
                   else w)
          in (j\<lparr>lpJvm := None\<rparr>, w))"

definition apxJavaWait :: "jni_env \<Rightarrow> sys_env \<Rightarrow> dword \<Rightarrow> bool \<Rightarrow> java_state \<Rightarrow> dword \<times> java_state" where
  "apxJavaWait env sys dwMilliseconds bKill = (\<lambda>(j, w).
     if \<not> is_jvm j then (0, j, w)
     else if dwWorkerStatus j = 0 \<and> hWorkerThread j \<noteq> None then (WAIT_OBJECT_0, j, w)
     else case on_os (ask sys (Wait_for [hWorkerThread j] dwMilliseconds)) w of (rv, w) \<Rightarrow>
          if rv = WAIT_TIMEOUT \<and> bKill then (rv, java_close env sys (j, w)) else (rv, j, w))"

text \<open>
  \<open>bAttached\<close> is only written when the thread was attached; \<open>stale\<close> is what it held before.
\<close>

definition apxJavaDumpAllStacks :: "jni_env \<Rightarrow> bool \<Rightarrow> java_state option \<Rightarrow> jvm_world \<Rightarrow> jvm_world" where
  "apxJavaDumpAllStacks env stale hJava w =
     (case hJava of
        None \<Rightarrow> w
      | Some (j, _) \<Rightarrow>
          if \<not> dump_symbol w \<or> \<not> is_jvm j then w
          else (case apxJvmAttachEnv env (j, w) of
                  (Some (True, att), w) \<Rightarrow>
                    let w = jni_do env Dump_all_stacks w
                    in if att \<or> stale then jni_do env (Detach_thread (the (lpJvm j))) w else w
                | (_, w) \<Rightarrow> w))"

end
