(* ===== verification/Java_Handshake.thy ===== *)
theory Java_Handshake
  imports Win_Java
begin

text \<open>
  The two threads of \<open>apxJavaStart\<close> (\<^verbatim>\<open>windows/src/javajni.c\<close>) as a step relation. Every access to
  what they share is a step: the status of the worker and the two events, which are reset by
  the wait that they end. The steps start when the worker has been resumed.
\<close>

section \<open>The steps\<close>

datatype starter = Wait_init | Read_status | Set_sync | Returned bool

datatype worker = Setup | Ready | Signal_init | Wait_sync | Call_main | Clear_status dword | Signal_end dword | Exited dword

record handshake =
  starter_at :: starter
  worker_at :: worker
  running :: bool \<comment> \<open>\<open>dwWorkerStatus\<close> is one\<close>
  init_event :: bool
  sync_event :: bool
  main_called :: bool

text \<open>\<open>rv\<close> is the exit code of the part of the worker that is \<open>worker_setup\<close>.\<close>

definition hs_start :: handshake where
  "hs_start = \<lparr>starter_at = Wait_init, worker_at = Setup, running = False, init_event = False, sync_event = False,
     main_called = False\<rparr>"

inductive hs_step :: "dword \<Rightarrow> handshake \<Rightarrow> handshake \<Rightarrow> bool" for rv where
  init_signalled: "starter_at h = Wait_init \<Longrightarrow> init_event h \<Longrightarrow>
     hs_step rv h (h\<lparr>starter_at := Read_status, init_event := False\<rparr>)"
| status_read: "starter_at h = Read_status \<Longrightarrow>
     hs_step rv h (h\<lparr>starter_at := if running h then Set_sync else Returned False\<rparr>)"
| sync_set: "starter_at h = Set_sync \<Longrightarrow>
     hs_step rv h (h\<lparr>starter_at := Returned True, sync_event := True\<rparr>)"
| setup_done: "worker_at h = Setup \<Longrightarrow>
     hs_step rv h (h\<lparr>worker_at := if rv = 0 then Ready else Clear_status rv\<rparr>)"
| ready: "worker_at h = Ready \<Longrightarrow> hs_step rv h (h\<lparr>worker_at := Signal_init, running := True\<rparr>)"
| init_set: "worker_at h = Signal_init \<Longrightarrow> hs_step rv h (h\<lparr>worker_at := Wait_sync, init_event := True\<rparr>)"
| sync_signalled: "worker_at h = Wait_sync \<Longrightarrow> sync_event h \<Longrightarrow>
     hs_step rv h (h\<lparr>worker_at := Call_main, sync_event := False\<rparr>)"
| main_ends: "worker_at h = Call_main \<Longrightarrow>
     hs_step rv h (h\<lparr>worker_at := Clear_status (if thrown then 6 else 0), main_called := True\<rparr>)"
| status_cleared: "worker_at h = Clear_status r \<Longrightarrow> hs_step rv h (h\<lparr>worker_at := Signal_end r, running := False\<rparr>)"
| end_set: "worker_at h = Signal_end r \<Longrightarrow> hs_step rv h (h\<lparr>worker_at := Exited r, init_event := True\<rparr>)"

inductive_cases hs_stepE: "hs_step rv h h'"

abbreviation hs_run :: "dword \<Rightarrow> handshake \<Rightarrow> handshake \<Rightarrow> bool" where
  "hs_run rv \<equiv> (hs_step rv)\<^sup>*\<^sup>*"

section \<open>The invariant\<close>

text \<open>Where the worker can be for each place of the caller, and what the shared variables hold there.\<close>

definition hs_inv :: "dword \<Rightarrow> handshake \<Rightarrow> bool" where
  "hs_inv rv h \<longleftrightarrow>
     (case worker_at h of
        Setup \<Rightarrow> starter_at h = Wait_init \<and> \<not> running h \<and> \<not> init_event h \<and> \<not> sync_event h \<and> \<not> main_called h
      | Ready \<Rightarrow> rv = 0 \<and> starter_at h = Wait_init \<and> \<not> running h \<and> \<not> init_event h \<and> \<not> sync_event h \<and> \<not> main_called h
      | Signal_init \<Rightarrow> rv = 0 \<and> starter_at h = Wait_init \<and> running h \<and> \<not> init_event h \<and> \<not> sync_event h \<and> \<not> main_called h
      | Wait_sync \<Rightarrow> rv = 0 \<and> running h \<and> starter_at h \<noteq> Returned False \<and> \<not> main_called h
          \<and> (init_event h \<longleftrightarrow> starter_at h = Wait_init) \<and> (sync_event h \<longleftrightarrow> starter_at h = Returned True)
      | Call_main \<Rightarrow> rv = 0 \<and> starter_at h = Returned True \<and> \<not> main_called h
      | Clear_status r \<Rightarrow> (if rv = 0 then starter_at h = Returned True \<and> main_called h
                         else starter_at h = Wait_init \<and> \<not> running h \<and> \<not> init_event h \<and> \<not> main_called h)
      | Signal_end r \<Rightarrow> (if rv = 0 then starter_at h = Returned True \<and> main_called h
                       else starter_at h = Wait_init \<and> \<not> running h \<and> \<not> init_event h \<and> \<not> main_called h)
      | Exited r \<Rightarrow> (if rv = 0 then starter_at h = Returned True \<and> main_called h
                   else starter_at h \<in> {Wait_init, Read_status, Returned False} \<and> \<not> running h \<and> \<not> main_called h
                     \<and> (starter_at h = Wait_init \<longrightarrow> init_event h)))"

lemma hs_inv_start: "hs_inv rv hs_start"
  by (simp add: hs_inv_def hs_start_def)

lemma hs_inv_step: "hs_step rv h h' \<Longrightarrow> hs_inv rv h \<Longrightarrow> hs_inv rv h'"
  by (induction rule: hs_step.induct) (auto simp: hs_inv_def split: worker.splits starter.splits if_splits)

lemma hs_inv_run: "hs_run rv h h' \<Longrightarrow> hs_inv rv h \<Longrightarrow> hs_inv rv h'"
  by (induction rule: rtranclp_induct) (auto intro: hs_inv_step)

text \<open>No step waits for ever: only when both threads are done there is no step.\<close>

lemma hs_progress:
  assumes "hs_inv rv h" "\<nexists>h'. hs_step rv h h'"
  shows "starter_at h = Returned (rv = 0) \<and> (\<exists>r. worker_at h = Exited r) \<and> (main_called h \<longleftrightarrow> rv = 0)"
proof (cases "worker_at h")
  case (Exited r)
  have "starter_at h \<noteq> Read_status" using assms(2) status_read by blast
  moreover have "starter_at h \<noteq> Wait_init \<or> \<not> init_event h" using assms(2) init_signalled by blast
  ultimately show ?thesis using assms(1) Exited by (auto simp: hs_inv_def split: if_splits)
next
  case Wait_sync
  then show ?thesis
    using assms init_signalled status_read sync_set sync_signalled
    by (cases "starter_at h") (auto simp: hs_inv_def, metis+)
qed (use assms(2) in \<open>blast intro: hs_step.intros\<close>)+

text \<open>Every step takes the two threads forward.\<close>

fun starter_left :: "starter \<Rightarrow> nat" where
  "starter_left Wait_init = 3" | "starter_left Read_status = 2" | "starter_left Set_sync = 1" | "starter_left (Returned b) = 0"

fun worker_left :: "worker \<Rightarrow> nat" where
  "worker_left Setup = 7" | "worker_left Ready = 6" | "worker_left Signal_init = 5" | "worker_left Wait_sync = 4"
| "worker_left Call_main = 3" | "worker_left (Clear_status r) = 2" | "worker_left (Signal_end r) = 1" | "worker_left (Exited r) = 0"

definition hs_left :: "handshake \<Rightarrow> nat" where
  "hs_left h = starter_left (starter_at h) + worker_left (worker_at h)"

lemma hs_step_left: "hs_step rv h h' \<Longrightarrow> hs_left h' < hs_left h"
  by (induction rule: hs_step.induct) (simp_all add: hs_left_def)

lemma hs_run_left: "(hs_step rv ^^ n) h h' \<Longrightarrow> hs_left h' + n \<le> hs_left h"
proof (induction n arbitrary: h')
  case (Suc n)
  then obtain h1 where "(hs_step rv ^^ n) h h1" "hs_step rv h1 h'" by auto
  then show ?case using Suc.IH [of h1] hs_step_left [of rv h1 h'] by simp
qed simp



text \<open>The main method is never called before the start has read the status and returned true.\<close>

lemma main_after_start: "hs_run rv hs_start h \<Longrightarrow> worker_at h = Call_main \<Longrightarrow> starter_at h = Returned True"
  using hs_inv_run [OF _ hs_inv_start] by (fastforce simp: hs_inv_def)

section \<open>The sequential model\<close>

lemma attach_status: "apxJvmAttach env (j, w) = (b, j', w') \<Longrightarrow> dwWorkerStatus j' = dwWorkerStatus j"
  by (auto simp: apxJvmAttach_def split: option.splits prod.splits)

lemma create_class_status: "apxJavaCreateClassV env c s args (j, w) = (b, j', w') \<Longrightarrow> dwWorkerStatus j' = dwWorkerStatus j"
  by (auto simp: apxJavaCreateClassV_def dest!: attach_status split: option.splits prod.splits if_splits bool.splits)

lemma create_string_status: "apxJavaCreateStringW env s (j, w) = (b, j', w') \<Longrightarrow> dwWorkerStatus j' = dwWorkerStatus j"
  by (auto simp: apxJavaCreateStringW_def split: option.splits prod.splits if_splits)

lemma call_static_status: "apxJavaCallStaticMethodV env c n s a (j, w) = (b, j', w') \<Longrightarrow> dwWorkerStatus j' = dwWorkerStatus j"
  by (auto simp: apxJavaCallStaticMethodV_def split: option.splits prod.splits if_splits)

lemma set_out_status: "apxJavaSetOut env e f (j, w) = (b, j', w') \<Longrightarrow> dwWorkerStatus j' = dwWorkerStatus j"
  by (auto simp: apxJavaSetOut_def dest!: attach_status create_class_status create_string_status call_static_status
      split: option.splits prod.splits if_splits bool.splits)

lemma initialize_status:
  assumes "apxJavaInitialize env files a (j, w) = Some (b, j', w')"
  shows "dwWorkerStatus j' = dwWorkerStatus j"
proof (cases "is_jvm j \<and> iVmCount j \<noteq> 0")
  case True
  let ?r = "if lpEnv j then (True, j, w)
     else case apxJvmAttach env (j, w) of
            (True, st) \<Rightarrow> (True, st)
          | (False, j, w) \<Rightarrow>
              if iVersion j = JNI_VERSION_1_2 then (False, j, w)
              else apxJvmAttach env (j\<lparr>iVersion := JNI_VERSION_1_2\<rparr>, w)"
  obtain ok j1 w1 where r: "?r = (ok, j1, w1)" by (rule prod_cases3)
  obtain b2 j2 w2 where 2: "apxJvmAttach env (j, w) = (b2, j2, w2)" by (metis prod_cases3)
  obtain b3 j3 w3 where 3: "apxJvmAttach env (j2\<lparr>iVersion := JNI_VERSION_1_2\<rparr>, w2) = (b3, j3, w3)" by (metis prod_cases3)
  have "dwWorkerStatus j1 = dwWorkerStatus j"
    using r 2 3 attach_status [OF 2] attach_status [OF 3]
    by (cases "lpEnv j"; cases b2; cases "iVersion j2 = JNI_VERSION_1_2") simp_all
  then show ?thesis
    using assms True r by (cases ok) (auto simp: apxJavaInitialize_def split: prod.splits)
next
  case False
  then show ?thesis using assms
    by (auto simp: apxJavaInitialize_def Let_def bind_eq_Some_conv case_prod_beta split: if_split_asm)
qed

lemma load_class_status: "apxJavaLoadMainClass env a (j, w) = Some (b, j', w') \<Longrightarrow> dwWorkerStatus j' = dwWorkerStatus j"
  by (auto simp: apxJavaLoadMainClass_def Let_def bind_eq_Some_conv case_prod_beta split: option.split_asm if_split_asm)

lemma setup_status:
  assumes "worker_setup env files a (j, w) = Some (rv, j', w')" "dwWorkerStatus j = 0"
  shows "dwWorkerStatus j' = 0 \<longleftrightarrow> rv \<noteq> 0"
proof (cases "is_jvm j")
  case False
  then show ?thesis using assms by (auto simp: worker_setup_def)
next
  case True
  then obtain ok1 j1 w1 where 1: "apxJavaInitialize env files a (j, w) = Some (ok1, j1, w1)"
    using assms(1) by (cases "apxJavaInitialize env files a (j, w)") (auto simp: worker_setup_def)
  note s1 = initialize_status [OF 1]
  show ?thesis
  proof (cases ok1)
    case False
    then show ?thesis using assms True 1 s1 by (auto simp: worker_setup_def)
  next
    case ok1: True
    let ?w2 = "set_library_path env a w1"
    obtain ok3 j3 w3 where 3: "apxJavaLoadMainClass env a (j1, ?w2) = Some (ok3, j3, w3)"
      using assms(1) True 1 ok1
      by (cases "apxJavaLoadMainClass env a (j1, ?w2)") (auto simp: worker_setup_def Let_def)
    note s3 = load_class_status [OF 3]
    obtain b4 j4 w4 where 4: "apxJavaSetOut env True (ja_stderr a) (j3, w3) = (b4, j4, w4)" by (metis prod_cases3)
    obtain b5 j5 w5 where 5: "apxJavaSetOut env False (ja_stdout a) (j4, w4) = (b5, j5, w5)" by (metis prod_cases3)
    obtain b6 j6 w6 where 6: "apxJvmAttach env (j5, w5) = (b6, j6, w6)" by (metis prod_cases3)
    show ?thesis
      using assms True 1 ok1 3 4 5 6 s1 s3 set_out_status [OF 4] set_out_status [OF 5] attach_status [OF 6]
      by (cases ok3; cases b6) (auto simp: worker_setup_def Let_def split: if_split_asm)
  qed
qed

text \<open>The sequential start of Java gives the result that the two threads reach, in whatever order their steps are done:
  in a state without a further step the starter has returned what \<open>apxJavaStart\<close> returns.\<close>

theorem java_start_sequential:
  assumes "apxJavaStart env sys files a (j, w) = Some (b, j', w')" "hWorkerThread j' \<noteq> None"
  shows "\<exists>rv. \<forall>h. hs_run rv hs_start h \<and> (\<nexists>h'. hs_step rv h h') \<longrightarrow> starter_at h = Returned b"
proof -
  obtain ini w1 where 1: "on_os (ask_handle sys Create_event) w = (ini, w1)" by fastforce
  obtain syn w2 where 2: "on_os (ask_handle sys Create_event) w1 = (syn, w2)" by fastforce
  obtain thr w3 where 3: "on_os (ask_handle sys (Create_thread 4)) w2 = (thr, w3)" by fastforce
  let ?j = "j\<lparr>dwWorkerStatus := 0, hWorkerInit := ini, hWorkerSync := syn, hWorkerThread := thr\<rparr>"
  have "thr \<noteq> None" using assms 1 2 3 by (cases thr) (auto simp: apxJavaStart_def Let_def)
  then obtain rv j4 w4 where 4: "worker_setup env files a (?j, w3) = Some (rv, j4, w4)"
    using assms(1) 1 2 3 by (cases "worker_setup env files a (?j, w3)") (auto simp: apxJavaStart_def Let_def)
  have "b \<longleftrightarrow> dwWorkerStatus j4 \<noteq> 0"
    using assms(1) \<open>thr \<noteq> None\<close> 1 2 3 4 by (auto simp: apxJavaStart_def Let_def split: if_split_asm)
  then have "b \<longleftrightarrow> rv = 0" using setup_status [OF 4] by simp
  then show ?thesis using hs_progress [OF hs_inv_run [OF _ hs_inv_start]] by (intro exI [of _ rv]) simp
qed

definition willing_jvm :: jni_env where
  "willing_jvm cs c = (case c of Get_version \<Rightarrow> 0x00010006 | Get_env _ _ \<Rightarrow> 0 | Exception_check \<Rightarrow> 0 | _ \<Rightarrow> 1)"

definition attached_java :: javavm where
  "attached_java = \<lparr>dwJavaType = APXHANDLE_TYPE_JVM, dwJavaOptions = 0, sClazz = [], sMethod = [], string_class = None,
     worker_class = None, worker_method = None, worker_args = 0, iVersion = 0, iVmCount = 1, lpEnv = True,
     lpJvm = Some 1, hWorkerThread = None, dwWorkerStatus = 0, szStackSize = 0, hWorkerSync = None, hWorkerInit = None\<rparr>"

definition jvm_world_1 :: jvm_world where
  "jvm_world_1 = \<lparr>jni_calls = [], jvm_dll = Some 1, dump_symbol = True, sys_jvm = Some 1, vm_exit_code = 0,
     os_of = \<lparr>sys_calls = [], open_handles = [], next_handle = 5, std_handles = (None, None, None)\<rparr>\<rparr>"

definition exit_args :: java_args where
  "exit_args = \<lparr>ja_class_path = None, ja_options = None, ja_ms = 0, ja_mx = 0, ja_ss = 0, ja_vfprintf = False,
     ja_class = JAVA_SYSTEM, ja_method = None, ja_arguments = None, ja_stderr = None, ja_stdout = None, ja_library_path = None\<rparr>"

lemma java_start_sequential_witness:
  "\<exists>j w rv. apxJavaStart willing_jvm (\<lambda>_ _. 1) (\<lambda>_. None) exit_args (attached_java, jvm_world_1) = Some (True, j, w)
     \<and> (\<forall>h. hs_run rv hs_start h \<and> (\<nexists>h'. hs_step rv h h') \<longrightarrow> starter_at h = Returned True)"
proof -
  obtain j w where s: "apxJavaStart willing_jvm (\<lambda>_ _. 1) (\<lambda>_. None) exit_args (attached_java, jvm_world_1) = Some (True, j, w)"
    "hWorkerThread j \<noteq> None"
    by (simp add: apxJavaStart_def on_os_def ask_handle_def ask_def new_handle_def worker_setup_def apxJavaInitialize_def
        apxJavaLoadMainClass_def apxJavaSetOut_def apxJvmAttach_def apxJvmAttachEnv_def jni_def jni_obj_def jni_do_def
        global_class_def set_library_path_def willing_jvm_def attached_java_def jvm_world_1_def exit_args_def is_jvm_def Let_def
        JNI_VERSION_1_2_def JNI_EDETACHED_def)
  from java_start_sequential [OF s] s(1) show ?thesis by auto
qed

section \<open>Looking for the run-time library\<close>

lemma walk_up_short:
  assumes "\<And>d s. \<not> fst (act d s)" "i < length b" "l + length (filter is_separator (take (Suc i) b)) < 2"
  shows "walk_up act b i l s = None"
  using assms(2,3)
proof (induction i arbitrary: b l s)
  case 0
  then have "filter is_separator (take (Suc 0) b) = (if is_separator (b ! 0) then [b ! 0] else [])"
    by (simp add: take_Suc_conv_app_nth)
  then show ?case
    using 0 assms(1) [of "[]" s]
    by (cases "act [] s") (auto simp: walk_up.simps [of act b 0] get_def Let_def split: if_splits)
next
  case (Suc i)
  have sep: "filter is_separator (take (Suc (Suc i)) b) =
      filter is_separator (take (Suc i) b) @ (if is_separator (b ! Suc i) then [b ! Suc i] else [])"
    using Suc.prems(1) by (simp add: take_Suc_conv_app_nth)
  have l: "\<not> 2 \<le> l" using Suc.prems(2) by simp
  show ?case
  proof (cases "is_separator (b ! Suc i)")
    case True
    obtain s' where a: "act (take (Suc i) b) s = (False, s')" using assms(1) by (metis prod.collapse)
    have "walk_up act (b[Suc i := 0]) i (Suc l) s' = None"
      using Suc.prems sep True by (intro Suc.IH) simp_all
    then show ?thesis
      using Suc.prems(1) True a l by (simp add: walk_up.simps [of act b "Suc i"] get_def)
  next
    case False
    have "walk_up act b i l s = None" using Suc.prems sep False by (intro Suc.IH) simp_all
    then show ?thesis
      using Suc.prems(1) False l by (simp add: walk_up.simps [of act b "Suc i"] get_def)
  qed
qed

text \<open>A path of the JVM library with fewer than two separators, where no library can be loaded, makes the search
  for its directories run below the start of the array: the comma in \<open>i > 0, l < 2\<close> leaves only the second test.\<close>

theorem short_jvm_path_crashes:
  assumes "length (filter is_separator (path_copy p)) < 2" "\<And>cs f m. env cs (Load_library f m) = 0"
  shows "load_attempts env p w = None"
proof -
  have sep: "length (filter is_separator (take (Suc (length (path_copy p))) (path_copy p @ [0]))) < 2"
    using assms(1) by (simp add: is_separator_def of_char_def)
  have no_load: "fst (jni_obj env (Load_library f m) w) = None" for f m w
    using assms(2) by (simp add: jni_obj_def jni_def)
  have none: "walk_up act (path_copy p @ [0]) (length (path_copy p)) 0 w = None"
    if "\<And>d s. \<not> fst (act d s)" for act :: "wtext \<Rightarrow> jvm_world \<Rightarrow> bool \<times> jvm_world" and w
    using that sep by (intro walk_up_short) simp_all
  have a: "walk_up (preload_crt env) (path_copy p @ [0]) (length (path_copy p)) 0 w = None" for w
    using no_load by (intro none) (auto simp: preload_crt_def Let_def case_prod_beta)
  have b: "walk_up (set_directory env) (path_copy p @ [0]) (length (path_copy p)) 0 w = None" for w
    by (intro none) (simp add: set_directory_def)
  obtain w1 where 1: "jni_obj env (Load_library p 0) w = (None, w1)" using no_load by (metis prod.collapse)
  obtain ok w2 where 2: "file_exists env p w1 = (ok, w2)" by fastforce
  obtain w3 where 3: "jni_obj env (Load_library p LOAD_WITH_ALTERED_SEARCH_PATH) w2 = (None, w3)"
    using no_load by (metis prod.collapse)
  show ?thesis using 1 2 3 a b by (simp add: load_attempts_def Let_def)
qed

lemma short_jvm_path_crashes_witness:
  "load_attempts (\<lambda>_ _. 0) (wide ''jvm.dll'') jvm_world_1 = None"
  by (rule short_jvm_path_crashes) (simp_all add: path_copy_def SIZ_PATHLEN_def wide_def is_separator_def of_char_def)

end
