(* ===== verification/Srv_Service.thy ===== *)
theory Srv_Service
  imports Srv_Commands Win_Java
begin

text \<open>
  The service that the runner runs (\<^verbatim>\<open>windows/apps/prunsrv/prunsrv.c\<close>): the status it reports,
  starting and stopping the worker, which is a JVM or a process, and the main function of the
  service. What Windows, the virtual machine and the loader answer are parameters.
\<close>

section \<open>The state\<close>

datatype worker_object = Java_worker javavm | Process_worker apxprocess

record service_status =
  st_state :: dword
  st_accepted :: dword
  st_exit :: dword
  st_specific :: dword
  st_check_point :: dword
  st_wait_hint :: dword

datatype exit_hook = Start_hook | Stop_hook

record svc =
  sv_opts :: "cmdopt list"
  service_mode :: bool
  service_name :: "wtext option"
  status_handle :: bool
  current_status :: service_status
  check_counter :: dword \<comment> \<open>the static \<open>dwCheckPoint\<close>\<close>
  reports :: "service_status list" \<comment> \<open>the calls of \<open>SetServiceStatus\<close>, the latest first\<close>
  jni_startup :: bool
  jni_shutdown :: bool
  java_startup :: bool
  java_shutdown :: bool
  gWorker :: "worker_object option"
  gExitval :: dword
  gStartPath :: "wtext option"
  gShutdownEvent :: "nat option"
  gSignalEvent :: "nat option"
  gSignalThread :: "nat option"
  gSignalValid :: bool
  gPidfileName :: "wtext option"
  pid_file :: "string option"
  std_files :: "wtext option \<times> wtext option"
  exit_hooks :: "exit_hook list"
  jni_jvmpath :: "wtext option"
  jni_jvmoptions :: "atext option"
  jni_classpath :: "atext option"
  jni_rparam :: "wtext option"
  jni_sparam :: "wtext option"
  jni_rmethod :: "atext option"
  jni_smethod :: "atext option"
  jni_rclass :: atext
  jni_sclass :: atext
  sv_vars :: environment
  sv_reg :: registry
  jw :: jvm_world

record svc_env =
  jenv :: jni_env
  senv :: sys_env
  renv :: run_env
  getenv :: get_env
  expand_vars :: "environment \<Rightarrow> wtext \<Rightarrow> wtext option"
  find_files :: "atext \<Rightarrow> (atext \<times> atext list) option"
  to_upper :: "wchar \<Rightarrow> wchar"
  to_ansi :: "wtext \<Rightarrow> atext" \<comment> \<open>\<open>WideCharToMultiByte\<close> for one text\<close>
  ansi_heap :: "nat \<Rightarrow> byte list"
  log_file :: "wtext option \<Rightarrow> wtext \<Rightarrow> wtext" \<comment> \<open>\<open>apxLogFile\<close> for the PID file\<close>
  above_nt4 :: bool
  heap_slack :: nat
  stale_index :: nat

definition sys_do :: "svc_env \<Rightarrow> sys_call \<Rightarrow> svc \<Rightarrow> dword \<times> svc" where
  "sys_do e c s = (case on_os (ask (senv e) c) (jw s) of (r, w) \<Rightarrow> (r, s\<lparr>jw := w\<rparr>))"

definition sys_new :: "svc_env \<Rightarrow> sys_call \<Rightarrow> svc \<Rightarrow> nat option \<times> svc" where
  "sys_new e c s = (case on_os (ask_handle (senv e) c) (jw s) of (r, w) \<Rightarrow> (r, s\<lparr>jw := w\<rparr>))"

definition sys_close :: "nat option \<Rightarrow> svc \<Rightarrow> svc" where
  "sys_close h s = s\<lparr>jw := (jw s)\<lparr>os_of := close_handle h (os_of (jw s))\<rparr>\<rparr>"

text \<open>The numbers of the options.\<close>

definition SO_USER :: nat where "SO_USER = 9"
definition SO_PASSWORD :: nat where "SO_PASSWORD = 10"
definition SO_LIBPATH :: nat where "SO_LIBPATH = 11"
definition SO_JAVAHOME :: nat where "SO_JAVAHOME = 12"
definition SO_JVM :: nat where "SO_JVM = 13"
definition SO_JVMOPTIONS :: nat where "SO_JVMOPTIONS = 14"
definition SO_CLASSPATH :: nat where "SO_CLASSPATH = 15"
definition SO_JVMMS :: nat where "SO_JVMMS = 16"
definition SO_JVMMX :: nat where "SO_JVMMX = 17"
definition SO_JVMSS :: nat where "SO_JVMSS = 18"
definition SO_STOPIMAGE :: nat where "SO_STOPIMAGE = 19"
definition SO_STOPPATH :: nat where "SO_STOPPATH = 20"
definition SO_STOPCLASS :: nat where "SO_STOPCLASS = 21"
definition SO_STOPPARAMS :: nat where "SO_STOPPARAMS = 22"
definition SO_STOPMETHOD :: nat where "SO_STOPMETHOD = 23"
definition SO_STOPMODE :: nat where "SO_STOPMODE = 24"
definition SO_STOPTIMEOUT :: nat where "SO_STOPTIMEOUT = 25"
definition SO_STARTIMAGE :: nat where "SO_STARTIMAGE = 26"
definition SO_STARTPATH :: nat where "SO_STARTPATH = 27"
definition SO_STARTCLASS :: nat where "SO_STARTCLASS = 28"
definition SO_STARTPARAMS :: nat where "SO_STARTPARAMS = 29"
definition SO_STARTMETHOD :: nat where "SO_STARTMETHOD = 30"
definition SO_STARTMODE :: nat where "SO_STARTMODE = 31"
definition SO_LOGPATH :: nat where "SO_LOGPATH = 32"
definition SO_ENVIRONMENT :: nat where "SO_ENVIRONMENT = 8"
definition SO_JNIVFPRINTF :: nat where "SO_JNIVFPRINTF = 37"
definition SO_PIDFILE :: nat where "SO_PIDFILE = 38"
definition SO_LOGROTATE :: nat where "SO_LOGROTATE = 39"
definition SO_LOGLEVEL :: nat where "SO_LOGLEVEL = 34"
definition SO_LOGPREFIX :: nat where "SO_LOGPREFIX = 33"
definition SO_STDERROR :: nat where "SO_STDERROR = 35"
definition SO_STDOUTPUT :: nat where "SO_STDOUTPUT = 36"

definition opt_text :: "svc \<Rightarrow> nat \<Rightarrow> wtext option" where
  "opt_text s i = map_option text_of (GET_OPT_V (sv_opts s) i)"

definition opt_valid :: "svc \<Rightarrow> nat \<Rightarrow> wtext option" where
  "opt_valid s i = valid_string (GET_OPT_V (sv_opts s) i)"

definition opt_num :: "svc \<Rightarrow> nat \<Rightarrow> dword" where
  "opt_num s i = GET_OPT_I (sv_opts s) i"

section \<open>Reporting\<close>

definition SERVICE_ACCEPT_STOP :: dword where "SERVICE_ACCEPT_STOP = 0x1"
definition SERVICE_ACCEPT_SHUTDOWN :: dword where "SERVICE_ACCEPT_SHUTDOWN = 0x4"
definition ERROR_SERVICE_SPECIFIC_ERROR :: dword where "ERROR_SERVICE_SPECIFIC_ERROR = 1066"
definition NO_ERROR :: dword where "NO_ERROR = 0"

definition reportServiceStatusE :: "svc_env \<Rightarrow> dword \<Rightarrow> dword \<Rightarrow> dword \<Rightarrow> dword \<Rightarrow> svc \<Rightarrow> bool \<times> svc" where
  "reportServiceStatusE e state exit_code hint specific s =
     (if service_mode s \<and> status_handle s
      then let settled = (state = SERVICE_RUNNING \<or> state = SERVICE_STOPPED);
               st = \<lparr>st_state = state,
                     st_accepted = (if state = SERVICE_RUNNING then SERVICE_ACCEPT_STOP OR SERVICE_ACCEPT_SHUTDOWN else 0),
                     st_exit = exit_code, st_specific = specific,
                     st_check_point = (if settled then 0 else check_counter s), st_wait_hint = hint\<rparr>
           in case sys_do e Set_service_status
                     (s\<lparr>current_status := st, reports := st # reports s,
                        check_counter := (if settled then check_counter s else check_counter s + 1)\<rparr>) of
                (r, s) \<Rightarrow> (r \<noteq> 0, s)
      else (True, s))"

definition reportServiceStatus :: "svc_env \<Rightarrow> dword \<Rightarrow> dword \<Rightarrow> dword \<Rightarrow> svc \<Rightarrow> svc" where
  "reportServiceStatus e state exit_code hint s = snd (reportServiceStatusE e state exit_code hint 0 s)"

definition reportServiceStatusStopped :: "svc_env \<Rightarrow> dword \<Rightarrow> svc \<Rightarrow> svc" where
  "reportServiceStatusStopped e exit_code s =
     (if exit_code \<noteq> 0 then snd (reportServiceStatusE e SERVICE_STOPPED ERROR_SERVICE_SPECIFIC_ERROR 0 exit_code s)
      else reportServiceStatus e SERVICE_STOPPED NO_ERROR 0 s)"

definition onExitStop :: "svc_env \<Rightarrow> svc \<Rightarrow> svc" where
  "onExitStop e s = (if service_mode s then reportServiceStatusStopped e 0 s else s)"

definition onExitStart :: "svc_env \<Rightarrow> svc \<Rightarrow> svc" where
  "onExitStart e s =
     (if service_mode s \<and> vm_exit_code (jw s) = 0 then reportServiceStatusStopped e 0 s else s)"

section \<open>Workers\<close>

text \<open>\<open>apxHandleWait\<close>, \<open>apxCloseHandle\<close> and \<open>apxHandleSendMessage\<close> with \<open>WM_CLOSE\<close> for the two kinds of worker.\<close>

definition worker_wait ::
  "svc_env \<Rightarrow> dword \<Rightarrow> bool \<Rightarrow> worker_object \<Rightarrow> svc \<Rightarrow> (dword \<times> worker_object \<times> svc) option" where
  "worker_wait e ms kill h s =
     (case h of
        Java_worker j \<Rightarrow>
          (case apxJavaWait (jenv e) (senv e) ms kill (j, jw s) of (r, j, w) \<Rightarrow> Some (r, Java_worker j, s\<lparr>jw := w\<rparr>))
      | Process_worker p \<Rightarrow>
          map_option (\<lambda>(r, p, o'). (r, Process_worker p, s\<lparr>jw := (jw s)\<lparr>os_of := o'\<rparr>\<rparr>))
            (apxProcessWait (senv e) ms kill (p, os_of (jw s))))"

definition worker_close :: "svc_env \<Rightarrow> worker_object \<Rightarrow> svc \<Rightarrow> (worker_object \<times> svc) option" where
  "worker_close e h s =
     (case h of
        Java_worker j \<Rightarrow> (case java_close (jenv e) (senv e) (j, jw s) of (j, w) \<Rightarrow> Some (Java_worker j, s\<lparr>jw := w\<rparr>))
      | Process_worker p \<Rightarrow>
          map_option (\<lambda>(p, o'). (Process_worker p, s\<lparr>jw := (jw s)\<lparr>os_of := o'\<rparr>\<rparr>))
            (apxProcessCallback 0 (senv e) Msg_close (p, os_of (jw s))))"

text \<open>The registry is asked for the library, or for the home of a run-time environment, when that is needed.\<close>

definition create_java_worker :: "svc_env \<Rightarrow> svc \<Rightarrow> (javavm option \<times> svc) option" where
  "create_java_worker e s = do {
     (lib, reg) \<leftarrow> (if needs_lib (jni_jvmpath s) (jw s)
                     then apxGetJavaSoftRuntimeLib (reg_env_of (renv e)) (stack_of (renv e) SIZ_BUFLEN) (sv_reg s)
                     else Some (None, sv_reg s));
     (jre, reg, vars) \<leftarrow> (if needs_jre (jenv e) (jni_jvmpath s) (map_option text_of lib) (jw s)
                     then apxGetJavaSoftHome (reg_env_of (renv e)) (getenv e) (stack_of (renv e) SIZ_BUFLEN) reg (sv_vars s) True
                     else Some (None, reg, sv_vars s));
     (h, w) \<leftarrow> apxCreateJava (jenv e) (jni_jvmpath s) (map_option text_of lib) (map_option text_of jre) (jw s);
     Some (h, s\<lparr>sv_reg := reg, sv_vars := vars, jw := w\<rparr>) }"

definition create_process_worker :: "svc_env \<Rightarrow> svc \<Rightarrow> apxprocess option \<times> svc" where
  "create_process_worker e s =
     (case apxCreateProcessW (senv e) (above_nt4 e) 0 True (opt_text s SO_USER) (opt_text s SO_PASSWORD) False (os_of (jw s)) of
        (h, o') \<Rightarrow> (h, s\<lparr>jw := (jw s)\<lparr>os_of := o'\<rparr>\<rparr>))"

text \<open>The texts of the slots that are passed to the process.\<close>

definition slot_texts :: "arg_slot list \<Rightarrow> wtext list option" where
  "slot_texts slots = those (map (\<lambda>a. case a of Arg t \<Rightarrow> Some t | _ \<Rightarrow> None) slots)"

definition worker_arguments :: "svc_env \<Rightarrow> bool \<Rightarrow> nat \<Rightarrow> nat \<Rightarrow> svc \<Rightarrow> wtext list option" where
  "worker_arguments e java cls params s =
     (if java
      then do {
        (n, arr) \<leftarrow> apxJavaCmdInitialize (heap_slack e) (stale_index e) (GET_OPT_V (sv_opts s) SO_CLASSPATH)
                      (GET_OPT_V (sv_opts s) cls) (GET_OPT_V (sv_opts s) SO_JVMOPTIONS) (opt_num s SO_JVMMS) (opt_num s SO_JVMMX) (opt_num s SO_JVMSS)
                      (GET_OPT_V (sv_opts s) params);
        slot_texts (take n arr) }
      else argument_texts (GET_OPT_V (sv_opts s) params))"

text \<open>
  The image, the command line, the working path and the execution: the result is zero or the
  number of the step that failed.
\<close>

definition run_process_worker ::
  "svc_env \<Rightarrow> bool \<Rightarrow> nat \<Rightarrow> nat \<Rightarrow> nat \<Rightarrow> nat \<Rightarrow> apxprocess \<Rightarrow> svc \<Rightarrow> (dword \<times> apxprocess \<times> svc) option" where
  "run_process_worker e java img path cls params p s = do {
     (ok, p) \<leftarrow> apxProcessSetExecutableW (opt_text s img) p;
     (if \<not> ok then Some (2, p, s)
      else do {
        args \<leftarrow> worker_arguments e java cls params s;
        (ok, p) \<leftarrow> apxProcessSetCommandArgsW (the (opt_text s img)) args p;
        (if \<not> ok then Some (3, p, s)
         else do {
           (ok, p) \<leftarrow> apxProcessSetWorkingPathW (opt_text s path) p;
           (if \<not> ok then Some (4, p, s)
            else do {
              (ok, p, o') \<leftarrow> apxProcessExecute (senv e) (p, os_of (jw s));
              Some (if ok then 0 else 5, p, s\<lparr>jw := (jw s)\<lparr>os_of := o'\<rparr>\<rparr>) }) }) }) }"

definition worker_args_of ::
  "svc \<Rightarrow> atext \<Rightarrow> atext option \<Rightarrow> wtext option \<Rightarrow> wtext option \<times> wtext option \<Rightarrow> java_args" where
  "worker_args_of s cls method params std =
     \<lparr>ja_class_path = jni_classpath s, ja_options = jni_jvmoptions s, ja_ms = opt_num s SO_JVMMS, ja_mx = opt_num s SO_JVMMX,
      ja_ss = opt_num s SO_JVMSS, ja_vfprintf = (opt_num s SO_JNIVFPRINTF \<noteq> 0), ja_class = cls, ja_method = method, ja_arguments = params,
      ja_stderr = snd std, ja_stdout = fst std, ja_library_path = opt_text s SO_LIBPATH\<rparr>"

definition start_java :: "svc_env \<Rightarrow> java_args \<Rightarrow> javavm \<Rightarrow> svc \<Rightarrow> (bool \<times> javavm \<times> svc) option" where
  "start_java e a j s =
     map_option (\<lambda>(ok, j, w). (ok, j, s\<lparr>jw := w\<rparr>)) (apxJavaStart (jenv e) (senv e) (find_files e) a (j, jw s))"

section \<open>Starting\<close>

definition cr_lf :: string where "cr_lf = [CHR 0x0D, CHR 0x0A]"

text \<open>The file of the process number: \<open>None\<close> if an old one cannot be deleted.\<close>

definition prepare_pidfile :: "svc_env \<Rightarrow> svc \<Rightarrow> bool \<times> svc" where
  "prepare_pidfile e s =
     (case opt_valid s SO_PIDFILE of
        None \<Rightarrow> (True, s)
      | Some f \<Rightarrow>
          let name = log_file e (opt_text s SO_LOGPATH) f; s = s\<lparr>gPidfileName := Some name\<rparr>
          in case sys_do e (File_there name) s of (there, s) \<Rightarrow>
             if there = 0 then (True, s)
             else case sys_do e (Delete_file name) s of (ok, s) \<Rightarrow> (ok \<noteq> 0, s))"

definition write_pidfile :: "svc_env \<Rightarrow> svc \<Rightarrow> svc" where
  "write_pidfile e s =
     (case gPidfileName s of
        None \<Rightarrow> s
      | Some name \<Rightarrow>
          (case sys_do e (Create_new_file name) s of (ok, s) \<Rightarrow>
             if ok = 0 then s
             else case (case gWorker s of
                          Some (Process_worker p) \<Rightarrow> (apxProcessGetPid p, s)
                        | _ \<Rightarrow> sys_do e Current_process_id s) of (pid, s) \<Rightarrow>
                  s\<lparr>pid_file := Some (show_int (sint pid) @ cr_lf)\<rparr>))"

text \<open>The library path in front of \<open>PATH\<close>, then the variables of the option.\<close>

definition worker_environment :: "svc_env \<Rightarrow> svc \<Rightarrow> svc option" where
  "worker_environment e s = do {
     vars \<leftarrow> (case opt_valid s SO_LIBPATH of
                None \<Rightarrow> Some (sv_vars s)
              | Some p \<Rightarrow> map_option fst (apxAddToPathW (getenv e) (stack_of (renv e)) (sv_vars s) p));
     vars \<leftarrow> setInprocEnvironment (expand_vars e) (GET_OPT_V (sv_opts s) SO_ENVIRONMENT) vars;
     Some (s\<lparr>sv_vars := vars\<rparr>) }"

definition close_worker :: "svc_env \<Rightarrow> worker_object \<Rightarrow> dword \<Rightarrow> svc \<Rightarrow> (dword \<times> svc) option" where
  "close_worker e h rv s = map_option (\<lambda>(_, s). (rv, s\<lparr>gWorker := None\<rparr>)) (worker_close e h s)"

definition start_jvm :: "svc_env \<Rightarrow> svc \<Rightarrow> (dword \<times> svc) option" where
  "start_jvm e s = do {
     let s = (if opt_valid s SO_STARTPATH = None
              then s\<lparr>sv_opts := set_opt_v SO_STARTPATH (map_option (\<lambda>p. p @ [0]) (gStartPath s)) (sv_opts s)\<rparr> else s);
     let s = (case opt_valid s SO_STARTPATH of None \<Rightarrow> s | Some p \<Rightarrow> snd (sys_do e (Set_current_directory p) s));
     s \<leftarrow> worker_environment e s;
     (h, s) \<leftarrow> create_java_worker e s;
     (case h of
        None \<Rightarrow> Some (1, s)
      | Some j \<Rightarrow> do {
          let s = s\<lparr>exit_hooks := Start_hook # exit_hooks s\<rparr>;
          (ok, j, s) \<leftarrow> start_java e (worker_args_of s (jni_rclass s) (jni_rmethod s) (jni_rparam s) (std_files s)) j s;
          (if ok then Some (0, s\<lparr>gWorker := Some (Java_worker j)\<rparr>) else close_worker e (Java_worker j) 4 s) }) }"

definition missing_image :: "svc_env \<Rightarrow> svc \<Rightarrow> svc" where
  "missing_image e s = (if service_mode s then s else snd (sys_do e (Display_error ''ImageFile'') s))"

definition start_process :: "svc_env \<Rightarrow> svc \<Rightarrow> (dword \<times> svc) option" where
  "start_process e s =
     (if opt_valid s SO_STARTIMAGE = None then Some (1, missing_image e s)
      else do {
        s \<leftarrow> worker_environment e s;
        (case create_process_worker e s of
           (None, s) \<Rightarrow> Some (1, s)
         | (Some p, s) \<Rightarrow> do {
             (rv, p, s) \<leftarrow> run_process_worker e (java_startup s) SO_STARTIMAGE SO_STARTPATH SO_STARTCLASS SO_STARTPARAMS p s;
             (if rv = 0 then Some (0, s\<lparr>gWorker := Some (Process_worker p)\<rparr>)
              else close_worker e (Process_worker p) rv s) }) })"

definition serviceStart :: "svc_env \<Rightarrow> svc \<Rightarrow> (dword \<times> svc) option" where
  "serviceStart e s =
     (if gWorker s \<noteq> None then Some (1, s)
      else case prepare_pidfile e s of
        (False, s) \<Rightarrow> Some (1, s)
      | (True, s) \<Rightarrow> do {
          (rv, s) \<leftarrow> (if jni_startup s then start_jvm e s else start_process e s);
          Some (rv, if rv = 0 then write_pidfile e s else s) })"

section \<open>Stopping\<close>

text \<open>What the first part of \<open>serviceStop\<close> comes to: it returns, it waits for a stop worker, or it goes on.\<close>

datatype stop_outcome = Stop_return dword | Stop_wait worker_object | Stop_go "worker_object option" bool dword

definition stop_jvm :: "svc_env \<Rightarrow> svc \<Rightarrow> (stop_outcome \<times> svc) option" where
  "stop_jvm e s = do {
     let s = (case (opt_valid s SO_STARTPATH, opt_valid s SO_STOPPATH) of
                (None, Some p) \<Rightarrow> snd (sys_do e (Set_current_directory p) s) | _ \<Rightarrow> s);
     (h, s) \<leftarrow> create_java_worker e s;
     (case h of
        None \<Rightarrow> Some (Stop_return 1, s)
      | Some j \<Rightarrow> do {
          let s = s\<lparr>exit_hooks := Stop_hook # exit_hooks s\<rparr>;
          let (ev, s) = sys_new e Create_event s;
          let s = s\<lparr>gShutdownEvent := ev\<rparr>;
          (ok, j, s) \<leftarrow> start_java e (worker_args_of s (jni_sclass s) (jni_smethod s) (jni_sparam s) (None, None)) j s;
          (if \<not> ok then Some (Stop_go (Some (Java_worker j)) True 3, s)
           else if jni_sclass s = JAVA_SYSTEM
           then Some (Stop_return 0, reportServiceStatus e SERVICE_STOP_PENDING NO_ERROR (20 * 1000) s)
           else Some (Stop_wait (Java_worker j), s)) }) }"

definition stop_process :: "svc_env \<Rightarrow> svc \<Rightarrow> (stop_outcome \<times> svc) option" where
  "stop_process e s =
     (if opt_valid s SO_STOPIMAGE = None then Some (Stop_return 1, missing_image e s)
      else case create_process_worker e s of
        (None, s) \<Rightarrow> Some (Stop_return 1, s)
      | (Some p, s) \<Rightarrow> do {
          (rv, p, s) \<leftarrow> run_process_worker e (java_shutdown s) SO_STOPIMAGE SO_STOPPATH SO_STOPCLASS SO_STOPPARAMS p s;
          Some (if rv = 0 then Stop_wait (Process_worker p) else Stop_go (Some (Process_worker p)) False rv, s) })"

definition stop_launch :: "svc_env \<Rightarrow> svc \<Rightarrow> (stop_outcome \<times> svc) option" where
  "stop_launch e s =
     (if gWorker s = None then Some (Stop_return 1, s)
      else if jni_shutdown s then stop_jvm e s
      else if opt_valid s SO_STOPMODE \<noteq> None then stop_process e s
      else Some (Stop_go None False 0, s))"

text \<open>The milliseconds that the worker is given, \<open>SO_STOPTIMEOUT * 1000\<close> in 32 bits.\<close>

definition stop_timeout :: "svc_env \<Rightarrow> dword \<Rightarrow> bool \<Rightarrow> svc \<Rightarrow> (dword \<times> svc) option" where
  "stop_timeout e dwCtrlType wait_to_die s = do {
     let t = opt_num s SO_STOPTIMEOUT * 1000;
     let t = (if t > 0x7FFFFFFF then INFINITE else t);
     let t = (if wait_to_die \<and> t = 0 then 300 * 1000 else t);
     (if dwCtrlType = SERVICE_CONTROL_SHUTDOWN
      then do { (m, reg) \<leftarrow> apxGetMaxServiceTimeout (reg_env_of (renv e)) (sv_reg s);
                Some (min t m, s\<lparr>sv_reg := reg\<rparr>) }
      else Some (t, s)) }"

definition end_signal_thread :: "svc_env \<Rightarrow> svc \<Rightarrow> svc" where
  "end_signal_thread e s =
     (if gSignalEvent s = None then s
      else let s = s\<lparr>gSignalValid := False\<rparr>;
               s = snd (sys_do e (Set_event (gSignalEvent s)) s);
               s = snd (sys_do e (Wait_for [gSignalThread s] 1000) s)
           in sys_close (gSignalThread s) (sys_close (gSignalEvent s) s)\<lparr>gSignalEvent := None\<rparr>)"

definition stop_cleanup :: "svc_env \<Rightarrow> dword \<Rightarrow> worker_object option \<Rightarrow> bool \<Rightarrow> svc \<Rightarrow> (dword \<times> svc) option" where
  "stop_cleanup e dwCtrlType hWorker wait_to_die s = do {
     s \<leftarrow> (case hWorker of None \<Rightarrow> Some s | Some h \<Rightarrow> map_option snd (worker_close e h s));
     (t, s) \<leftarrow> stop_timeout e dwCtrlType wait_to_die (end_signal_thread e s);
     Some (t, reportServiceStatus e SERVICE_STOP_PENDING NO_ERROR t s) }"

definition stop_wait :: "svc_env \<Rightarrow> dword \<Rightarrow> dword \<Rightarrow> svc \<Rightarrow> (dword \<times> svc) option" where
  "stop_wait e timeout rv s =
     (case gWorker s of
        None \<Rightarrow> Some (if timeout \<noteq> 0 then WAIT_ABANDONED else rv, s)
      | Some h \<Rightarrow>
          if timeout \<noteq> 0
          then do {
            (r, h, s) \<leftarrow> worker_wait e timeout True h s;
            Some (r, s\<lparr>gWorker := Some h\<rparr>) }
          else do {
            (h, s) \<leftarrow> worker_close e h s;
            Some (rv, s\<lparr>gWorker := Some h\<rparr>) })"

definition stop_end :: "svc_env \<Rightarrow> dword \<Rightarrow> worker_object option \<Rightarrow> bool \<Rightarrow> dword \<Rightarrow> svc \<Rightarrow> (dword \<times> svc) option" where
  "stop_end e dwCtrlType hWorker wait_to_die rv s = do {
     (t, s) \<leftarrow> stop_cleanup e dwCtrlType hWorker wait_to_die s;
     (rv, s) \<leftarrow> stop_wait e t rv s;
     Some (rv, snd (sys_do e (Set_event (gShutdownEvent s)) s)) }"

text \<open>What a worker does until it ends: the method of the class, or the thread that watches the process.\<close>

definition worker_finish :: "svc_env \<Rightarrow> worker_object \<Rightarrow> svc \<Rightarrow> worker_object \<times> svc" where
  "worker_finish e h s =
     (case h of
        Java_worker j \<Rightarrow> (case worker_main (jenv e) (j, jw s) of (_, j, w) \<Rightarrow> (Java_worker j, s\<lparr>jw := w\<rparr>))
      | Process_worker p \<Rightarrow>
          (case apxProcWorkerThread (senv e) (p, os_of (jw s)) of (code, p, o') \<Rightarrow>
             (Process_worker p, s\<lparr>jw := (jw s)\<lparr>os_of := o',
                vm_exit_code := (case code of None \<Rightarrow> vm_exit_code (jw s) | Some c \<Rightarrow> c)\<rparr>\<rparr>)))"

definition wait_worker_end :: "svc_env \<Rightarrow> worker_object \<Rightarrow> svc \<Rightarrow> (worker_object \<times> svc) option" where
  "wait_worker_end e h s =
     (case worker_finish e h s of (h, s) \<Rightarrow> map_option snd (worker_wait e INFINITE False h s))"

definition serviceStop :: "svc_env \<Rightarrow> dword \<Rightarrow> svc \<Rightarrow> (dword \<times> svc) option" where
  "serviceStop e dwCtrlType s = do {
     (r, s) \<leftarrow> stop_launch e s;
     (case r of
        Stop_return rv \<Rightarrow> Some (rv, s)
      | Stop_wait h \<Rightarrow> do { (h, s) \<leftarrow> wait_worker_end e h s; stop_end e dwCtrlType (Some h) True 0 s }
      | Stop_go h wait_to_die rv \<Rightarrow> stop_end e dwCtrlType h wait_to_die rv s) }"

section \<open>The main function of the service\<close>

definition signal_name :: "svc_env \<Rightarrow> wtext \<Rightarrow> wtext" where
  "signal_name e name =
     wide ''Global'' @ ch CHR 0x5C # map (\<lambda>c. if c = ch CHR '' '' then ch CHR ''_'' else to_upper e c)
       (take (1023 - 7) (name @ wide ''SIGNAL''))"

definition create_signal :: "svc_env \<Rightarrow> svc \<Rightarrow> svc" where
  "create_signal e s =
     (case service_name s of
        None \<Rightarrow> s
      | Some n \<Rightarrow>
          if n = [] then s
          else case sys_new e (Create_named_event (signal_name e n)) s of (ev, s) \<Rightarrow>
               let s = s\<lparr>gSignalEvent := ev\<rparr>
               in if ev = None then s
                  else case sys_new e (Create_thread 5) s of (th, s) \<Rightarrow> s\<lparr>gSignalThread := th\<rparr>)"

text \<open>The Java home of the option, where \<open>jdk\<close>, \<open>jre\<close> and nothing stand for those of the registry.\<close>

definition java_home :: "svc_env \<Rightarrow> svc \<Rightarrow> (wtext option \<times> svc) option" where
  "java_home e s =
     (let soft = (\<lambda>jre. map_option (\<lambda>(h, reg, vars). (map_option text_of h, s\<lparr>sv_reg := reg, sv_vars := vars\<rparr>))
                    (apxGetJavaSoftHome (reg_env_of (renv e)) (getenv e) (stack_of (renv e) SIZ_BUFLEN) (sv_reg s) (sv_vars s) jre));
          v = GET_OPT_V (sv_opts s) SO_JAVAHOME
      in if v = None \<or> eq_i (renv e) v ''jdk'' then soft False
         else if eq_i (renv e) v ''jre'' then soft True
         else Some (map_option text_of v, s))"

definition PRSRV_JBIN :: wtext where "PRSRV_JBIN = ch CHR 0x5C # wide ''bin'' @ ch CHR 0x5C # wide ''java.exe''"
definition PRSRV_PBIN :: wtext where "PRSRV_PBIN = ch CHR 0x5C # wide ''bin''"

text \<open>The name of a class with slashes for dots.\<close>

definition jni_class :: "svc_env \<Rightarrow> wtext option \<Rightarrow> atext" where
  "jni_class e c =
     (case c of
        None \<Rightarrow> to_ansi e (wide ''Main'')
      | Some t \<Rightarrow> map (\<lambda>x. if x = of_char CHR ''.'' then of_char CHR ''/'' else x) (to_ansi e t))"

text \<open>The mode \<open>java\<close>: the image is the \<open>java.exe\<close> of the home, and its directory the path if there is none.\<close>

definition java_mode :: "svc_env \<Rightarrow> nat \<Rightarrow> nat \<Rightarrow> svc \<Rightarrow> (bool \<times> svc) option" where
  "java_mode e img path s =
     map_option (\<lambda>(h, s). case h of
         None \<Rightarrow> (False, s)
       | Some jh \<Rightarrow>
           let opts = (if GET_OPT_V (sv_opts s) path = None
                       then set_opt_v path (Some (jh @ PRSRV_PBIN @ [0])) (sv_opts s) else sv_opts s)
           in (True, s\<lparr>sv_opts := set_opt_v img (Some (jh @ PRSRV_JBIN @ [0])) opts\<rparr>))
       (java_home e s)"

definition start_mode :: "svc_env \<Rightarrow> svc \<Rightarrow> (bool \<times> svc) option" where
  "start_mode e s =
     (case opt_valid s SO_STARTMODE of
        None \<Rightarrow> Some (True, s)
      | Some m \<Rightarrow>
          if same_i (renv e) m (wide ''jvm'')
          then Some (True, s\<lparr>jni_startup := True, jni_rclass := jni_class e (opt_valid s SO_STARTCLASS),
                             jni_rparam := GET_OPT_V (sv_opts s) SO_STARTPARAMS\<rparr>)
          else if same_i (renv e) m (wide ''java'')
          then map_option (\<lambda>(ok, s). (ok, if ok then s\<lparr>java_startup := True\<rparr> else s)) (java_mode e SO_STARTIMAGE SO_STARTPATH s)
          else Some (True, s))"

definition stop_mode :: "svc_env \<Rightarrow> svc \<Rightarrow> (bool \<times> svc) option" where
  "stop_mode e s =
     (case opt_valid s SO_STOPMODE of
        None \<Rightarrow> Some (True, s)
      | Some m \<Rightarrow>
          if same_i (renv e) m (wide ''jvm'')
          then Some (True, s\<lparr>jni_shutdown := True, jni_sclass := jni_class e (opt_valid s SO_STOPCLASS),
                             jni_sparam := GET_OPT_V (sv_opts s) SO_STOPPARAMS\<rparr>)
          else if same_i (renv e) m (wide ''java'')
          then map_option (\<lambda>(ok, s). (ok, if ok then s\<lparr>java_shutdown := True\<rparr> else s)) (java_mode e SO_STOPIMAGE SO_STOPPATH s)
          else Some (True, s))"

definition jvm_settings :: "svc_env \<Rightarrow> svc \<Rightarrow> svc option" where
  "jvm_settings e s =
     (if jni_shutdown s \<or> jni_startup s
      then do {
        opts \<leftarrow> MzWideToANSI (\<lambda>t. to_ansi e t @ [0]) (ansi_heap e) (GET_OPT_V (sv_opts s) SO_JVMOPTIONS);
        let s = (case opt_valid s SO_JVM of
                   Some p \<Rightarrow> if p \<noteq> wide ''auto'' then s\<lparr>jni_jvmpath := Some p\<rparr> else s | None \<Rightarrow> s);
        let s = (case opt_valid s SO_CLASSPATH of Some p \<Rightarrow> s\<lparr>jni_classpath := Some (to_ansi e p)\<rparr> | None \<Rightarrow> s);
        let s = (case opt_valid s SO_STARTMETHOD of Some p \<Rightarrow> s\<lparr>jni_rmethod := Some (to_ansi e p)\<rparr> | None \<Rightarrow> s);
        let s = (case opt_valid s SO_STOPMETHOD of Some p \<Rightarrow> s\<lparr>jni_smethod := Some (to_ansi e p)\<rparr> | None \<Rightarrow> s);
        Some (s\<lparr>jni_jvmoptions := Some opts\<rparr>) }
      else Some s)"

definition register_handler :: "svc_env \<Rightarrow> svc \<Rightarrow> bool \<times> svc" where
  "register_handler e s =
     (if service_mode s
      then case sys_do e (Register_ctrl_handler (case service_name s of None \<Rightarrow> [] | Some n \<Rightarrow> n)) s of (r, s) \<Rightarrow>
           let s = s\<lparr>status_handle := (r \<noteq> 0)\<rparr>
           in if r = 0 then (False, s) else (True, snd (sys_do e Attach_console s))
      else (True, s))"

text \<open>Everything before the start is reported; \<open>False\<close> is the jump to \<open>cleanup\<close>.\<close>

definition service_setup :: "svc_env \<Rightarrow> svc \<Rightarrow> (bool \<times> svc) option" where
  "service_setup e s = do {
     let s = s\<lparr>current_status := \<lparr>st_state = SERVICE_START_PENDING, st_accepted = SERVICE_CONTROL_INTERROGATE, st_exit = 0,
                 st_specific = 0, st_check_point = 0, st_wait_hint = 0\<rparr>\<rparr>;
     (ok, s) \<leftarrow> start_mode e (create_signal e s);
     (if \<not> ok then Some (False, s)
      else do {
        (ok, s) \<leftarrow> stop_mode e s;
        (if \<not> ok then Some (False, s)
         else do { s \<leftarrow> jvm_settings e s; Some (register_handler e s) }) }) }"

text \<open>The label \<open>cleanup\<close>.\<close>

definition service_failed :: "svc_env \<Rightarrow> dword \<Rightarrow> svc \<Rightarrow> svc" where
  "service_failed e rc s = reportServiceStatusStopped e rc s\<lparr>gExitval := rc\<rparr>"

text \<open>Up to the wait for the worker: \<open>True\<close> when it is running.\<close>

definition service_begin :: "svc_env \<Rightarrow> svc \<Rightarrow> (bool \<times> svc) option" where
  "service_begin e s = do {
     (ok, s) \<leftarrow> service_setup e s;
     (if \<not> ok then Some (False, service_failed e 0 s)
      else do {
        (rc, s) \<leftarrow> serviceStart e (reportServiceStatus e SERVICE_START_PENDING NO_ERROR 3000 s);
        Some (if rc = 0 then (True, reportServiceStatus e SERVICE_RUNNING NO_ERROR 0 s)
              else (False, service_failed e rc s)) }) }"

definition ONE_MINUTE :: dword where "ONE_MINUTE = 60 * 1000"

definition destroy_jvm :: "svc_env \<Rightarrow> dword \<Rightarrow> svc \<Rightarrow> svc" where
  "destroy_jvm e ms s = s\<lparr>jw := snd (apxDestroyJvm (jenv e) (senv e) ms (jw s))\<rparr>"

text \<open>From the end of the worker to the end of the service.\<close>

definition shutdown_wait :: "svc_env \<Rightarrow> svc \<Rightarrow> svc" where
  "shutdown_wait e s =
     (let s = reportServiceStatus e SERVICE_STOP_PENDING NO_ERROR ONE_MINUTE s
      in snd (sys_do e (Wait_for [gShutdownEvent s] ONE_MINUTE) s))"

definition shutdown_destroy :: "svc_env \<Rightarrow> svc \<Rightarrow> svc" where
  "shutdown_destroy e s =
     destroy_jvm e ONE_MINUTE (reportServiceStatus e SERVICE_STOP_PENDING NO_ERROR ONE_MINUTE (sys_close (gShutdownEvent s) s))"

definition plain_destroy :: "svc_env \<Rightarrow> svc \<Rightarrow> svc" where
  "plain_destroy e s = reportServiceStatus e SERVICE_STOP_PENDING NO_ERROR 0 (destroy_jvm e INFINITE s)"

definition service_stopped :: "svc_env \<Rightarrow> svc \<Rightarrow> svc" where
  "service_stopped e s = reportServiceStatusStopped e (vm_exit_code (jw s)) s"

definition service_end :: "svc_env \<Rightarrow> svc \<Rightarrow> svc" where
  "service_end e s =
     service_stopped e
       (if gShutdownEvent s \<noteq> None then shutdown_destroy e (shutdown_wait e s) else plain_destroy e s)"

definition wait_own_worker :: "svc_env \<Rightarrow> svc \<Rightarrow> svc option" where
  "wait_own_worker e s =
     (case gWorker s of
        None \<Rightarrow> Some s
      | Some h \<Rightarrow> map_option (\<lambda>(h, s). s\<lparr>gWorker := Some h\<rparr>) (wait_worker_end e h s))"

text \<open>Without controls and console events.\<close>

definition serviceMain :: "svc_env \<Rightarrow> svc \<Rightarrow> svc option" where
  "serviceMain e s = do {
     (running, s) \<leftarrow> service_begin e s;
     (if running then map_option (service_end e) (wait_own_worker e s) else Some s) }"

section \<open>Controls\<close>

text \<open>
  \<open>service_ctrl_handler\<close>: the second result says whether a thread with \<open>serviceStop\<close> was
  started. Codes other than stop, shutdown and interrogate do nothing.
\<close>

definition service_ctrl_handler :: "svc_env \<Rightarrow> dword \<Rightarrow> svc \<Rightarrow> bool \<times> svc" where
  "service_ctrl_handler e code s =
     (if code = SERVICE_CONTROL_SHUTDOWN \<or> code = SERVICE_CONTROL_STOP
      then let s = reportServiceStatus e SERVICE_STOP_PENDING NO_ERROR (3 * 1000) s
           in case sys_new e (Create_thread 6) s of (th, s) \<Rightarrow> (th \<noteq> None, sys_close th s)
      else if code = SERVICE_CONTROL_INTERROGATE
      then let st = current_status s
           in (False, reportServiceStatus e (st_state st) (st_exit st) (st_wait_hint st) s)
      else (False, s))"

datatype console_event = Ctrl_break | Ctrl_c | Ctrl_close | Ctrl_shutdown | Ctrl_logoff | Ctrl_other dword

definition console_handler :: "svc_env \<Rightarrow> console_event \<Rightarrow> svc \<Rightarrow> (bool \<times> svc) option" where
  "console_handler e ev s =
     (let stop = (\<lambda>c. map_option (\<lambda>(_, s). (True, s)) (serviceStop e c s))
      in case ev of
           Ctrl_break \<Rightarrow> Some (False, s)
         | Ctrl_c \<Rightarrow> stop SERVICE_CONTROL_STOP
         | Ctrl_close \<Rightarrow> stop SERVICE_CONTROL_STOP
         | Ctrl_shutdown \<Rightarrow> stop SERVICE_CONTROL_SHUTDOWN
         | Ctrl_logoff \<Rightarrow> if service_mode s then Some (True, s) else stop SERVICE_CONTROL_STOP
         | Ctrl_other _ \<Rightarrow> Some (False, s))"

text \<open>A round of \<open>eventThread\<close>: the counter of the log rotation and whether the thread goes on.\<close>

definition event_round :: "svc_env \<Rightarrow> dword \<Rightarrow> svc \<Rightarrow> bool \<times> dword \<times> svc" where
  "event_round e count s =
     (case sys_do e (Wait_for [gSignalEvent s] 1000) s of (r, s) \<Rightarrow>
        if r = WAIT_TIMEOUT
        then (True, if opt_num s SO_LOGROTATE \<noteq> 0 then (if count - 1 = 0 then opt_num s SO_LOGROTATE else count - 1) else count, s)
        else if r = WAIT_OBJECT_0 \<and> gSignalValid s
        then (case sys_do e Console_break s of (ok, s) \<Rightarrow>
              let s = (if ok \<noteq> 0 then s
                       else case gWorker s of
                              Some (Java_worker j) \<Rightarrow>
                                if jni_startup s then s\<lparr>jw := apxJavaDumpAllStacks (jenv e) False (Some (j, jw s)) (jw s)\<rparr> else s
                            | _ \<Rightarrow> s)
              in (True, count, snd (sys_do e (Reset_event (gSignalEvent s)) s)))
        else (False, count, s))"

section \<open>Running\<close>

definition docmdDebugService :: "svc_env \<Rightarrow> cmdline \<Rightarrow> svc \<Rightarrow> (bool \<times> svc) option" where
  "docmdDebugService e line s =
     map_option (\<lambda>s. (gExitval s = 0, s\<lparr>pid_file := None\<rparr>))
       (serviceMain e (s\<lparr>service_mode := False, service_name := Some (szApplication line)\<rparr>))"

text \<open>The dispatcher, if it can be started, runs \<open>serviceMain\<close> and returns when the service has stopped.\<close>

definition docmdRunService :: "svc_env \<Rightarrow> cmdline \<Rightarrow> svc \<Rightarrow> (bool \<times> svc) option" where
  "docmdRunService e line s =
     (let s = s\<lparr>service_mode := True, service_name := Some (szApplication line)\<rparr>
      in case sys_do e (Start_dispatcher (szApplication line)) s of (r, s) \<Rightarrow>
         if r = 0 then Some (False, s\<lparr>pid_file := None\<rparr>)
         else map_option (\<lambda>s. (True, s\<lparr>pid_file := None\<rparr>)) (serviceMain e s))"

end
