(* ===== verification/Srv_Status.thy ===== *)
theory Srv_Status
  imports Srv_Service Srv_Command_Facts Java_Handshake
begin

text \<open>
  The status that the service (\<^verbatim>\<open>windows/apps/prunsrv/prunsrv.c\<close>) reports when its main thread runs
  alone: which operations leave it as it is, what one report does to it, and the three sequences
  of reports that \<open>serviceMain\<close> can make.
\<close>

section \<open>What leaves the status alone\<close>

text \<open>The part of the state that concerns the reports, and the rest that the main thread relies on.\<close>

definition status_view :: "svc \<Rightarrow> bool \<times> bool \<times> service_status \<times> dword \<times> service_status list \<times> dword" where
  "status_view s = (service_mode s, status_handle s, current_status s, check_counter s, reports s, gExitval s)"

definition quiet :: "svc \<Rightarrow> svc \<Rightarrow> bool" where
  "quiet s s' \<longleftrightarrow> status_view s' = status_view s \<and> gShutdownEvent s' = gShutdownEvent s"

lemma quiet_refl [simp]: "quiet s s"
  by (simp add: quiet_def)

lemma quiet_trans [trans]: "quiet a b \<Longrightarrow> quiet b c \<Longrightarrow> quiet a c"
  by (simp add: quiet_def)

lemma sys_do_quiet [simp]: "sys_do e c s = (r, s') \<Longrightarrow> quiet s s'"
  by (auto simp: sys_do_def quiet_def status_view_def split: prod.splits)

lemma sys_do_snd [simp]: "quiet s (snd (sys_do e c s))"
  by (simp add: sys_do_def quiet_def status_view_def split: prod.split)

lemma sys_new_quiet [simp]: "sys_new e c s = (r, s') \<Longrightarrow> quiet s s'"
  by (auto simp: sys_new_def quiet_def status_view_def split: prod.splits)

lemma sys_close_quiet [simp]: "quiet s (sys_close h s)"
  by (simp add: sys_close_def quiet_def status_view_def)

lemma worker_wait_quiet: "worker_wait e ms k h s = Some (r, h', s') \<Longrightarrow> quiet s s'"
  by (auto simp: worker_wait_def quiet_def status_view_def split: worker_object.splits prod.splits)

lemma worker_close_quiet: "worker_close e h s = Some (h', s') \<Longrightarrow> quiet s s'"
  by (auto simp: worker_close_def quiet_def status_view_def split: worker_object.splits prod.splits)

lemma worker_finish_quiet: "worker_finish e h s = (h', s') \<Longrightarrow> quiet s s'"
  by (auto simp: worker_finish_def quiet_def status_view_def split: worker_object.splits prod.splits)

lemma wait_worker_end_quiet: "wait_worker_end e h s = Some (h', s') \<Longrightarrow> quiet s s'"
  by (auto simp: wait_worker_end_def split: prod.splits
      dest!: worker_wait_quiet worker_finish_quiet intro: quiet_trans)

lemma create_java_worker_quiet: "create_java_worker e s = Some (h, s') \<Longrightarrow> quiet s s'"
  by (auto simp: create_java_worker_def quiet_def status_view_def split: Option.bind_splits)

lemma create_process_worker_quiet: "create_process_worker e s = (h, s') \<Longrightarrow> quiet s s'"
  by (auto simp: create_process_worker_def quiet_def status_view_def split: prod.splits)

lemma run_process_worker_quiet: "run_process_worker e java img path cls params p s = Some (r, p', s') \<Longrightarrow> quiet s s'"
  by (auto simp: run_process_worker_def quiet_def status_view_def split: Option.bind_splits if_splits)

lemma start_java_quiet: "start_java e a j s = Some (ok, j', s') \<Longrightarrow> quiet s s'"
  by (auto simp: start_java_def quiet_def status_view_def)

lemma worker_environment_quiet: "worker_environment e s = Some s' \<Longrightarrow> quiet s s'"
  by (auto simp: worker_environment_def quiet_def status_view_def split: Option.bind_splits)

lemma close_worker_quiet: "close_worker e h rv s = Some (r, s') \<Longrightarrow> quiet s s'"
  by (auto simp: close_worker_def quiet_def status_view_def dest!: worker_close_quiet)

lemma missing_image_quiet [simp]: "quiet s (missing_image e s)"
  by (simp add: missing_image_def)

lemma prepare_pidfile_quiet: "prepare_pidfile e s = (ok, s') \<Longrightarrow> quiet s s'"
  by (auto simp: prepare_pidfile_def sys_do_def quiet_def status_view_def Let_def split: option.splits prod.splits if_splits)

lemma write_pidfile_quiet [simp]: "quiet s (write_pidfile e s)"
  by (auto simp: write_pidfile_def sys_do_def quiet_def status_view_def split: option.splits prod.splits worker_object.splits)

lemma quiet_update [simp]:
  "quiet s (t\<lparr>sv_opts := x\<rparr>) = quiet s t" "quiet s (t\<lparr>exit_hooks := h\<rparr>) = quiet s t" "quiet s (t\<lparr>gWorker := w\<rparr>) = quiet s t"
  "quiet (s\<lparr>exit_hooks := h\<rparr>) t = quiet s t"
  by (simp_all add: quiet_def status_view_def)

lemmas worker_quiet = create_java_worker_quiet create_process_worker_quiet run_process_worker_quiet start_java_quiet
  worker_environment_quiet close_worker_quiet prepare_pidfile_quiet

lemma quiet_do [simp]: "quiet s t \<Longrightarrow> quiet s (snd (sys_do e c t))"
  using quiet_trans sys_do_snd by blast

lemma start_jvm_quiet:
  assumes "start_jvm e s = Some (r, s')" shows "quiet s s'"
proof -
  define s1 where "s1 = (if opt_valid s SO_STARTPATH = None
              then s\<lparr>sv_opts := set_opt_v SO_STARTPATH (map_option (\<lambda>p. p @ [0]) (gStartPath s)) (sv_opts s)\<rparr> else s)"
  define s2 where "s2 = (case opt_valid s1 SO_STARTPATH of None \<Rightarrow> s1 | Some p \<Rightarrow> snd (sys_do e (Set_current_directory p) s1))"
  have q: "quiet s s2"
    unfolding s2_def s1_def by (auto split: option.split intro: quiet_trans)
  obtain s3 h s4 where s3: "worker_environment e s2 = Some s3" and s4: "create_java_worker e s3 = Some (h, s4)"
    and rest: "(case h of
        None \<Rightarrow> Some (1, s4)
      | Some j \<Rightarrow> do {
          let s = s4\<lparr>exit_hooks := Start_hook # exit_hooks s4\<rparr>;
          (ok, j, s) \<leftarrow> start_java e (worker_args_of s (jni_rclass s) (jni_rmethod s) (jni_rparam s) (std_files s)) j s;
          (if ok then Some (0, s\<lparr>gWorker := Some (Java_worker j)\<rparr>) else close_worker e (Java_worker j) 4 s) }) = Some (r, s')"
    using assms unfolding start_jvm_def Let_def s1_def[symmetric] s2_def[symmetric]
    by (auto split: Option.bind_split_asm)
  have "quiet s s4" using q worker_environment_quiet[OF s3] create_java_worker_quiet[OF s4] quiet_trans by blast
  moreover have "quiet s4 s'"
  proof (cases h)
    case None then show ?thesis using rest by simp
  next
    case (Some j)
    with rest show ?thesis
      by (auto simp: Let_def split: Option.bind_split_asm if_split_asm dest!: start_java_quiet close_worker_quiet
          intro: quiet_trans)
  qed
  ultimately show ?thesis by (rule quiet_trans)
qed

lemma start_process_quiet:
  assumes "start_process e s = Some (r, s')" shows "quiet s s'"
proof (cases "opt_valid s SO_STARTIMAGE = None")
  case True then show ?thesis using assms by (auto simp: start_process_def)
next
  case False
  then obtain s1 where s1: "worker_environment e s = Some s1"
    and rest: "(case create_process_worker e s1 of
           (None, s) \<Rightarrow> Some (1, s)
         | (Some p, s) \<Rightarrow> do {
             (rv, p, s) \<leftarrow> run_process_worker e (java_startup s) SO_STARTIMAGE SO_STARTPATH SO_STARTCLASS SO_STARTPARAMS p s;
             (if rv = 0 then Some (0, s\<lparr>gWorker := Some (Process_worker p)\<rparr>)
              else close_worker e (Process_worker p) rv s) }) = Some (r, s')"
    using assms by (auto simp: start_process_def split: Option.bind_split_asm)
  obtain h s2 where s2: "create_process_worker e s1 = (h, s2)" by force
  have "quiet s s2" using worker_environment_quiet[OF s1] create_process_worker_quiet[OF s2] by (rule quiet_trans)
  moreover have "quiet s2 s'"
    using rest s2
    by (auto split: option.split_asm Option.bind_split_asm if_split_asm dest!: run_process_worker_quiet close_worker_quiet
        intro: quiet_trans)
  ultimately show ?thesis by (rule quiet_trans)
qed

lemma serviceStart_quiet:
  assumes "serviceStart e s = Some (r, s')" shows "quiet s s'"
proof (cases "gWorker s")
  case (Some h) then show ?thesis using assms by (auto simp: serviceStart_def)
next
  case None
  obtain ok s1 where s1: "prepare_pidfile e s = (ok, s1)" by force
  note q1 = prepare_pidfile_quiet[OF s1]
  show ?thesis
  proof (cases ok)
    case False then show ?thesis using assms None s1 q1 by (auto simp: serviceStart_def)
  next
    case True
    then obtain r2 s2 where s2: "(if jni_startup s1 then start_jvm e s1 else start_process e s1) = Some (r2, s2)"
      and s': "s' = (if r2 = 0 then write_pidfile e s2 else s2)"
      using assms None s1 by (auto simp: serviceStart_def split: Option.bind_split_asm)
    have "quiet s1 s2" using s2 by (auto split: if_split_asm dest: start_jvm_quiet start_process_quiet)
    with q1 show ?thesis using s' by (auto intro: quiet_trans)
  qed
qed

text \<open>A start that succeeded has a worker, and one that failed has none.\<close>

lemma sys_do_worker [simp]: "gWorker (snd (sys_do e c s)) = gWorker s"
  by (simp add: sys_do_def split: prod.split)

lemma frame_worker:
  "worker_environment e s = Some s' \<Longrightarrow> gWorker s' = gWorker s"
  "create_java_worker e s = Some (h, s') \<Longrightarrow> gWorker s' = gWorker s"
  "start_java e a j s = Some (ok, j', s') \<Longrightarrow> gWorker s' = gWorker s"
  "prepare_pidfile e s = (ok, s') \<Longrightarrow> gWorker s' = gWorker s"
  "gWorker (write_pidfile e s) = gWorker s"
  by (auto simp: worker_environment_def create_java_worker_def start_java_def prepare_pidfile_def write_pidfile_def sys_do_def Let_def
      split: Option.bind_split_asm option.splits prod.splits if_splits worker_object.splits)

lemma start_jvm_worker:
  assumes "start_jvm e s = Some (r, s')" "gWorker s = None"
  shows "gWorker s' = None \<longleftrightarrow> r \<noteq> 0"
proof -
  obtain s2 s3 h s4 where s3: "worker_environment e s2 = Some s3" and s4: "create_java_worker e s3 = Some (h, s4)"
    and s2: "gWorker s2 = gWorker s"
    and rest: "(case h of
        None \<Rightarrow> Some (1, s4)
      | Some j \<Rightarrow> do {
          let s = s4\<lparr>exit_hooks := Start_hook # exit_hooks s4\<rparr>;
          (ok, j, s) \<leftarrow> start_java e (worker_args_of s (jni_rclass s) (jni_rmethod s) (jni_rparam s) (std_files s)) j s;
          (if ok then Some (0, s\<lparr>gWorker := Some (Java_worker j)\<rparr>) else close_worker e (Java_worker j) 4 s) }) = Some (r, s')"
    using assms unfolding start_jvm_def Let_def
    by (auto split: Option.bind_split_asm option.split_asm if_split_asm)
  have "gWorker s4 = None" using s2 assms(2) frame_worker(1)[OF s3] frame_worker(2)[OF s4] by simp
  then show ?thesis
    using rest by (auto simp: Let_def close_worker_def split: option.split_asm Option.bind_split_asm if_split_asm dest: frame_worker(3))
qed

lemma start_process_worker:
  assumes "start_process e s = Some (r, s')" "gWorker s = None"
  shows "gWorker s' = None \<longleftrightarrow> r \<noteq> 0"
proof (cases "opt_valid s SO_STARTIMAGE = None")
  case True then show ?thesis using assms by (auto simp: start_process_def missing_image_def sys_do_def split: prod.splits)
next
  case False
  then show ?thesis using assms
    by (auto simp: start_process_def worker_environment_def create_process_worker_def run_process_worker_def close_worker_def
       split: Option.bind_split_asm if_split_asm prod.split_asm option.split_asm)
qed

lemma serviceStart_worker:
  assumes "serviceStart e s = Some (r, s')" "gWorker s = None"
  shows "gWorker s' = None \<longleftrightarrow> r \<noteq> 0"
proof -
  obtain ok s1 where s1: "prepare_pidfile e s = (ok, s1)" by force
  have w: "gWorker s1 = None" using frame_worker(4)[OF s1] assms(2) by simp
  show ?thesis
  proof (cases ok)
    case False then show ?thesis using assms s1 w by (auto simp: serviceStart_def)
  next
    case True
    then obtain r2 s2 where s2: "(if jni_startup s1 then start_jvm e s1 else start_process e s1) = Some (r2, s2)"
      and s': "r = r2" "s' = (if r2 = 0 then write_pidfile e s2 else s2)"
      using assms s1 by (auto simp: serviceStart_def split: Option.bind_split_asm)
    have "gWorker s2 = None \<longleftrightarrow> r2 \<noteq> 0"
      using s2 start_jvm_worker[OF _ w] start_process_worker[OF _ w] by (auto split: if_split_asm)
    then show ?thesis using s' by (simp add: frame_worker)
  qed
qed

section \<open>What is reported\<close>

text \<open>A report as \<open>reportServiceStatusE\<close> makes it.\<close>

definition a_report :: "dword \<Rightarrow> dword \<Rightarrow> dword \<Rightarrow> dword \<Rightarrow> dword \<Rightarrow> service_status" where
  "a_report state exit_code hint specific count =
     \<lparr>st_state = state,
      st_accepted = (if state = SERVICE_RUNNING then SERVICE_ACCEPT_STOP OR SERVICE_ACCEPT_SHUTDOWN else 0),
      st_exit = exit_code, st_specific = specific,
      st_check_point = (if state = SERVICE_RUNNING \<or> state = SERVICE_STOPPED then 0 else count), st_wait_hint = hint\<rparr>"

definition next_count :: "dword \<Rightarrow> dword \<Rightarrow> dword" where
  "next_count state count = (if state = SERVICE_RUNNING \<or> state = SERVICE_STOPPED then count else count + 1)"

fun post :: "dword \<times> dword \<times> dword \<times> dword \<Rightarrow> svc \<Rightarrow> svc" where
  "post (state, x, hint, specific) s =
     (if service_mode s \<and> status_handle s
      then s\<lparr>current_status := a_report state x hint specific (check_counter s),
             reports := a_report state x hint specific (check_counter s) # reports s,
             check_counter := next_count state (check_counter s)\<rparr>
      else s)"

declare post.simps [simp del]

lemma report_E_post: "quiet (post (state, x, hint, specific) s) (snd (reportServiceStatusE e state x hint specific s))"
  by (auto simp: post.simps reportServiceStatusE_def a_report_def next_count_def sys_do_def quiet_def status_view_def Let_def split: prod.split)

lemma report_post: "quiet (post (state, x, hint, 0) s) (reportServiceStatus e state x hint s)"
  by (simp add: reportServiceStatus_def report_E_post)

lemma report_stopped_post:
  "quiet (post (if x \<noteq> 0 then (SERVICE_STOPPED, ERROR_SERVICE_SPECIFIC_ERROR, 0, x) else (SERVICE_STOPPED, NO_ERROR, 0, 0)) s)
     (reportServiceStatusStopped e x s)"
  by (simp add: reportServiceStatusStopped_def report_E_post report_post)

lemma quiet_view: "quiet s t \<Longrightarrow> status_view t = status_view s \<and> gShutdownEvent t = gShutdownEvent s"
  by (simp add: quiet_def)

lemma post_quiet: "quiet s t \<Longrightarrow> quiet (post p s) (post p t)"
  by (cases p) (auto simp: post.simps quiet_def status_view_def)


section \<open>The service without controls\<close>

lemma create_signal_quiet [simp]: "quiet s (create_signal e s)"
  by (auto simp: create_signal_def sys_new_def quiet_def status_view_def Let_def split: option.split prod.split)

lemma java_home_quiet: "java_home e s = Some (h, s') \<Longrightarrow> quiet s s'"
  by (auto simp: java_home_def Let_def quiet_def status_view_def split: if_split_asm)

lemma java_mode_quiet: "java_mode e img path s = Some (ok, s') \<Longrightarrow> quiet s s'"
  by (auto simp: java_mode_def Let_def split: option.split_asm dest!: java_home_quiet)

lemma quiet_modes [simp]:
  "quiet s (t\<lparr>jni_startup := a\<rparr>) = quiet s t" "quiet s (t\<lparr>jni_shutdown := a\<rparr>) = quiet s t"
  "quiet s (t\<lparr>java_startup := a\<rparr>) = quiet s t" "quiet s (t\<lparr>java_shutdown := a\<rparr>) = quiet s t"
  "quiet s (t\<lparr>jni_rclass := c\<rparr>) = quiet s t" "quiet s (t\<lparr>jni_sclass := c\<rparr>) = quiet s t"
  "quiet s (t\<lparr>jni_rparam := p\<rparr>) = quiet s t" "quiet s (t\<lparr>jni_sparam := p\<rparr>) = quiet s t"
  "quiet s (t\<lparr>jni_jvmpath := p\<rparr>) = quiet s t" "quiet s (t\<lparr>jni_classpath := m\<rparr>) = quiet s t"
  "quiet s (t\<lparr>jni_rmethod := m\<rparr>) = quiet s t" "quiet s (t\<lparr>jni_smethod := m\<rparr>) = quiet s t"
  "quiet s (t\<lparr>jni_jvmoptions := m\<rparr>) = quiet s t"
  by (simp_all add: quiet_def status_view_def)

lemma start_mode_quiet: "start_mode e s = Some (ok, s') \<Longrightarrow> quiet s s'"
  by (auto simp: start_mode_def split: option.split_asm if_split_asm dest!: java_mode_quiet)

lemma stop_mode_quiet: "stop_mode e s = Some (ok, s') \<Longrightarrow> quiet s s'"
  by (auto simp: stop_mode_def split: option.split_asm if_split_asm dest!: java_mode_quiet)

lemma jvm_settings_quiet: "jvm_settings e s = Some s' \<Longrightarrow> quiet s s'"
  by (auto simp: jvm_settings_def Let_def split: option.split Option.bind_split_asm if_split_asm)

lemma setup_worker:
  "gWorker (create_signal e s) = gWorker s"
  "java_mode e img path s = Some (ok, s') \<Longrightarrow> gWorker s' = gWorker s"
  "start_mode e s = Some (ok, s') \<Longrightarrow> gWorker s' = gWorker s"
  "stop_mode e s = Some (ok, s') \<Longrightarrow> gWorker s' = gWorker s"
  "jvm_settings e s = Some s' \<Longrightarrow> gWorker s' = gWorker s"
proof -
  show j: "java_mode e img path s = Some (ok, s') \<Longrightarrow> gWorker s' = gWorker s" for img path ok s'
    by (auto simp: java_mode_def java_home_def Let_def split: option.split_asm if_split_asm)
  show "gWorker (create_signal e s) = gWorker s"
    by (auto simp: create_signal_def sys_new_def Let_def split: option.split prod.split)
  show "start_mode e s = Some (ok, s') \<Longrightarrow> gWorker s' = gWorker s" "stop_mode e s = Some (ok, s') \<Longrightarrow> gWorker s' = gWorker s"
    by (auto simp: start_mode_def stop_mode_def split: option.split_asm if_split_asm dest!: j)
  show "jvm_settings e s = Some s' \<Longrightarrow> gWorker s' = gWorker s"
    by (auto simp: jvm_settings_def Let_def split: option.split Option.bind_split_asm if_split_asm)
qed

lemma register_handler_handle:
  assumes "register_handler e s = (ok, s')" "service_mode s" "\<not> status_handle s"
  shows "quiet (s\<lparr>status_handle := ok\<rparr>) s' \<and> gWorker s' = gWorker s"
  using assms by (auto simp: register_handler_def sys_do_def quiet_def status_view_def Let_def split: prod.splits if_split_asm)

text \<open>The set-up reports nothing, and can report afterwards only if it succeeded.\<close>

definition prepared :: "svc \<Rightarrow> bool \<Rightarrow> svc \<Rightarrow> bool" where
  "prepared s ok s' \<longleftrightarrow> status_handle s' = ok \<and> service_mode s' \<and> reports s' = reports s \<and> check_counter s' = check_counter s
    \<and> gExitval s' = gExitval s \<and> gShutdownEvent s' = gShutdownEvent s \<and> gWorker s' = gWorker s
    \<and> st_state (current_status s') = SERVICE_START_PENDING"

lemma prepared_quiet: "prepared s ok t \<Longrightarrow> quiet t t' \<Longrightarrow> gWorker t' = gWorker t \<Longrightarrow> prepared s ok t'"
  by (auto simp: prepared_def quiet_def status_view_def)

lemma service_setup_handle:
  assumes "service_setup e s = Some (ok, s')" "service_mode s" "\<not> status_handle s"
  shows "prepared s ok s'"
proof -
  define s0 where "s0 = s\<lparr>current_status := \<lparr>st_state = SERVICE_START_PENDING, st_accepted = SERVICE_CONTROL_INTERROGATE,
    st_exit = 0, st_specific = 0, st_check_point = 0, st_wait_hint = 0\<rparr>\<rparr>"
  have "prepared s False s0" using assms(2,3) by (simp add: s0_def prepared_def)
  then have f1: "prepared s False (create_signal e s0)"
    by (rule prepared_quiet) (simp_all add: setup_worker(1))
  obtain ok2 s2 where s2: "start_mode e (create_signal e s0) = Some (ok2, s2)"
    and rest: "(if \<not> ok2 then Some (False, s2)
      else do {
        (ok, s) \<leftarrow> stop_mode e s2;
        (if \<not> ok then Some (False, s)
         else do { s \<leftarrow> jvm_settings e s; Some (register_handler e s) }) }) = Some (ok, s')"
    using assms(1) unfolding service_setup_def Let_def s0_def[symmetric] by (auto split: Option.bind_split_asm)
  note f2 = prepared_quiet[OF f1 start_mode_quiet[OF s2] setup_worker(3)[OF s2]]
  show ?thesis
  proof (cases ok2)
    case False then show ?thesis using rest f2 by auto
  next
    case True
    then obtain ok3 s3 where s3: "stop_mode e s2 = Some (ok3, s3)"
      and rest3: "(if \<not> ok3 then Some (False, s3) else do { s \<leftarrow> jvm_settings e s3; Some (register_handler e s) }) = Some (ok, s')"
      using rest by (auto split: Option.bind_split_asm)
    note f3 = prepared_quiet[OF f2 stop_mode_quiet[OF s3] setup_worker(4)[OF s3]]
    show ?thesis
    proof (cases ok3)
      case False then show ?thesis using rest3 f3 by auto
    next
      case True
      then obtain s4 where s4: "jvm_settings e s3 = Some s4" and r: "register_handler e s4 = (ok, s')"
        using rest3 by (auto split: Option.bind_split_asm)
      note f4 = prepared_quiet[OF f3 jvm_settings_quiet[OF s4] setup_worker(5)[OF s4]]
      then show ?thesis using register_handler_handle[OF r] by (auto simp: prepared_def quiet_def status_view_def)
    qed
  qed
qed

definition stopped_report :: "dword \<Rightarrow> dword \<Rightarrow> service_status" where
  "stopped_report x count =
     (if x \<noteq> 0 then a_report SERVICE_STOPPED ERROR_SERVICE_SPECIFIC_ERROR 0 x count else a_report SERVICE_STOPPED NO_ERROR 0 0 count)"

lemma states_distinct:
  "SERVICE_START_PENDING \<noteq> SERVICE_RUNNING" "SERVICE_START_PENDING \<noteq> SERVICE_STOPPED"
  "SERVICE_STOP_PENDING \<noteq> SERVICE_RUNNING" "SERVICE_STOP_PENDING \<noteq> SERVICE_STOPPED"
  "SERVICE_STOPPED \<noteq> SERVICE_RUNNING" "SERVICE_STOP_PENDING \<noteq> SERVICE_START_PENDING"
  by (simp_all add: SERVICE_START_PENDING_def SERVICE_RUNNING_def SERVICE_STOPPED_def SERVICE_STOP_PENDING_def)

declare states_distinct [simp] states_distinct [symmetric, simp]

text \<open>What a report adds to a state that can report.\<close>

definition reporting :: "svc \<Rightarrow> bool" where
  "reporting s \<longleftrightarrow> service_mode s \<and> status_handle s"

definition view_of :: "svc \<Rightarrow> dword \<times> service_status list \<times> dword \<times> nat option \<times> bool" where
  "view_of s = (check_counter s, reports s, gExitval s, gShutdownEvent s, reporting s)"

lemma quiet_view_of: "quiet s t \<Longrightarrow> view_of t = view_of s"
  by (simp add: quiet_def status_view_def view_of_def reporting_def)

lemma view_of_report:
  "reporting s \<Longrightarrow> view_of (reportServiceStatus e st x h s) =
     (next_count st (check_counter s), a_report st x h 0 (check_counter s) # reports s, gExitval s, gShutdownEvent s, True)"
  using quiet_view_of[OF report_post[of st x h s e]] by (simp add: view_of_def reporting_def post.simps)

lemma view_of_stopped:
  "reporting s \<Longrightarrow> view_of (reportServiceStatusStopped e x s) =
     (check_counter s, stopped_report x (check_counter s) # reports s, gExitval s, gShutdownEvent s, True)"
  using quiet_view_of[OF report_stopped_post[of x s e]]
  by (simp add: view_of_def reporting_def post.simps stopped_report_def next_count_def split: if_split_asm)

lemma report_silent [simp]: "\<not> reporting s \<Longrightarrow> reportServiceStatus e st x h s = s"
  by (auto simp: reportServiceStatus_def reportServiceStatusE_def reporting_def)

lemma stopped_silent [simp]: "\<not> reporting s \<Longrightarrow> reportServiceStatusStopped e x s = s"
  by (auto simp: reportServiceStatusStopped_def reportServiceStatusE_def reporting_def reportServiceStatus_def)

lemma destroy_jvm_quiet [simp]: "quiet s (destroy_jvm e ms s)"
  by (simp add: destroy_jvm_def quiet_def status_view_def)

lemma wait_own_worker_quiet: "wait_own_worker e s = Some s' \<Longrightarrow> quiet s s'"
  by (auto simp: wait_own_worker_def split: option.split_asm dest!: wait_worker_end_quiet)

lemma stopped_keeps_exit: "vm_exit_code (jw (reportServiceStatusStopped e x s)) = vm_exit_code (jw s)"
  by (auto simp: reportServiceStatusStopped_def reportServiceStatus_def reportServiceStatusE_def sys_do_def Let_def on_os_def
      split: prod.splits)

lemma plain_end_view:
  assumes "gShutdownEvent s = None" "reporting s"
  shows "view_of (service_end e s) =
    (check_counter s + 1,
     stopped_report (vm_exit_code (jw (service_end e s))) (check_counter s + 1) #
       a_report SERVICE_STOP_PENDING NO_ERROR 0 0 (check_counter s) # reports s, gExitval s, None, True)"
proof -
  define d where "d = destroy_jvm e INFINITE s"
  have d: "view_of d = view_of s" using quiet_view_of[of s d] by (simp add: d_def)
  then have r: "reporting d" "gShutdownEvent d = None" using assms by (simp_all add: view_of_def)
  define p where "p = plain_destroy e s"
  have p: "view_of p = (check_counter s + 1, a_report SERVICE_STOP_PENDING NO_ERROR 0 0 (check_counter s) # reports s, gExitval s, None, True)"
    using view_of_report[OF r(1)] d r by (simp add: p_def plain_destroy_def d_def[symmetric] view_of_def next_count_def)
  have "service_end e s = reportServiceStatusStopped e (vm_exit_code (jw p)) p"
    using assms(1) by (simp add: service_end_def service_stopped_def p_def)
  moreover have "reporting p" using p by (simp add: view_of_def)
  ultimately show ?thesis
    using view_of_stopped[of p e "vm_exit_code (jw p)"] p stopped_keeps_exit[of e "vm_exit_code (jw p)" p] by (simp add: view_of_def)
qed

text \<open>The service reports nothing at all, and exit value zero, if the Java to run is not found or its control
  handler cannot be registered; a start that fails is reported as stopped with the number of its error,
  which is also the exit value, and leaves no worker; and a service that starts goes through
  the four states in order, the last with the exit code of the virtual machine or process.\<close>

theorem service_reports:
  assumes "serviceMain e s = Some s'" "service_mode s" "\<not> status_handle s" "gWorker s = None" "gShutdownEvent s = None"
  defines "c \<equiv> check_counter s"
  shows "(reports s' = reports s \<and> gExitval s' = 0 \<and> \<not> status_handle s')
    \<or> (\<exists>rc. rc \<noteq> 0 \<and> reports s' = stopped_report rc (c + 1) # a_report SERVICE_START_PENDING NO_ERROR 3000 0 c # reports s
          \<and> gExitval s' = rc \<and> gWorker s' = None)
    \<or> (reports s' = [stopped_report (vm_exit_code (jw s')) (c + 2), a_report SERVICE_STOP_PENDING NO_ERROR 0 0 (c + 1),
          a_report SERVICE_RUNNING NO_ERROR 0 0 (c + 1), a_report SERVICE_START_PENDING NO_ERROR 3000 0 c] @ reports s
        \<and> gExitval s' = gExitval s)"
proof -
  obtain ok s1 where s1: "service_setup e s = Some (ok, s1)"
    using assms(1) by (auto simp: serviceMain_def service_begin_def split: Option.bind_split_asm)
  note pr = service_setup_handle[OF s1 assms(2,3)]
  show ?thesis
  proof (cases ok)
    case False
    then have "s' = reportServiceStatusStopped e 0 s1\<lparr>gExitval := 0\<rparr>" and n: "\<not> reporting s1"
      using assms(1) s1 pr by (auto simp: serviceMain_def service_begin_def service_failed_def prepared_def reporting_def)
    then show ?thesis using pr False by (simp add: prepared_def)
  next
    case True
    define s2 where "s2 = reportServiceStatus e SERVICE_START_PENDING NO_ERROR 3000 s1"
    have r1: "reporting s1" using pr True by (simp add: prepared_def reporting_def)
    then have v2: "view_of s2 = (c + 1, a_report SERVICE_START_PENDING NO_ERROR 3000 0 c # reports s, gExitval s, None, True)"
      using view_of_report[OF r1] pr assms(5) by (simp add: s2_def next_count_def prepared_def c_def)
    have w2: "gWorker s2 = None"
      using pr assms(4) by (auto simp: s2_def reportServiceStatus_def reportServiceStatusE_def sys_do_def Let_def prepared_def split: prod.split)
    obtain rc s3 where s3: "serviceStart e s2 = Some (rc, s3)"
      using assms(1) s1 True unfolding s2_def by (auto simp: serviceMain_def service_begin_def split: Option.bind_split_asm)
    have v3: "view_of s3 = view_of s2" using serviceStart_quiet[OF s3] by (rule quiet_view_of)
    have r3: "reporting s3" using v3 v2 by (simp add: view_of_def)
    show ?thesis
    proof (cases "rc = 0")
      case False
      then have s': "s' = (reportServiceStatusStopped e rc s3)\<lparr>gExitval := rc\<rparr>"
        using assms(1) s1 True s3 unfolding s2_def by (simp add: serviceMain_def service_begin_def service_failed_def)
      have "gWorker s' = gWorker s3"
        unfolding s' by (simp add: reportServiceStatusStopped_def reportServiceStatus_def reportServiceStatusE_def sys_do_def Let_def split: prod.split)
      moreover have "gWorker s3 = None" using serviceStart_worker[OF s3 w2] False by simp
      ultimately show ?thesis
        using False view_of_stopped[OF r3, of e rc] v3 v2 by (auto simp: s' view_of_def)
    next
      case rc: True
      define s4 where "s4 = reportServiceStatus e SERVICE_RUNNING NO_ERROR 0 s3"
      have v4: "view_of s4 = (c + 1, a_report SERVICE_RUNNING NO_ERROR 0 0 (c + 1) # a_report SERVICE_START_PENDING NO_ERROR 3000 0 c # reports s,
          gExitval s, None, True)"
        using view_of_report[OF r3] v3 v2 by (simp add: s4_def next_count_def view_of_def)
      obtain s5 where s5: "wait_own_worker e s4 = Some s5" and s': "s' = service_end e s5"
        using assms(1) s1 True s3 rc unfolding s2_def s4_def by (auto simp: serviceMain_def service_begin_def)
      have v5: "view_of s5 = view_of s4" using wait_own_worker_quiet[OF s5] by (rule quiet_view_of)
      then have "gShutdownEvent s5 = None" "reporting s5" using v4 by (simp_all add: view_of_def)
      from plain_end_view[OF this, of e] show ?thesis
        using v5 v4 by (simp add: s' view_of_def add.assoc)
    qed
  qed
qed

text \<open>A service whose options are those of the table, none given, in a system that grants everything.\<close>

definition demo_jvm :: jni_env where
  "demo_jvm cs c = (case c of Created_vms \<Rightarrow> 0 | _ \<Rightarrow> willing_jvm cs c)"

definition demo_env :: svc_env where
  "demo_env = \<lparr>jenv = demo_jvm, senv = (\<lambda>_ _. 1), renv = swift_run, getenv = (\<lambda>_ _ b _. (0, b)), expand_vars = (\<lambda>_ v. Some v),
     find_files = (\<lambda>_. None), to_upper = id, to_ansi = map ucast, ansi_heap = (\<lambda>n. replicate n 0), log_file = (\<lambda>_ f. f),
     above_nt4 = True, heap_slack = 0, stale_index = 0\<rparr>"

definition demo_status :: service_status where
  "demo_status = \<lparr>st_state = 0, st_accepted = 0, st_exit = 0, st_specific = 0, st_check_point = 0, st_wait_hint = 0\<rparr>"

definition new_service :: svc where
  "new_service = \<lparr>sv_opts = option_table, service_mode = True, service_name = Some [], status_handle = False,
     current_status = demo_status, check_counter = 1, reports = [], jni_startup = False, jni_shutdown = False,
     java_startup = False, java_shutdown = False, gWorker = None, gExitval = 0, gStartPath = None, gShutdownEvent = None,
     gSignalEvent = None, gSignalThread = None, gSignalValid = True, gPidfileName = None, pid_file = None,
     std_files = (None, None), exit_hooks = [], jni_jvmpath = None, jni_jvmoptions = None, jni_classpath = None,
     jni_rparam = None, jni_sparam = None, jni_rmethod = None, jni_smethod = None, jni_rclass = [], jni_sclass = [],
     sv_vars = (\<lambda>_. None), sv_reg = installed_registry [65], jw = jvm_world_1\<rparr>"

lemma table_unset: "i < 40 \<Longrightarrow> GET_OPT_V option_table i = None"
  by (auto simp: GET_OPT_V_def option_table_def option_init_def rows_count split: prod.split)

lemma option_numbers:
  "SO_STARTMODE = 31" "SO_STOPMODE = 24" "SO_PIDFILE = 38" "SO_STARTIMAGE = 26"
  by (simp_all add: SO_STARTMODE_def SO_STOPMODE_def SO_PIDFILE_def SO_STARTIMAGE_def)

theorem service_reports_witness:
  "\<exists>s'. serviceMain demo_env new_service = Some s' \<and> gExitval s' = 1
     \<and> map st_state (reports s') = [SERVICE_STOPPED, SERVICE_START_PENDING] \<and> st_specific (hd (reports s')) = 1"
proof -
  obtain s' where s: "serviceMain demo_env new_service = Some s'" "gExitval s' = 1"
    by (simp add: serviceMain_def service_begin_def service_setup_def create_signal_def start_mode_def stop_mode_def jvm_settings_def
        register_handler_def serviceStart_def prepare_pidfile_def start_process_def missing_image_def service_failed_def opt_valid_def
        valid_string_def table_unset option_numbers new_service_def demo_env_def sys_do_def on_os_def ask_def Let_def
        reportServiceStatus_def reportServiceStatusE_def)
  from service_reports [OF s(1)] s show ?thesis
    by (auto simp: new_service_def stopped_report_def a_report_def)
qed

end
