(* ===== verification/Srv_Control.thy ===== *)
theory Srv_Control
  imports Srv_Status
begin

text \<open>
  The service with its threads: the main thread, the threads that stop the service, and the controls
  that Windows sends. Every step makes at most one report or one wait, so the reports of the threads
  can come in any order that the code allows.
\<close>

section \<open>The threads\<close>

datatype main_phase =
    Main_setup | Main_announce | Main_start | Main_run | Main_wait | Main_finish | Main_destroy | Main_report
  | Main_failed dword | Main_end

fun main_step :: "svc_env \<Rightarrow> main_phase \<Rightarrow> svc \<Rightarrow> (main_phase \<times> svc) option" where
  "main_step e Main_setup s = map_option (\<lambda>(ok, s). (if ok then Main_announce else Main_failed 0, s)) (service_setup e s)"
| "main_step e Main_announce s = Some (Main_start, reportServiceStatus e SERVICE_START_PENDING NO_ERROR 3000 s)"
| "main_step e Main_start s = map_option (\<lambda>(rc, s). (if rc = 0 then Main_run else Main_failed rc, s)) (serviceStart e s)"
| "main_step e Main_run s = Some (Main_wait, reportServiceStatus e SERVICE_RUNNING NO_ERROR 0 s)"
| "main_step e Main_wait s = map_option (Pair Main_finish) (wait_own_worker e s)"
| "main_step e Main_finish s =
     Some (if gShutdownEvent s \<noteq> None then (Main_destroy, shutdown_wait e s) else (Main_report, plain_destroy e s))"
| "main_step e Main_destroy s = Some (Main_report, shutdown_destroy e s)"
| "main_step e Main_report s = Some (Main_end, service_stopped e s)"
| "main_step e (Main_failed rc) s = Some (Main_end, service_failed e rc s)"
| "main_step e Main_end s = None"

datatype stop_phase =
    Stop_start dword | Stop_waits dword worker_object | Stop_cleans dword "worker_object option" bool dword
  | Stop_kills dword dword | Stop_signals dword | Stop_done dword

fun stop_step :: "svc_env \<Rightarrow> stop_phase \<Rightarrow> svc \<Rightarrow> (stop_phase \<times> svc) option" where
  "stop_step e (Stop_start c) s =
     map_option (\<lambda>(r, s). (case r of Stop_return rv \<Rightarrow> Stop_done rv | Stop_wait h \<Rightarrow> Stop_waits c h
                             | Stop_go h w rv \<Rightarrow> Stop_cleans c h w rv, s)) (stop_launch e s)"
| "stop_step e (Stop_waits c h) s = map_option (\<lambda>(h, s). (Stop_cleans c (Some h) True 0, s)) (wait_worker_end e h s)"
| "stop_step e (Stop_cleans c h w rv) s = map_option (\<lambda>(t, s). (Stop_kills t rv, s)) (stop_cleanup e c h w s)"
| "stop_step e (Stop_kills t rv) s = map_option (\<lambda>(rv, s). (Stop_signals rv, s)) (stop_wait e t rv s)"
| "stop_step e (Stop_signals rv) s = Some (Stop_done rv, snd (sys_do e (Set_event (gShutdownEvent s)) s))"
| "stop_step e (Stop_done rv) s = None"

text \<open>Alone, the steps are the functions of the code.\<close>

fun main_steps :: "svc_env \<Rightarrow> nat \<Rightarrow> main_phase \<Rightarrow> svc \<Rightarrow> (main_phase \<times> svc) option" where
  "main_steps e 0 m s = Some (m, s)"
| "main_steps e (Suc n) m s = (if m = Main_end then Some (m, s) else do { (m, s) \<leftarrow> main_step e m s; main_steps e n m s })"

fun stop_steps :: "svc_env \<Rightarrow> nat \<Rightarrow> stop_phase \<Rightarrow> svc \<Rightarrow> (stop_phase \<times> svc) option" where
  "stop_steps e 0 p s = Some (p, s)"
| "stop_steps e (Suc n) p s =
     (case p of Stop_done _ \<Rightarrow> Some (p, s) | _ \<Rightarrow> do { (p, s) \<leftarrow> stop_step e p s; stop_steps e n p s })"

lemma main_steps_end [simp]: "main_steps e n Main_end s = Some (Main_end, s)"
  by (cases n) simp_all

lemma stop_steps_done [simp]: "stop_steps e n (Stop_done rv) s = Some (Stop_done rv, s)"
  by (cases n) simp_all

lemma main_steps_failed: "main_steps e (Suc n) (Main_failed rc) s = Some (Main_end, service_failed e rc s)"
  by simp

lemma main_steps_from_wait:
  "main_steps e (Suc (Suc (Suc (Suc n)))) Main_wait s = map_option (\<lambda>s. (Main_end, service_end e s)) (wait_own_worker e s)"
  by (cases "wait_own_worker e s") (auto simp: service_end_def)

lemma serviceMain_steps:
  "main_steps e 8 Main_setup s = map_option (Pair Main_end) (serviceMain e s)"
proof (cases "service_setup e s")
  case None then show ?thesis by (simp add: serviceMain_def service_begin_def numeral_eq_Suc)
next
  case (Some p)
  obtain ok s1 where p: "p = (ok, s1)" by force
  show ?thesis
  proof (cases ok)
    case False then show ?thesis using Some p by (simp add: serviceMain_def service_begin_def numeral_eq_Suc)
  next
    case ok: True
    define s2 where "s2 = reportServiceStatus e SERVICE_START_PENDING NO_ERROR 3000 s1"
    have m: "main_steps e 8 Main_setup s = main_steps e 6 Main_start s2"
      using Some p ok by (simp add: s2_def numeral_eq_Suc)
    show ?thesis
    proof (cases "serviceStart e s2")
      case None then show ?thesis using Some p ok m by (simp add: serviceMain_def service_begin_def s2_def numeral_eq_Suc)
    next
      case (Some q)
      obtain rc s3 where q: "q = (rc, s3)" by force
      show ?thesis
      proof (cases "rc = 0")
        case False
        then show ?thesis using \<open>service_setup e s = Some p\<close> Some p q ok m
          by (simp add: serviceMain_def service_begin_def s2_def numeral_eq_Suc)
      next
        case True
        have "main_steps e 6 Main_start s2 = main_steps e (Suc (Suc (Suc (Suc 0)))) Main_wait (reportServiceStatus e SERVICE_RUNNING NO_ERROR 0 s3)"
          using Some q True by (simp add: numeral_eq_Suc)
        then show ?thesis using \<open>service_setup e s = Some p\<close> Some p q ok m True
          unfolding main_steps_from_wait by (simp add: serviceMain_def service_begin_def s2_def option.map_comp comp_def)
      qed
    qed
  qed
qed

lemma stop_steps_end:
  "stop_steps e (Suc (Suc (Suc n))) (Stop_cleans c h w rv) s = map_option (\<lambda>(rv, s). (Stop_done rv, s)) (stop_end e c h w rv s)"
  by (cases "stop_cleanup e c h w s") (auto simp: stop_end_def split: Option.bind_split option.split)

lemma serviceStop_steps:
  "stop_steps e 5 (Stop_start c) s = map_option (\<lambda>(rv, s). (Stop_done rv, s)) (serviceStop e c s)"
proof (cases "stop_launch e s")
  case None then show ?thesis by (simp add: serviceStop_def numeral_eq_Suc)
next
  case (Some p)
  obtain r s1 where p: "p = (r, s1)" by force
  have five: "stop_steps e 5 (Stop_start c) s = stop_steps e (Suc (Suc (Suc (Suc 0))))
      (case r of Stop_return rv \<Rightarrow> Stop_done rv | Stop_wait h \<Rightarrow> Stop_waits c h | Stop_go h w rv \<Rightarrow> Stop_cleans c h w rv) s1"
    using Some p by (simp add: numeral_eq_Suc)
  show ?thesis
  proof (cases r)
    case (Stop_return rv) then show ?thesis using Some p five by (simp add: serviceStop_def)
  next
    case (Stop_go h w rv) then show ?thesis using Some p five unfolding five Stop_go stop_outcome.case stop_steps_end by (simp add: serviceStop_def)
  next
    case (Stop_wait h)
    then have "stop_steps e 5 (Stop_start c) s = do { (h, s) \<leftarrow> wait_worker_end e h s1; stop_steps e (Suc (Suc (Suc 0))) (Stop_cleans c (Some h) True 0) s }"
      unfolding five by (cases "wait_worker_end e h s1") auto
    then show ?thesis using Some p Stop_wait unfolding stop_steps_end
      by (cases "wait_worker_end e h s1") (auto simp: serviceStop_def)
  qed
qed

section \<open>All together\<close>

text \<open>A control is delivered if the last reported status accepts it; the status itself can be asked for at any
  time after the handler was registered. Any other code does nothing and is left out.\<close>

definition delivered :: "svc \<Rightarrow> dword \<Rightarrow> bool" where
  "delivered s code \<longleftrightarrow> reporting s \<and>
     (code = SERVICE_CONTROL_INTERROGATE
      \<or> reports s \<noteq> [] \<and>
         (code = SERVICE_CONTROL_STOP \<and> st_accepted (hd (reports s)) AND SERVICE_ACCEPT_STOP \<noteq> 0
          \<or> code = SERVICE_CONTROL_SHUTDOWN \<and> st_accepted (hd (reports s)) AND SERVICE_ACCEPT_SHUTDOWN \<noteq> 0))"

definition console_code :: "console_event \<Rightarrow> dword option" where
  "console_code ev = (case ev of Ctrl_c \<Rightarrow> Some SERVICE_CONTROL_STOP | Ctrl_close \<Rightarrow> Some SERVICE_CONTROL_STOP
     | Ctrl_shutdown \<Rightarrow> Some SERVICE_CONTROL_SHUTDOWN | _ \<Rightarrow> None)"

datatype move = Main_moves | Stopper_moves nat | Control dword | Console console_event

type_synonym srv_state = "main_phase \<times> stop_phase list \<times> svc"

inductive srv_move :: "svc_env \<Rightarrow> move \<Rightarrow> srv_state \<Rightarrow> srv_state \<Rightarrow> bool" for e where
  main: "main_step e m s = Some (m', s') \<Longrightarrow> srv_move e Main_moves (m, ts, s) (m', ts, s')"
| stopper: "i < length ts \<Longrightarrow> stop_step e (ts ! i) s = Some (p, s') \<Longrightarrow> srv_move e (Stopper_moves i) (m, ts, s) (m, ts[i := p], s')"
| control: "delivered s code \<Longrightarrow> service_ctrl_handler e code s = (started, s') \<Longrightarrow>
    srv_move e (Control code) (m, ts, s) (m, if started then ts @ [Stop_start code] else ts, s')"
| console: "m \<in> {Main_wait, Main_finish, Main_destroy, Main_report} \<Longrightarrow> console_code ev = Some code \<Longrightarrow>
    srv_move e (Console ev) (m, ts, s) (m, ts @ [Stop_start code], s)"

inductive_cases srv_moveE: "srv_move e mv (m, ts, s) x'"
inductive_simps srv_move_main: "srv_move e Main_moves (m, ts, s) x'"
inductive_simps srv_move_stopper: "srv_move e (Stopper_moves i) (m, ts, s) x'"
inductive_simps srv_move_control: "srv_move e (Control code) (m, ts, s) x'"

text \<open>What is reached by moves of a kind.\<close>

inductive srv_reach :: "svc_env \<Rightarrow> (move \<Rightarrow> bool) \<Rightarrow> srv_state \<Rightarrow> srv_state \<Rightarrow> bool" for e P x where
  here: "srv_reach e P x x"
| step: "srv_reach e P x y \<Longrightarrow> srv_move e mv y z \<Longrightarrow> P mv \<Longrightarrow> srv_reach e P x z"

section \<open>One step, one report\<close>

text \<open>The reports that a state can make next.\<close>

definition rview :: "svc \<Rightarrow> bool \<times> bool \<times> service_status \<times> dword \<times> service_status list" where
  "rview s = (service_mode s, status_handle s, current_status s, check_counter s, reports s)"

definition posts :: "dword \<Rightarrow> svc \<Rightarrow> svc \<Rightarrow> bool" where
  "posts st s s' \<longleftrightarrow> (\<exists>x h sp. rview s' = rview (post (st, x, h, sp) s))"

definition may_post :: "dword \<Rightarrow> svc \<Rightarrow> svc \<Rightarrow> bool" where
  "may_post st s s' \<longleftrightarrow> rview s' = rview s \<or> posts st s s'"

lemma postsI: "rview s' = rview (post (st, x, h, sp) s) \<Longrightarrow> posts st s s'"
  by (auto simp: posts_def)

lemma may_postI: "posts st s s' \<Longrightarrow> may_post st s s'" "rview s' = rview s \<Longrightarrow> may_post st s s'"
  by (simp_all add: may_post_def)

lemma quiet_rview: "quiet s t \<Longrightarrow> rview t = rview s"
  by (simp add: quiet_def status_view_def rview_def)

lemma rview_post: "rview t = rview s \<Longrightarrow> rview (post p t) = rview (post p s)"
  by (cases p) (auto simp: rview_def post.simps)

lemma rview_report: "rview (reportServiceStatus e st x h s) = rview (post (st, x, h, 0) s)"
  using quiet_rview[OF report_post] .

lemma report_posts: "rview t = rview s \<Longrightarrow> posts st s (reportServiceStatus e st x h t)"
  using rview_post[of t s] by (auto simp: rview_report intro: postsI)

lemma stopped_posts: "posts SERVICE_STOPPED s (reportServiceStatusStopped e x s)"
  using quiet_rview[OF report_stopped_post[of x s e]] by (auto split: if_splits intro: postsI)

lemma posts_rview: "posts st s s' \<Longrightarrow> rview t = rview s' \<Longrightarrow> posts st s t"
  by (simp add: posts_def)

definition main_reports :: "main_phase \<Rightarrow> dword" where
  "main_reports m = (case m of Main_announce \<Rightarrow> SERVICE_START_PENDING | Main_run \<Rightarrow> SERVICE_RUNNING
     | Main_finish \<Rightarrow> SERVICE_STOP_PENDING | Main_destroy \<Rightarrow> SERVICE_STOP_PENDING | _ \<Rightarrow> SERVICE_STOPPED)"

lemma main_step_reports:
  assumes "main_step e m s = Some (m', s')" "m \<noteq> Main_setup"
  shows "may_post (main_reports m) s s'"
proof (cases m)
  case Main_setup then show ?thesis using assms by simp
next
  case Main_announce then show ?thesis using assms by (auto simp: main_reports_def intro!: may_postI(1) report_posts)
next
  case Main_start then show ?thesis using assms by (auto dest!: serviceStart_quiet quiet_rview intro: may_postI(2))
next
  case Main_run then show ?thesis using assms by (auto simp: main_reports_def intro!: may_postI(1) report_posts)
next
  case Main_wait then show ?thesis using assms by (auto dest!: wait_own_worker_quiet quiet_rview intro: may_postI(2))
next
  case Main_finish
  have "posts SERVICE_STOP_PENDING s (shutdown_wait e s)"
    unfolding shutdown_wait_def Let_def by (rule posts_rview[OF report_posts[OF refl]]) (rule quiet_rview[OF sys_do_snd])
  moreover have "posts SERVICE_STOP_PENDING s (plain_destroy e s)"
    unfolding plain_destroy_def by (rule report_posts) (simp add: quiet_rview)
  ultimately show ?thesis using assms Main_finish by (auto simp: main_reports_def intro: may_postI(1) split: if_split_asm)
next
  case Main_destroy
  have "posts SERVICE_STOP_PENDING s (shutdown_destroy e s)"
    unfolding shutdown_destroy_def
    by (rule posts_rview[OF report_posts[OF quiet_rview[OF sys_close_quiet]] quiet_rview[OF destroy_jvm_quiet]])
  then show ?thesis using assms Main_destroy by (auto simp: main_reports_def intro: may_postI(1))
next
  case Main_report
  then show ?thesis using assms stopped_posts by (auto simp: main_reports_def service_stopped_def intro!: may_postI(1))
next
  case (Main_failed rc)
  have "rview (x\<lparr>gExitval := rc\<rparr>) = rview x" for x by (simp add: rview_def)
  then show ?thesis using assms Main_failed posts_rview[OF stopped_posts]
    by (auto simp: main_reports_def service_failed_def intro!: may_postI(1))
next
  case Main_end then show ?thesis using assms by simp
qed

lemma rview_updates [simp]:
  "rview (s\<lparr>gShutdownEvent := v\<rparr>) = rview s" "rview (s\<lparr>exit_hooks := h\<rparr>) = rview s" "rview (s\<lparr>gWorker := w\<rparr>) = rview s"
  "rview (s\<lparr>gSignalValid := b\<rparr>) = rview s" "rview (s\<lparr>gSignalEvent := v\<rparr>) = rview s" "rview (s\<lparr>sv_reg := r\<rparr>) = rview s"
  by (simp_all add: rview_def)

lemma sys_new_rview: "sys_new e c s = (r, s') \<Longrightarrow> rview s' = rview s"
  by (rule quiet_rview) simp

lemma stop_jvm_reports:
  assumes "stop_jvm e s = Some (r, s')" shows "may_post SERVICE_STOP_PENDING s s'"
proof -
  define s1 where "s1 = (case (opt_valid s SO_STARTPATH, opt_valid s SO_STOPPATH) of
                (None, Some p) \<Rightarrow> snd (sys_do e (Set_current_directory p) s) | _ \<Rightarrow> s)"
  have v1: "rview s1 = rview s" by (auto simp: s1_def quiet_rview split: option.split)
  obtain h s2 where s2: "create_java_worker e s1 = Some (h, s2)"
    and rest: "(case h of
        None \<Rightarrow> Some (Stop_return 1, s2)
      | Some j \<Rightarrow> do {
          let s = s2\<lparr>exit_hooks := Stop_hook # exit_hooks s2\<rparr>;
          let (ev, s) = sys_new e Create_event s;
          let s = s\<lparr>gShutdownEvent := ev\<rparr>;
          (ok, j, s) \<leftarrow> start_java e (worker_args_of s (jni_sclass s) (jni_smethod s) (jni_sparam s) (None, None)) j s;
          (if \<not> ok then Some (Stop_go (Some (Java_worker j)) True 3, s)
           else if jni_sclass s = JAVA_SYSTEM
           then Some (Stop_return 0, reportServiceStatus e SERVICE_STOP_PENDING NO_ERROR (20 * 1000) s)
           else Some (Stop_wait (Java_worker j), s)) }) = Some (r, s')"
    using assms unfolding stop_jvm_def Let_def s1_def[symmetric] by (auto split: Option.bind_split_asm)
  have v2: "rview s2 = rview s" using v1 quiet_rview[OF create_java_worker_quiet[OF s2]] by simp
  show ?thesis
  proof (cases h)
    case None then show ?thesis using rest v2 by (simp add: may_post_def)
  next
    case (Some j)
    obtain ev s3 where s3: "sys_new e Create_event (s2\<lparr>exit_hooks := Stop_hook # exit_hooks s2\<rparr>) = (ev, s3)" by force
    define s4 where "s4 = s3\<lparr>gShutdownEvent := ev\<rparr>"
    obtain ok j5 s5 where s5: "start_java e (worker_args_of s4 (jni_sclass s4) (jni_smethod s4) (jni_sparam s4) (None, None)) j s4 = Some (ok, j5, s5)"
      and s': "s' = (if ok \<and> jni_sclass s5 = JAVA_SYSTEM then reportServiceStatus e SERVICE_STOP_PENDING NO_ERROR (20 * 1000) s5 else s5)"
      using rest Some s3 by (auto simp: Let_def s4_def split: Option.bind_split_asm if_split_asm)
    have "rview s5 = rview s" using quiet_rview[OF start_java_quiet[OF s5]] sys_new_rview[OF s3] v2 by (simp add: s4_def)
    then show ?thesis using s' may_postI report_posts by (cases "ok \<and> jni_sclass s5 = JAVA_SYSTEM") auto
  qed
qed

lemma stop_process_rview:
  assumes "stop_process e s = Some (r, s')" shows "rview s' = rview s"
proof (cases "opt_valid s SO_STOPIMAGE = None")
  case True then show ?thesis using assms by (auto simp: stop_process_def quiet_rview)
next
  case False
  obtain h s1 where s1: "create_process_worker e s = (h, s1)" by force
  have "quiet s1 s'"
    using assms False s1 by (auto simp: stop_process_def split: option.split_asm Option.bind_split_asm dest!: run_process_worker_quiet)
  then show ?thesis using create_process_worker_quiet[OF s1] quiet_rview by metis
qed

lemma stop_launch_reports:
  "stop_launch e s = Some (r, s') \<Longrightarrow> may_post SERVICE_STOP_PENDING s s'"
  by (auto simp: stop_launch_def intro: may_postI(2) split: if_split_asm dest!: stop_jvm_reports stop_process_rview)

lemma end_signal_thread_rview [simp]: "rview (end_signal_thread e s) = rview s"
  by (simp add: end_signal_thread_def Let_def quiet_rview[OF sys_close_quiet] quiet_rview[OF sys_do_snd])

lemma stop_timeout_rview: "stop_timeout e c w s = Some (t, s') \<Longrightarrow> rview s' = rview s"
  by (auto simp: stop_timeout_def Let_def split: if_split_asm Option.bind_split_asm)

lemma stop_cleanup_reports:
  assumes "stop_cleanup e c h w s = Some (t, s')" shows "posts SERVICE_STOP_PENDING s s'"
proof -
  obtain s1 s2 where s1: "(case h of None \<Rightarrow> Some s | Some h \<Rightarrow> map_option snd (worker_close e h s)) = Some s1"
    and s2: "stop_timeout e c w (end_signal_thread e s1) = Some (t, s2)" and s': "s' = reportServiceStatus e SERVICE_STOP_PENDING NO_ERROR t s2"
    using assms by (auto simp: stop_cleanup_def split: Option.bind_split_asm)
  have "rview s1 = rview s" using s1 by (auto split: option.split_asm dest!: worker_close_quiet simp: quiet_rview)
  then have "rview s2 = rview s" using stop_timeout_rview[OF s2] by simp
  then show ?thesis unfolding s' by (rule report_posts)
qed

lemma stop_wait_rview: "stop_wait e t rv s = Some (r, s') \<Longrightarrow> rview s' = rview s"
  by (auto simp: stop_wait_def split: option.split_asm if_split_asm Option.bind_split_asm
      dest!: worker_wait_quiet worker_close_quiet quiet_rview)

lemma stop_step_reports:
  assumes "stop_step e p s = Some (p', s')" shows "may_post SERVICE_STOP_PENDING s s'"
proof (cases p)
  case (Stop_start c) then show ?thesis using assms by (auto dest: stop_launch_reports)
next
  case (Stop_waits c h) then show ?thesis using assms by (auto intro: may_postI(2) dest!: wait_worker_end_quiet quiet_rview)
next
  case (Stop_cleans c h w rv) then show ?thesis using assms by (auto dest: stop_cleanup_reports intro: may_postI(1))
next
  case (Stop_kills t rv) then show ?thesis using assms by (auto intro: may_postI(2) dest: stop_wait_rview)
next
  case (Stop_signals rv) then show ?thesis using assms by (auto simp: quiet_rview intro: may_postI(2))
next
  case (Stop_done rv) then show ?thesis using assms by simp
qed

lemma stop_control_reports:
  assumes "service_ctrl_handler e code s = (started, s')" "code = SERVICE_CONTROL_STOP \<or> code = SERVICE_CONTROL_SHUTDOWN"
  shows "posts SERVICE_STOP_PENDING s s'"
proof -
  obtain th s1 where n: "sys_new e (Create_thread 6) (reportServiceStatus e SERVICE_STOP_PENDING NO_ERROR (3 * 1000) s) = (th, s1)" by force
  have "s' = sys_close th s1"
    using assms n by (auto simp: service_ctrl_handler_def Let_def)
  then have "rview s' = rview (reportServiceStatus e SERVICE_STOP_PENDING NO_ERROR (3 * 1000) s)"
    using sys_new_rview[OF n] quiet_rview[OF sys_close_quiet] by simp
  then show ?thesis using report_posts[OF refl] posts_rview by blast
qed

lemma interrogate_reports:
  assumes "service_ctrl_handler e SERVICE_CONTROL_INTERROGATE s = (started, s')"
  shows "\<not> started \<and> posts (st_state (current_status s)) s s'"
  using assms report_posts[OF refl]
  by (auto simp: service_ctrl_handler_def Let_def SERVICE_CONTROL_INTERROGATE_def SERVICE_CONTROL_SHUTDOWN_def SERVICE_CONTROL_STOP_def)

section \<open>What holds in every order\<close>

definition settled :: "service_status \<Rightarrow> bool" where
  "settled r \<longleftrightarrow> st_state r = SERVICE_RUNNING \<or> st_state r = SERVICE_STOPPED"

definition report_ok :: "service_status \<Rightarrow> bool" where
  "report_ok r \<longleftrightarrow> st_accepted r = (if st_state r = SERVICE_RUNNING then SERVICE_ACCEPT_STOP OR SERVICE_ACCEPT_SHUTDOWN else 0)
     \<and> (settled r \<longrightarrow> st_check_point r = 0)"

definition counted :: "dword \<Rightarrow> service_status list \<Rightarrow> dword \<Rightarrow> bool" where
  "counted c rs n \<longleftrightarrow> map st_check_point (filter (Not \<circ> settled) (rev rs)) = map (\<lambda>i. c + of_nat i) [0..<length (filter (Not \<circ> settled) rs)]
     \<and> n = c + of_nat (length (filter (Not \<circ> settled) rs))"

definition rank :: "dword \<Rightarrow> nat" where
  "rank st = (if st = SERVICE_START_PENDING then 0 else if st = SERVICE_RUNNING then 1 else 2)"

definition in_order :: "service_status list \<Rightarrow> bool" where
  "in_order rs \<longleftrightarrow> sorted (map (rank \<circ> st_state) (rev rs))"

definition early :: "main_phase \<Rightarrow> bool" where
  "early m \<longleftrightarrow> m \<in> {Main_setup, Main_announce, Main_start, Main_run}"

definition srv_inv :: "dword \<Rightarrow> bool \<Rightarrow> srv_state \<Rightarrow> bool" where
  "srv_inv c quiet_console x \<longleftrightarrow> (case x of (m, ts, s) \<Rightarrow>
     service_mode s
     \<and> (m = Main_setup \<longrightarrow> \<not> status_handle s \<and> reports s = [] \<and> check_counter s = c)
     \<and> (early m \<longrightarrow> ts = [] \<and> (m \<noteq> Main_setup \<longrightarrow> st_state (current_status s) = SERVICE_START_PENDING))
     \<and> (reports s \<noteq> [] \<longrightarrow> hd (reports s) = current_status s)
     \<and> (\<forall>r \<in> set (reports s). report_ok r) \<and> counted c (reports s) (check_counter s) \<and> in_order (reports s)
     \<and> (quiet_console \<longrightarrow> length ts \<le> 1 \<and> (ts \<noteq> [] \<longrightarrow> st_state (current_status s) \<noteq> SERVICE_RUNNING)))"

lemma posts_shape:
  assumes "posts st s s'"
  shows "service_mode s' = service_mode s \<and> status_handle s' = status_handle s
    \<and> (if reporting s
       then \<exists>r. st_state r = st \<and> report_ok r \<and> (\<not> settled r \<longrightarrow> st_check_point r = check_counter s) \<and> current_status s' = r
              \<and> reports s' = r # reports s \<and> check_counter s' = (if settled r then check_counter s else check_counter s + 1)
       else current_status s' = current_status s \<and> reports s' = reports s \<and> check_counter s' = check_counter s)"
proof -
  obtain x h sp where v: "rview s' = rview (post (st, x, h, sp) s)" using assms by (auto simp: posts_def)
  show ?thesis
  proof (cases "reporting s")
    case True
    then show ?thesis using v
      by (auto simp: rview_def post.simps reporting_def report_ok_def settled_def a_report_def next_count_def
          intro!: exI[of _ "a_report st x h sp (check_counter s)"])
  next
    case False then show ?thesis using v by (auto simp: rview_def post.simps reporting_def)
  qed
qed

lemma counted_Cons:
  "counted c rs n \<Longrightarrow> (\<not> settled r \<longrightarrow> st_check_point r = n) \<Longrightarrow> counted c (r # rs) (if settled r then n else n + 1)"
  by (auto simp: counted_def add.assoc)

lemma in_order_Cons: "in_order rs \<Longrightarrow> (rs \<noteq> [] \<longrightarrow> rank (st_state (hd rs)) \<le> rank (st_state r)) \<Longrightarrow> in_order (r # rs)"
proof (cases rs)
  case (Cons r' rs')
  assume "in_order rs" "rs \<noteq> [] \<longrightarrow> rank (st_state (hd rs)) \<le> rank (st_state r)"
  with Cons show ?thesis by (fastforce simp: in_order_def sorted_append)
qed (simp add: in_order_def)

text \<open>Any step that makes at most one report keeps the invariant, if the report does not go back.\<close>

lemma inv_post:
  assumes "srv_inv c q (m, ts, s)" "may_post st s s'" "rank (st_state (current_status s)) \<le> rank st \<or> reports s = []"
    "m \<noteq> Main_setup" "m' \<noteq> Main_setup" "early m' \<longrightarrow> early m \<and> (may_post st s s' \<longrightarrow> st = SERVICE_START_PENDING \<or> rview s' = rview s)"
    "early m' \<longrightarrow> ts' = []" "q \<longrightarrow> length ts' \<le> 1 \<and> (ts' \<noteq> [] \<longrightarrow> st_state (current_status s') \<noteq> SERVICE_RUNNING)"
  shows "srv_inv c q (m', ts', s')"
proof (cases "rview s' = rview s")
  case True then show ?thesis using assms by (auto simp: srv_inv_def rview_def)
next
  case False
  then have p: "posts st s s'" using assms(2) by (simp add: may_post_def)
  show ?thesis
  proof (cases "reporting s")
    case nr: False
    then have "rview s' = rview s" using posts_shape[OF p] by (auto simp: rview_def)
    then show ?thesis using False by simp
  next
    case True
    then obtain r where r: "st_state r = st" "report_ok r" "\<not> settled r \<longrightarrow> st_check_point r = check_counter s" "current_status s' = r"
      "reports s' = r # reports s" "check_counter s' = (if settled r then check_counter s else check_counter s + 1)"
      "service_mode s'"
      using posts_shape[OF p] by (auto simp: reporting_def)
    have "counted c (reports s') (check_counter s')"
      using assms(1) r counted_Cons[of c "reports s" "check_counter s" r] by (auto simp: srv_inv_def)
    moreover have "in_order (reports s')"
      using assms(1,3) r in_order_Cons[of "reports s" r] by (auto simp: srv_inv_def)
    ultimately show ?thesis using assms r False by (auto simp: srv_inv_def)
  qed
qed

lemma rank_simps [simp]:
  "rank SERVICE_START_PENDING = 0" "rank SERVICE_RUNNING = 1" "rank SERVICE_STOP_PENDING = 2" "rank SERVICE_STOPPED = 2" "rank st \<le> 2"
  by (auto simp: rank_def)

lemma inv_setup:
  assumes "srv_inv c q (Main_setup, ts, s)" "service_setup e s = Some (ok, s')"
  shows "srv_inv c q (if ok then Main_announce else Main_failed 0, ts, s')"
proof -
  have "prepared s ok s'" using service_setup_handle[OF assms(2)] assms(1) by (auto simp: srv_inv_def)
  then show ?thesis using assms(1) by (auto simp: srv_inv_def prepared_def early_def)
qed

lemma inv_main:
  assumes i: "srv_inv c q (m, ts, s)" and st: "main_step e m s = Some (m', s')"
  shows "srv_inv c q (m', ts, s')"
proof (cases "m = Main_setup")
  case True then show ?thesis using assms inv_setup by auto
next
  case False
  note may = main_step_reports[OF st False]
  have early: "early m \<Longrightarrow> ts = [] \<and> st_state (current_status s) = SERVICE_START_PENDING" using i False by (auto simp: srv_inv_def)
  have len: "q \<longrightarrow> length ts \<le> 1" using i by (simp add: srv_inv_def)
  have late: "ts \<noteq> [] \<Longrightarrow> q \<Longrightarrow> st_state (current_status s') \<noteq> SERVICE_RUNNING"
  proof -
    assume "ts \<noteq> []" q
    then have "m \<noteq> Main_run" "st_state (current_status s) \<noteq> SERVICE_RUNNING" using i by (auto simp: srv_inv_def early_def)
    moreover from this(1) have "main_reports m \<noteq> SERVICE_RUNNING" by (auto simp: main_reports_def split: main_phase.split)
    ultimately show ?thesis using may posts_shape[of "main_reports m" s s']
      by (auto simp: may_post_def rview_def split: if_split_asm)
  qed
  show ?thesis
  proof (rule inv_post[OF i may])
    show "rank (st_state (current_status s)) \<le> rank (main_reports m) \<or> reports s = []"
      using early by (auto simp: main_reports_def early_def split: main_phase.split)
    show "m \<noteq> Main_setup" by fact
    show "m' \<noteq> Main_setup" using st by (cases m) (auto split: if_split_asm)
    show "early m' \<longrightarrow> early m \<and> (may_post (main_reports m) s s' \<longrightarrow> main_reports m = SERVICE_START_PENDING \<or> rview s' = rview s)"
      using st False by (cases m) (auto simp: early_def main_reports_def split: if_split_asm dest!: serviceStart_quiet quiet_rview)
    show "early m' \<longrightarrow> ts = []" using st early by (cases m) (auto simp: early_def split: if_split_asm)
    show "q \<longrightarrow> length ts \<le> 1 \<and> (ts \<noteq> [] \<longrightarrow> st_state (current_status s') \<noteq> SERVICE_RUNNING)" using len late by blast
  qed
qed

lemma inv_stopper:
  assumes i: "srv_inv c q (m, ts, s)" and st: "i < length ts" "stop_step e (ts ! i) s = Some (p, s')"
  shows "srv_inv c q (m, ts[i := p], s')"
proof -
  note may = stop_step_reports[OF st(2)]
  have m: "\<not> early m" "m \<noteq> Main_setup" using i st(1) by (auto simp: srv_inv_def early_def)
  have "st_state (current_status s) \<noteq> SERVICE_RUNNING \<Longrightarrow> st_state (current_status s') \<noteq> SERVICE_RUNNING"
    using may posts_shape[of SERVICE_STOP_PENDING s s'] by (auto simp: may_post_def rview_def split: if_split_asm)
  then show ?thesis using i m by (intro inv_post[OF i may]) (auto simp: srv_inv_def)
qed

lemma delivered_running:
  assumes "srv_inv c q (m, ts, s)" "delivered s code" "code \<noteq> SERVICE_CONTROL_INTERROGATE"
  shows "st_state (current_status s) = SERVICE_RUNNING \<and> reporting s \<and> (code = SERVICE_CONTROL_STOP \<or> code = SERVICE_CONTROL_SHUTDOWN)"
proof -
  have "reports s \<noteq> []" "st_accepted (hd (reports s)) \<noteq> 0" "reporting s" "code = SERVICE_CONTROL_STOP \<or> code = SERVICE_CONTROL_SHUTDOWN"
    using assms(2,3) by (auto simp: delivered_def)
  moreover have "report_ok (hd (reports s))" "hd (reports s) = current_status s"
    using assms(1) calculation(1) hd_in_set[of "reports s"] by (auto simp: srv_inv_def simp del: hd_in_set)
  ultimately show ?thesis by (auto simp: report_ok_def split: if_split_asm)
qed

lemma inv_control:
  assumes i: "srv_inv c q (m, ts, s)" and d: "delivered s code" and h: "service_ctrl_handler e code s = (started, s')"
  shows "srv_inv c q (m, if started then ts @ [Stop_start code] else ts, s')"
proof (cases "code = SERVICE_CONTROL_INTERROGATE")
  case True
  from interrogate_reports[OF h[unfolded True]]
  have n: "\<not> started" and p: "posts (st_state (current_status s)) s s'" by simp_all
  have m: "m \<noteq> Main_setup" using i d by (auto simp: srv_inv_def delivered_def reporting_def)
  have same: "st_state (current_status s') = st_state (current_status s)"
    using posts_shape[OF p] by (auto split: if_split_asm)
  show ?thesis using i n m same
    by (simp, intro inv_post[OF i may_postI(1)[OF p]]) (auto simp: srv_inv_def)
next
  case False
  note r = delivered_running[OF i d False]
  have p: "posts SERVICE_STOP_PENDING s s'" by (rule stop_control_reports[OF h]) (use r in blast)
  have m: "\<not> early m" "m \<noteq> Main_setup" using i r by (auto simp: srv_inv_def early_def reporting_def)
  have "st_state (current_status s') = SERVICE_STOP_PENDING" using posts_shape[OF p] r by (auto split: if_split_asm)
  moreover have "q \<Longrightarrow> ts = []" using i r by (auto simp: srv_inv_def)
  ultimately show ?thesis using m i by (intro inv_post[OF i may_postI(1)[OF p]]) auto
qed

lemma inv_console:
  assumes "srv_inv c False (m, ts, s)" "m \<in> {Main_wait, Main_finish, Main_destroy, Main_report}"
  shows "srv_inv c False (m, ts @ [Stop_start code], s)"
  using assms by (auto simp: srv_inv_def early_def)

lemma inv_move:
  assumes "srv_move e mv x y" "srv_inv c q x" "q \<longrightarrow> (\<nexists>ev. mv = Console ev)"
  shows "srv_inv c q y"
  using assms
proof (cases rule: srv_move.cases)
  case (console m ev code ts s)
  then show ?thesis using assms inv_console by (cases q) auto
qed (use assms inv_main inv_stopper inv_control in auto)

definition fresh :: "dword \<Rightarrow> svc \<Rightarrow> bool" where
  "fresh c s \<longleftrightarrow> service_mode s \<and> \<not> status_handle s \<and> reports s = [] \<and> check_counter s = c"

lemma inv_fresh: "fresh c s \<Longrightarrow> srv_inv c q (Main_setup, [], s)"
  by (simp add: fresh_def srv_inv_def early_def counted_def in_order_def)

lemma inv_reach:
  assumes "srv_reach e P x y" "srv_inv c q x" "\<And>mv. P mv \<Longrightarrow> q \<longrightarrow> (\<nexists>ev. mv = Console ev)"
  shows "srv_inv c q y"
  using assms by (induction rule: srv_reach.induct) (auto intro: inv_move)

end
