(* ===== verification/Srv_Control_Facts.thy ===== *)
theory Srv_Control_Facts
  imports Srv_Control
begin

text \<open>
  What the service reports and which controls reach it, whatever the order in which its threads run.
  The witnesses start a service whose worker is a JVM and whose stop mode names no image.
\<close>

section \<open>A service that runs\<close>

definition jvm_opts :: "cmdopt list" where
  "jvm_opts = set_opt_v 31 (Some (wide ''jvm'' @ [0])) (set_opt_v 24 (Some (wide ''exe'' @ [0])) option_table)"

definition jvm_service :: svc where
  "jvm_service = new_service\<lparr>sv_opts := jvm_opts\<rparr>"

lemma length_table: "length option_table = 40"
  by (simp add: option_table_def rows_count)

lemma jvm_opts_get:
  "GET_OPT_V jvm_opts i =
     (if i = 31 then Some (wide ''jvm'' @ [0]) else if i = 24 then Some (wide ''exe'' @ [0]) else GET_OPT_V option_table i)"
  by (auto simp: GET_OPT_V_def set_opt_v_def length_table nth_list_update jvm_opts_def)

lemma jvm_opts_valid:
  "valid_string (Some (wide ''jvm'' @ [0])) = Some (wide ''jvm'')" "valid_string (Some (wide ''exe'' @ [0])) = Some (wide ''exe'')"
  using text_of_terminated[OF wide_no_zero, of "''jvm''" "[]"] text_of_terminated[OF wide_no_zero, of "''exe''" "[]"]
  by (simp_all add: valid_string_def wide_words[of _ "[]", unfolded wide_def[of "[]"], simplified])

lemma jvm_opt_valid:
  "sv_opts s = jvm_opts \<Longrightarrow> i < 40 \<Longrightarrow> opt_valid s i = (if i = 31 then Some (wide ''jvm'') else if i = 24 then Some (wide ''exe'') else None)"
  by (simp add: opt_valid_def jvm_opts_get jvm_opts_valid table_unset) (simp add: valid_string_def)

lemma demo_same: "same_i (renv demo_env) = (=)"
  by (simp add: demo_env_def swift_run_def)

lemma jvm_start_mode:
  "sv_opts s = jvm_opts \<Longrightarrow> start_mode demo_env s =
     Some (True, s\<lparr>jni_startup := True, jni_rclass := jni_class demo_env None, jni_rparam := None\<rparr>)"
  by (simp add: start_mode_def jvm_opt_valid option_numbers demo_same SO_STARTCLASS_def SO_STARTPARAMS_def jvm_opts_get table_unset)

lemma jvm_stop_mode:
  "sv_opts s = jvm_opts \<Longrightarrow> stop_mode demo_env s = Some (True, s)"
  by (simp add: stop_mode_def jvm_opt_valid option_numbers demo_same wide_words)

lemma jvm_jvm_settings:
  "sv_opts s = jvm_opts \<Longrightarrow> jni_startup s \<Longrightarrow> jvm_settings demo_env s = Some (s\<lparr>jni_jvmoptions := Some [0, 0]\<rparr>)"
  by (simp add: jvm_settings_def jvm_opt_valid SO_JVM_def SO_CLASSPATH_def SO_STARTMETHOD_def SO_STOPMETHOD_def SO_JVMOPTIONS_def jvm_opts_get table_unset
     MzWideToANSI_def store_ansi.simps demo_env_def put_def)

lemma demo_sys_do: "sys_do demo_env c s = (1, s\<lparr>jw := (jw s)\<lparr>os_of := (os_of (jw s))\<lparr>sys_calls := c # sys_calls (os_of (jw s))\<rparr>\<rparr>\<rparr>)"
  by (simp add: sys_do_def demo_env_def on_os_def ask_def)

lemma jvm_setup:
  obtains s where "service_setup demo_env jvm_service = Some (True, s)" "sv_opts s = jvm_opts" "jni_startup s" "gWorker s = None"
    "jvm_dll (jw s) = Some 1" "sys_jvm (jw s) = Some 1" "sv_vars s = (\<lambda>_. None)" "gStartPath s = None" "jni_rclass s = jni_class demo_env None" "jni_shutdown s = False" "jni_jvmpath s = None"
    "status_handle s" "service_mode s" "gPidfileName s = None" "std_files s = (None, None)" "jni_rparam s = None" "check_counter s = 1" "reports s = []"
proof -
  define s0 where "s0 = jvm_service\<lparr>current_status := \<lparr>st_state = SERVICE_START_PENDING,
     st_accepted = SERVICE_CONTROL_INTERROGATE, st_exit = 0, st_specific = 0, st_check_point = 0, st_wait_hint = 0\<rparr>\<rparr>"
  have c: "create_signal demo_env s0 = s0" by (simp add: s0_def jvm_service_def new_service_def create_signal_def)
  have o: "sv_opts s0 = jvm_opts" by (simp add: s0_def jvm_service_def)
  define s1 where "s1 = s0\<lparr>jni_startup := True, jni_rclass := jni_class demo_env None, jni_rparam := None\<rparr>"
  define s2 where "s2 = s1\<lparr>jni_jvmoptions := Some [0, 0]\<rparr>"
  have 1: "start_mode demo_env s0 = Some (True, s1)" using jvm_start_mode[OF o] by (simp add: s1_def)
  have 2: "stop_mode demo_env s1 = Some (True, s1)" using o by (intro jvm_stop_mode) (simp add: s1_def)
  have 3: "jvm_settings demo_env s1 = Some s2" unfolding s2_def using o by (intro jvm_jvm_settings) (simp_all add: s1_def)
  obtain s3 where 4: "register_handler demo_env s2 = (True, s3)" "sv_opts s3 = jvm_opts" "jni_startup s3" "gWorker s3 = None"
    "jvm_dll (jw s3) = Some 1" "sys_jvm (jw s3) = Some 1" "sv_vars s3 = (\<lambda>_. None)" "gStartPath s3 = None" "jni_rclass s3 = jni_class demo_env None" "jni_shutdown s3 = False" "jni_jvmpath s3 = None"
    "status_handle s3" "service_mode s3" "gPidfileName s3 = None" "std_files s3 = (None, None)" "jni_rparam s3 = None" "check_counter s3 = 1" "reports s3 = []"
    by (simp add: register_handler_def demo_sys_do s2_def s1_def s0_def jvm_service_def new_service_def jvm_world_1_def)
  have "service_setup demo_env jvm_service = Some (True, s3)"
    using 1 2 3 4(1) c by (simp add: service_setup_def s0_def[symmetric])
  with 4 show ?thesis using that by blast
qed

lemma jvm_opts_27: "set_opt_v 27 None jvm_opts = jvm_opts"
proof -
  have "szValue (jvm_opts ! 27) = None" using jvm_opts_get[of 27] by (simp add: GET_OPT_V_def table_unset[unfolded GET_OPT_V_def])
  then have "(jvm_opts ! 27)\<lparr>szValue := None\<rparr> = jvm_opts ! 27" by simp
  then show ?thesis by (simp add: set_opt_v_def list_update_id)
qed

lemma demo_attach:
  "sys_jvm w = Some 1 \<Longrightarrow> lpJvm j = Some 1 \<Longrightarrow>
     apxJvmAttach demo_jvm (j, w) = (True, j\<lparr>lpEnv := True\<rparr>, w\<lparr>jni_calls := Get_env 1 (iVersion j) # jni_calls w\<rparr>)"
  by (simp add: apxJvmAttach_def apxJvmAttachEnv_def jni_def demo_jvm_def willing_jvm_def JNI_EDETACHED_def)

lemma demo_java_start:
  assumes a: "ja_stderr a = None" "ja_stdout a = None" "ja_arguments a = None" "ja_library_path a = None"
    and j: "dwJavaType j = APXHANDLE_TYPE_JVM" "iVmCount j = 1" "lpJvm j = Some 1" "sys_jvm w = Some 1"
  obtains j' w' where "apxJavaStart demo_jvm (\<lambda>_ _. 1) f a (j, w) = Some (True, j', w')"
proof -
  have i: "\<exists>w'. apxJavaInitialize demo_jvm f a (j, w) = Some (True, j\<lparr>lpEnv := True, iVersion := 0x00010006\<rparr>, w') \<and> sys_jvm w' = Some 1"
    if "dwJavaType j = APXHANDLE_TYPE_JVM" "iVmCount j = 1" "lpJvm j = Some 1" "sys_jvm w = Some 1" for j w
    using that by (simp add: apxJavaInitialize_def is_jvm_def demo_attach jni_def demo_jvm_def willing_jvm_def JNI_VERSION_1_2_def)
  have arr: "argument_texts None = Some []" by (simp add: argument_texts_def apxMultiSzToArrayW_def apxMultiSzToArrayA_def apxGetMultiSzLengthA_def)
  have l: "\<exists>j' w'. apxJavaLoadMainClass demo_jvm a (j, w) = Some (True, j', w') \<and> sys_jvm w' = Some 1 \<and> lpJvm j' = Some 1
      \<and> worker_class j' = Some 1 \<and> worker_method j' = Some 1 \<and> dwJavaType j' = APXHANDLE_TYPE_JVM"
    if "dwJavaType j = APXHANDLE_TYPE_JVM" "lpJvm j = Some 1" "sys_jvm w = Some 1" for j w
    using that a arr by (simp add: apxJavaLoadMainClass_def is_jvm_def jni_def jni_obj_def jni_do_def global_class_def demo_jvm_def willing_jvm_def Let_def)
  have s: "\<exists>j' w'. worker_setup demo_jvm f a (j, w) = Some (0, j', w') \<and> dwWorkerStatus j' = 1"
    if t: "dwJavaType j = APXHANDLE_TYPE_JVM" "iVmCount j = 1" "lpJvm j = Some 1" "sys_jvm w = Some 1" for j w
  proof -
    obtain w1 where 1: "apxJavaInitialize demo_jvm f a (j, w) = Some (True, j\<lparr>lpEnv := True, iVersion := 0x00010006\<rparr>, w1)" "sys_jvm w1 = Some 1"
      using i[OF t] by blast
    obtain j2 w2 where 2: "apxJavaLoadMainClass demo_jvm a (j\<lparr>lpEnv := True, iVersion := 0x00010006\<rparr>, w1) = Some (True, j2, w2)" "sys_jvm w2 = Some 1"
      "lpJvm j2 = Some 1" "worker_class j2 = Some 1" "worker_method j2 = Some 1" "dwJavaType j2 = APXHANDLE_TYPE_JVM"
      using l[of "j\<lparr>lpEnv := True, iVersion := 0x00010006\<rparr>" w1] t 1(2) by auto
    show ?thesis using t a 1 2 by (simp add: worker_setup_def is_jvm_def set_library_path_def apxJavaSetOut_def demo_attach)
  qed
  have o: "\<exists>h v. on_os (ask_handle (\<lambda>_ _. 1) c) u = (Some h, v) \<and> sys_jvm v = sys_jvm u" for c u
    by (simp add: on_os_def ask_handle_def ask_def new_handle_def)
  obtain h1 w1 h2 w2 h3 w3 where h: "on_os (ask_handle (\<lambda>_ _. 1) Create_event) w = (Some h1, w1)" "on_os (ask_handle (\<lambda>_ _. 1) Create_event) w1 = (Some h2, w2)"
    "on_os (ask_handle (\<lambda>_ _. 1) (Create_thread 4)) w2 = (Some h3, w3)" "sys_jvm w3 = Some 1"
    using o[of Create_event w] o[of Create_event] o[of "Create_thread 4"] j(4) by metis
  define j0 where "j0 = j\<lparr>dwWorkerStatus := 0, hWorkerInit := Some h1, hWorkerSync := Some h2, hWorkerThread := Some h3\<rparr>"
  obtain j4 w4 where "worker_setup demo_jvm f a (j0, w3) = Some (0, j4, w4)" "dwWorkerStatus j4 = 1"
    using s[of j0 w3] j h(4) by (auto simp: j0_def)
  then show ?thesis using that h by (simp add: apxJavaStart_def j0_def[symmetric] Let_def)
qed

lemma demo_fields: "jenv demo_env = demo_jvm" "senv demo_env = (\<lambda>_ _. 1)" "find_files demo_env = (\<lambda>_. None)"
  by (simp_all add: demo_env_def)

lemma jvm_started:
  assumes a: "sv_opts s0 = jvm_opts" "jni_startup s0" "gWorker s0 = None" "jvm_dll (jw s0) = Some 1" "sys_jvm (jw s0) = Some 1" "sv_vars s0 = (\<lambda>_. None)" "gStartPath s0 = None"
    "jni_rclass s0 = jni_class demo_env None" "jni_shutdown s0 = False" "jni_jvmpath s0 = None" "gPidfileName s0 = None" "std_files s0 = (None, None)" "jni_rparam s0 = None"
  obtains s j where "serviceStart demo_env s0 = Some (0, s)" "gWorker s = Some (Java_worker j)" "sv_opts s = jvm_opts" "jni_shutdown s = False"
proof -
  have st: "set_opt_v SO_STARTPATH (map_option (\<lambda>p. p @ [0]) (gStartPath s0)) (sv_opts s0) = jvm_opts"
    using a jvm_opts_27 by (simp add: SO_STARTPATH_def)
  have s0: "s0\<lparr>sv_opts := jvm_opts\<rparr> = s0" using a by simp
  have we: "worker_environment demo_env s0 = Some s0"
    using a by (simp add: worker_environment_def jvm_opt_valid SO_LIBPATH_def SO_ENVIRONMENT_def jvm_opts_get table_unset setInprocEnvironment_def)
  obtain j1 s2 where cj: "create_java_worker demo_env s0 = Some (Some j1, s2)" "sv_opts s2 = jvm_opts" "gWorker s2 = None" "jni_shutdown s2 = False"
     "gPidfileName s2 = None" "jni_rclass s2 = jni_class demo_env None" "dwJavaType j1 = APXHANDLE_TYPE_JVM" "iVmCount j1 = 1" "lpJvm j1 = Some 1"
     "sys_jvm (jw s2) = Some 1" "std_files s2 = (None, None)" "jni_rparam s2 = jni_rparam s0"
    using a by (simp add: create_java_worker_def needs_lib_def needs_jre_def apxCreateJava_def apxLoadJvmDll_def jni_def demo_fields demo_jvm_def willing_jvm_def
      jni_obj_def)
  define s3 where "s3 = s2\<lparr>exit_hooks := Start_hook # exit_hooks s2\<rparr>"
  have s3_jw: "sys_jvm (jw s3) = Some 1" using cj by (simp add: s3_def)
  let ?a = "worker_args_of s3 (jni_rclass s3) (jni_rmethod s3) (jni_rparam s3) (std_files s3)"
  have fa: "ja_class ?a = jni_class demo_env None" "ja_stderr ?a = None" "ja_stdout ?a = None" "ja_arguments ?a = None" "ja_library_path ?a = None"
    using cj a by (simp_all add: worker_args_of_def s3_def SO_LIBPATH_def opt_text_def jvm_opts_get table_unset)
  obtain j4 w4 where sj: "apxJavaStart (jenv demo_env) (senv demo_env) (find_files demo_env) ?a (j1, jw s3) = Some (True, j4, w4)"
    unfolding demo_fields using demo_java_start[OF fa(2-5)] cj by (metis s3_jw)
  have pid: "prepare_pidfile demo_env s0 = (True, s0)" using a by (simp add: prepare_pidfile_def jvm_opt_valid option_numbers)
  have path: "opt_valid s0 SO_STARTPATH = None" using a by (simp add: jvm_opt_valid SO_STARTPATH_def)
  define s5 where "s5 = s3\<lparr>jw := w4, gWorker := Some (Java_worker j4)\<rparr>"
  have sw: "start_java demo_env ?a j1 s3 = Some (True, j4, s3\<lparr>jw := w4\<rparr>)" using sj by (simp add: start_java_def)
  have "start_jvm demo_env s0 = Some (0, s5)"
    using st s0 path we cj(1) sw unfolding start_jvm_def by (simp add: s3_def s5_def Let_def)
  then have "serviceStart demo_env s0 = Some (0, s5)"
    using a pid cj by (simp add: serviceStart_def write_pidfile_def s5_def s3_def)
  then show ?thesis using that cj by (simp add: s5_def s3_def)
qed

lemma report_fields [simp]:
  "sv_opts (reportServiceStatus e st x h s) = sv_opts s" "gWorker (reportServiceStatus e st x h s) = gWorker s"
  "jni_startup (reportServiceStatus e st x h s) = jni_startup s" "jni_shutdown (reportServiceStatus e st x h s) = jni_shutdown s"
  "sv_vars (reportServiceStatus e st x h s) = sv_vars s" "gStartPath (reportServiceStatus e st x h s) = gStartPath s"
  "jni_rclass (reportServiceStatus e st x h s) = jni_rclass s" "jni_jvmpath (reportServiceStatus e st x h s) = jni_jvmpath s"
  "gPidfileName (reportServiceStatus e st x h s) = gPidfileName s" "std_files (reportServiceStatus e st x h s) = std_files s"
  "jni_rparam (reportServiceStatus e st x h s) = jni_rparam s" "jvm_dll (jw (reportServiceStatus e st x h s)) = jvm_dll (jw s)"
  "sys_jvm (jw (reportServiceStatus e st x h s)) = sys_jvm (jw s)"
  by (auto simp: reportServiceStatus_def reportServiceStatusE_def sys_do_def on_os_def Let_def split: prod.split)

lemma reach_trans: "srv_reach e P y z \<Longrightarrow> srv_reach e P x y \<Longrightarrow> srv_reach e P x z"
  by (induction rule: srv_reach.induct) (auto intro: srv_reach.step)

lemma reach_main: "srv_reach e P x (m, ts, s) \<Longrightarrow> main_step e m s = Some (m', s') \<Longrightarrow> P Main_moves \<Longrightarrow> srv_reach e P x (m', ts, s')"
  by (rule srv_reach.step) (auto intro: srv_move.main)

abbreviation calm_moves :: "move \<Rightarrow> bool" where
  "calm_moves mv \<equiv> (\<nexists>ev. mv = Console ev)"

lemma running_service:
  obtains s j where "srv_reach demo_env calm_moves (Main_setup, [], jvm_service) (Main_wait, [], s)" "gWorker s = Some (Java_worker j)"
    "sv_opts s = jvm_opts" "jni_shutdown s = False" "reporting s" "reports s \<noteq> []" "st_state (hd (reports s)) = SERVICE_RUNNING"
proof -
  obtain s1 where 1: "status_handle s1" "service_mode s1" "service_setup demo_env jvm_service = Some (True, s1)" "sv_opts s1 = jvm_opts" "jni_startup s1" "gWorker s1 = None"
    "jvm_dll (jw s1) = Some 1" "sys_jvm (jw s1) = Some 1" "sv_vars s1 = (\<lambda>_. None)" "gStartPath s1 = None" "jni_rclass s1 = jni_class demo_env None"
    "jni_shutdown s1 = False" "jni_jvmpath s1 = None" "gPidfileName s1 = None" "std_files s1 = (None, None)" "jni_rparam s1 = None"
    by (rule jvm_setup)
  let ?s2 = "reportServiceStatus demo_env SERVICE_START_PENDING NO_ERROR 3000 s1"
  obtain s3 j where 3: "serviceStart demo_env ?s2 = Some (0, s3)" "gWorker s3 = Some (Java_worker j)" "sv_opts s3 = jvm_opts" "jni_shutdown s3 = False"
    using jvm_started[of ?s2] 1 by auto
  have "srv_reach demo_env calm_moves (Main_setup, [], jvm_service) (Main_announce, [], s1)"
    using 1(3) by (intro reach_main[OF srv_reach.here]) simp_all
  then have "srv_reach demo_env calm_moves (Main_setup, [], jvm_service) (Main_start, [], ?s2)"
    by (rule reach_main) simp_all
  then have "srv_reach demo_env calm_moves (Main_setup, [], jvm_service) (Main_run, [], s3)"
    by (rule reach_main) (use 3(1) in simp_all)
  then have "srv_reach demo_env calm_moves (Main_setup, [], jvm_service) (Main_wait, [], reportServiceStatus demo_env SERVICE_RUNNING NO_ERROR 0 s3)"
    by (rule reach_main) simp_all
  moreover have "reporting s3"
    using quiet_view_of[OF serviceStart_quiet[OF 3(1)]] view_of_report[of s1 demo_env SERVICE_START_PENDING NO_ERROR 3000] 1(1,2)
    by (simp add: view_of_def reporting_def)
  from view_of_report[OF this, of demo_env SERVICE_RUNNING NO_ERROR 0]
  have "reporting (reportServiceStatus demo_env SERVICE_RUNNING NO_ERROR 0 s3)" "reports (reportServiceStatus demo_env SERVICE_RUNNING NO_ERROR 0 s3) \<noteq> []"
    "st_state (hd (reports (reportServiceStatus demo_env SERVICE_RUNNING NO_ERROR 0 s3))) = SERVICE_RUNNING"
    by (simp_all add: view_of_def a_report_def)
  ultimately show ?thesis using that 3 by simp
qed

lemma fresh_jvm_service: "fresh 1 jvm_service"
  by (simp add: fresh_def jvm_service_def new_service_def)

section \<open>Reports and controls in every order\<close>



text \<open>The service manager starts at most one thread that stops the service: once it is started, no further stop or
  shutdown control is delivered. Console events could start more.\<close>

theorem one_stop_thread:
  assumes "fresh c s0" "srv_reach e calm_moves (Main_setup, [], s0) (m, ts, s)"
  shows "length ts \<le> 1 \<and> (ts \<noteq> [] \<longrightarrow> (\<forall>code. delivered s code \<longrightarrow> code = SERVICE_CONTROL_INTERROGATE))"
proof -
  have i: "srv_inv c True (m, ts, s)" by (rule inv_reach[OF assms(2) inv_fresh[OF assms(1)]]) simp
  then have "ts \<noteq> [] \<Longrightarrow> delivered s code \<Longrightarrow> code = SERVICE_CONTROL_INTERROGATE" for code
    using delivered_running[OF i] by (auto simp: srv_inv_def)
  with i show ?thesis by (auto simp: srv_inv_def)
qed

text \<open>A stop is delivered to a running service, and starts the thread.\<close>

lemma stop_delivered:
  obtains s j where "srv_reach demo_env calm_moves (Main_setup, [], jvm_service) (Main_wait, [Stop_start SERVICE_CONTROL_STOP], s)"
    "gWorker s = Some (Java_worker j)" "sv_opts s = jvm_opts" "jni_shutdown s = False" "reporting s"
proof -
  obtain s j where s: "srv_reach demo_env calm_moves (Main_setup, [], jvm_service) (Main_wait, [], s)" "gWorker s = Some (Java_worker j)"
    "sv_opts s = jvm_opts" "jni_shutdown s = False" "reporting s" "reports s \<noteq> []" "st_state (hd (reports s)) = SERVICE_RUNNING"
    by (rule running_service)
  have "srv_inv 1 False (Main_wait, [], s)" by (rule inv_reach[OF s(1) inv_fresh[OF fresh_jvm_service]]) simp
  then have "report_ok (hd (reports s))" using s(6) by (cases "reports s") (auto simp: srv_inv_def)
  then have d: "delivered s SERVICE_CONTROL_STOP"
    using s by (simp add: delivered_def report_ok_def SERVICE_ACCEPT_STOP_def SERVICE_ACCEPT_SHUTDOWN_def)
  let ?s1 = "reportServiceStatus demo_env SERVICE_STOP_PENDING NO_ERROR 3000 s"
  obtain th s2 where n: "sys_new demo_env (Create_thread 6) ?s1 = (Some th, s2)" "gWorker s2 = gWorker ?s1" "sv_opts s2 = sv_opts ?s1"
    "jni_shutdown s2 = jni_shutdown ?s1"
    by (simp add: sys_new_def demo_fields on_os_def ask_handle_def ask_def new_handle_def)
  have h: "service_ctrl_handler demo_env SERVICE_CONTROL_STOP s = (True, sys_close (Some th) s2)"
    using n(1) by (simp add: service_ctrl_handler_def)
  have "srv_move demo_env (Control SERVICE_CONTROL_STOP) (Main_wait, [], s) (Main_wait, [Stop_start SERVICE_CONTROL_STOP], sys_close (Some th) s2)"
    using srv_move.control[OF d h, of Main_wait "[]"] by simp
  from srv_reach.step[OF s(1) this]
  have r: "srv_reach demo_env calm_moves (Main_setup, [], jvm_service) (Main_wait, [Stop_start SERVICE_CONTROL_STOP], sys_close (Some th) s2)" by simp
  have "reporting ?s1" using view_of_report[OF s(5), of demo_env SERVICE_STOP_PENDING NO_ERROR 3000] by (simp add: view_of_def)
  then have "reporting (sys_close (Some th) s2)"
    using quiet_view_of[OF sys_new_quiet[OF n(1)]] quiet_view_of[OF sys_close_quiet[of s2 "Some th"]] by (simp add: view_of_def)
  with r n s show ?thesis using that by (simp add: sys_close_def)
qed

theorem one_stop_thread_witness:
  "\<exists>s. srv_reach demo_env calm_moves (Main_setup, [], jvm_service) (Main_wait, [Stop_start SERVICE_CONTROL_STOP], s)
     \<and> \<not> delivered s SERVICE_CONTROL_STOP"
proof (rule stop_delivered)
  fix s j
  assume r: "srv_reach demo_env calm_moves (Main_setup, [], jvm_service) (Main_wait, [Stop_start SERVICE_CONTROL_STOP], s)"
  from one_stop_thread[OF fresh_jvm_service r] r show ?thesis
    by (auto simp: SERVICE_CONTROL_STOP_def SERVICE_CONTROL_INTERROGATE_def)
qed

section \<open>A stop that fails\<close>

lemma sys_new_worker: "sys_new e c s = (h, s') \<Longrightarrow> gWorker s' = gWorker s"
  by (auto simp: sys_new_def split: prod.splits)

lemma process_frame_worker:
  "create_process_worker e s = (h, s') \<Longrightarrow> gWorker s' = gWorker s"
  "run_process_worker e java img path cls params p s = Some (r, p', s') \<Longrightarrow> gWorker s' = gWorker s"
  by (auto simp: create_process_worker_def run_process_worker_def split: prod.splits Option.bind_splits if_splits)

lemma stop_jvm_worker:
  assumes "stop_jvm e s = Some (r, s')" shows "gWorker s' = gWorker s"
proof -
  define s1 where "s1 = (case (opt_valid s SO_STARTPATH, opt_valid s SO_STOPPATH) of
                (None, Some p) \<Rightarrow> snd (sys_do e (Set_current_directory p) s) | _ \<Rightarrow> s)"
  have w1: "gWorker s1 = gWorker s" by (auto simp: s1_def split: option.split)
  show ?thesis
    using assms w1 unfolding stop_jvm_def Let_def s1_def[symmetric]
    by (auto split: Option.bind_split_asm option.split_asm if_split_asm prod.split_asm
        dest!: frame_worker(2) frame_worker(3) sys_new_worker)
qed

lemma stop_launch_worker:
  assumes "stop_launch e s = Some (r, s')" shows "gWorker s' = gWorker s"
  using assms
  by (auto simp: stop_launch_def stop_process_def missing_image_def dest!: stop_jvm_worker process_frame_worker
      split: if_split_asm option.split_asm Option.bind_split_asm prod.split_asm)



section \<open>The last report\<close>

text \<open>The threads do not wait for each other here: a stop thread that has not come to its clean-up when the main thread
  reports the service as stopped reports it as stopping afterwards, and no thread is left to correct it.\<close>

theorem stopping_after_stopped:
  assumes "reporting s" "stop_cleanup e c h w (service_stopped e s) = Some (t, s')"
  shows "srv_reach e calm_moves (Main_report, [Stop_cleans c h w rv], s) (Main_end, [Stop_kills t rv], s')
    \<and> map st_state (take 2 (reports s')) = [SERVICE_STOP_PENDING, SERVICE_STOPPED]"
proof -
  have "posts SERVICE_STOPPED s (service_stopped e s)" by (simp add: service_stopped_def stopped_posts)
  from posts_shape[OF this] assms(1) obtain r where r: "st_state r = SERVICE_STOPPED" "reports (service_stopped e s) = r # reports s"
    and rep: "reporting (service_stopped e s)" by (auto simp: reporting_def)
  from posts_shape[OF stop_cleanup_reports[OF assms(2)]] rep obtain r' where
    "st_state r' = SERVICE_STOP_PENDING" "reports s' = r' # reports (service_stopped e s)" by auto
  moreover have "srv_reach e calm_moves (Main_report, [Stop_cleans c h w rv], s) (Main_end, [Stop_cleans c h w rv], service_stopped e s)"
    by (rule reach_main[OF srv_reach.here]) simp_all
  moreover have "srv_move e (Stopper_moves 0) (Main_end, [Stop_cleans c h w rv], service_stopped e s) (Main_end, [Stop_kills t rv], s')"
    using srv_move.stopper[of 0 "[Stop_cleans c h w rv]" e "service_stopped e s" "Stop_kills t rv" s' Main_end] assms(2) by simp
  ultimately show ?thesis using r by (auto intro: srv_reach.step)
qed

theorem stopping_after_stopped_witness:
  "\<exists>t s'. stop_cleanup demo_env SERVICE_CONTROL_STOP None False (service_stopped demo_env (new_service\<lparr>status_handle := True\<rparr>)) = Some (t, s')
     \<and> map st_state (take 2 (reports s')) = [SERVICE_STOP_PENDING, SERVICE_STOPPED]"
proof -
  let ?s = "new_service\<lparr>status_handle := True\<rparr>"
  obtain t s' where "stop_cleanup demo_env SERVICE_CONTROL_STOP None False (service_stopped demo_env ?s) = Some (t, s')"
    by (simp add: stop_cleanup_def stop_timeout_def Let_def SERVICE_CONTROL_STOP_def SERVICE_CONTROL_SHUTDOWN_def)
  from stopping_after_stopped[OF _ this, of 0] this show ?thesis
    by (auto simp: reporting_def new_service_def)
qed

text \<open>The time that a worker is given is counted in milliseconds of 32 bits: 4294968 seconds, fifty days, become 704 ms.\<close>

lemma stop_timeout_wraps:
  assumes "opt_num s SO_STOPTIMEOUT = 4294968" "c \<noteq> SERVICE_CONTROL_SHUTDOWN"
  shows "stop_timeout e c w s = Some (704, s)"
  using assms by (simp add: stop_timeout_def Let_def)

text \<open>Asking for the state of a service that stopped with an error repeats the report without its number.\<close>

lemma interrogation_loses_code:
  assumes "reporting s" "rc \<noteq> 0" "service_ctrl_handler e SERVICE_CONTROL_INTERROGATE (reportServiceStatusStopped e rc s) = (started, s')"
  shows "map st_specific (take 2 (reports s')) = [0, rc] \<and> map st_state (take 2 (reports s')) = [SERVICE_STOPPED, SERVICE_STOPPED]"
proof -
  let ?s = "reportServiceStatusStopped e rc s"
  have q: "quiet (post (SERVICE_STOPPED, ERROR_SERVICE_SPECIFIC_ERROR, 0, rc) s) ?s"
    using report_stopped_post[of rc s e] assms(2) by simp
  then have f: "reporting ?s" "current_status ?s = a_report SERVICE_STOPPED ERROR_SERVICE_SPECIFIC_ERROR 0 rc (check_counter s)"
    "reports ?s = a_report SERVICE_STOPPED ERROR_SERVICE_SPECIFIC_ERROR 0 rc (check_counter s) # reports s"
    using assms(1) by (auto simp: quiet_def status_view_def post.simps reporting_def)
  have "s' = reportServiceStatus e SERVICE_STOPPED ERROR_SERVICE_SPECIFIC_ERROR 0 ?s"
    using assms(3) f(2) by (simp add: service_ctrl_handler_def Let_def a_report_def SERVICE_CONTROL_INTERROGATE_def SERVICE_CONTROL_SHUTDOWN_def SERVICE_CONTROL_STOP_def)
  then have "reports s' = a_report SERVICE_STOPPED ERROR_SERVICE_SPECIFIC_ERROR 0 0 (check_counter ?s) # reports ?s"
    using view_of_report[OF f(1)] by (simp add: view_of_def)
  then show ?thesis using f(3) by (simp add: a_report_def)
qed

end
