(* ===== verification/Cygwin.thy ===== *)
theory Cygwin
  imports C_Numbers
begin

text \<open>
  What the Cygwin build puts in the place of missing system calls: \<^verbatim>\<open>locks.c\<close> (record locks for
  \<open>lockf\<close>, also in \<^verbatim>\<open>jsvc-unix.c\<close>) and \<^verbatim>\<open>signals.c\<close> (a thread that waits for a named event and
  calls the handler of \<open>SIGTERM\<close>). The calls of Cygwin and of Windows are parameters.
\<close>

section \<open>\<^verbatim>\<open>locks.c\<close>\<close>

datatype lock_type = F_WRLCK | F_UNLCK

record flock =
  l_type :: lock_type
  l_whence :: int
  l_start :: int
  l_len :: int

definition F_ULOCK :: int where "F_ULOCK = 0"
definition F_LOCK :: int where "F_LOCK = 1"

definition lockf :: "(int \<Rightarrow> flock \<Rightarrow> int) \<Rightarrow> int \<Rightarrow> int \<Rightarrow> int \<Rightarrow> int" where
  "lockf fcntl_setlk fildes f len =
     (let t = (if f = F_LOCK then Some F_WRLCK else if f = F_ULOCK then Some F_UNLCK else None)
      in case t of
           None \<Rightarrow> - 1
         | Some t \<Rightarrow> fcntl_setlk fildes \<lparr>l_type = t, l_whence = 0, l_start = 0, l_len = len\<rparr>)"

section \<open>\<^verbatim>\<open>signals.c\<close>\<close>

text \<open>
  The waiting thread over the outcomes of its waits (\<open>False\<close> is \<open>WAIT_FAILED\<close>): whether it has
  returned, and how often it called the handler. \<open>handle_term\<close> says that \<open>HandleTerm\<close> is set.
\<close>

fun v_difthf :: "bool \<Rightarrow> bool list \<Rightarrow> bool \<times> nat" where
  "v_difthf handle_term [] = (False, 0)"
| "v_difthf handle_term (ok # waits) =
     (if \<not> ok then (True, 0)
      else if \<not> handle_term then (True, 0)
      else case v_difthf handle_term waits of (returned, n) \<Rightarrow> (returned, Suc n))"

record term_state =
  HandleTerm :: "nat option" \<comment> \<open>the handler's address\<close>
  open_events :: "string list"
  threads :: nat

text \<open>The event is created for the process's name; without a thread it is closed again.\<close>

definition SetTerm :: "int \<Rightarrow> bool \<Rightarrow> bool \<Rightarrow> nat \<Rightarrow> term_state \<Rightarrow> int \<times> term_state" where
  "SetTerm pid event_ok thread_ok func s =
     (let name = ''TERM'' @ show_int pid;
          s = s\<lparr>HandleTerm := Some func\<rparr>
      in if \<not> event_ok then (- 1, s)
         else if \<not> thread_ok then (- 1, s)
         else (0, s\<lparr>open_events := name # open_events s, threads := Suc (threads s)\<rparr>))"

lemma v_difthf_calls: "v_difthf True (replicate n True) = (False, n)"
  by (induction n) auto

lemma v_difthf_stops: "v_difthf True (replicate n True @ False # ws) = (True, n)"
  by (induction n) auto

end
