(* ===== verification/Jvm_Calls.thy ===== *)
theory Jvm_Calls
  imports Jsvc_Prelude "HOL-Library.State_Monad" "HOL-Library.Monad_Syntax"
begin

text \<open>
  The calls that leave \<^verbatim>\<open>jsvc\<close> for the dynamic loader and for the Java VM, and the two loaders
  \<^verbatim>\<open>dso-dlfcn.c\<close> and \<^verbatim>\<open>dso-dyld.c\<close> behind the interface \<^verbatim>\<open>dso.h\<close>. A run records its calls with
  their outcomes, the latest first; the outside world is a function \<open>answers\<close> from the calls made so far and the
  next call to its outcome. True stands for success: a pointer that is not null, a \<open>jboolean\<close>
  that is true, a \<open>jint\<close> that is not an error.
\<close>

section \<open>Calls and traces\<close>

datatype jarg = JString string | JArray "string option list" | JInt int | JLong int

datatype vm_option = VM_Option string | VM_Abort_Hook string

datatype ext_call =
    Dlopen path | Dlsym path string | Dlclose path
  | NSInstallHandlers | NSAddLibrary path | NSLookupAndBindSymbol string
  | Stat path
  | GetDefaultJavaVMInitArgs
  | CreateJavaVM "vm_option list"
  | FindClass string
  | RegisterNatives string "(string \<times> string) list"
  | GetStaticMethodID string string string
  | CallStaticBooleanMethod string string "jarg list"
  | CallStaticVoidMethod string string "jarg list"
  | NewStringUTF "string option"
  | NewObjectArray nat string
  | SetObjectArrayElement nat string
  | ExceptionClear
  | DestroyJavaVM

type_synonym call_trace = "(ext_call \<times> bool) list"
type_synonym answers = "call_trace \<Rightarrow> ext_call \<Rightarrow> bool"
type_synonym 'a jni = "(call_trace, 'a) state"

definition jni :: "answers \<Rightarrow> ext_call \<Rightarrow> bool jni" where
  "jni ans c = State (\<lambda>tr. (ans tr c, (c, ans tr c) # tr))"

abbreviation ret :: "'a \<Rightarrow> 'a jni" where
  "ret \<equiv> State_Monad.return"

named_theorems run_jni

lemma run_jni_call [run_jni]: "run_state (jni ans c) tr = (ans tr c, (c, ans tr c) # tr)"
  by (simp add: jni_def)

lemma run_jni_bind [run_jni]:
  "run_state (m \<bind> f) tr = (case run_state m tr of (x, tr') \<Rightarrow> run_state (f x) tr')"
  by (simp add: State_Monad.bind_def split_def)

lemma run_jni_ret [run_jni]: "run_state (ret x) tr = (x, tr)"
  by (simp add: State_Monad.return_def)

lemma run_jni_if [run_jni]:
  "run_state (if b then m else m') tr = (if b then run_state m tr else run_state m' tr)"
  by simp

section \<open>\<^verbatim>\<open>dso-dlfcn.c\<close>\<close>

text \<open>A handle is the name of its library, \<open>None\<close> is the null handle.\<close>

record dso_ops =
  dso_init :: "bool jni"
  dso_link :: "path \<Rightarrow> path option jni"
  dso_unlink :: "path option \<Rightarrow> bool jni"
  dso_symbol :: "path option \<Rightarrow> string \<Rightarrow> bool jni"

definition dlfcn_init :: "answers \<Rightarrow> bool jni" where
  "dlfcn_init ans = ret True"

definition dlfcn_link :: "answers \<Rightarrow> path \<Rightarrow> path option jni" where
  "dlfcn_link ans path = do {
     ok \<leftarrow> jni ans (Dlopen path);
     ret (if ok then Some path else None)
   }"

definition dlfcn_unlink :: "answers \<Rightarrow> path option \<Rightarrow> bool jni" where
  "dlfcn_unlink ans lib = do {
     ok \<leftarrow> jni ans (Dlclose (case lib of Some l \<Rightarrow> l | None \<Rightarrow> []));
     if ok then ret True else ret False
   }"

definition dlfcn_symbol :: "answers \<Rightarrow> path option \<Rightarrow> string \<Rightarrow> bool jni" where
  "dlfcn_symbol ans hdl nam = jni ans (Dlsym (case hdl of Some l \<Rightarrow> l | None \<Rightarrow> []) nam)"

definition dlfcn :: "answers \<Rightarrow> dso_ops" where
  "dlfcn ans = \<lparr>dso_init = dlfcn_init ans, dso_link = dlfcn_link ans,
     dso_unlink = dlfcn_unlink ans, dso_symbol = dlfcn_symbol ans\<rparr>"

section \<open>\<^verbatim>\<open>dso-dyld.c\<close>\<close>

text \<open>
  The name of a symbol gets an underscore in front. The copy runs backwards with
  \<open>und[x + 1] = nam[x--]\<close>, where C leaves open whether the index on the left is evaluated
  before or after the decrement on the right; \<open>left_first\<close> tells what the compiler does.
\<close>

fun copy_backwards :: "bool \<Rightarrow> string \<Rightarrow> buffer \<Rightarrow> nat \<Rightarrow> fault + buffer" where
  "copy_backwards left_first nam und x =
     (case poke und (if left_first then x + 1 else x) ((nam @ [NUL]) ! x) of
        Inl e \<Rightarrow> Inl e
      | Inr b \<Rightarrow> (case x of 0 \<Rightarrow> Inr b | Suc y \<Rightarrow> copy_backwards left_first nam b y))"

declare copy_backwards.simps [simp del]

definition dyld_name :: "bool \<Rightarrow> string \<Rightarrow> buffer \<Rightarrow> fault + string" where
  "dyld_name left_first nam und =
     (case copy_backwards left_first nam und (length nam) of
        Inl e \<Rightarrow> Inl e
      | Inr b \<Rightarrow> map_sum id cstr (poke b 0 (CHR ''_'')))"

definition dyld_init :: "answers \<Rightarrow> bool jni" where
  "dyld_init ans = do { _ \<leftarrow> jni ans NSInstallHandlers; ret True }"

definition dyld_link :: "answers \<Rightarrow> path \<Rightarrow> path option jni" where
  "dyld_link ans path = do {
     ok \<leftarrow> jni ans (NSAddLibrary path);
     if \<not> ok then ret None else ret (Some path)
   }"

definition dyld_unlink :: "path option \<Rightarrow> bool jni" where
  "dyld_unlink lib = (if lib = None then ret False else ret True)"

text \<open>The block from \<open>malloc\<close> has \<open>strlen (nam) + 2\<close> bytes; a failed copy would be a crash.\<close>

definition dyld_symbol :: "answers \<Rightarrow> bool \<Rightarrow> path option \<Rightarrow> string \<Rightarrow> bool jni" where
  "dyld_symbol ans left_first hdl nam =
     (if hdl = None then ret False
      else case dyld_name left_first nam (replicate (length nam + 2) NUL) of
             Inl e \<Rightarrow> ret False
           | Inr und \<Rightarrow> jni ans (NSLookupAndBindSymbol und))"

definition dyld :: "answers \<Rightarrow> bool \<Rightarrow> dso_ops" where
  "dyld ans left_first = \<lparr>dso_init = dyld_init ans, dso_link = dyld_link ans,
     dso_unlink = dyld_unlink, dso_symbol = dyld_symbol ans left_first\<rparr>"

text \<open>The callbacks of the linker: \<open>nosymbol\<close> aborts, \<open>multiple\<close> takes the newer module,
  \<open>linkedit\<close> aborts unless the error is a warning. \<open>None\<close> is \<open>abort ()\<close>.\<close>

datatype link_category = NSLinkEditWarningError | NSLinkEditOtherError

definition nosymbol :: "string \<Rightarrow> unit option" where
  "nosymbol s = None"

definition multiple :: "'m \<Rightarrow> 'm \<Rightarrow> 'm" where
  "multiple om nm = nm"

definition linkedit :: "link_category \<Rightarrow> unit option" where
  "linkedit category = (if category \<noteq> NSLinkEditWarningError then None else Some ())"

section \<open>The copy of the symbol's name\<close>

lemma copy_left_first:
  "x \<le> length nam \<Longrightarrow> length und = length nam + 2 \<Longrightarrow>
     copy_backwards True nam und x =
       Inr (take 1 und @ take (Suc x) (nam @ [NUL]) @ drop (x + 2) und)"
proof (induction x arbitrary: und)
  case 0
  then show ?case
    by (subst copy_backwards.simps)
       (cases und; cases "tl und"; auto simp: poke_def nth_append hd_append hd_conv_nth Suc_le_eq take_Suc)
next
  case (Suc x)
  let ?b = "und[x + 2 := (nam @ [NUL]) ! Suc x]"
  have "copy_backwards True nam und (Suc x) = copy_backwards True nam ?b x"
    using Suc.prems by (subst copy_backwards.simps) (simp add: poke_def)
  also have "\<dots> = Inr (take 1 ?b @ take (Suc x) (nam @ [NUL]) @ drop (x + 2) ?b)"
    using Suc.prems by (intro Suc.IH) auto
  also have "take 1 ?b = take 1 und" by simp
  also have "drop (x + 2) ?b = (nam @ [NUL]) ! Suc x # drop (Suc x + 2) und"
    using Suc.prems by (simp add: drop_update_swap Cons_nth_drop_Suc [symmetric] del: drop_Suc_Cons)
  also have "take (Suc x) (nam @ [NUL]) @ (nam @ [NUL]) ! Suc x # drop (Suc x + 2) und =
      take (Suc (Suc x)) (nam @ [NUL]) @ drop (Suc x + 2) und"
    using Suc.prems by (simp add: take_Suc_conv_app_nth del: take_append)
  finally show ?case .
qed

lemma copy_right_first:
  "x \<le> length nam \<Longrightarrow> length und = length nam + 2 \<Longrightarrow>
     copy_backwards False nam und x = Inr (take (Suc x) (nam @ [NUL]) @ drop (Suc x) und)"
proof (induction x arbitrary: und)
  case 0
  then show ?case
    by (subst copy_backwards.simps)
       (cases und; auto simp: poke_def nth_append hd_append hd_conv_nth Suc_le_eq take_Suc)
next
  case (Suc x)
  let ?b = "und[Suc x := (nam @ [NUL]) ! Suc x]"
  have "copy_backwards False nam und (Suc x) = copy_backwards False nam ?b x"
    using Suc.prems by (subst copy_backwards.simps) (simp add: poke_def)
  also have "\<dots> = Inr (take (Suc x) (nam @ [NUL]) @ drop (Suc x) ?b)"
    using Suc.prems by (intro Suc.IH) auto
  also have "drop (Suc x) ?b = (nam @ [NUL]) ! Suc x # drop (Suc (Suc x)) und"
    using Suc.prems by (simp add: drop_update_swap Cons_nth_drop_Suc [symmetric] del: drop_Suc_Cons)
  also have "take (Suc x) (nam @ [NUL]) @ (nam @ [NUL]) ! Suc x # drop (Suc (Suc x)) und =
      take (Suc (Suc x)) (nam @ [NUL]) @ drop (Suc (Suc x)) und"
    using Suc.prems by (simp add: take_Suc_conv_app_nth del: take_append)
  finally show ?case .
qed

text \<open>The symbol that \<^verbatim>\<open>dso-dyld.c\<close> looks up depends on the compiler: with the left index
  evaluated first it is the requested name behind an underscore, with the decrement first the
  name loses its first character.\<close>

theorem dyld_name_orders:
  assumes "NUL \<notin> set nam"
  shows "dyld_name True nam (replicate (length nam + 2) NUL) = Inr (CHR ''_'' # nam)
       \<and> dyld_name False nam (replicate (length nam + 2) NUL) = Inr (CHR ''_'' # tl nam)"
proof -
  have c: "cstr (xs @ NUL # ys) = xs" if "NUL \<notin> set xs" for xs ys
    using that by (induction xs) (auto simp: cstr_def)
  show ?thesis
  proof (cases nam)
    case Nil
    then show ?thesis by (simp add: dyld_name_def copy_left_first copy_right_first poke_def cstr_def)
  next
    case (Cons a list)
    with assms c [of list] have "a \<noteq> NUL" "\<And>ys. cstr (list @ NUL # ys) = list" by auto
    with Cons show ?thesis
      by (simp add: dyld_name_def copy_left_first copy_right_first poke_def)
         (simp add: cstr_def)
  qed
qed

theorem dyld_name_orders_witness:
  "dyld_name True ''JNI_CreateJavaVM'' (replicate (length ''JNI_CreateJavaVM'' + 2) NUL)
     = Inr (CHR ''_'' # ''JNI_CreateJavaVM'')
   \<and> dyld_name False ''JNI_CreateJavaVM'' (replicate (length ''JNI_CreateJavaVM'' + 2) NUL)
     = Inr (CHR ''_'' # tl ''JNI_CreateJavaVM'')"
  by (rule dyld_name_orders) simp

end
