(* ===== verification/Replace_String.thy ===== *)
theory Replace_String
  imports Jsvc_Prelude
begin

text \<open>
  \<^verbatim>\<open>replace.c\<close>: every occurrence of a string is replaced inside a caller's buffer. The C code
  copies \<open>old\<close> into the buffer and then shifts the tail left or right in place at every
  match, so the model is over the bytes of the buffer, and every write is checked against
  the buffer's real size. The abstract specification is \<open>replace_all\<close> on strings; the
  main lemma is the refinement of the in-place loops by it.
\<close>

section \<open>The code\<close>

text \<open>Counting the matches: \<open>while ((tmp = strstr (tmp, mch)) != NULL) { count++; tmp += mlen; }\<close>\<close>

function count_matches :: "string \<Rightarrow> string \<Rightarrow> nat" where
  "count_matches m s =
     (if m = [] then 0
      else case strstr s m of
        None \<Rightarrow> 0
      | Some i \<Rightarrow> Suc (count_matches m (drop (i + length m) s)))"
  by pat_completeness auto
termination
  by (relation "measure (\<lambda>(m, s). length s)") (auto intro: strstr_shorter)

declare count_matches.simps [simp del]

text \<open>\<open>for (x = strlen (tmp) + shift; x > shift; x--) tmp[x] = tmp[x - shift];\<close>\<close>

fun shift_right :: "buffer \<Rightarrow> nat \<Rightarrow> nat \<Rightarrow> nat \<Rightarrow> fault + buffer" where
  "shift_right b t sh 0 = Inr b"
| "shift_right b t sh (Suc x) =
     (if sh < Suc x
      then case poke b (t + Suc x) (b ! (t + Suc x - sh)) of
             Inl e \<Rightarrow> Inl e
           | Inr b' \<Rightarrow> shift_right b' t sh x
      else Inr b)"

text \<open>
  \<open>for (x = mlen; x < strlen (tmp) - shift; x++) tmp[x + shift] = tmp[x];\<close> for a negative
  shift \<open>- d\<close>: the length of \<open>tmp\<close> is read again in every round, while the loop moves
  the terminator.
\<close>

function shift_left :: "buffer \<Rightarrow> nat \<Rightarrow> nat \<Rightarrow> nat \<Rightarrow> fault + buffer" where
  "shift_left b t d x =
     (if x < length (cstr (drop t b)) + d
      then if t + x < length b
           then case poke b (t + x - d) (b ! (t + x)) of
                  Inl e \<Rightarrow> Inl e
                | Inr b' \<Rightarrow> shift_left b' t d (Suc x)
           else Inl Buffer_overrun
      else Inr b)"
  by pat_completeness auto
termination
  by (relation "measure (\<lambda>(b, t, d, x). length b - (t + x))")
     (auto simp: poke_def split: if_splits)

declare shift_left.simps [simp del]

text \<open>One round at a match: the shift, then \<open>strncpy (tmp, rpl, rlen)\<close>.\<close>

definition replace_at :: "buffer \<Rightarrow> nat \<Rightarrow> nat \<Rightarrow> string \<Rightarrow> fault + buffer" where
  "replace_at b t mlen rpl =
     (let rlen = length rpl; l = length (cstr (drop t b));
          shifted = (if mlen < rlen then shift_right b t (rlen - mlen) (l + (rlen - mlen))
                     else if rlen < mlen then shift_left b t (mlen - rlen) mlen
                     else Inr b)
      in case shifted of Inl e \<Rightarrow> Inl e | Inr b' \<Rightarrow> blit b' t rpl)"

text \<open>
  The replacing loop. Nothing in its text bounds the number of rounds, so it is a partial
  function: \<open>None\<close> stands for a loop that does not end.
\<close>

partial_function (option) replace_loop ::
  "buffer \<Rightarrow> nat \<Rightarrow> string \<Rightarrow> string \<Rightarrow> (fault + buffer) option" where
  "replace_loop b t m rpl =
     (case strstr (cstr (drop t b)) m of
        None \<Rightarrow> Some (Inr b)
      | Some i \<Rightarrow>
          (case replace_at b (t + i) (length m) rpl of
             Inl e \<Rightarrow> Some (Inl e)
           | Inr b' \<Rightarrow> replace_loop b' (t + i + length rpl) m rpl))"

text \<open>
  \<open>replace (new, len, old, mch, rpl)\<close>. A null pointer is \<open>None\<close>; the result is the
  return code with the buffer's final contents. The lengths are stored in \<open>int\<close>s.
\<close>

definition plain_copy :: "buffer \<Rightarrow> int \<Rightarrow> string \<Rightarrow> (fault + int \<times> buffer) option" where
  "plain_copy new len old =
     (let olen = int32 (int (length old))
      in if len \<le> olen then Some (Inr (olen + 1, new))
         else Some (case strcpy new old of Inl e \<Rightarrow> Inl e | Inr b \<Rightarrow> Inr (0, b)))"

definition replace ::
  "buffer option \<Rightarrow> int \<Rightarrow> string option \<Rightarrow> string option \<Rightarrow> string option
     \<Rightarrow> (fault + int \<times> buffer) option" where
  "replace new len old mch rpl =
     (case new of
        None \<Rightarrow> Some (Inr (- 1, []))
      | Some b \<Rightarrow>
          if len < 0 then Some (Inr (- 2, b))
          else case old of
            None \<Rightarrow> Some (Inr (- 3, b))
          | Some s \<Rightarrow>
              if mch = None \<or> mch = Some [] then plain_copy b len s
              else
                let m = the mch;
                    r = (case rpl of None \<Rightarrow> [] | Some r \<Rightarrow> r);
                    olen = int32 (int (length s));
                    mlen = int32 (int (length m));
                    rlen = int32 (int (length r));
                    count = int32 (int (count_matches m s))
                in if count = 0 then plain_copy b len s
                   else
                     let shift = rlen - mlen;
                         nlen = int32 (olen + int32 (shift * count))
                     in if len \<le> nlen then Some (Inr (nlen + 1, b))
                        else case strcpy b s of
                          Inl e \<Rightarrow> Some (Inl e)
                        | Inr b' \<Rightarrow>
                            map_option (map_sum id (\<lambda>b''. (0, b''))) (replace_loop b' 0 m r))"

section \<open>The specification\<close>

function replace_all :: "string \<Rightarrow> string \<Rightarrow> string \<Rightarrow> string" where
  "replace_all m r s =
     (if m = [] then s
      else case strstr s m of
        None \<Rightarrow> s
      | Some i \<Rightarrow> take i s @ r @ replace_all m r (drop (i + length m) s))"
  by pat_completeness auto
termination
  by (relation "measure (\<lambda>(m, r, s). length s)") (auto intro: strstr_shorter)

declare replace_all.simps [simp del]

lemma length_replace_all:
  assumes "m \<noteq> []"
  shows "int (length (replace_all m r s)) =
           int (length s) + (int (length r) - int (length m)) * int (count_matches m s)"
  using assms
proof (induction m r s rule: replace_all.induct)
  case (1 m r s)
  show ?case
  proof (cases "strstr s m")
    case None
    then show ?thesis
      by (simp add: replace_all.simps [of m r s] count_matches.simps [of m s])
  next
    case (Some i)
    note eqs = replace_all.simps [of m r s] count_matches.simps [of m s]
    have "int (length (replace_all m r (drop (i + length m) s))) =
        int (length s - (i + length m)) +
        (int (length r) - int (length m)) * int (count_matches m (drop (i + length m) s))"
      using "1.IH" Some "1.prems" by simp
    with Some "1.prems" strstr_bound [OF Some] show ?thesis
      by (simp add: eqs algebra_simps)
  qed
qed

lemma count_matches_0: "m \<noteq> [] \<Longrightarrow> count_matches m s = 0 \<longleftrightarrow> strstr s m = None"
  by (simp add: count_matches.simps [of m s] split: option.splits)

lemma replace_all_no_match: "count_matches m s = 0 \<Longrightarrow> replace_all m r s = s"
  by (simp add: replace_all.simps [of m r s] count_matches.simps [of m s]
      split: option.splits if_splits)

section \<open>The shifting loops\<close>

lemma shift_right_nth:
  assumes "t + x < length b"
  shows "\<exists>b'. shift_right b t sh x = Inr b' \<and> length b' = length b \<and>
           (\<forall>i < length b. b' ! i = (if t + sh < i \<and> i \<le> t + x then b ! (i - sh) else b ! i))"
  using assms
proof (induction x arbitrary: b)
  case 0
  then show ?case by auto
next
  case (Suc x)
  show ?case
  proof (cases "sh < Suc x")
    case False
    then show ?thesis by auto
  next
    case True
    let ?b1 = "b[t + Suc x := b ! (t + Suc x - sh)]"
    from Suc.prems obtain b' where b': "shift_right ?b1 t sh x = Inr b'" "length b' = length b"
      and nth: "\<And>i. i < length b \<Longrightarrow>
        b' ! i = (if t + sh < i \<and> i \<le> t + x then ?b1 ! (i - sh) else ?b1 ! i)"
      using Suc.IH [of ?b1] by auto
    have "b' ! i = (if t + sh < i \<and> i \<le> t + Suc x then b ! (i - sh) else b ! i)"
      if "i < length b" for i
      using nth [OF that] that True by (cases "i = t + Suc x") (auto simp: nth_list_update)
    with b' Suc.prems True show ?thesis by (auto simp: poke_def)
  qed
qed

lemma shift_right_string:
  assumes s: "b = p @ s @ NUL # q" and sh: "0 < sh" "sh \<le> length q" and ne: "s \<noteq> []"
  shows "\<exists>x. length x = Suc sh \<and>
           shift_right b (length p) sh (length s + sh)
             = Inr (p @ x @ tl s @ NUL # drop sh q)"
proof -
  let ?t = "length p" and ?L = "length s"
  have "?t + (?L + sh) < length b" using s sh by simp
  then obtain b' where b': "shift_right b ?t sh (?L + sh) = Inr b'" "length b' = length b"
    and nth: "\<And>i. i < length b \<Longrightarrow>
      b' ! i = (if ?t + sh < i \<and> i \<le> ?t + (?L + sh) then b ! (i - sh) else b ! i)"
    using shift_right_nth by metis
  have head: "take ?t b' = p"
    by (rule nth_equalityI) (use b' nth s in \<open>auto simp: nth_append\<close>)
  have rest: "drop (?t + Suc sh) b' = tl s @ NUL # drop sh q"
  proof (rule nth_equalityI)
    show "length (drop (?t + Suc sh) b') = length (tl s @ NUL # drop sh q)"
      using b' s sh ne by (cases s) auto
    fix i assume "i < length (drop (?t + Suc sh) b')"
    then have i: "?t + Suc sh + i < length b" using b' by simp
    then have "b' ! (?t + Suc sh + i) =
        (if i < ?L then b ! (?t + Suc i) else b ! (?t + Suc sh + i))"
      using nth [OF i] by auto
    also have "\<dots> = (tl s @ NUL # drop sh q) ! i"
      using s ne i by (cases s) (auto simp: nth_append nth_Cons' not_less less_Suc_eq
          intro!: arg_cong [where f = "(!) q"])
    finally show "drop (?t + Suc sh) b' ! i = (tl s @ NUL # drop sh q) ! i"
      using i b' by simp
  qed
  let ?x = "take (Suc sh) (drop ?t b')"
  have "b' = p @ ?x @ tl s @ NUL # drop sh q"
    using head rest by (metis append_take_drop_id drop_drop add.commute)
  moreover have "length ?x = Suc sh" using b' s sh by simp
  ultimately show ?thesis using b'(1) by metis
qed

lemma shift_left_step:
  "x < length (cstr (drop t b)) + d \<Longrightarrow> t + x < length b \<Longrightarrow>
     poke b (t + x - d) (b ! (t + x)) = Inr b' \<Longrightarrow>
     shift_left b t d x = shift_left b' t d (Suc x)"
  by (subst shift_left.simps) simp

lemma shift_left_stop:
  "length (cstr (drop t b)) + d \<le> x \<Longrightarrow> shift_left b t d x = Inr b"
  by (subst shift_left.simps) simp

lemma shift_left_string:
  assumes "NUL \<notin> set a" "NUL \<notin> set g" "NUL \<notin> set r" "0 < length g"
  shows "\<exists>g'. length g' = length g \<and>
           shift_left (p @ a @ g @ r @ NUL # q) (length p) (length g) (length a + length g)
             = Inr (p @ a @ r @ NUL # g' @ q)"
  using assms
proof (induction r arbitrary: a g)
  case Nil
  obtain c g1 where g: "g = c # g1" using Nil.prems by (cases g) auto
  let ?b = "p @ a @ g @ NUL # q" and ?b1 = "p @ a @ NUL # g1 @ NUL # q"
  have "poke ?b (length p + length a) NUL = Inr ?b1"
    using poke_append [of "p @ a" "length p + length a" c "g1 @ NUL # q" NUL] g by simp
  moreover have "length (cstr (drop (length p) ?b)) = length a + length g"
    using Nil.prems cstr_terminated [of "a @ g" q] by simp
  moreover have "length (cstr (drop (length p) ?b1)) = length a"
    using Nil.prems cstr_terminated [of a "g1 @ NUL # q"] by simp
  moreover have "?b ! (length p + (length a + length g)) = NUL"
    by (simp add: nth_append)
  ultimately have "shift_left ?b (length p) (length g) (length a + length g) =
      shift_left ?b1 (length p) (length g) (Suc (length a + length g))"
    by (intro shift_left_step) (use Nil.prems in simp_all)
  also have "\<dots> = Inr ?b1"
    using \<open>length (cstr (drop (length p) ?b1)) = length a\<close> by (intro shift_left_stop) simp
  finally have "shift_left ?b (length p) (length g) (length a + length g) = Inr ?b1" .
  then show ?case using g by (intro exI [of _ "g1 @ [NUL]"]) simp
next
  case (Cons x r)
  obtain c g1 where g: "g = c # g1" using Cons.prems by (cases g) auto
  let ?b = "p @ a @ g @ (x # r) @ NUL # q"
    and ?b1 = "p @ (a @ [x]) @ (g1 @ [x]) @ r @ NUL # q"
  have "poke ?b (length p + length a) x = Inr ?b1"
    using poke_append [of "p @ a" "length p + length a" c "g1 @ (x # r) @ NUL # q" x] g by simp
  moreover have "length (cstr (drop (length p) ?b)) = length a + length g + length r + 1"
    using Cons.prems cstr_terminated [of "a @ g @ x # r" q] by simp
  moreover have "?b ! (length p + (length a + length g)) = x"
    by (simp add: nth_append)
  ultimately have step: "shift_left ?b (length p) (length g) (length a + length g) =
      shift_left ?b1 (length p) (length g) (Suc (length a + length g))"
    by (intro shift_left_step) (use Cons.prems in simp_all)
  obtain g' where "length g' = length (g1 @ [x])"
    "shift_left ?b1 (length p) (length (g1 @ [x])) (length (a @ [x]) + length (g1 @ [x])) =
       Inr (p @ (a @ [x]) @ r @ NUL # g' @ q)"
    using Cons.IH [of "a @ [x]" "g1 @ [x]"] Cons.prems g by auto
  with step g show ?case by auto
qed

section \<open>Refinement of the loops\<close>

text \<open>
  One round at a match \<open>m @ r\<close> puts \<open>rpl @ r\<close> there, provided the bytes behind the
  terminator leave room for the growth.
\<close>

lemma replace_at_string:
  assumes "NUL \<notin> set m" "NUL \<notin> set r" "m \<noteq> []" and room: "length rpl \<le> length m + length q"
  shows "\<exists>q'. length q' + length rpl = length q + length m \<and>
           replace_at (p @ m @ r @ NUL # q) (length p) (length m) rpl
             = Inr (p @ rpl @ r @ NUL # q')"
proof -
  let ?b = "p @ m @ r @ NUL # q"
  have len: "length (cstr (drop (length p) ?b)) = length m + length r"
    using assms cstr_terminated [of "m @ r" q] by simp
  consider (grow) "length m < length rpl" | (shrink) "length rpl < length m"
    | (same) "length m = length rpl" by linarith
  then show ?thesis
  proof cases
    case grow
    let ?sh = "length rpl - length m"
    have "0 < ?sh" "?sh \<le> length q" using room grow by linarith+
    then obtain x where x: "length x = Suc ?sh"
      "shift_right ?b (length p) ?sh (length (m @ r) + ?sh) =
         Inr (p @ x @ tl (m @ r) @ NUL # drop ?sh q)"
      using shift_right_string [of ?b p "m @ r" q ?sh] assms by auto
    have "blit (p @ (x @ tl m) @ r @ NUL # drop ?sh q) (length p) rpl =
        Inr (p @ rpl @ r @ NUL # drop ?sh q)"
      by (rule blit_append) (use x grow assms in \<open>cases m; auto\<close>)+
    with x grow assms len show ?thesis
      by (intro exI [of _ "drop ?sh q"]) (use room in \<open>simp add: replace_at_def Let_def\<close>)
  next
    case shrink
    let ?a = "take (length rpl) m" and ?g = "drop (length rpl) m"
    have m: "?a @ ?g = m" by simp
    have "NUL \<notin> set ?a" "NUL \<notin> set ?g" using assms by (meson in_set_takeD in_set_dropD)+
    then obtain g' where g': "length g' = length ?g"
      "shift_left (p @ ?a @ ?g @ r @ NUL # q) (length p) (length ?g) (length ?a + length ?g) =
         Inr (p @ ?a @ r @ NUL # g' @ q)"
      using shift_left_string [of ?a ?g r p q] assms shrink by auto
    moreover have "p @ ?a @ ?g @ r @ NUL # q = ?b" by (simp flip: append_assoc)
    moreover have "blit (p @ ?a @ r @ NUL # g' @ q) (length p) rpl =
        Inr (p @ rpl @ r @ NUL # g' @ q)"
      by (rule blit_append) (use shrink in auto)
    ultimately show ?thesis using shrink len
      by (intro exI [of _ "g' @ q"]) (simp add: replace_at_def Let_def)
  next
    case same
    then have "blit ?b (length p) rpl = Inr (p @ rpl @ r @ NUL # q)"
      by (intro blit_append) auto
    with same show ?thesis by (auto simp: replace_at_def)
  qed
qed

text \<open>
  The loop from a position: the text before it stays, the string behind it becomes its
  \<open>replace_all\<close>. The bytes behind the terminator must hold what the matches still to come
  add; in particular the loop ends.
\<close>

lemma replace_loop_string:
  assumes "m \<noteq> []" "NUL \<notin> set m" "NUL \<notin> set s"
    and "int (count_matches m s) * (int (length rpl) - int (length m)) \<le> int (length q)"
  shows "\<exists>q'. replace_loop (p @ s @ NUL # q) (length p) m rpl =
           Some (Inr (p @ replace_all m rpl s @ NUL # q'))
           \<and> length (replace_all m rpl s) + length q' = length s + length q"
  using assms
proof (induction m s arbitrary: p q rule: count_matches.induct)
  case (1 m s)
  note loop = replace_loop.simps [of "p @ s @ NUL # q" "length p" m rpl]
  have tmp: "cstr (drop (length p) (p @ s @ NUL # q)) = s"
    using "1.prems" by (simp add: cstr_terminated)
  show ?case
  proof (cases "strstr s m")
    case None
    then show ?thesis using loop tmp "1.prems" by (simp add: replace_all.simps [of m rpl s])
  next
    case (Some i)
    then obtain u r where s: "s = u @ m @ r" "length u = i" by (rule strstr_split)
    then have cut: "drop (i + length m) s = r" "take i s = u" by auto
    let ?d = "int (length rpl) - int (length m)" and ?n = "int (count_matches m r)"
    have cnt: "count_matches m s = Suc (count_matches m r)"
      using Some cut "1.prems" by (simp add: count_matches.simps [of m s])
    have all: "replace_all m rpl s = u @ rpl @ replace_all m rpl r"
      using Some cut "1.prems" by (simp add: replace_all.simps [of m rpl s])
    have room: "?d + ?n * ?d \<le> int (length q)"
      using "1.prems"(4) cnt by (simp add: algebra_simps)
    have "length rpl \<le> length m + length q"
    proof (cases "?d \<le> 0")
      case False
      then have "0 \<le> ?n * ?d" by simp
      with room show ?thesis by linarith
    qed simp
    then obtain q1 where q1: "length q1 + length rpl = length q + length m"
      "replace_at ((p @ u) @ m @ r @ NUL # q) (length (p @ u)) (length m) rpl =
         Inr ((p @ u) @ rpl @ r @ NUL # q1)"
      using replace_at_string [of m r rpl q "p @ u"] "1.prems" s by auto
    have step: "replace_loop (p @ s @ NUL # q) (length p) m rpl =
        replace_loop ((p @ u @ rpl) @ r @ NUL # q1) (length (p @ u @ rpl)) m rpl"
      using loop tmp Some q1 s by (simp add: add.assoc)
    have "?n * ?d \<le> int (length q1)" using room q1(1) by linarith
    then obtain q' where "replace_loop ((p @ u @ rpl) @ r @ NUL # q1) (length (p @ u @ rpl)) m rpl =
           Some (Inr ((p @ u @ rpl) @ replace_all m rpl r @ NUL # q'))"
        "length (replace_all m rpl r) + length q' = length r + length q1"
      using "1.IH" [OF "1.prems"(1) Some, of q1 "p @ u @ rpl"] "1.prems" s by auto
    with step all s q1(1) show ?thesis by auto
  qed
qed

lemma strstr_length: "strstr s m = Some i \<Longrightarrow> length m \<le> length s"
  using strstr_bound [of s m i] by linarith

lemma int32_length: "length s < 2 ^ 31 \<Longrightarrow> int32 (int (length s)) = int (length s)"
  by (intro int32_id) auto

lemma count_matches_le: "count_matches m s \<le> length s"
proof (induction m s rule: count_matches.induct)
  case (1 m s)
  show ?case
  proof (cases "m = []")
    case False
    then show ?thesis using "1.IH" strstr_shorter [of m s]
      by (fastforce simp: count_matches.simps [of m s] split: option.splits)
  qed (simp add: count_matches.simps [of "[]" s])
qed

text \<open>With the lengths inside the range of \<open>int\<close> the code's case analysis is the one below.\<close>

lemma replace_unfold:
  assumes "m \<noteq> []" "0 \<le> len" "length s < 2 ^ 31" "length r < 2 ^ 31"
    and nlen: "length (replace_all m r s) < 2 ^ 31"
  shows "replace (Some b) len (Some s) (Some m) (Some r) =
     (if len \<le> int (length (replace_all m r s))
      then Some (Inr (int (length (replace_all m r s)) + 1, b))
      else case strcpy b s of
             Inl e \<Rightarrow> Some (Inl e)
           | Inr b' \<Rightarrow>
               if count_matches m s = 0 then Some (Inr (0, b'))
               else map_option (map_sum id (\<lambda>b''. (0, b''))) (replace_loop b' 0 m r))"
proof -
  have cnt: "int32 (int (count_matches m s)) = int (count_matches m s)"
    using assms(3) count_matches_le [of m s] by (intro int32_id) auto
  show ?thesis
  proof (cases "count_matches m s = 0")
    case True
    then show ?thesis using assms cnt replace_all_no_match [OF True, of r]
      by (auto simp: replace_def plain_copy_def int32_length Let_def split: sum.splits)
  next
    case False
    then have "length m \<le> length s"
      using assms(1) by (auto simp: count_matches_0 dest: strstr_length)
    then have mlen: "int32 (int (length m)) = int (length m)"
      using assms(3) by (intro int32_length) simp
    let ?p = "(int (length r) - int (length m)) * int (count_matches m s)"
    have sum: "int (length s) + ?p = int (length (replace_all m r s))"
      using length_replace_all [OF assms(1), of r s] by simp
    with assms have "int32 ?p = ?p" by (intro int32_id) auto
    moreover have "int32 (int (length s) + ?p) = int (length (replace_all m r s))"
      using sum assms nlen by (simp add: int32_length)
    ultimately show ?thesis using False assms mlen cnt
      by (simp add: replace_def int32_length Let_def split: sum.splits)
  qed
qed

lemma replace_size_code:
  assumes "m \<noteq> []" "length s < 2 ^ 31" "length r < 2 ^ 31"
    and "length (replace_all m r s) < 2 ^ 31"
    and "0 \<le> len" "len \<le> int (length (replace_all m r s))"
  shows "replace (Some b) len (Some s) (Some m) (Some r) =
           Some (Inr (int (length (replace_all m r s)) + 1, b))"
  using replace_unfold [of m len s r b] assms by simp

lemma replace_all_no_nul:
  "NUL \<notin> set r \<Longrightarrow> NUL \<notin> set s \<Longrightarrow> NUL \<notin> set (replace_all m r s)"
proof (induction m r s rule: replace_all.induct)
  case (1 m r s)
  then show ?case
    by (auto simp: replace_all.simps [of m r s] split: option.splits
        dest: in_set_takeD in_set_dropD)
qed

lemma replace_fits:
  assumes "m \<noteq> []" "NUL \<notin> set m" "NUL \<notin> set s" "NUL \<notin> set r"
    and "length r < 2 ^ 31" "len < 2 ^ 31"
    and "int (length (replace_all m r s)) < len" "int (length s) < len" "len \<le> int (length b)"
  shows "\<exists>b'. replace (Some b) len (Some s) (Some m) (Some r) = Some (Inr (0, b'))
           \<and> cstr b' = replace_all m r s \<and> length b' = length b"
proof -
  let ?q = "drop (Suc (length s)) b"
  have cpy: "strcpy b s = Inr (s @ NUL # ?q)"
    using assms by (intro strcpy_fits) auto
  have "int (count_matches m s) * (int (length r) - int (length m)) \<le> int (length ?q)"
    using length_replace_all [OF assms(1), of r s] assms by (auto simp: mult.commute)
  from replace_loop_string [OF assms(1-3) this, of "[]"] obtain q' where
    loop: "replace_loop (s @ NUL # ?q) 0 m r = Some (Inr (replace_all m r s @ NUL # q'))"
    and len: "length (replace_all m r s) + length q' = length s + length ?q"
    by auto
  have nul: "NUL \<notin> set (replace_all m r s)"
    using assms(3,4) by (intro replace_all_no_nul)
  have uf: "replace (Some b) len (Some s) (Some m) (Some r) =
      (if count_matches m s = 0 then Some (Inr (0, s @ NUL # ?q))
       else map_option (map_sum id (\<lambda>b''. (0, b''))) (replace_loop (s @ NUL # ?q) 0 m r))"
    using replace_unfold [of m len s r b] assms cpy by auto
  show ?thesis
  proof (cases "count_matches m s = 0")
    case True
    with uf replace_all_no_match [OF True, of r] assms show ?thesis
      by (auto simp: cstr_terminated)
  next
    case False
    with uf loop len nul assms show ?thesis by (auto simp: cstr_terminated)
  qed
qed

section \<open>Properties\<close>

text \<open>C1. \<open>replace\<close> implements its specification: called with a buffer that can hold both the
  old string and the result, it returns 0, the loops end and stay inside the buffer, and
  the buffer then holds the old string with every match replaced, left to right.\<close>

theorem replace_refines:
  assumes "m \<noteq> []" "NUL \<notin> set m" "NUL \<notin> set s" "NUL \<notin> set r"
    and "length r < 2 ^ 31" "len < 2 ^ 31"
    and "int (length (replace_all m r s)) < len" "int (length s) < len" "len \<le> int (length b)"
  shows "\<exists>b'. replace (Some b) len (Some s) (Some m) (Some r) = Some (Inr (0, b'))
           \<and> cstr b' = replace_all m r s \<and> length b' = length b"
  using assms by (rule replace_fits)

theorem replace_refines_witness:
  "\<exists>b'. replace (Some (replicate 8 NUL)) 8 (Some ''a$b$'') (Some ''$'') (Some ''xy'')
       = Some (Inr (0, b')) \<and> cstr b' = replace_all ''$'' ''xy'' ''a$b$''
       \<and> length b' = length (replicate 8 NUL)"
  by (rule replace_refines) (simp_all add: replace_all.simps starts_with_def)

text \<open>When the result would not fit, \<open>replace\<close> writes nothing and returns the number of
  bytes the caller has to provide, the terminator included.\<close>

theorem replace_reports_size:
  assumes "m \<noteq> []" "length s < 2 ^ 31" "length r < 2 ^ 31"
    and "length (replace_all m r s) < 2 ^ 31"
    and "0 \<le> len" "len \<le> int (length (replace_all m r s))"
  shows "replace (Some b) len (Some s) (Some m) (Some r) =
           Some (Inr (int (length (replace_all m r s)) + 1, b))"
  using assms by (rule replace_size_code)

theorem replace_reports_size_witness:
  "replace (Some ''zzzz'') 4 (Some ''a$b$'') (Some ''$'') (Some ''xy'') =
     Some (Inr (int (length (replace_all ''$'' ''xy'' ''a$b$'')) + 1, ''zzzz''))"
  by (rule replace_reports_size) (simp_all add: replace_all.simps starts_with_def)

text \<open>C32. The size check looks at the result only: when the replacement shrinks the string,
  the old string is copied into a buffer that is too small for it, and \<open>strcpy\<close> writes past
  the end although \<open>len\<close> is the true size of the buffer.\<close>

theorem replace_shrinking_overruns:
  assumes "m \<noteq> []" "length s < 2 ^ 31" "length r < 2 ^ 31"
    and "int (length (replace_all m r s)) < int (length b)" "length b \<le> length s"
  shows "replace (Some b) (int (length b)) (Some s) (Some m) (Some r) = Some (Inl Buffer_overrun)"
  using replace_unfold [of m "int (length b)" s r b] assms strcpy_overruns [of b s] by simp

theorem replace_shrinking_overruns_witness:
  "replace (Some ''zzzz'') (int (length ''zzzz'')) (Some ''$HOME/x'') (Some ''$HOME'') (Some ''/'')
     = Some (Inl Buffer_overrun)"
  by (rule replace_shrinking_overruns) (simp_all add: replace_all.simps starts_with_def)

end
