(* ===== verification/Location.thy ===== *)
theory Location
  imports Jsvc_Prelude
begin

text \<open>
  \<^verbatim>\<open>location.c\<close>: the tables of places where a Java home, a \<^verbatim>\<open>jvm.cfg\<close> and a JVM library are
  searched. The tables are chosen by the preprocessor; a \<open>platform\<close> record stands for the
  macros the build defines (\<^verbatim>\<open>OS_*\<close>, \<^verbatim>\<open>__LP64__\<close>, \<^verbatim>\<open>OSD_POSIX\<close>, \<^verbatim>\<open>CPU\<close>, \<^verbatim>\<open>SO_EXT\<close>). The null
  pointer that ends each C array is the end of the list.
\<close>

datatype os =
    OS_DARWIN | OS_LINUX | OS_SOLARIS | OS_BSD | OS_FREEBSD | OS_CYGWIN | OS_SYSV
  | OS_TRU64 | OS_HPUX | OS_AIX \<comment> \<open>no table mentions AIX\<close>

record platform =
  os_of :: os
  lp64 :: bool
  osd_posix :: bool
  cpu :: string
  so_ext :: string

definition location_home :: "platform \<Rightarrow> path list" where
  "location_home p =
     (case os_of p of
        OS_DARWIN \<Rightarrow>
          [''/System/Library/Frameworks/JavaVM.framework/Home'',
           ''/System/Library/Frameworks/JavaVM.framework/Versions/CurrentJDK/Home/'']
      | OS_CYGWIN \<Rightarrow> [''/cygdrive/c/WINNT/system32/java'']
      | OS_SYSV \<Rightarrow> [''/opt/java'', ''/opt/java/jdk13'']
      | OS_TRU64 \<Rightarrow> [''/usr/opt/java142'', ''/usr/opt/java13'']
      | OS_HPUX \<Rightarrow> [''/opt/java6'', ''/opt/java1.5'', ''/opt/java1.4'', ''/opt/java1.3'']
      | OS_FREEBSD \<Rightarrow> []
      | OS_AIX \<Rightarrow> []
      | _ \<Rightarrow>
          [''/usr/java/default'', ''/usr/java'', ''/usr/local/java'',
           ''/usr/lib/jvm/default-java'', ''/usr/lib/jvm/java'',
           ''/etc/alternatives/java_sdk'', ''/etc/alternatives/java_sdk_openjdk'',
           ''/etc/alternatives/jre'']
          @ (if lp64 p then [''/lib64/jvm/java'', ''/lib64/jvm/java-openjdk''] else [])
          @ [''/lib/jvm/java'', ''/lib/jvm/java-openjdk''])"

definition location_jvm_cfg :: "platform \<Rightarrow> path list" where
  "location_jvm_cfg p =
     [''$JAVA_HOME/jre/lib/jvm.cfg'',
      ''$JAVA_HOME/lib/jvm.cfg'',
      ''$JAVA_HOME/jre/lib/'' @ cpu p @ ''/jvm.cfg'',
      ''$JAVA_HOME/lib/'' @ cpu p @ ''/jvm.cfg'']"

definition jvm_default_unix :: "platform \<Rightarrow> path list" where
  "jvm_default_unix p =
     [''$JAVA_HOME/jre/lib/'' @ cpu p @ ''/classic/libjvm.so'',
      ''$JAVA_HOME/jre/lib/'' @ cpu p @ ''/server/libjvm.so'',
      ''$JAVA_HOME/jre/lib/'' @ cpu p @ ''/client/libjvm.so'',
      ''$JAVA_HOME/jre/lib/'' @ cpu p @ ''/libjvm.so'',
      ''$JAVA_HOME/lib/'' @ cpu p @ ''/classic/libjvm.so'',
      ''$JAVA_HOME/lib/'' @ cpu p @ ''/server/libjvm.so'',
      ''$JAVA_HOME/lib/'' @ cpu p @ ''/client/libjvm.so'',
      ''$JAVA_HOME/lib/'' @ cpu p @ ''/libjvm.so'',
      ''$JAVA_HOME/jre/bin/'' @ cpu p @ ''/classic/libjvm.so'',
      ''$JAVA_HOME/jre/bin/'' @ cpu p @ ''/libjvm.so'',
      ''$JAVA_HOME/bin/'' @ cpu p @ ''/classic/libjvm.so'',
      ''$JAVA_HOME/bin/'' @ cpu p @ ''/libjvm.so'',
      ''$JAVA_HOME/jre/lib/'' @ cpu p @ ''/classic/green_threads/libjvm.so'']
     @ (if osd_posix p
        then [''$JAVA_HOME/lib/s390/client/green_threads/libjvm.so'',
              ''$JAVA_HOME/lib/sparc/client/green_threads/libjvm.so'']
        else [])
     @ [''$JAVA_HOME/jre/lib/classic/libjvm.so'',
        ''$JAVA_HOME/jre/lib/client/libjvm.so'',
        ''$JAVA_HOME/jre/lib/libjvm.so'',
        ''$JAVA_HOME/lib/classic/libjvm.so'',
        ''$JAVA_HOME/lib/client/libjvm.so'',
        ''$JAVA_HOME/lib/libjvm.so'',
        ''$JAVA_HOME/jre/bin/classic/libjvm.so'',
        ''$JAVA_HOME/jre/bin/client/libjvm.so'',
        ''$JAVA_HOME/jre/bin/libjvm.so'',
        ''$JAVA_HOME/bin/classic/libjvm.so'',
        ''$JAVA_HOME/bin/client/libjvm.so'',
        ''$JAVA_HOME/bin/libjvm.so'',
        ''$JAVA_HOME/jre/lib/'' @ cpu p @ ''/fast64/libjvm.so'',
        ''$JAVA_HOME/jre/lib/'' @ cpu p @ ''/fast32/libjvm.so'',
        ''$JAVA_HOME/lib/'' @ cpu p @ ''/fast64/libjvm.so'',
        ''$JAVA_HOME/lib/'' @ cpu p @ ''/fast32/libjvm.so'']"

definition location_jvm_default :: "platform \<Rightarrow> path list" where
  "location_jvm_default p =
     (case os_of p of
        OS_DARWIN \<Rightarrow>
          [''$JAVA_HOME/../Libraries/libjvm.dylib'',
           ''$JAVA_HOME/jre/lib/server/libjvm.dylib'',
           ''$JAVA_HOME/jre/lib/client/libjvm.dylib'']
      | OS_CYGWIN \<Rightarrow>
          [''$JAVA_HOME/jre/bin/classic/jvm.dll'', ''$JAVA_HOME/jre/bin/client/jvm.dll'']
      | OS_HPUX \<Rightarrow>
          [''$JAVA_HOME/jre/lib/'' @ cpu p @ ''/server/libjvm.'' @ so_ext p,
           ''$JAVA_HOME/jre/lib/'' @ cpu p @ ''/client/libjvm.'' @ so_ext p,
           ''$JAVA_HOME/jre/lib/'' @ cpu p @ ''/hotspot/libjvm.'' @ so_ext p,
           ''$JAVA_HOME/jre/lib/'' @ cpu p @ ''/classic/libjvm.'' @ so_ext p]
      | OS_AIX \<Rightarrow> []
      | _ \<Rightarrow> jvm_default_unix p)
     @ [''/usr/lib/libgcj.so.7'', ''/usr/lib/libgcj.so.6'']"

definition location_jvm_configured :: "platform \<Rightarrow> path list" where
  "location_jvm_configured p =
     (case os_of p of
        OS_DARWIN \<Rightarrow> [''$JAVA_HOME/../Libraries/lib$VM_NAME.dylib'']
      | OS_CYGWIN \<Rightarrow> [''$JAVA_HOME/jre/bin/$VM_NAME/jvm.dll'']
      | OS_HPUX \<Rightarrow>
          [''$JAVA_HOME/jre/lib/'' @ cpu p @ ''/$VM_NAME/libjvm.'' @ so_ext p,
           ''$JAVA_HOME/lib/'' @ cpu p @ ''/$VM_NAME/libjvm.'' @ so_ext p]
      | OS_SYSV \<Rightarrow>
          [''$JAVA_HOME/jre/lib/'' @ cpu p @ ''/$VM_NAME/dce_threads/libjvm.so'',
           ''$JAVA_HOME/jre/lib/'' @ cpu p @ ''/$VM_NAME/green_threads/libjvm.so'',
           ''$JAVA_HOME/lib/'' @ cpu p @ ''/$VM_NAME/dce_threads/libjvm.so'',
           ''$JAVA_HOME/lib/'' @ cpu p @ ''/$VM_NAME/green_threads/libjvm.so'']
      | OS_AIX \<Rightarrow> []
      | _ \<Rightarrow>
          [''$JAVA_HOME/jre/lib/'' @ cpu p @ ''/$VM_NAME/libjvm.so'',
           ''$JAVA_HOME/lib/'' @ cpu p @ ''/$VM_NAME/libjvm.so''])"

text \<open>Every table is short, and the templates of the home searches start at \<^verbatim>\<open>$JAVA_HOME\<close>.\<close>

lemma location_jvm_cfg_home:
  "t \<in> set (location_jvm_cfg p) \<Longrightarrow> starts_with ''$JAVA_HOME/'' t"
  by (auto simp: location_jvm_cfg_def starts_with_def)

lemma location_jvm_configured_home:
  "t \<in> set (location_jvm_configured p) \<Longrightarrow> starts_with ''$JAVA_HOME/'' t"
  by (auto simp: location_jvm_configured_def starts_with_def split: os.splits)

end
