(* ===== verification/Home.thy ===== *)
theory Home
  imports Replace_String Location C_Numbers "HOL-Library.Sublist"
begin

text \<open>
  \<^verbatim>\<open>home.c\<close> and \<^verbatim>\<open>home.h\<close>: locating a Java home and the JVM libraries in it. The file system is
  a parameter: \<open>stat\<close> tells what a path names, \<open>fread\<close> the contents of a file that can be
  opened; \<open>JAVA_HOME\<close> is the environment variable. The path templates go through \<open>replace\<close>
  with the code's buffers of 1024 bytes, whose old contents \<open>replace\<close> overwrites before
  anything reads them. A result is a \<open>fault\<close> where the C code would write outside an array.
\<close>

section \<open>Data\<close>

datatype file_kind = Regular | Directory | Other_file

record home_jvm =
  jvm_label :: "string option" \<comment> \<open>the field \<open>name\<close>\<close>
  libr :: path

record home_data =
  hpath :: path \<comment> \<open>the field \<open>path\<close>\<close>
  cfgf :: "path option"
  jvms :: "home_jvm list" \<comment> \<open>the array \<open>jvms\<close> up to \<open>jnum\<close>\<close>

abbreviation jnum :: "home_data \<Rightarrow> nat" where
  "jnum d \<equiv> length (jvms d)"

definition checkdir :: "(path \<Rightarrow> file_kind option) \<Rightarrow> path \<Rightarrow> bool" where
  "checkdir stat p \<longleftrightarrow> stat p = Some Directory"

definition checkfile :: "(path \<Rightarrow> file_kind option) \<Rightarrow> path \<Rightarrow> bool" where
  "checkfile stat p \<longleftrightarrow> stat p = Some Regular"

section \<open>Templates\<close>

text \<open>One call \<open>replace (buf, 1024, template, mch, rpl)\<close>, with the string left in the buffer.\<close>

datatype subst_result = Subst path | Refused int | Crash fault | Endless

definition subst :: "path \<Rightarrow> string \<Rightarrow> string \<Rightarrow> subst_result" where
  "subst template mch rpl =
     (case replace (Some (replicate 1024 NUL)) 1024 (Some template) (Some mch) (Some rpl) of
        None \<Rightarrow> Endless
      | Some (Inl e) \<Rightarrow> Crash e
      | Some (Inr (k, b)) \<Rightarrow> if k = 0 then Subst (cstr b) else Refused k)"

text \<open>
  The searches over a table: the first path that is a regular file, after the home (and, for
  a configured JVM, the name) is filled in. A search stops at the first template that does
  not fit its buffer.
\<close>

datatype search_result = Found path | Not_found | Search_error int | Search_crash fault | Search_endless

fun search_home :: "(path \<Rightarrow> file_kind option) \<Rightarrow> path \<Rightarrow> path list \<Rightarrow> search_result" where
  "search_home stat home [] = Not_found"
| "search_home stat home (t # ts) =
     (case subst t ''$JAVA_HOME'' home of
        Endless \<Rightarrow> Search_endless
      | Crash e \<Rightarrow> Search_crash e
      | Refused k \<Rightarrow> Search_error k
      | Subst p \<Rightarrow> if checkfile stat p then Found p else search_home stat home ts)"

fun search_jvm :: "(path \<Rightarrow> file_kind option) \<Rightarrow> path \<Rightarrow> string \<Rightarrow> path list \<Rightarrow> search_result" where
  "search_jvm stat home name [] = Not_found"
| "search_jvm stat home name (t # ts) =
     (case subst t ''$JAVA_HOME'' home of
        Endless \<Rightarrow> Search_endless
      | Crash e \<Rightarrow> Search_crash e
      | Refused k \<Rightarrow> Search_error k
      | Subst temp \<Rightarrow>
          (case subst temp ''$VM_NAME'' name of
             Endless \<Rightarrow> Search_endless
           | Crash e \<Rightarrow> Search_crash e
           | Refused k \<Rightarrow> Search_error k
           | Subst repl \<Rightarrow>
               if checkfile stat repl then Found repl else search_jvm stat home name ts))"

section \<open>The JVM configuration file\<close>

text \<open>\<open>fgets (buf, 1024, cfgf)\<close>: a line with its newline, or 1023 bytes of a longer one.\<close>

fun fgets :: "nat \<Rightarrow> string \<Rightarrow> string \<times> string" where
  "fgets 0 s = ([], s)"
| "fgets (Suc n) [] = ([], [])"
| "fgets (Suc n) (c # cs) =
     (if c = CHR 0x0A then ([c], cs)
      else case fgets n cs of (l, r) \<Rightarrow> (c # l, r))"

lemma fgets_shorter: "length (snd (fgets n s)) \<le> length s"
  by (induction n s rule: fgets.induct) (auto split: prod.splits)

lemma fgets_less: "(l, r) = fgets 1023 (c # cs) \<Longrightarrow> length r < length (c # cs)"
proof -
  assume "(l, r) = fgets 1023 (c # cs)"
  moreover have "(1023 :: nat) = Suc 1022" by simp
  ultimately have "(l, r) = fgets (Suc 1022) (c # cs)" by metis
  then have "(l, r) = (if c = CHR 0x0A then ([c], cs)
      else case fgets 1022 cs of (l, r) \<Rightarrow> (c # l, r))"
    by (simp only: fgets.simps)
  then show ?thesis using fgets_shorter [of 1022 cs] by (auto split: prod.splits if_splits)
qed

function fgets_lines :: "string \<Rightarrow> string list" where
  "fgets_lines [] = []"
| "fgets_lines (c # cs) =
     (case fgets 1023 (c # cs) of (l, r) \<Rightarrow> cstr l # fgets_lines r)"
  by pat_completeness auto
termination
  by (relation "measure length") (auto dest: fgets_less)

text \<open>Comment, leading blanks and dashes, trailing blanks, and what follows the first blank.\<close>

definition cut_at :: "char \<Rightarrow> string \<Rightarrow> string" where
  "cut_at c s = (case split_first c s of None \<Rightarrow> s | Some (a, _) \<Rightarrow> a)"

definition ltrim :: "string \<Rightarrow> string" where
  "ltrim s = dropWhile (\<lambda>c. c \<in> {CHR '' '', CHR 0x09, CHR ''-''}) s"

definition rtrim :: "string \<Rightarrow> string" where
  "rtrim s = rev (dropWhile (\<lambda>c. c \<in> {CHR 0x0D, CHR 0x0A, CHR 0x09, CHR '' ''}) (rev s))"

definition clean_line :: "string \<Rightarrow> string" where
  "clean_line l = cut_at (CHR '' '') (rtrim (ltrim (cut_at (CHR ''#'') l)))"

text \<open>
  The loop over the lines. The array has 256 entries, and storing the entry \<open>jnum\<close> also
  writes the null pointer behind it.
\<close>

datatype 'a home_result = Done 'a | Home_crash fault | Home_endless

fun parse_lines ::
  "platform \<Rightarrow> (path \<Rightarrow> file_kind option) \<Rightarrow> home_data \<Rightarrow> string list \<Rightarrow> (bool \<times> home_data) home_result" where
  "parse_lines plat stat d [] = Done (True, d)"
| "parse_lines plat stat d (l # ls) =
     (let name = clean_line l
      in if name = [] then parse_lines plat stat d ls
         else case search_jvm stat (hpath d) name (location_jvm_configured plat) of
           Search_endless \<Rightarrow> Home_endless
         | Search_crash e \<Rightarrow> Home_crash e
         | Search_error k \<Rightarrow> Done (False, d)
         | Not_found \<Rightarrow> parse_lines plat stat d ls
         | Found libf \<Rightarrow>
             if jnum d + 1 < 256
             then parse_lines plat stat
                    (d\<lparr>jvms := jvms d @ [\<lparr>jvm_label = Some name, libr = libf\<rparr>]\<rparr>) ls
             else Home_crash Buffer_overrun)"

definition parse_cfg ::
  "platform \<Rightarrow> (path \<Rightarrow> file_kind option) \<Rightarrow> (path \<Rightarrow> string option) \<Rightarrow> home_data
     \<Rightarrow> (bool \<times> home_data) home_result" where
  "parse_cfg plat stat fread d =
     (case Option.bind (cfgf d) fread of
        None \<Rightarrow> Done (False, d)
      | Some text \<Rightarrow> parse_lines plat stat d (fgets_lines text))"

section \<open>Building and finding a home\<close>

definition build ::
  "platform \<Rightarrow> (path \<Rightarrow> file_kind option) \<Rightarrow> (path \<Rightarrow> string option) \<Rightarrow> path
     \<Rightarrow> home_data option home_result" where
  "build plat stat fread path =
     (if \<not> checkdir stat path then Done None
      else case search_home stat path (location_jvm_cfg plat) of
        Search_endless \<Rightarrow> Home_endless
      | Search_crash e \<Rightarrow> Home_crash e
      | Search_error k \<Rightarrow> Done None
      | Not_found \<Rightarrow>
          let d = \<lparr>hpath = path, cfgf = None, jvms = []\<rparr>
          in (case search_home stat path (location_jvm_default plat) of
                Search_endless \<Rightarrow> Home_endless
              | Search_crash e \<Rightarrow> Home_crash e
              | Search_error k \<Rightarrow> Done None
              | Not_found \<Rightarrow> Done (Some d)
              | Found p \<Rightarrow> Done (Some (d\<lparr>jvms := [\<lparr>jvm_label = None, libr = p\<rparr>]\<rparr>)))
      | Found cfg \<Rightarrow>
          (case parse_cfg plat stat fread \<lparr>hpath = path, cfgf = Some cfg, jvms = []\<rparr> of
             Home_endless \<Rightarrow> Home_endless
           | Home_crash e \<Rightarrow> Home_crash e
           | Done (_, d) \<Rightarrow> Done (Some d)))"

text \<open>The tries of \<open>find\<close> over the table of homes, until one can be built.\<close>

fun build_first ::
  "platform \<Rightarrow> (path \<Rightarrow> file_kind option) \<Rightarrow> (path \<Rightarrow> string option) \<Rightarrow> path list
     \<Rightarrow> home_data option home_result" where
  "build_first plat stat fread [] = Done None"
| "build_first plat stat fread (p # ps) =
     (case build plat stat fread p of
        Done None \<Rightarrow> build_first plat stat fread ps
      | r \<Rightarrow> r)"

definition no_home :: "path option \<Rightarrow> bool" where
  "no_home p \<longleftrightarrow> p = None \<or> p = Some [] \<or> p = Some ''/''"

definition find_home ::
  "platform \<Rightarrow> (path \<Rightarrow> file_kind option) \<Rightarrow> (path \<Rightarrow> string option) \<Rightarrow> path option \<Rightarrow> path option
     \<Rightarrow> home_data option home_result" where
  "find_home plat stat fread JAVA_HOME arg =
     (let path = (if no_home arg then if no_home JAVA_HOME then None else JAVA_HOME else arg)
      in case path of
           None \<Rightarrow> build_first plat stat fread (location_home plat)
         | Some p \<Rightarrow> build plat stat fread p)"

definition dump_home :: "home_data \<Rightarrow> string list" where
  "dump_home d =
     [''+-- DUMPING JAVA HOME STRUCTURE ------------------------'',
      ''| Java Home:       '' @ CHR 0x22 # hpath d @ [CHR 0x22],
      ''| Java VM Config.: '' @ CHR 0x22 # (case cfgf d of None \<Rightarrow> ''null'' | Some c \<Rightarrow> c) @ [CHR 0x22],
      ''| Found JVMs:      '' @ show_int (int (jnum d))]
     @ concat (map (\<lambda>j.
         [''| JVM Name:        '' @ CHR 0x22 # (case jvm_label j of None \<Rightarrow> ''null'' | Some n \<Rightarrow> n) @ [CHR 0x22],
          ''|                  '' @ CHR 0x22 # libr j @ [CHR 0x22]]) (jvms d))
     @ [''+-------------------------------------------------------'']"

definition home ::
  "platform \<Rightarrow> (path \<Rightarrow> file_kind option) \<Rightarrow> (path \<Rightarrow> string option) \<Rightarrow> path option \<Rightarrow> bool
     \<Rightarrow> path option \<Rightarrow> (string list \<times> home_data option) home_result" where
  "home plat stat fread JAVA_HOME debug arg =
     (case find_home plat stat fread JAVA_HOME arg of
        Home_endless \<Rightarrow> Home_endless
      | Home_crash e \<Rightarrow> Home_crash e
      | Done None \<Rightarrow> Done ([], None)
      | Done (Some d) \<Rightarrow> Done (if debug then dump_home d else [], Some d))"

section \<open>Templates that fit\<close>

lemma replace_all_length_le:
  assumes "m \<noteq> []"
  shows "length (replace_all m r s) \<le> length s + length r * length s"
proof -
  have "(int (length r) - int (length m)) * int (count_matches m s)
      \<le> int (length r) * int (count_matches m s)"
    by (intro mult_right_mono) auto
  also have "\<dots> \<le> int (length r) * int (length s)"
    using count_matches_le [of m s] by (intro mult_left_mono) auto
  finally have "int (length (replace_all m r s)) \<le> int (length s + length r * length s)"
    using length_replace_all [OF assms, of r s] by simp
  then show ?thesis by linarith
qed

definition fits_c :: "string \<Rightarrow> bool" where
  "fits_c s \<longleftrightarrow> NUL \<notin> set s \<and> length s < 2 ^ 20"

definition short_c :: "string \<Rightarrow> bool" where
  "short_c s \<longleftrightarrow> NUL \<notin> set s \<and> length s < 1024"

text \<open>With a short template the buffer is never overrun, and the loops of \<open>replace\<close> end.\<close>

lemma subst_short:
  assumes "m \<noteq> []" "NUL \<notin> set m" "short_c t" "fits_c r"
  shows "subst t m r =
     (if length (replace_all m r t) < 1024 then Subst (replace_all m r t)
      else Refused (int (length (replace_all m r t)) + 1))"
proof (cases "length (replace_all m r t) < 1024")
  case True
  have "\<exists>b'. replace (Some (replicate 1024 NUL)) 1024 (Some t) (Some m) (Some r) = Some (Inr (0, b'))
      \<and> cstr b' = replace_all m r t \<and> length b' = length (replicate 1024 NUL)"
    by (rule replace_fits) (use assms True in \<open>auto simp: short_c_def fits_c_def\<close>)
  with True show ?thesis by (auto simp: subst_def)
next
  case False
  have "length r * length t \<le> 2 ^ 20 * 1024"
    using assms by (intro mult_le_mono) (auto simp: short_c_def fits_c_def)
  then have "length (replace_all m r t) < 2 ^ 31"
    using replace_all_length_le [OF assms(1), of r t] assms(3) by (auto simp: short_c_def)
  then have "replace (Some (replicate 1024 NUL)) 1024 (Some t) (Some m) (Some r) =
      Some (Inr (int (length (replace_all m r t)) + 1, replicate 1024 NUL))"
    using False assms by (intro replace_size_code) (auto simp: short_c_def fits_c_def)
  with False show ?thesis by (simp add: subst_def)
qed

definition usable :: "search_result \<Rightarrow> bool" where
  "usable r \<longleftrightarrow> (case r of Search_crash e \<Rightarrow> False | Search_endless \<Rightarrow> False | _ \<Rightarrow> True)"

lemma search_home_usable:
  "list_all short_c ts \<Longrightarrow> fits_c h \<Longrightarrow> usable (search_home stat h ts)"
  by (induction ts) (auto simp: subst_short usable_def)

lemma search_jvm_usable:
  "list_all short_c ts \<Longrightarrow> fits_c h \<Longrightarrow> fits_c n \<Longrightarrow> usable (search_jvm stat h n ts)"
proof (induction ts)
  case (Cons t ts)
  have "short_c (replace_all ''$JAVA_HOME'' h t)" if "length (replace_all ''$JAVA_HOME'' h t) < 1024"
    using that Cons.prems replace_all_no_nul [of h t] by (auto simp: short_c_def fits_c_def)
  with Cons show ?case by (auto simp: subst_short usable_def)
qed (simp add: usable_def)

lemma search_home_Found: "search_home stat h ts = Found p \<Longrightarrow> checkfile stat p"
  by (induction ts) (auto split: subst_result.splits if_splits)

lemma search_jvm_Found: "search_jvm stat h n ts = Found p \<Longrightarrow> checkfile stat p"
  by (induction ts) (auto split: subst_result.splits if_splits)

text \<open>When every filled-in template fits, a search finds the first of them that is a file.\<close>

lemma search_home_first:
  "list_all short_c ts \<Longrightarrow> fits_c h \<Longrightarrow>
     list_all (\<lambda>t. length (replace_all ''$JAVA_HOME'' h t) < 1024) ts \<Longrightarrow>
   search_home stat h ts =
     (case find (checkfile stat) (map (replace_all ''$JAVA_HOME'' h) ts) of
        None \<Rightarrow> Not_found | Some p \<Rightarrow> Found p)"
  by (induction ts) (auto simp: subst_short)

section \<open>Lines of the configuration file\<close>

lemma fgets_length: "length (fst (fgets n s)) \<le> n"
  by (induction n s rule: fgets.induct) (auto split: prod.splits)

lemma fgets_lines_short: "l \<in> set (fgets_lines s) \<Longrightarrow> short_c l"
proof (induction s rule: fgets_lines.induct)
  case (2 c cs)
  obtain l' r where lr: "fgets 1023 (c # cs) = (l', r)" by fastforce
  have "length (cstr l') \<le> length l'" by (simp add: cstr_def length_takeWhile_le)
  also have "\<dots> \<le> 1023" using fgets_length [of 1023 "c # cs"] lr by simp
  finally have "short_c (cstr l')" by (simp add: short_c_def)
  with 2 lr show ?case by auto
qed simp

lemma cut_at_prefix: "prefix (cut_at c s) s"
  by (auto simp: cut_at_def split_facts prefix_def split: option.splits)

lemma cut_at_notin: "c \<notin> set (cut_at c s)"
  by (auto simp: cut_at_def split_facts split: option.splits)

lemma rtrim_prefix: "prefix (rtrim s) s"
proof -
  have "suffix (rev (rtrim s)) (rev s)" by (simp add: rtrim_def suffix_dropWhile)
  then show ?thesis by (simp add: suffix_to_prefix)
qed

lemma clean_line_sublist: "sublist (clean_line l) l"
proof -
  have "sublist (ltrim (cut_at (CHR ''#'') l)) (cut_at (CHR ''#'') l)"
    by (auto simp: ltrim_def intro: suffix_imp_sublist suffix_dropWhile)
  then have "sublist (clean_line l) (cut_at (CHR ''#'') l)"
    unfolding clean_line_def
    by (meson cut_at_prefix prefix_imp_sublist rtrim_prefix sublist_order.order.trans)
  then show ?thesis by (meson cut_at_prefix prefix_imp_sublist sublist_order.order.trans)
qed

lemma clean_line_name:
  assumes "clean_line l \<noteq> []"
  shows "CHR '' '' \<notin> set (clean_line l) \<and> hd (clean_line l) \<notin> {CHR '' '', CHR 0x09, CHR ''-''}"
proof -
  let ?t = "ltrim (cut_at (CHR ''#'') l)"
  have pre: "prefix (clean_line l) ?t"
    unfolding clean_line_def by (meson cut_at_prefix rtrim_prefix prefix_order.trans)
  with assms have "hd (clean_line l) = hd ?t" "?t \<noteq> []" by (auto simp: prefix_def)
  moreover have "hd ?t \<notin> {CHR '' '', CHR 0x09, CHR ''-''}"
    using hd_dropWhile [of "\<lambda>c. c \<in> {CHR '' '', CHR 0x09, CHR ''-''}" "cut_at (CHR ''#'') l"]
      \<open>?t \<noteq> []\<close> by (simp add: ltrim_def)
  ultimately show ?thesis by (simp add: clean_line_def cut_at_notin)
qed

lemma short_clean_line: "short_c l \<Longrightarrow> fits_c (clean_line l)"
  using set_mono_sublist [OF clean_line_sublist [of l]] sublist_length_le [OF clean_line_sublist [of l]]
  by (auto simp: short_c_def fits_c_def)

section \<open>The tables\<close>

definition plat_ok :: "platform \<Rightarrow> bool" where
  "plat_ok p \<longleftrightarrow> short_c (cpu p) \<and> short_c (so_ext p) \<and> length (cpu p) + length (so_ext p) \<le> 900"

lemma tables_short:
  assumes "plat_ok p"
  shows "list_all short_c (location_jvm_cfg p)" "list_all short_c (location_jvm_default p)"
    "list_all short_c (location_jvm_configured p)" "list_all fits_c (location_home p)"
proof -
  show "list_all short_c (location_jvm_cfg p)"
    using assms by (simp add: location_jvm_cfg_def plat_ok_def short_c_def)
  have "list_all short_c (jvm_default_unix p)"
    using assms by (simp add: jvm_default_unix_def plat_ok_def short_c_def)
  then show "list_all short_c (location_jvm_default p)"
    using assms by (cases "os_of p") (simp_all add: location_jvm_default_def plat_ok_def short_c_def)
  show "list_all short_c (location_jvm_configured p)"
    using assms by (cases "os_of p") (simp_all add: location_jvm_configured_def plat_ok_def short_c_def)
  show "list_all fits_c (location_home p)"
    by (cases "os_of p") (simp_all add: location_home_def fits_c_def)
qed

section \<open>Safety of the search\<close>

definition completes :: "'a home_result \<Rightarrow> bool" where
  "completes r \<longleftrightarrow> (\<exists>x. r = Done x)"

lemma completes_Done [simp]:
  "completes (Done x)" "\<not> completes (Home_crash e)" "\<not> completes Home_endless"
  by (auto simp: completes_def)

lemma parse_lines_completes:
  "plat_ok plat \<Longrightarrow> fits_c (hpath d) \<Longrightarrow> list_all short_c ls \<Longrightarrow> jnum d + length ls < 256 \<Longrightarrow>
     completes (parse_lines plat stat d ls)"
proof (induction ls arbitrary: d)
  case (Cons l ls)
  have "usable (search_jvm stat (hpath d) (clean_line l) (location_jvm_configured plat))"
    using Cons.prems by (intro search_jvm_usable tables_short short_clean_line) auto
  with Cons show ?case by (auto simp: Let_def usable_def split: search_result.splits)
qed simp

definition cfg_small :: "(path \<Rightarrow> string option) \<Rightarrow> bool" where
  "cfg_small fread \<longleftrightarrow> (\<forall>f t. fread f = Some t \<longrightarrow> length (fgets_lines t) < 256)"

lemma build_completes:
  assumes "plat_ok plat" "fits_c p" "cfg_small fread"
  shows "completes (build plat stat fread p)"
proof -
  have tab: "usable (search_home stat p (location_jvm_cfg plat))"
    "usable (search_home stat p (location_jvm_default plat))"
    using assms by (auto intro!: search_home_usable tables_short)
  have cfg: "completes (parse_cfg plat stat fread \<lparr>hpath = p, cfgf = c, jvms = []\<rparr>)" for c
    using assms by (auto simp: parse_cfg_def cfg_small_def list_all_iff bind_eq_Some_conv
        split: option.splits intro!: parse_lines_completes fgets_lines_short)
  have "completes (case parse_cfg plat stat fread \<lparr>hpath = p, cfgf = c, jvms = []\<rparr> of
      Home_endless \<Rightarrow> Home_endless | Home_crash e \<Rightarrow> Home_crash e | Done (b, d) \<Rightarrow> Done (Some d))" for c
    using cfg [of c] by (auto simp: completes_def)
  with tab show ?thesis
    by (auto simp: build_def usable_def Let_def split: search_result.splits)
qed

lemma build_first_completes:
  "plat_ok plat \<Longrightarrow> list_all fits_c ps \<Longrightarrow> cfg_small fread \<Longrightarrow>
     completes (build_first plat stat fread ps)"
proof (induction ps)
  case (Cons p ps)
  then have "completes (build plat stat fread p)" by (intro build_completes) auto
  with Cons show ?case by (auto simp: completes_def split: home_result.splits option.splits)
qed simp

section \<open>What the structure says about the file system\<close>

definition jvm_exists :: "(path \<Rightarrow> file_kind option) \<Rightarrow> home_jvm \<Rightarrow> bool" where
  "jvm_exists stat j \<longleftrightarrow> checkfile stat (libr j)"

definition jvm_named :: "home_jvm \<Rightarrow> bool" where
  "jvm_named j \<longleftrightarrow>
     (case jvm_label j of
        None \<Rightarrow> True
      | Some n \<Rightarrow> n \<noteq> [] \<and> CHR '' '' \<notin> set n \<and> hd n \<notin> {CHR '' '', CHR 0x09, CHR ''-''})"

definition home_sound :: "(path \<Rightarrow> file_kind option) \<Rightarrow> home_data \<Rightarrow> bool" where
  "home_sound stat d \<longleftrightarrow>
     checkdir stat (hpath d) \<and> list_all (jvm_exists stat) (jvms d) \<and> list_all jvm_named (jvms d)
     \<and> (case cfgf d of None \<Rightarrow> jnum d \<le> 1 | Some c \<Rightarrow> checkfile stat c) \<and> jnum d < 256"

lemma parse_lines_sound:
  "parse_lines plat stat d ls = Done (ok, d') \<Longrightarrow> home_sound stat d \<Longrightarrow> cfgf d \<noteq> None \<Longrightarrow>
     home_sound stat d'"
proof (induction ls arbitrary: d)
  case (Cons l ls)
  let ?r = "search_jvm stat (hpath d) (clean_line l) (location_jvm_configured plat)"
  show ?case
  proof (cases "clean_line l = []")
    case False
    show ?thesis
    proof (cases ?r)
      case (Found p)
      let ?d = "d\<lparr>jvms := jvms d @ [\<lparr>jvm_label = Some (clean_line l), libr = p\<rparr>]\<rparr>"
      from Found False Cons.prems(1) have room: "jnum d + 1 < 256"
        and next_d: "parse_lines plat stat ?d ls = Done (ok, d')"
        by (auto simp: Let_def split: if_splits)
      have "home_sound stat ?d"
        using room False Cons.prems(2,3) search_jvm_Found [OF Found] clean_line_name [OF False]
        by (auto simp: home_sound_def jvm_exists_def jvm_named_def)
      with Cons.IH [OF next_d] Cons.prems(3) show ?thesis by simp
    qed (use False Cons in \<open>auto simp: Let_def\<close>)
  qed (use Cons in \<open>auto simp: Let_def\<close>)
qed simp

lemma parse_lines_hpath: "parse_lines plat stat d ls = Done (ok, d') \<Longrightarrow> hpath d' = hpath d"
proof (induction ls arbitrary: d)
  case (Cons l ls)
  then show ?case by (auto simp: Let_def split: if_splits search_result.splits dest: Cons.IH)
qed simp

lemma build_sound:
  assumes "build plat stat fread p = Done (Some d)"
  shows "home_sound stat d \<and> hpath d = p"
proof -
  let ?cfg = "search_home stat p (location_jvm_cfg plat)"
  from assms have dir: "checkdir stat p" by (auto simp: build_def split: if_splits)
  show ?thesis
  proof (cases ?cfg)
    case (Found cfg)
    let ?d = "\<lparr>hpath = p, cfgf = Some cfg, jvms = []\<rparr>"
    have start: "home_sound stat ?d"
      using dir search_home_Found [OF Found] by (simp add: home_sound_def)
    obtain ok where "parse_cfg plat stat fread ?d = Done (ok, d)"
      using assms Found dir by (auto simp: build_def split: home_result.splits)
    then show ?thesis using start
      by (auto simp: parse_cfg_def dest: parse_lines_sound parse_lines_hpath split: option.splits)
  next
    case Not_found
    with assms dir show ?thesis
      by (auto simp: build_def home_sound_def jvm_exists_def jvm_named_def Let_def
          dest: search_home_Found split: search_result.splits)
  qed (use assms dir in \<open>auto simp: build_def\<close>)
qed

lemma build_first_sound:
  "build_first plat stat fread ps = Done (Some d) \<Longrightarrow> home_sound stat d \<and> hpath d \<in> set ps"
  by (induction ps) (auto split: home_result.splits option.splits dest: build_sound)

lemma find_home_sound:
  assumes "find_home plat stat fread JAVA_HOME arg = Done (Some d)"
  shows "home_sound stat d"
  using assms build_sound build_first_sound
  by (fastforce simp: find_home_def Let_def split: option.splits)

lemma build_default:
  assumes "plat_ok plat" "fits_c p" "checkdir stat p"
    and "list_all (\<lambda>t. length (replace_all ''$JAVA_HOME'' p t) < 1024) (location_jvm_cfg plat)"
    and "list_all (\<lambda>t. length (replace_all ''$JAVA_HOME'' p t) < 1024) (location_jvm_default plat)"
    and "find (checkfile stat) (map (replace_all ''$JAVA_HOME'' p) (location_jvm_cfg plat)) = None"
  shows "build plat stat fread p = Done (Some \<lparr>hpath = p, cfgf = None,
     jvms = (case find (checkfile stat) (map (replace_all ''$JAVA_HOME'' p) (location_jvm_default plat)) of
               None \<Rightarrow> [] | Some l \<Rightarrow> [\<lparr>jvm_label = None, libr = l\<rparr>])\<rparr>)"
  using assms search_home_first [OF tables_short(1) assms(2), of plat stat]
    search_home_first [OF tables_short(2) assms(2), of plat stat]
  by (simp add: build_def Let_def split: option.splits)

lemma search_jvm_everywhere:
  assumes "plat_ok plat" "fits_c h" "fits_c n" "stat = (\<lambda>p. Some Regular)"
    and "location_jvm_configured plat = t # ts"
    and "length (replace_all ''$JAVA_HOME'' h t) < 1024"
    and "length (replace_all ''$VM_NAME'' n (replace_all ''$JAVA_HOME'' h t)) < 1024"
  shows "\<exists>p. search_jvm stat h n (location_jvm_configured plat) = Found p"
proof -
  have "short_c t" using tables_short(3) [OF assms(1)] assms(5) by simp
  then have "short_c (replace_all ''$JAVA_HOME'' h t)"
    using assms replace_all_no_nul [of h t] by (auto simp: short_c_def fits_c_def)
  with assms \<open>short_c t\<close> show ?thesis by (simp add: subst_short checkfile_def)
qed

lemma parse_lines_full:
  "jnum d + length ls = 256 \<Longrightarrow> ls \<noteq> [] \<Longrightarrow>
     list_all (\<lambda>l. clean_line l \<noteq> [] \<and>
       (\<exists>p. search_jvm stat (hpath d) (clean_line l) (location_jvm_configured plat) = Found p)) ls \<Longrightarrow>
   parse_lines plat stat d ls = Home_crash Buffer_overrun"
proof (induction ls arbitrary: d)
  case (Cons l ls)
  obtain p where p: "search_jvm stat (hpath d) (clean_line l) (location_jvm_configured plat) = Found p"
    using Cons.prems by auto
  show ?case
  proof (cases "ls = []")
    case False
    then have "jnum d + 1 < 256" using Cons.prems by (cases ls) auto
    with p Cons False show ?thesis by (simp add: Let_def)
  qed (use p Cons.prems in \<open>simp add: Let_def\<close>)
qed simp

section \<open>Properties\<close>

text \<open>C12. Every home the search returns is real: its path is a directory, its configuration file,
  if it has one, and every JVM library in it are regular files, a name taken from the
  configuration is not empty, starts with neither a dash nor a blank and holds no blank, and
  the entries fit the array of 256.\<close>

theorem home_structure_sound:
  assumes "home plat stat fread JAVA_HOME debug arg = Done (out, Some d)"
  shows "checkdir stat (hpath d) \<and> list_all (jvm_exists stat) (jvms d) \<and> list_all jvm_named (jvms d)
     \<and> (case cfgf d of None \<Rightarrow> jnum d \<le> 1 | Some c \<Rightarrow> checkfile stat c) \<and> jnum d < 256"
  using assms find_home_sound [of plat stat fread JAVA_HOME arg d]
  by (auto simp: home_def home_sound_def split: home_result.splits option.splits)

text \<open>C14. The search for a home never writes outside its buffers and always ends: with home paths
  below 2^20 bytes, a processor name that is short, and configuration files of fewer than 256
  lines, \<open>home\<close> returns.\<close>

theorem home_never_crashes:
  assumes "plat_ok plat" "cfg_small fread"
    and "pred_option fits_c arg" "pred_option fits_c JAVA_HOME"
  shows "\<exists>out d. home plat stat fread JAVA_HOME debug arg = Done (out, d)"
proof -
  have "completes (find_home plat stat fread JAVA_HOME arg)"
    using assms build_completes [of plat _ fread stat]
      build_first_completes [OF _ tables_short(4), of plat plat fread stat]
    by (auto simp: find_home_def Let_def split: option.splits)
  then show ?thesis
    by (auto simp: home_def completes_def split: option.splits)
qed

text \<open>In a directory with no readable \<^verbatim>\<open>jvm.cfg\<close> path, the home has exactly the first default
  library that is a file, in the order of the table, and no JVM when there is none.\<close>

theorem build_takes_first_default:
  assumes "plat_ok plat" "fits_c p" "checkdir stat p"
    and "list_all (\<lambda>t. length (replace_all ''$JAVA_HOME'' p t) < 1024) (location_jvm_cfg plat)"
    and "list_all (\<lambda>t. length (replace_all ''$JAVA_HOME'' p t) < 1024) (location_jvm_default plat)"
    and "find (checkfile stat) (map (replace_all ''$JAVA_HOME'' p) (location_jvm_cfg plat)) = None"
  shows "build plat stat fread p = Done (Some \<lparr>hpath = p, cfgf = None,
     jvms = (case find (checkfile stat) (map (replace_all ''$JAVA_HOME'' p) (location_jvm_default plat)) of
               None \<Rightarrow> [] | Some l \<Rightarrow> [\<lparr>jvm_label = None, libr = l\<rparr>])\<rparr>)"
  using assms by (rule build_default)

text \<open>The array of JVMs is not checked: a configuration file whose lines name 256 JVMs that
  are installed makes \<open>parse\<close> store the terminating null pointer behind the 256 entries it
  allocated.\<close>

theorem parse_cfg_overruns:
  assumes "cfgf d = Some c" "fread c = Some text" "jvms d = []" "length (fgets_lines text) = 256"
    and "list_all (\<lambda>l. clean_line l \<noteq> [] \<and>
       (\<exists>p. search_jvm stat (hpath d) (clean_line l) (location_jvm_configured plat) = Found p))
       (fgets_lines text)"
  shows "parse_cfg plat stat fread d = Home_crash Buffer_overrun"
proof -
  have "fgets_lines text \<noteq> []" using assms(4) by (metis list.size(3) zero_neq_numeral)
  then have "parse_lines plat stat d (fgets_lines text) = Home_crash Buffer_overrun"
    using assms by (intro parse_lines_full) auto
  with assms show ?thesis by (simp add: parse_cfg_def)
qed

section \<open>Witnesses\<close>

definition mac :: platform where
  "mac = \<lparr>os_of = OS_DARWIN, lp64 = True, osd_posix = False, cpu = ''x86'', so_ext = ''so''\<rparr>"

definition mac_stat :: "path \<Rightarrow> file_kind option" where
  "mac_stat p =
     (if p = ''/j'' then Some Directory
      else if p = ''/j/jre/lib/server/libjvm.dylib'' then Some Regular else None)"

definition mac_home :: home_data where
  "mac_home = \<lparr>hpath = ''/j'', cfgf = None,
     jvms = [\<lparr>jvm_label = None, libr = ''/j/jre/lib/server/libjvm.dylib''\<rparr>]\<rparr>"

lemmas mac_eval = mac_def mac_stat_def mac_home_def plat_ok_def short_c_def fits_c_def checkdir_def
  checkfile_def location_jvm_cfg_def location_jvm_default_def location_jvm_configured_def
  replace_all.simps starts_with_def

theorem build_takes_first_default_witness:
  "build mac mac_stat (\<lambda>f. None) ''/j'' = Done (Some \<lparr>hpath = ''/j'', cfgf = None,
     jvms = (case find (checkfile mac_stat)
                (map (replace_all ''$JAVA_HOME'' ''/j'') (location_jvm_default mac)) of
               None \<Rightarrow> [] | Some l \<Rightarrow> [\<lparr>jvm_label = None, libr = l\<rparr>])\<rparr>)"
  by (rule build_takes_first_default) (simp_all add: mac_eval)

lemma build_mac: "build mac mac_stat (\<lambda>f. None) ''/j'' = Done (Some mac_home)"
proof -
  have "build mac mac_stat (\<lambda>f. None) ''/j'' = Done (Some \<lparr>hpath = ''/j'', cfgf = None,
     jvms = (case find (checkfile mac_stat)
                (map (replace_all ''$JAVA_HOME'' ''/j'') (location_jvm_default mac)) of
               None \<Rightarrow> [] | Some l \<Rightarrow> [\<lparr>jvm_label = None, libr = l\<rparr>])\<rparr>)"
    by (rule build_default) (simp_all add: mac_eval)
  then show ?thesis by (simp add: mac_eval)
qed

theorem home_structure_sound_witness:
  "checkdir mac_stat (hpath mac_home) \<and> list_all (jvm_exists mac_stat) (jvms mac_home)
     \<and> list_all jvm_named (jvms mac_home)
     \<and> (case cfgf mac_home of None \<Rightarrow> jnum mac_home \<le> 1 | Some c \<Rightarrow> checkfile mac_stat c)
     \<and> jnum mac_home < 256"
  by (rule home_structure_sound [of mac mac_stat "\<lambda>f. None" None False "Some ''/j''" "[]"])
     (simp add: home_def find_home_def no_home_def build_mac)

theorem home_never_crashes_witness:
  "\<exists>out d. home mac mac_stat (\<lambda>f. None) None False (Some ''/j'') = Done (out, d)"
  by (rule home_never_crashes) (simp_all add: mac_eval cfg_small_def)

definition server_line :: string where
  "server_line = ''-server'' @ [CHR 0x0A]"

definition many_jvms :: string where
  "many_jvms = concat (replicate 256 server_line)"

lemma server_line_no_nul: "NUL \<notin> set server_line"
  by (simp add: server_line_def)

lemma fgets_many: "fgets_lines (concat (replicate n server_line)) = replicate n server_line"
proof (induction n)
  case (Suc n)
  have "fgets 1023 (server_line @ r) = (server_line, r)" for r
    by (simp add: server_line_def numeral_eq_Suc)
  moreover obtain c cs where "server_line @ concat (replicate n server_line) = c # cs"
    by (simp add: server_line_def)
  ultimately show ?case using Suc
    by (metis (no_types, lifting) case_prod_conv concat.simps(2) cstr_plain fgets_lines.simps(2)
        replicate_Suc server_line_no_nul)
qed simp

theorem parse_cfg_overruns_witness:
  "parse_cfg mac (\<lambda>p. Some Regular) (\<lambda>f. Some many_jvms)
     \<lparr>hpath = ''/j'', cfgf = Some ''/j/lib/jvm.cfg'', jvms = []\<rparr> = Home_crash Buffer_overrun"
proof (rule parse_cfg_overruns)
  have name: "clean_line (server_line) = ''server''"
    by (simp add: server_line_def clean_line_def cut_at_def ltrim_def rtrim_def)
  have temp: "replace_all ''$JAVA_HOME'' ''/j'' ''$JAVA_HOME/../Libraries/lib$VM_NAME.dylib''
      = ''/j/../Libraries/lib$VM_NAME.dylib''"
    by (simp add: replace_all.simps starts_with_def)
  have repl: "replace_all ''$VM_NAME'' ''server'' ''/j/../Libraries/lib$VM_NAME.dylib''
      = ''/j/../Libraries/libserver.dylib''"
    by (simp add: replace_all.simps starts_with_def)
  have "location_jvm_configured mac = [''$JAVA_HOME/../Libraries/lib$VM_NAME.dylib'']"
    by (simp add: location_jvm_configured_def mac_def)
  then have "\<exists>p. search_jvm (\<lambda>p. Some Regular) ''/j'' ''server'' (location_jvm_configured mac) = Found p"
    by (intro search_jvm_everywhere [where t = "''$JAVA_HOME/../Libraries/lib$VM_NAME.dylib''"
          and ts = "[]"])
       (simp_all add: temp repl plat_ok_def mac_def short_c_def fits_c_def)
  then show "list_all (\<lambda>l. clean_line l \<noteq> [] \<and>
       (\<exists>p. search_jvm (\<lambda>p. Some Regular)
          (hpath \<lparr>hpath = ''/j'', cfgf = Some ''/j/lib/jvm.cfg'', jvms = []\<rparr>)
          (clean_line l) (location_jvm_configured mac) = Found p)) (fgets_lines many_jvms)"
    using name by (simp add: many_jvms_def fgets_many list_all_iff)
qed (simp_all add: many_jvms_def fgets_many)

end
