(* ===== verification/Arguments.thy ===== *)
theory Arguments
  imports C_Numbers
begin

text \<open>
  \<^verbatim>\<open>arguments.c\<close> and \<^verbatim>\<open>arguments.h\<close>: the command line of \<^verbatim>\<open>jsvc\<close>. The structure \<open>arg_data\<close>
  is a record; the loop over \<open>argv\<close> is a recursion over the arguments still to read, which
  an option with a value shortens by one more, as the \<open>x++\<close> in the call of \<open>optional\<close>
  does. An error return with its message is a value of \<open>arg_error\<close>. \<open>glob\<close> is the C library
  call; it gets the pattern and returns the paths found, none when the call fails.
  Allocation is taken to succeed.
\<close>

section \<open>Data\<close>

record arg_data =
  pidf :: string
  user :: "string option"
  jvm_name :: "string option" \<comment> \<open>the field \<open>name\<close>\<close>
  java_home :: "string option" \<comment> \<open>the field \<open>home\<close>\<close>
  cwd :: string
  opts :: "string list"
  clas :: "string option"
  cargs :: "string list" \<comment> \<open>the field \<open>args\<close>\<close>
  dtch :: bool
  vers :: bool
  vershow :: bool
  help_flag :: bool \<comment> \<open>the field \<open>help\<close>\<close>
  chck :: bool
  stop_flag :: bool \<comment> \<open>the field \<open>stop\<close>\<close>
  wait_time :: int \<comment> \<open>the field \<open>wait\<close>\<close>
  install :: bool
  remove_flag :: bool \<comment> \<open>the field \<open>remove\<close>\<close>
  service :: bool
  outfile :: string
  errfile :: string
  procname :: string
  redirectstdin :: bool
  umask :: int

text \<open>
  The counters \<open>onum\<close> and \<open>anum\<close> of the structure are the lengths of the two lists.
\<close>

abbreviation onum :: "arg_data \<Rightarrow> nat" where
  "onum a \<equiv> length (opts a)"

abbreviation anum :: "arg_data \<Rightarrow> nat" where
  "anum a \<equiv> length (cargs a)"

datatype arg_error =
    Invalid_classpath | Invalid_jvm_name | Invalid_java_home | Invalid_user | Invalid_cwd
  | Invalid_wait | Invalid_umask | Invalid_pidfile | Invalid_outfile | Invalid_errfile
  | Invalid_procname | Property_expected | Property_name_expected | Invalid_option string
  | No_class

text \<open>The globals of \<^verbatim>\<open>debug.c\<close> that the program sets while it runs.\<close>

record log_state =
  log_debug_flag :: bool
  log_stderr_syslog_flag :: bool
  log_stdout_syslog_flag :: bool
  log_prog :: string

definition log_init :: log_state where
  "log_init = \<lparr>log_debug_flag = False, log_stderr_syslog_flag = False,
     log_stdout_syslog_flag = False, log_prog = ''jsvc''\<rparr>"

section \<open>The class path\<close>

definition memstrcat :: "string option \<Rightarrow> string option \<Rightarrow> string option \<Rightarrow> string" where
  "memstrcat ptr str add =
     (case ptr of None \<Rightarrow> [] | Some p \<Rightarrow> p) @ (case str of None \<Rightarrow> [] | Some s \<Rightarrow> s)
     @ (case add of None \<Rightarrow> [] | Some a \<Rightarrow> a)"

lemma memstrcat_simps [simp]:
  "memstrcat None (Some s) None = s" "memstrcat None (Some s) (Some a) = s @ a"
  "memstrcat (Some p) (Some s) None = p @ s" "memstrcat (Some p) (Some s) (Some a) = p @ s @ a"
  by (simp_all add: memstrcat_def)

definition PATH_MAX :: nat where
  "PATH_MAX = 4096"

text \<open>
  The loop appends every path but the last with a colon; the last one is appended after
  the loop.
\<close>

fun append_globbed :: "string \<Rightarrow> path list \<Rightarrow> string" where
  "append_globbed strcp [] = strcp"
| "append_globbed strcp [p] = memstrcat (Some strcp) (Some p) None"
| "append_globbed strcp (p # q # ps) =
     append_globbed (memstrcat (Some strcp) (Some p) (Some '':'')) (q # ps)"

definition eval_ppath :: "(string \<Rightarrow> path list) \<Rightarrow> string \<Rightarrow> string \<Rightarrow> string" where
  "eval_ppath glob strcp pattern =
     (if PATH_MAX + 1 - 5 < length pattern then memstrcat (Some strcp) (Some pattern) None
      else append_globbed strcp (glob (pattern @ ''.jar'')))"

definition JAVA_CLASSPATH :: string where
  "JAVA_CLASSPATH = ''-Djava.class.path=''"

definition ends_with_star :: "string \<Rightarrow> bool" where
  "ends_with_star s \<longleftrightarrow> s \<noteq> [] \<and> last s = CHR ''*''"

text \<open>
  \<open>gcp\<close> is the path built so far, \<open>None\<close> while it is the null pointer. \<open>gcp_sep\<close> is the
  separator of a next part, or the property prefix before the first one.
\<close>

definition gcp_sep :: "string option \<Rightarrow> string" where
  "gcp_sep gcp =
     (case gcp of Some g \<Rightarrow> memstrcat (Some g) (Some '':'') None
      | None \<Rightarrow> memstrcat None (Some JAVA_CLASSPATH) None)"

definition eval_part :: "(string \<Rightarrow> path list) \<Rightarrow> string \<Rightarrow> string \<Rightarrow> string" where
  "eval_part glob gcp part =
     (if ends_with_star part then eval_ppath glob gcp part
      else memstrcat (Some gcp) (Some part) None)"

function eval_parts :: "(string \<Rightarrow> path list) \<Rightarrow> string option \<Rightarrow> string \<Rightarrow> string option" where
  "eval_parts glob gcp ptr =
     (case split_first (CHR '':'') ptr of
        Some (part, rest) \<Rightarrow> eval_parts glob (Some (eval_part glob (gcp_sep gcp) part)) rest
      | None \<Rightarrow> if ptr = [] then gcp else Some (eval_part glob (gcp_sep gcp) ptr))"
  by pat_completeness auto
termination
  by (relation "measure (\<lambda>(glob, gcp, ptr). length ptr)") (auto simp: split_facts)

declare eval_parts.simps [simp del]

definition eval_cpath :: "(string \<Rightarrow> path list) \<Rightarrow> string \<Rightarrow> string" where
  "eval_cpath glob cp =
     (case eval_parts glob None cp of
        Some gcp \<Rightarrow> gcp
      | None \<Rightarrow> memstrcat None (Some JAVA_CLASSPATH) (Some cp))"

section \<open>The options\<close>

text \<open>\<open>optional (argc, argv, x)\<close> looks at the argument behind the option.\<close>

fun optional :: "string list \<Rightarrow> string option" where
  "optional [] = None"
| "optional (a # rest) = (if take 1 a = ''-'' then None else Some a)"

definition init_args :: "bool \<Rightarrow> arg_data" where
  "init_args uninit =
     \<lparr>pidf = ''/var/run/jsvc.pid'', user = None, jvm_name = None, java_home = None, cwd = ''/'',
      opts = [], clas = None, cargs = [], dtch = True, vers = False, vershow = uninit,
      help_flag = False, chck = False, stop_flag = False, wait_time = 0, install = False,
      remove_flag = False, service = False, outfile = ''/dev/null'', errfile = ''/dev/null'',
      procname = ''jsvc.exec'', redirectstdin = True, umask = 63\<rparr>"

text \<open>
  What the branch of one argument does: go on with the rest, stop with the structure as it
  is (\<open>-help\<close>), take the argument for the class, or fail.
\<close>

datatype step_result =
    Continue arg_data log_state "string list"
  | Return arg_data log_state
  | Class_found arg_data log_state "string list"
  | Fail arg_error log_state

text \<open>An option that stores its value, or fails with its message.\<close>

definition value_option ::
  "(string \<Rightarrow> arg_data) \<Rightarrow> arg_error \<Rightarrow> log_state \<Rightarrow> string list \<Rightarrow> step_result" where
  "value_option upd err lg rest =
     (case optional rest of None \<Rightarrow> Fail err lg | Some v \<Rightarrow> Continue (upd v) lg (tl rest))"

definition add_opt :: "string \<Rightarrow> arg_data \<Rightarrow> arg_data" where
  "add_opt s a = a\<lparr>opts := opts a @ [s]\<rparr>"

text \<open>The options that are copied to the JVM, from \<open>-verbose\<close> to \<open>-javaagent\<close>.\<close>

definition jvm_option :: "string \<Rightarrow> bool" where
  "jvm_option s \<longleftrightarrow>
     starts_with ''-X'' s \<or> starts_with ''-ea'' s \<or> starts_with ''-enableassertions'' s
     \<or> starts_with ''-da'' s \<or> starts_with ''-disableassertions'' s
     \<or> s \<in> {''-esa'', ''-enablesystemassertions'', ''-dsa'', ''-disablesystemassertions''}"

definition parse_wait :: "arg_data \<Rightarrow> log_state \<Rightarrow> string list \<Rightarrow> step_result" where
  "parse_wait a lg rest =
     (let a' = (case optional rest of None \<Rightarrow> a | Some v \<Rightarrow> a\<lparr>wait_time := atoi v\<rparr>)
      in if wait_time a' < 10 then Fail Invalid_wait lg else Continue a' lg (tl rest))"

definition parse_umask :: "arg_data \<Rightarrow> log_state \<Rightarrow> string list \<Rightarrow> step_result" where
  "parse_umask a lg rest =
     (case optional rest of
        None \<Rightarrow> Fail Invalid_umask lg
      | Some v \<Rightarrow>
          let m = int32 (strtol 8 v)
          in if m < 2 then Fail Invalid_umask lg else Continue (a\<lparr>umask := m\<rparr>) lg (tl rest))"

definition parse_property :: "string \<Rightarrow> arg_data \<Rightarrow> log_state \<Rightarrow> string list \<Rightarrow> step_result" where
  "parse_property s a lg rest =
     (case split_first (CHR ''='') s of
        Some (before, _) \<Rightarrow>
          if length before = 2 then Fail Property_name_expected lg
          else Continue (add_opt s a) lg rest
      | None \<Rightarrow> Continue (add_opt s a) lg rest)"

text \<open>
  The chain of comparisons of the loop body, in the order of the code: the options with a
  value, the switches, then the files and what is handed to the JVM. The argument \<open>s\<close> is
  \<open>argv[x]\<close> and \<open>rest\<close> what follows it.
\<close>

definition parse_file_option ::
  "string \<Rightarrow> arg_data \<Rightarrow> log_state \<Rightarrow> string list \<Rightarrow> step_result" where
  "parse_file_option s a lg rest =
     (if s = ''-pidfile'' then value_option (\<lambda>v. a\<lparr>pidf := v\<rparr>) Invalid_pidfile lg rest
      else if s = ''-outfile'' then value_option (\<lambda>v. a\<lparr>outfile := v\<rparr>) Invalid_outfile lg rest
      else if s = ''-errfile'' then value_option (\<lambda>v. a\<lparr>errfile := v\<rparr>) Invalid_errfile lg rest
      else if starts_with ''-verbose'' s then Continue (add_opt s a) lg rest
      else if s = ''-D'' then Fail Property_expected lg
      else if starts_with ''-D'' s then parse_property s a lg rest
      else if jvm_option s then Continue (add_opt s a) lg rest
      else if s = ''-procname'' then value_option (\<lambda>v. a\<lparr>procname := v\<rparr>) Invalid_procname lg rest
      else if starts_with ''-agentlib:'' s \<or> starts_with ''-agentpath:'' s
              \<or> starts_with ''-javaagent:'' s
      then Continue (add_opt s a) lg rest
      else if take 1 s = ''-'' then Fail (Invalid_option s) lg
      else Class_found (a\<lparr>clas := Some s\<rparr>) lg rest)"

definition parse_switch ::
  "string \<Rightarrow> arg_data \<Rightarrow> log_state \<Rightarrow> string list \<Rightarrow> step_result" where
  "parse_switch s a lg rest =
     (if s = ''-version'' then Continue (a\<lparr>vers := True, dtch := False\<rparr>) lg rest
      else if s = ''-showversion'' then Continue (a\<lparr>vershow := True\<rparr>) lg rest
      else if s = ''-?'' \<or> s = ''-help'' \<or> s = ''--help''
      then Return (a\<lparr>help_flag := True, dtch := False\<rparr>) lg
      else if s = ''-X'' then Continue a lg rest
      else if s = ''-debug'' then Continue a (lg\<lparr>log_debug_flag := True\<rparr>) rest
      else if s = ''-wait'' then parse_wait a lg rest
      else if s = ''-umask'' then parse_umask a lg rest
      else if s = ''-stop'' then Continue (a\<lparr>stop_flag := True\<rparr>) lg rest
      else if s = ''-check'' then Continue (a\<lparr>chck := True, dtch := False\<rparr>) lg rest
      else if s = ''-nodetach'' then Continue (a\<lparr>dtch := False\<rparr>) lg rest
      else if s = ''-keepstdin'' then Continue (a\<lparr>redirectstdin := False\<rparr>) lg rest
      else if s = ''-service'' then Continue (a\<lparr>service := True\<rparr>) lg rest
      else if s = ''-install'' then Continue (a\<lparr>install := True\<rparr>) lg rest
      else if s = ''-remove'' then Continue (a\<lparr>remove_flag := True\<rparr>) lg rest
      else parse_file_option s a lg rest)"

definition parse_arg ::
  "(string \<Rightarrow> path list) \<Rightarrow> string \<Rightarrow> arg_data \<Rightarrow> log_state \<Rightarrow> string list \<Rightarrow> step_result" where
  "parse_arg glob s a lg rest =
     (if s = ''-cp'' \<or> s = ''-classpath''
      then value_option (\<lambda>v. add_opt (eval_cpath glob v) a) Invalid_classpath lg rest
      else if s = ''-jvm'' then value_option (\<lambda>v. a\<lparr>jvm_name := Some v\<rparr>) Invalid_jvm_name lg rest
      else if s = ''-client'' then Continue (a\<lparr>jvm_name := Some ''client''\<rparr>) lg rest
      else if s = ''-server'' then Continue (a\<lparr>jvm_name := Some ''server''\<rparr>) lg rest
      else if s = ''-home'' \<or> s = ''-java-home''
      then value_option (\<lambda>v. a\<lparr>java_home := Some v\<rparr>) Invalid_java_home lg rest
      else if s = ''-user'' then value_option (\<lambda>v. a\<lparr>user := Some v\<rparr>) Invalid_user lg rest
      else if s = ''-cwd'' then value_option (\<lambda>v. a\<lparr>cwd := v\<rparr>) Invalid_cwd lg rest
      else parse_switch s a lg rest)"

text \<open>
  A statement about every outcome of one argument: \<open>C\<close> about going on, \<open>R\<close> about the early
  return, \<open>K\<close> about the class. The rules take the chain of comparisons apart.
\<close>

fun step_all ::
  "(arg_data \<Rightarrow> string list \<Rightarrow> bool) \<Rightarrow> (arg_data \<Rightarrow> bool) \<Rightarrow> (arg_data \<Rightarrow> string list \<Rightarrow> bool)
     \<Rightarrow> step_result \<Rightarrow> bool" where
  "step_all C R K (Continue a lg rest) = C a rest"
| "step_all C R K (Return a lg) = R a"
| "step_all C R K (Class_found a lg rest) = K a rest"
| "step_all C R K (Fail e lg) = True"

lemma optional_Some: "optional rest = Some v \<Longrightarrow> \<exists>r. rest = v # r \<and> take 1 v \<noteq> ''-''"
  by (cases rest) (auto split: if_splits)

lemma step_all_if:
  "(c \<Longrightarrow> step_all C R K x) \<Longrightarrow> (\<not> c \<Longrightarrow> step_all C R K y) \<Longrightarrow>
   step_all C R K (if c then x else y)"
  by simp

lemma step_all_value:
  "(\<And>v r. rest = v # r \<Longrightarrow> C (upd v) r) \<Longrightarrow> step_all C R K (value_option upd err lg rest)"
  by (auto simp: value_option_def dest: optional_Some split: option.splits)

lemma step_all_wait:
  "(\<And>v r. rest = v # r \<Longrightarrow> 10 \<le> atoi v \<Longrightarrow> C (a\<lparr>wait_time := atoi v\<rparr>) r) \<Longrightarrow>
   (10 \<le> wait_time a \<Longrightarrow> C a (tl rest)) \<Longrightarrow> step_all C R K (parse_wait a lg rest)"
  by (auto simp: parse_wait_def Let_def dest!: optional_Some split: option.splits)

lemma step_all_umask:
  "(\<And>m v r. rest = v # r \<Longrightarrow> 2 \<le> m \<Longrightarrow> C (a\<lparr>umask := m\<rparr>) r) \<Longrightarrow>
   step_all C R K (parse_umask a lg rest)"
  by (auto simp: parse_umask_def Let_def dest!: optional_Some split: option.splits)

lemma step_all_property:
  "C (add_opt s a) rest \<Longrightarrow> step_all C R K (parse_property s a lg rest)"
  by (auto simp: parse_property_def split: option.splits)

lemmas step_all_rules =
  step_all_if step_all_value step_all_wait step_all_umask step_all_property

lemmas parse_arg_chain = parse_arg_def parse_switch_def parse_file_option_def

lemma parse_arg_rest_all:
  "step_all (\<lambda>a' r. r = rest \<or> r = tl rest) (\<lambda>a'. True) (\<lambda>a' r. r = rest)
     (parse_arg glob s a lg rest)"
  by (unfold parse_arg_chain, intro step_all_rules) auto

lemma parse_arg_rest:
  "parse_arg glob s a lg rest = Continue a' lg' rest' \<Longrightarrow> rest' = rest \<or> rest' = tl rest"
  using parse_arg_rest_all [of rest glob s a lg] by simp

section \<open>The loop\<close>

function parse_loop ::
  "(string \<Rightarrow> path list) \<Rightarrow> arg_data \<Rightarrow> log_state \<Rightarrow> string list
     \<Rightarrow> log_state \<times> (arg_error + arg_data)" where
  "parse_loop glob a lg [] =
     (lg, if clas a = None \<and> \<not> remove_flag a then Inl No_class else Inr a)"
| "parse_loop glob a lg (s # rest) =
     (case parse_arg glob s a lg rest of
        Continue a' lg' rest' \<Rightarrow> parse_loop glob a' lg' rest'
      | Return a' lg' \<Rightarrow> (lg', Inr a')
      | Fail e lg' \<Rightarrow> (lg', Inl e)
      | Class_found a' lg' rest' \<Rightarrow> (lg', Inr (a'\<lparr>cargs := rest'\<rparr>)))"
  by pat_completeness auto
termination
  by (relation "measure (\<lambda>(glob, a, lg, args). length args)") (auto dest: parse_arg_rest)

text \<open>The program name is \<open>argv[0]\<close> from its last slash on.\<close>

definition parse ::
  "(string \<Rightarrow> path list) \<Rightarrow> bool \<Rightarrow> log_state \<Rightarrow> string \<Rightarrow> string list
     \<Rightarrow> log_state \<times> (arg_error + arg_data)" where
  "parse glob uninit lg argv0 args =
     (let cmnd = (case split_last (CHR ''/'') argv0 of None \<Rightarrow> argv0 | Some (_, c) \<Rightarrow> c)
      in parse_loop glob (init_args uninit) (lg\<lparr>log_prog := cmnd\<rparr>) args)"

section \<open>The dump of the parsed arguments\<close>

definition IsYesNo :: "bool \<Rightarrow> string" where
  "IsYesNo par = (if par then ''Yes'' else ''No'')"

definition IsTrueFalse :: "bool \<Rightarrow> string" where
  "IsTrueFalse par = (if par then ''True'' else ''False'')"

definition IsEnabledDisabled :: "bool \<Rightarrow> string" where
  "IsEnabledDisabled par = (if par then ''Enabled'' else ''Disabled'')"

definition PRINT_NULL :: "string option \<Rightarrow> string" where
  "PRINT_NULL x = (case x of None \<Rightarrow> ''null'' | Some s \<Rightarrow> s)"

definition quoted :: "string \<Rightarrow> string" where
  "quoted s = CHR 0x22 # s @ [CHR 0x22]"

definition dump_arguments :: "arg_data \<Rightarrow> string list" where
  "dump_arguments a =
     [''+-- DUMPING PARSED COMMAND LINE ARGUMENTS --------------'',
      ''| Detach:          '' @ IsTrueFalse (dtch a),
      ''| Show Version:    '' @ IsYesNo (vers a),
      ''| Show Help:       '' @ IsYesNo (help_flag a),
      ''| Check Only:      '' @ IsEnabledDisabled (chck a),
      ''| Stop:            '' @ IsTrueFalse (stop_flag a),
      ''| Wait:            '' @ show_int (wait_time a),
      ''| Run as service:  '' @ IsYesNo (service a),
      ''| Install service: '' @ IsYesNo (install a),
      ''| Remove service:  '' @ IsYesNo (remove_flag a),
      ''| JVM Name:        '' @ quoted (PRINT_NULL (jvm_name a)),
      ''| Java Home:       '' @ quoted (PRINT_NULL (java_home a)),
      ''| PID File:        '' @ quoted (pidf a),
      ''| User Name:       '' @ quoted (PRINT_NULL (user a)),
      ''| Extra Options:   '' @ show_int (int (onum a))]
     @ map (\<lambda>x. ''|   '' @ quoted x) (opts a)
     @ [''| Class Invoked:   '' @ quoted (PRINT_NULL (clas a)),
        ''| Class Arguments: '' @ show_int (int (anum a))]
     @ map (\<lambda>x. ''|   '' @ quoted x) (cargs a)
     @ [''+-------------------------------------------------------'']"

text \<open>The entry point: the parsed arguments, with the lines of the dump when debugging.\<close>

definition arguments ::
  "(string \<Rightarrow> path list) \<Rightarrow> bool \<Rightarrow> log_state \<Rightarrow> string \<Rightarrow> string list
     \<Rightarrow> log_state \<times> string list \<times> (arg_error + arg_data)" where
  "arguments glob uninit lg argv0 args =
     (case parse glob uninit lg argv0 args of
        (lg', Inl e) \<Rightarrow> (lg', [], Inl e)
      | (lg', Inr a) \<Rightarrow> (lg', if log_debug_flag lg' then dump_arguments a else [], Inr a))"

section \<open>Invariants of the loop\<close>

abbreviation step_keeps :: "(arg_data \<Rightarrow> nat \<Rightarrow> bool) \<Rightarrow> step_result \<Rightarrow> bool" where
  "step_keeps I \<equiv> step_all (\<lambda>a r. I a (length r)) (\<lambda>a. I a 0) (\<lambda>a r. I (a\<lparr>cargs := r\<rparr>) 0)"

text \<open>The contract: each way a single argument can be handled keeps the predicate.\<close>

locale parse_invariant =
  fixes I :: "arg_data \<Rightarrow> nat \<Rightarrow> bool"
  assumes keeps: "I a (Suc (length rest)) \<Longrightarrow> step_keeps I (parse_arg glob s a lg rest)"
begin

lemma loop_keeps:
  "parse_loop glob a lg args = (lg', Inr a') \<Longrightarrow> I a (length args) \<Longrightarrow> I a' 0"
proof (induction glob a lg args rule: parse_loop.induct)
  case (1 glob a lg)
  then show ?case by (simp split: if_splits)
next
  case (2 glob a lg s rest)
  have "step_keeps I (parse_arg glob s a lg rest)" using "2.prems" by (intro keeps) simp
  with "2.prems"(1) "2.IH" show ?case by (cases "parse_arg glob s a lg rest") auto
qed

lemma parse_keeps:
  "parse glob uninit lg argv0 args = (lg', Inr a) \<Longrightarrow> I (init_args uninit) (length args) \<Longrightarrow> I a 0"
  by (auto simp: parse_def Let_def intro: loop_keeps)

end

text \<open>The instances: room in the arrays, consistency of the flags, the options' dash.\<close>

definition fits_argv :: "nat \<Rightarrow> arg_data \<Rightarrow> nat \<Rightarrow> bool" where
  "fits_argv n a k \<longleftrightarrow> onum a + anum a + k \<le> n \<and> (0 < k \<longrightarrow> cargs a = [])"

definition flags_ok :: "arg_data \<Rightarrow> nat \<Rightarrow> bool" where
  "flags_ok a k \<longleftrightarrow>
     (vers a \<or> help_flag a \<or> chck a \<longrightarrow> \<not> dtch a) \<and> (wait_time a = 0 \<or> 10 \<le> wait_time a)
     \<and> 2 \<le> umask a"

definition dashed :: "string \<Rightarrow> bool" where
  "dashed s \<longleftrightarrow> take 1 s = ''-''"

definition jvm_opts_ok :: "arg_data \<Rightarrow> nat \<Rightarrow> bool" where
  "jvm_opts_ok a k \<longleftrightarrow> list_all dashed (opts a)"

interpretation argv_room: parse_invariant "fits_argv n" for n
  by unfold_locales
     (unfold parse_arg_chain, intro step_all_rules,
       auto simp: fits_argv_def add_opt_def)

interpretation argv_flags: parse_invariant flags_ok
  by unfold_locales
     (unfold parse_arg_chain, intro step_all_rules,
       auto simp: flags_ok_def add_opt_def)

lemma append_globbed_prefix: "\<exists>r. append_globbed g ps = g @ r"
  by (induction g ps rule: append_globbed.induct) auto

lemma eval_part_prefix: "\<exists>r. eval_part glob g p = g @ r"
  by (auto simp: eval_part_def eval_ppath_def append_globbed_prefix)

lemma eval_parts_prefix: "\<exists>r. eval_parts glob (Some g) ptr = Some (g @ r)"
proof (induction glob "Some g" ptr arbitrary: g rule: eval_parts.induct)
  case (1 glob ptr g)
  show ?case
  proof (cases "split_first (CHR '':'') ptr")
    case None
    then show ?thesis using eval_part_prefix [of glob "g @ '':''" ptr]
      by (auto simp: eval_parts.simps [of glob "Some g" ptr] gcp_sep_def)
  next
    case (Some ab)
    obtain p q where ab: "ab = (p, q)" by (cases ab)
    obtain r where r: "eval_part glob (gcp_sep (Some g)) p = g @ r"
      using eval_part_prefix [of glob "g @ '':''" p] by (auto simp: gcp_sep_def)
    then have "\<exists>r'. eval_parts glob (Some (g @ r)) q = Some ((g @ r) @ r')"
      using "1.hyps" [OF Some ab [symmetric]] by simp
    with r ab Some show ?thesis by (auto simp: eval_parts.simps [of glob "Some g" ptr])
  qed
qed

lemma eval_cpath_prefix: "\<exists>r. eval_cpath glob cp = JAVA_CLASSPATH @ r"
proof -
  have step: "\<exists>r. eval_part glob (gcp_sep None) p = JAVA_CLASSPATH @ r" for p
    using eval_part_prefix [of glob JAVA_CLASSPATH p] by (simp add: gcp_sep_def)
  show ?thesis
  proof (cases "split_first (CHR '':'') cp")
    case None
    with step [of cp] show ?thesis
      by (auto simp: eval_cpath_def eval_parts.simps [of glob None cp] memstrcat_def)
  next
    case (Some ab)
    obtain p q where ab: "ab = (p, q)" by (cases ab)
    obtain r where r: "eval_part glob (gcp_sep None) p = JAVA_CLASSPATH @ r"
      using step by blast
    from eval_parts_prefix [of glob "JAVA_CLASSPATH @ r" q] ab r Some show ?thesis
      by (auto simp: eval_cpath_def eval_parts.simps [of glob None cp])
  qed
qed

lemma dashed_opts [simp]:
  "dashed (eval_cpath glob cp)" "jvm_option s \<Longrightarrow> dashed s"
  "starts_with (CHR ''-'' # p) s \<Longrightarrow> dashed s"
  using eval_cpath_prefix [of glob cp]
  by (auto simp: dashed_def JAVA_CLASSPATH_def jvm_option_def starts_with_iff)

interpretation argv_opts: parse_invariant jvm_opts_ok
  by unfold_locales
     (unfold parse_arg_chain, intro step_all_rules,
       auto simp: jvm_opts_ok_def add_opt_def)

section \<open>The class path against its specification\<close>

text \<open>
  The parts between the colons, where a colon at the very end adds no part; each part that
  ends with a star becomes the list of jar files \<open>glob\<close> finds, unless it is too long for
  the pattern buffer.
\<close>

definition path_parts :: "string \<Rightarrow> string list" where
  "path_parts s =
     (let ps = split_all (CHR '':'') s in if last ps = [] then butlast ps else ps)"

fun join :: "string \<Rightarrow> string list \<Rightarrow> string" where
  "join sep [] = []"
| "join sep [x] = x"
| "join sep (x # y # ys) = x @ sep @ join sep (y # ys)"

definition expand_part :: "(string \<Rightarrow> path list) \<Rightarrow> string \<Rightarrow> string" where
  "expand_part glob p =
     (if ends_with_star p \<and> length p \<le> 4092 then join '':'' (glob (p @ ''.jar'')) else p)"

lemma path_parts_split:
  "split_first (CHR '':'') s = Some (a, r) \<Longrightarrow> path_parts s = a # path_parts r"
  by (auto simp: path_parts_def split_facts split_all_append Let_def)

lemma path_parts_last:
  "split_first (CHR '':'') s = None \<Longrightarrow> path_parts s = (if s = [] then [] else [s])"
  by (auto simp: path_parts_def split_facts split_all_single)

lemma append_globbed_join: "append_globbed g ps = g @ join '':'' ps"
  by (induction g ps rule: append_globbed.induct) auto

lemma eval_part_expand: "eval_part glob g p = g @ expand_part glob p"
  by (auto simp: eval_part_def eval_ppath_def expand_part_def PATH_MAX_def append_globbed_join)

lemma join_Cons: "join sep (x # xs) = (if xs = [] then x else x @ sep @ join sep xs)"
  by (cases xs) auto

lemma eval_parts_join:
  "eval_parts glob gcp ptr =
     (if path_parts ptr = [] then gcp
      else Some (gcp_sep gcp @ join '':'' (map (expand_part glob) (path_parts ptr))))"
proof (induction glob gcp ptr rule: eval_parts.induct)
  case (1 glob gcp ptr)
  show ?case
  proof (cases "split_first (CHR '':'') ptr")
    case None
    then show ?thesis
      by (simp add: eval_parts.simps [of glob gcp ptr] path_parts_last eval_part_expand)
  next
    case (Some ab)
    obtain p q where ab: "ab = (p, q)" by (cases ab)
    with "1.IH" [OF Some ab [symmetric]] Some path_parts_split [of ptr p q] show ?thesis
      by (simp add: eval_parts.simps [of glob gcp ptr] eval_part_expand join_Cons gcp_sep_def)
  qed
qed

section \<open>Properties\<close>

text \<open>C25. The class path option is the property prefix followed by the expanded parts of the
  path, joined with colons, whatever \<open>glob\<close> returns.\<close>

theorem eval_cpath_expands:
  "eval_cpath glob cp = JAVA_CLASSPATH @ join '':'' (map (expand_part glob) (path_parts cp))"
proof (cases "path_parts cp = []")
  case True
  then have "cp = []"
    by (cases "split_first (CHR '':'') cp") (auto simp: path_parts_split path_parts_last
        split: if_splits)
  with True show ?thesis by (simp add: eval_cpath_def eval_parts_join)
next
  case False
  then show ?thesis by (simp add: eval_cpath_def eval_parts_join gcp_sep_def)
qed

text \<open>C11. The parser never writes past the two arrays it allocated with \<open>argc\<close> slots: the JVM
  options and the class arguments it stores are together fewer than \<open>argc\<close>.\<close>

theorem parse_fits_arrays:
  assumes "parse glob uninit lg argv0 args = (lg', Inr a)"
  shows "onum a + anum a < length (argv0 # args)"
  using argv_room.parse_keeps [OF assms, of "length args"]
  by (simp add: fits_argv_def init_args_def)

text \<open>C24. In every structure the parser returns, asking for the version, the help page or a
  check implies staying attached, a wait time is either absent or at least 10 seconds, the
  umask is at least 2, and every option handed to the JVM starts with a dash.\<close>

theorem parse_flags_consistent:
  assumes "parse glob uninit lg argv0 args = (lg', Inr a)"
  shows "(vers a \<or> help_flag a \<or> chck a \<longrightarrow> \<not> dtch a)
    \<and> (wait_time a = 0 \<or> 10 \<le> wait_time a) \<and> 2 \<le> umask a \<and> list_all dashed (opts a)"
  using argv_flags.parse_keeps [OF assms] argv_opts.parse_keeps [OF assms]
  by (simp add: flags_ok_def jvm_opts_ok_def init_args_def)

text \<open>
  What a command line means, from its words alone: an option is a word with a dash, some options
  take the next word for their value whatever it looks like, and the first other word is the
  class, with everything behind it for the class.
\<close>

definition takes_value :: "string \<Rightarrow> bool" where
  "takes_value s \<longleftrightarrow> s \<in> {''-cp'', ''-classpath'', ''-jvm'', ''-home'', ''-java-home'', ''-user'', ''-cwd'',
     ''-wait'', ''-umask'', ''-pidfile'', ''-outfile'', ''-errfile'', ''-procname''}"

function class_words :: "string list \<Rightarrow> (string \<times> string list) option" where
  "class_words [] = None"
| "class_words (s # rest) =
     (if \<not> dashed s then Some (s, rest)
      else if takes_value s then class_words (tl rest) else class_words rest)"
  by pat_completeness auto
termination
  by (relation "measure length") auto

lemma takes_no_value:
  "starts_with ''-verbose'' s \<Longrightarrow> \<not> takes_value s" "starts_with ''-D'' s \<Longrightarrow> \<not> takes_value s"
  "jvm_option s \<Longrightarrow> \<not> takes_value s" "starts_with ''-agentlib:'' s \<Longrightarrow> \<not> takes_value s"
  "starts_with ''-agentpath:'' s \<Longrightarrow> \<not> takes_value s" "starts_with ''-javaagent:'' s \<Longrightarrow> \<not> takes_value s"
  by (auto simp: takes_value_def jvm_option_def starts_with_iff)

lemma dash_first: "starts_with (CHR ''-'' # p) s \<Longrightarrow> take (Suc 0) s = ''-''"
  by (auto simp: starts_with_iff)

lemma parse_arg_class:
  "step_all (\<lambda>a' r. clas a' = clas a \<and> help_flag a' = help_flag a \<and> dashed s
       \<and> r = (if takes_value s then tl rest else rest)) help_flag
     (\<lambda>a' r. a' = a\<lparr>clas := Some s\<rparr> \<and> r = rest \<and> \<not> dashed s) (parse_arg glob s a lg rest)"
  by (unfold parse_arg_chain, intro step_all_rules)
     (simp_all add: add_opt_def takes_no_value, auto simp: takes_value_def dashed_def dash_first)

lemma parse_loop_class:
  "parse_loop glob a lg args = (lg', Inr a') \<Longrightarrow> clas a = None \<Longrightarrow> \<not> help_flag a' \<Longrightarrow>
     class_words args = map_option (\<lambda>c. (c, cargs a')) (clas a')"
proof (induction glob a lg args rule: parse_loop.induct)
  case (1 glob a lg)
  then show ?case by (auto split: if_splits)
next
  case (2 glob a lg s rest)
  note cl = parse_arg_class [of a s rest glob lg]
  show ?case
  proof (cases "parse_arg glob s a lg rest")
    case (Continue a1 lg1 rest1)
    with cl 2 have "class_words rest1 = map_option (\<lambda>c. (c, cargs a')) (clas a')" by auto
    with Continue cl show ?thesis by auto
  qed (use cl "2.prems" in auto)
qed

text \<open>C23. The class is the first word that is neither an option nor an option's value, and every
  word behind it reaches the class unchanged, options included; the parser accepts a command
  line without a class only if there is no such word. The early return of \<open>-help\<close> is excluded.\<close>

theorem parse_class_arguments:
  assumes "parse glob uninit lg argv0 args = (lg', Inr a)" "\<not> help_flag a"
  shows "class_words args = map_option (\<lambda>c. (c, cargs a)) (clas a)"
  using assms parse_loop_class [of glob "init_args uninit"]
  by (auto simp: parse_def Let_def init_args_def)

lemma parse_loop_vershow:
  "parse_loop glob a lg args = (lg', Inr a') \<Longrightarrow> ''-showversion'' \<notin> set args \<Longrightarrow>
     vershow a' = vershow a"
proof (induction glob a lg args rule: parse_loop.induct)
  case (1 glob a lg)
  then show ?case by (auto split: if_splits)
next
  case (2 glob a lg s rest)
  have "s \<noteq> ''-showversion''" using "2.prems" by auto
  then have "step_all (\<lambda>a' r. vershow a' = vershow a) (\<lambda>a'. vershow a' = vershow a)
      (\<lambda>a' r. vershow a' = vershow a) (parse_arg glob s a lg rest)"
    by (unfold parse_arg_chain, intro step_all_rules) (auto simp: add_opt_def)
  note step = this
  show ?case
  proof (cases "parse_arg glob s a lg rest")
    case (Continue a1 lg1 rest1)
    have "set rest1 \<subseteq> set rest"
      using parse_arg_rest [OF Continue] by (cases rest) auto
    with Continue step "2.prems" "2.IH" [OF Continue] show ?thesis by auto
  qed (use step "2.prems" in auto)
qed

text \<open>The flag \<open>vershow\<close> has no default: without \<open>-showversion\<close> on the command line it keeps
  whatever the freshly allocated memory held.\<close>

theorem parse_vershow_uninitialised:
  assumes "parse glob uninit lg argv0 args = (lg', Inr a)" "''-showversion'' \<notin> set args"
  shows "vershow a = uninit"
  using assms parse_loop_vershow [of glob "init_args uninit"]
  by (auto simp: parse_def Let_def init_args_def)

definition example_args :: "string list" where
  "example_args = [''-cp'', ''a:b'', ''-Xmx1g'', ''-wait'', ''20'', ''Main'', ''-x'', ''y'']"

definition example_parsed :: arg_data where
  "example_parsed = (init_args True)\<lparr>opts := [''-Djava.class.path=a:b'', ''-Xmx1g''],
     wait_time := 20, clas := Some ''Main'', cargs := [''-x'', ''y'']\<rparr>"

lemma example_parse:
  "parse (\<lambda>p. []) True log_init ''/usr/bin/jsvc'' example_args =
     (log_init\<lparr>log_prog := ''jsvc''\<rparr>, Inr example_parsed)"
  by code_simp

theorem parse_fits_arrays_witness:
  "onum example_parsed + anum example_parsed < length (''/usr/bin/jsvc'' # example_args)"
  by (rule parse_fits_arrays [OF example_parse])

theorem parse_flags_consistent_witness:
  "(vers example_parsed \<or> help_flag example_parsed \<or> chck example_parsed) = False
     \<and> (wait_time example_parsed = 0 \<or> 10 \<le> wait_time example_parsed)
     \<and> 2 \<le> umask example_parsed \<and> list_all dashed (opts example_parsed)"
  using parse_flags_consistent [OF example_parse] by (simp add: example_parsed_def init_args_def)

theorem parse_class_arguments_witness:
  "class_words example_args = Some (''Main'', [''-x'', ''y''])"
  using parse_class_arguments [OF example_parse] by (simp add: example_parsed_def init_args_def)

theorem parse_vershow_uninitialised_witness: "vershow example_parsed = True"
  by (rule parse_vershow_uninitialised [OF example_parse]) (simp add: example_args_def)

end
