(* ===== verification/Java.thy ===== *)
theory Java
  imports Jvm_Calls Home Arguments
begin

text \<open>
  \<^verbatim>\<open>java.c\<close>: choosing the JVM library, creating the VM and calling the loader class, over the
  recorded calls of \<open>Jvm_Calls\<close>. The static pointers \<open>jvm\<close>, \<open>env\<close> and \<open>cls\<close> are null until
  \<open>java_init\<close> has succeeded; afterwards \<open>cls\<close> is the class \<open>LOADER\<close>. The conversions to and
  from EBCDIC are the identity. A class and a method are named by their strings, a method handle
  by class and name. The debug dump of the options is not modelled.
\<close>

section \<open>The library\<close>

fun find_jvm :: "string \<Rightarrow> home_jvm list \<Rightarrow> path option" where
  "find_jvm n [] = None"
| "find_jvm n (j # js) =
     (case jvm_label j of
        None \<Rightarrow> find_jvm n js
      | Some m \<Rightarrow> if n = m then Some (libr j) else find_jvm n js)"

definition java_library :: "arg_data \<Rightarrow> home_data \<Rightarrow> path option" where
  "java_library a d =
     (if jnum d = 0 then None
      else case jvm_name a of
        None \<Rightarrow> Some (libr (jvms d ! 0))
      | Some n \<Rightarrow> find_jvm n (jvms d))"

section \<open>The options of the VM\<close>

definition JSVC_VERSION_STRING :: string where
  "JSVC_VERSION_STRING = show_nat 1 @ ''.'' @ show_nat 0 @ ''.'' @ show_nat 15 @ ''-dev''"

text \<open>\<open>snprintf\<close> into \<open>daemonprocid\<close>, an array of 64 bytes, cuts the text after 63.\<close>

definition daemonprocid :: "string \<Rightarrow> string" where
  "daemonprocid s = take 63 s"

text \<open>
  The array \<open>opt\<close> of \<open>nOptions\<close> slots, an empty slot is uninitialised memory. \<open>store_options\<close>
  writes one option after the other, from the index \<open>x\<close> on.
\<close>

fun store_options :: "nat \<Rightarrow> vm_option list \<Rightarrow> vm_option option list \<Rightarrow> fault + vm_option option list" where
  "store_options x [] opt = Inr opt"
| "store_options x (v # vs) opt =
     (if x < length opt then store_options (Suc x) vs (opt[x := Some v]) else Inl Buffer_overrun)"

definition vm_arguments :: "arg_data \<Rightarrow> int \<Rightarrow> int \<Rightarrow> fault + vm_option option list" where
  "vm_arguments a pid ppid =
     (let nOptions = onum a + 4
      in case store_options 0 (map VM_Option (opts a)) (replicate nOptions None) of
           Inl e \<Rightarrow> Inl e
         | Inr opt \<Rightarrow>
             store_options (onum a)
               [VM_Option (daemonprocid (''-Dcommons.daemon.process.id='' @ show_int pid)),
                VM_Option (daemonprocid (''-Dcommons.daemon.process.parent='' @ show_int ppid)),
                VM_Option (daemonprocid (''-Dcommons.daemon.version='' @ JSVC_VERSION_STRING)),
                VM_Abort_Hook ''abort''] opt)"

section \<open>Creating the VM\<close>

definition LOADER :: string where
  "LOADER = ''org/apache/commons/daemon/support/DaemonLoader''"

text \<open>The second library of Mac OS; \<open>Done None\<close> where the code returns \<open>false\<close>.\<close>

definition shell_try :: "path \<Rightarrow> path \<Rightarrow> path option home_result" where
  "shell_try template home_path =
     (case subst template ''$JAVA_HOME'' home_path of
        Subst p \<Rightarrow> Done (Some p)
      | Refused k \<Rightarrow> Done None
      | Crash e \<Rightarrow> Home_crash e
      | Endless \<Rightarrow> Home_endless)"

fun shell_library :: "(path \<Rightarrow> file_kind option) \<Rightarrow> path \<Rightarrow> path \<Rightarrow> path list \<Rightarrow> path option home_result" where
  "shell_library stat home_path t [] = shell_try t home_path"
| "shell_library stat home_path t (t' # ts) =
     (case shell_try t home_path of
        Done (Some p) \<Rightarrow> if stat p = None then shell_library stat home_path t' ts else Done (Some p)
      | r \<Rightarrow> r)"

definition darwin_library :: "(path \<Rightarrow> file_kind option) \<Rightarrow> path \<Rightarrow> path option home_result" where
  "darwin_library stat home_path =
     shell_library stat home_path ''$JAVA_HOME/../Libraries/libappshell.dylib''
       [''$JAVA_HOME/../Libraries/libjvm_compat.dylib'', ''$JAVA_HOME/../Libraries/libverify.dylib'']"

text \<open>Linking and finding the entry point; the answer tells whether \<open>symb\<close> can be called.\<close>

definition link_entry :: "dso_ops \<Rightarrow> path \<Rightarrow> bool jni" where
  "link_entry ops libf = do {
     libh \<leftarrow> dso_link ops libf;
     if libh = None then ret False
     else dso_symbol ops libh ''JNI_CreateJavaVM''
   }"

definition link_entry_darwin ::
  "dso_ops \<Rightarrow> (path \<Rightarrow> file_kind option) \<Rightarrow> path \<Rightarrow> path \<Rightarrow> bool home_result jni" where
  "link_entry_darwin ops stat home_path libf = do {
     libh \<leftarrow> dso_link ops libf;
     if libh = None then ret (Done False)
     else case darwin_library stat home_path of
       Home_crash e \<Rightarrow> ret (Home_crash e)
     | Home_endless \<Rightarrow> ret Home_endless
     | Done None \<Rightarrow> ret (Done False)
     | Done (Some appf) \<Rightarrow> do {
         apph \<leftarrow> dso_link ops appf;
         if apph = None then ret (Done False)
         else do {
           found \<leftarrow> dso_symbol ops libh ''JNI_CreateJavaVM'';
           if found then ret (Done True)
           else do {
             found \<leftarrow> dso_symbol ops apph ''JNI_CreateJavaVM'';
             ret (Done found)
           }
         }
       }
   }"

definition native_methods :: "(string \<times> string) list" where
  "native_methods = [(''shutdown'', ''(Z)V''), (''failed'', ''(Ljava/lang/String;)V'')]"

definition create_vm :: "answers \<Rightarrow> vm_option list \<Rightarrow> bool jni" where
  "create_vm ans vm_opts = do {
     created \<leftarrow> jni ans (CreateJavaVM vm_opts);
     if \<not> created then ret False
     else do {
       cls \<leftarrow> jni ans (FindClass LOADER);
       if \<not> cls then ret False
       else jni ans (RegisterNatives LOADER native_methods)
     }
   }"

definition prepare_vm :: "answers \<Rightarrow> bool \<Rightarrow> arg_data \<Rightarrow> int \<Rightarrow> int \<Rightarrow> bool home_result jni" where
  "prepare_vm ans osd a pid ppid = do {
     defaults \<leftarrow> (if osd then jni ans GetDefaultJavaVMInitArgs else ret True);
     if \<not> defaults then ret (Done False)
     else case vm_arguments a pid ppid of
       Inl e \<Rightarrow> ret (Home_crash e)
     | Inr opt \<Rightarrow> do { ok \<leftarrow> create_vm ans (map the opt); ret (Done ok) }
   }"

definition java_init ::
  "platform \<Rightarrow> answers \<Rightarrow> dso_ops \<Rightarrow> (path \<Rightarrow> file_kind option) \<Rightarrow> arg_data \<Rightarrow> home_data
     \<Rightarrow> int \<Rightarrow> int \<Rightarrow> bool home_result jni" where
  "java_init plat ans ops stat a d pid ppid =
     (case java_library a d of
        None \<Rightarrow> ret (Done False)
      | Some libf \<Rightarrow> do {
          ok \<leftarrow> dso_init ops;
          if \<not> ok then ret (Done False)
          else if osd_posix plat then prepare_vm ans True a pid ppid
          else do {
            linked \<leftarrow>
              (if os_of plat = OS_DARWIN
               then link_entry_darwin ops stat (hpath d) libf
               else do { l \<leftarrow> link_entry ops libf; ret (Done l) });
            case linked of
              Home_crash e \<Rightarrow> ret (Home_crash e)
            | Home_endless \<Rightarrow> ret Home_endless
            | Done l \<Rightarrow> if l then prepare_vm ans False a pid ppid else ret (Done False)
          }
        })"

section \<open>Calls of the loader class\<close>

text \<open>Looking a static method up and calling it, as every operation below does.\<close>

definition call_loader :: "answers \<Rightarrow> string \<Rightarrow> string \<Rightarrow> jarg list \<Rightarrow> bool jni" where
  "call_loader ans name params as = do {
     method \<leftarrow> jni ans (GetStaticMethodID LOADER name params);
     if \<not> method then ret False
     else jni ans (CallStaticBooleanMethod LOADER name as)
   }"

definition java_signal :: "answers \<Rightarrow> bool jni" where
  "java_signal ans = do {
     method \<leftarrow> jni ans (GetStaticMethodID LOADER ''signal'' ''()Z'');
     if \<not> method then do { _ \<leftarrow> jni ans ExceptionClear; ret False }
     else do {
       r \<leftarrow> jni ans (CallStaticBooleanMethod LOADER ''signal'' []);
       _ \<leftarrow> jni ans ExceptionClear;
       ret r
     }
   }"

definition JVM_destroy :: "answers \<Rightarrow> int \<Rightarrow> bool jni" where
  "JVM_destroy ans exit = do {
     system \<leftarrow> jni ans (FindClass ''java/lang/System'');
     if \<not> system then ret False
     else do {
       method \<leftarrow> jni ans (GetStaticMethodID ''java/lang/System'' ''exit'' ''(I)V'');
       if \<not> method then ret False
       else do {
         _ \<leftarrow> jni ans (CallStaticVoidMethod ''java/lang/System'' ''exit'' [JInt exit]);
         jni ans DestroyJavaVM
       }
     }
   }"

fun fill_array :: "answers \<Rightarrow> nat \<Rightarrow> string list \<Rightarrow> string option list \<Rightarrow> string option list option jni" where
  "fill_array ans x [] arr = ret (Some arr)"
| "fill_array ans x (s # ss) arr = do {
     currentArgument \<leftarrow> jni ans (NewStringUTF (Some s));
     if \<not> currentArgument then ret None
     else do {
       _ \<leftarrow> jni ans (SetObjectArrayElement x s);
       fill_array ans (Suc x) ss (arr[x := Some s])
     }
   }"

definition java_load :: "answers \<Rightarrow> arg_data \<Rightarrow> bool jni" where
  "java_load ans a = do {
     className \<leftarrow> jni ans (NewStringUTF (clas a));
     if \<not> className then ret False
     else do {
       stringClass \<leftarrow> jni ans (FindClass ''java/lang/String'');
       if \<not> stringClass then ret False
       else do {
         stringArray \<leftarrow> jni ans (NewObjectArray (anum a) ''java/lang/String'');
         if \<not> stringArray then ret False
         else do {
           arr \<leftarrow> fill_array ans 0 (cargs a) (replicate (anum a) None);
           case arr of
             None \<Rightarrow> ret False
           | Some arr \<Rightarrow>
               call_loader ans ''load'' ''(Ljava/lang/String;[Ljava/lang/String;)Z''
                 [JString (case clas a of Some c \<Rightarrow> c | None \<Rightarrow> []), JArray arr]
         }
       }
     }
   }"

definition java_start :: "answers \<Rightarrow> bool jni" where
  "java_start ans = call_loader ans ''start'' ''()Z'' []"

definition java_sleep :: "answers \<Rightarrow> int \<Rightarrow> unit jni" where
  "java_sleep ans wait = do {
     clsThread \<leftarrow> jni ans (FindClass ''java/lang/Thread'');
     if \<not> clsThread then ret ()
     else do {
       method \<leftarrow> jni ans (GetStaticMethodID ''java/lang/Thread'' ''sleep'' ''(J)V'');
       if \<not> method then ret ()
       else do {
         _ \<leftarrow> jni ans (CallStaticVoidMethod ''java/lang/Thread'' ''sleep'' [JLong (wait * 1000)]);
         ret ()
       }
     }
   }"

definition java_stop :: "answers \<Rightarrow> bool jni" where
  "java_stop ans = call_loader ans ''stop'' ''()Z'' []"

definition java_version :: "answers \<Rightarrow> bool jni" where
  "java_version ans = do {
     method \<leftarrow> jni ans (GetStaticMethodID LOADER ''version'' ''()V'');
     if \<not> method then ret False
     else do {
       _ \<leftarrow> jni ans (CallStaticVoidMethod LOADER ''version'' []);
       ret True
     }
   }"

definition java_check :: "answers \<Rightarrow> arg_data \<Rightarrow> bool jni" where
  "java_check ans a = do {
     className \<leftarrow> jni ans (NewStringUTF (clas a));
     if \<not> className then ret False
     else call_loader ans ''check'' ''(Ljava/lang/String;)Z''
            [JString (case clas a of Some c \<Rightarrow> c | None \<Rightarrow> [])]
   }"

definition java_destroy :: "answers \<Rightarrow> bool jni" where
  "java_destroy ans = call_loader ans ''destroy'' ''()Z'' []"


section \<open>The array of options\<close>

lemma store_options_fills:
  "length opt = x + length vs + k \<Longrightarrow>
     store_options x vs opt = Inr (take x opt @ map Some vs @ drop (x + length vs) opt)"
proof (induction vs arbitrary: x opt)
  case (Cons v vs)
  then have "store_options x (v # vs) opt = store_options (Suc x) vs (opt[x := Some v])" by simp
  also have "\<dots> = Inr (take (Suc x) (opt[x := Some v]) @ map Some vs
      @ drop (Suc x + length vs) (opt[x := Some v]))"
    using Cons.prems by (intro Cons.IH) simp
  finally show ?case
    using Cons.prems by (simp add: take_Suc_conv_app_nth)
qed simp

lemma vm_arguments_eq:
  "vm_arguments a pid ppid = Inr (map Some (map VM_Option (opts a) @
     [VM_Option (daemonprocid (''-Dcommons.daemon.process.id='' @ show_int pid)),
      VM_Option (daemonprocid (''-Dcommons.daemon.process.parent='' @ show_int ppid)),
      VM_Option (daemonprocid (''-Dcommons.daemon.version='' @ JSVC_VERSION_STRING)),
      VM_Abort_Hook ''abort'']))"
  by (simp add: vm_arguments_def Let_def store_options_fills [where k = 4]
      store_options_fills [where k = 0] del: store_options.simps)

section \<open>The protocol of the native interface\<close>

text \<open>
  What the specification of JNI asks of a caller, as a condition on the calls made so far: the
  VM exists, classes and methods were looked up before they are used, and a pending exception
  is cleared before the next call. A lookup, an allocation and \<open>RegisterNatives\<close> leave an
  exception when they fail. A Java method may leave one whatever it returns; the code never asks
  for it, so it is no part of the run: \<open>th\<close> tells, for the calls made so far, whether the method
  called last has thrown.
\<close>

fun raises :: "ext_call \<Rightarrow> bool" where
  "raises (FindClass c) \<longleftrightarrow> True"
| "raises (GetStaticMethodID c m s) \<longleftrightarrow> True"
| "raises (NewStringUTF s) \<longleftrightarrow> True"
| "raises (NewObjectArray n c) \<longleftrightarrow> True"
| "raises (RegisterNatives c ms) \<longleftrightarrow> True"
| "raises _ \<longleftrightarrow> False"

fun calls_method :: "ext_call \<Rightarrow> bool" where
  "calls_method (CallStaticBooleanMethod c m as) \<longleftrightarrow> True"
| "calls_method (CallStaticVoidMethod c m as) \<longleftrightarrow> True"
| "calls_method _ \<longleftrightarrow> False"

fun pending :: "(call_trace \<Rightarrow> bool) \<Rightarrow> call_trace \<Rightarrow> bool" where
  "pending th [] \<longleftrightarrow> False"
| "pending th (x # tr) \<longleftrightarrow>
     (if calls_method (fst x) then th (x # tr) else raises (fst x) \<and> \<not> snd x)"

definition started :: "call_trace \<Rightarrow> bool" where
  "started tr \<longleftrightarrow> (\<exists>vs. (CreateJavaVM vs, True) \<in> set tr)"

fun allowed :: "(call_trace \<Rightarrow> bool) \<Rightarrow> call_trace \<Rightarrow> ext_call \<Rightarrow> bool" where
  "allowed th tr (CreateJavaVM vs) \<longleftrightarrow> \<not> started tr"
| "allowed th tr ExceptionClear \<longleftrightarrow> started tr"
| "allowed th tr (FindClass c) \<longleftrightarrow> started tr \<and> \<not> pending th tr"
| "allowed th tr (RegisterNatives c ms) \<longleftrightarrow> \<not> pending th tr \<and> (FindClass c, True) \<in> set tr"
| "allowed th tr (GetStaticMethodID c m s) \<longleftrightarrow> \<not> pending th tr \<and> (FindClass c, True) \<in> set tr"
| "allowed th tr (CallStaticBooleanMethod c m as) \<longleftrightarrow>
     \<not> pending th tr \<and> (\<exists>s. (GetStaticMethodID c m s, True) \<in> set tr)"
| "allowed th tr (CallStaticVoidMethod c m as) \<longleftrightarrow>
     \<not> pending th tr \<and> (\<exists>s. (GetStaticMethodID c m s, True) \<in> set tr)"
| "allowed th tr (NewStringUTF s) \<longleftrightarrow> started tr \<and> \<not> pending th tr \<and> s \<noteq> None"
| "allowed th tr (NewObjectArray n c) \<longleftrightarrow> \<not> pending th tr \<and> (FindClass c, True) \<in> set tr"
| "allowed th tr (SetObjectArrayElement i s) \<longleftrightarrow>
     \<not> pending th tr \<and> (\<exists>n c. (NewObjectArray n c, True) \<in> set tr \<and> i < n)
     \<and> (NewStringUTF (Some s), True) \<in> set tr"
| "allowed th tr DestroyJavaVM \<longleftrightarrow> started tr"
| "allowed th tr _ \<longleftrightarrow> \<not> started tr"

fun obeys :: "(call_trace \<Rightarrow> bool) \<Rightarrow> call_trace \<Rightarrow> bool" where
  "obeys th [] \<longleftrightarrow> True"
| "obeys th (x # tr) \<longleftrightarrow> allowed th tr (fst x) \<and> obeys th tr"

lemma started_Cons [simp]:
  "started (x # tr) \<longleftrightarrow> started tr \<or> (snd x \<and> (\<exists>vs. fst x = CreateJavaVM vs))"
  by (cases x) (auto simp: started_def)

definition ready :: "(call_trace \<Rightarrow> bool) \<Rightarrow> call_trace \<Rightarrow> bool" where
  "ready th tr \<longleftrightarrow> obeys th tr \<and> started tr \<and> \<not> pending th tr \<and> (FindClass LOADER, True) \<in> set tr"

lemma obeys_drop: "obeys th tr \<Longrightarrow> obeys th (drop k tr)"
  by (induction tr arbitrary: k) (auto simp: drop_Cons split: nat.splits)

text \<open>Every method of the loader class but \<open>signal\<close> and the ones that are not called catches what
  the service throws: they have a handler for \<open>Throwable\<close>, and \<open>version\<close> only prints.\<close>

definition loader_catches :: "(call_trace \<Rightarrow> bool) \<Rightarrow> bool" where
  "loader_catches th \<longleftrightarrow>
     (\<forall>tr m as b. m \<noteq> ''signal'' \<longrightarrow> \<not> th ((CallStaticBooleanMethod LOADER m as, b) # tr)) \<and>
     (\<forall>tr m as b. \<not> th ((CallStaticVoidMethod LOADER m as, b) # tr))"

lemma call_loader_obeys:
  assumes "ready th tr" "run_state (call_loader ans name params as) tr = (r, tr')"
  shows "obeys th tr' \<and> (r \<longrightarrow> \<not> th tr' \<longrightarrow> ready th tr')"
  using assms by (auto simp: call_loader_def run_jni ready_def split: if_splits)

lemma call_loader_ready:
  assumes "ready th tr" "run_state (call_loader ans name params as) tr = (r, tr')"
    and "loader_catches th" "name \<noteq> ''signal''"
  shows "obeys th tr' \<and> (r \<longrightarrow> ready th tr')"
  using assms by (auto simp: call_loader_def run_jni ready_def loader_catches_def split: if_splits)

lemma not_signal: "''start'' \<noteq> ''signal''" "''stop'' \<noteq> ''signal''" "''check'' \<noteq> ''signal''"
    "''load'' \<noteq> ''signal''" "''destroy'' \<noteq> ''signal''"
  by code_simp+

lemma java_start_ready:
  "ready th tr \<Longrightarrow> run_state (java_start ans) tr = (r, tr') \<Longrightarrow> loader_catches th \<Longrightarrow>
     obeys th tr' \<and> (r \<longrightarrow> ready th tr')"
  unfolding java_start_def by (erule (2) call_loader_ready) (rule not_signal)

lemma java_stop_ready:
  "ready th tr \<Longrightarrow> run_state (java_stop ans) tr = (r, tr') \<Longrightarrow> loader_catches th \<Longrightarrow>
     obeys th tr' \<and> (r \<longrightarrow> ready th tr')"
  unfolding java_stop_def by (erule (2) call_loader_ready) (rule not_signal)

lemma java_signal_ready:
  "ready th tr \<Longrightarrow> run_state (java_signal ans) tr = (r, tr') \<Longrightarrow> ready th tr'"
  by (auto simp: java_signal_def run_jni ready_def split: if_splits)

lemma java_version_ready:
  "ready th tr \<Longrightarrow> run_state (java_version ans) tr = (r, tr') \<Longrightarrow> loader_catches th \<Longrightarrow>
     obeys th tr' \<and> (r \<longrightarrow> ready th tr')"
  by (auto simp: java_version_def run_jni ready_def loader_catches_def split: if_splits)

lemma java_check_ready:
  assumes "ready th tr" "run_state (java_check ans a) tr = (r, tr')" "loader_catches th" "clas a \<noteq> None"
  shows "obeys th tr' \<and> (r \<longrightarrow> ready th tr')"
  using assms call_loader_ready [of th "(NewStringUTF (clas a), True) # tr"]
  by (fastforce simp: java_check_def run_jni ready_def split: if_splits)

lemma JVM_destroy_obeys:
  "ready th tr \<Longrightarrow> run_state (JVM_destroy ans rc) tr = (r, tr') \<Longrightarrow> obeys th tr'"
  by (auto simp: JVM_destroy_def run_jni ready_def split: if_splits)

lemma fill_array_ready:
  "ready th tr \<Longrightarrow> (NewObjectArray n c, True) \<in> set tr \<Longrightarrow> x + length ss \<le> n \<Longrightarrow>
     run_state (fill_array ans x ss arr) tr = (r, tr') \<Longrightarrow> obeys th tr' \<and> (r \<noteq> None \<longrightarrow> ready th tr')"
proof (induction ss arbitrary: x arr tr)
  case (Cons s ss)
  let ?n = "NewStringUTF (Some s)" and ?e = "SetObjectArrayElement x s"
  show ?case
  proof (cases "ans tr ?n")
    case True
    let ?tr = "(?e, ans ((?n, True) # tr) ?e) # (?n, True) # tr"
    have "ready th ?tr" using Cons.prems(1-3) by (auto simp: ready_def)
    moreover have "run_state (fill_array ans (Suc x) ss (arr[x := Some s])) ?tr = (r, tr')"
      using Cons.prems(4) True by (simp add: run_jni)
    ultimately show ?thesis using Cons.IH [of ?tr "Suc x"] Cons.prems(2,3) by simp
  qed (use Cons.prems in \<open>auto simp: run_jni ready_def\<close>)
qed (simp add: run_jni ready_def)

lemma fill_array_contents:
  "run_state (fill_array ans x ss arr) tr = (Some arr', tr') \<Longrightarrow> length arr = x + length ss \<Longrightarrow>
     arr' = take x arr @ map Some ss"
proof (induction ss arbitrary: x arr tr)
  case (Cons s ss)
  then have "arr' = take (Suc x) (arr[x := Some s]) @ map Some ss"
    by (auto simp: run_jni split: if_splits prod.splits intro: Cons.IH)
  with Cons.prems(2) show ?case by (simp add: take_Suc_conv_app_nth)
qed (simp add: run_jni)

lemma java_load_obeys:
  assumes "ready th tr" "run_state (java_load ans a) tr = (r, tr')" "clas a \<noteq> None"
  shows "obeys th tr' \<and> (r \<longrightarrow> \<not> th tr' \<longrightarrow> ready th tr')"
proof -
  let ?s = "NewStringUTF (clas a)" and ?c = "FindClass ''java/lang/String''"
    and ?n = "NewObjectArray (anum a) ''java/lang/String''"
  let ?t1 = "(?s, True) # tr" let ?t2 = "(?c, True) # ?t1" let ?t3 = "(?n, True) # ?t2"
  show ?thesis
  proof (cases "ans tr ?s \<and> ans ?t1 ?c \<and> ans ?t2 ?n")
    case True
    have t3: "ready th ?t3" using assms(1,3) by (auto simp: ready_def)
    obtain arr t4 where fill:
      "run_state (fill_array ans 0 (cargs a) (replicate (anum a) None)) ?t3 = (arr, t4)"
      by (cases "run_state (fill_array ans 0 (cargs a) (replicate (anum a) None)) ?t3")
    from fill_array_ready [OF t3 _ _ fill, of "anum a" "''java/lang/String''"]
    have t4: "obeys th t4 \<and> (arr \<noteq> None \<longrightarrow> ready th t4)" by simp
    with True fill assms(2) show ?thesis
      by (auto simp: java_load_def run_jni dest: call_loader_obeys split: option.splits)
  qed (use assms in \<open>auto simp: java_load_def run_jni ready_def split: if_splits\<close>)
qed

lemma java_load_ready:
  assumes "ready th tr" "run_state (java_load ans a) tr = (r, tr')" "loader_catches th" "clas a \<noteq> None"
  shows "obeys th tr' \<and> (r \<longrightarrow> ready th tr')"
proof -
  have "\<not> th tr'" if r
    using assms(2,3) that not_signal
    by (auto simp: java_load_def call_loader_def run_jni loader_catches_def
        split: if_splits option.splits prod.splits)
  with java_load_obeys [OF assms(1,2,4)] show ?thesis by blast
qed

section \<open>The loader interface\<close>

text \<open>
  What \<open>java_init\<close> relies on in \<^verbatim>\<open>dso.h\<close>: the operations call nothing but the system's loader, a
  handle stands for the library that was asked for, and a symbol that is reported was found by
  the loader call \<open>entry\<close>.
\<close>

definition clean :: "(call_trace \<Rightarrow> bool) \<Rightarrow> call_trace \<Rightarrow> bool" where
  "clean th tr \<longleftrightarrow> obeys th tr \<and> \<not> started tr \<and> \<not> pending th tr"

definition vm_options :: "arg_data \<Rightarrow> int \<Rightarrow> int \<Rightarrow> vm_option list" where
  "vm_options a pid ppid = map VM_Option (opts a) @
     [VM_Option (daemonprocid (''-Dcommons.daemon.process.id='' @ show_int pid)),
      VM_Option (daemonprocid (''-Dcommons.daemon.process.parent='' @ show_int ppid)),
      VM_Option (daemonprocid (''-Dcommons.daemon.version='' @ JSVC_VERSION_STRING)),
      VM_Abort_Hook ''abort'']"

lemma create_vm_sound:
  assumes "clean th tr" "run_state (create_vm ans vs) tr = (r, tr')"
  shows "obeys th tr' \<and> set tr \<subseteq> set tr' \<and> (r \<longrightarrow> ready th tr' \<and> (CreateJavaVM vs, True) \<in> set tr')"
  using assms by (auto simp: create_vm_def run_jni clean_def ready_def split: if_splits)

lemma prepare_vm_sound:
  assumes "clean th tr" "run_state (prepare_vm ans osd a pid ppid) tr = (Done r, tr')"
  shows "obeys th tr' \<and> set tr \<subseteq> set tr' \<and>
    (r \<longrightarrow> ready th tr' \<and> (CreateJavaVM (vm_options a pid ppid), True) \<in> set tr')"
proof -
  let ?g = "GetDefaultJavaVMInitArgs"
  have opts: "vm_arguments a pid ppid = Inr (map Some (vm_options a pid ppid))"
    by (simp only: vm_arguments_eq vm_options_def)
  have the_opts: "map the (map Some (vm_options a pid ppid)) = vm_options a pid ppid"
    by (simp add: comp_def)
  have after: "obeys th tr' \<and> set t \<subseteq> set tr' \<and>
      (r \<longrightarrow> ready th tr' \<and> (CreateJavaVM (vm_options a pid ppid), True) \<in> set tr')"
    if "clean th t" "run_state (do { ok \<leftarrow> create_vm ans (vm_options a pid ppid); ret (Done ok) }) t
          = (Done r, tr')" for t
    using create_vm_sound [OF that(1)] that(2) by (auto simp: run_jni split: prod.splits)
  have unfolded: "prepare_vm ans osd a pid ppid = do {
       defaults \<leftarrow> (if osd then jni ans ?g else ret True);
       if \<not> defaults then ret (Done False)
       else do { ok \<leftarrow> create_vm ans (vm_options a pid ppid); ret (Done ok) } }"
    unfolding prepare_vm_def opts by (simp only: the_opts sum.case)
  have g: "clean th ((?g, b) # tr)" for b using assms(1) by (simp add: clean_def)
  show ?thesis
  proof (cases osd)
    case True
    with assms(2) unfolded after [OF g] g [of False] show ?thesis
      by (auto simp: run_jni_call run_jni_ret run_jni_bind [of "jni ans ?g"]
          clean_def split: if_splits)
  next
    case False
    have "run_state (prepare_vm ans osd a pid ppid) tr =
        run_state (do { ok \<leftarrow> create_vm ans (vm_options a pid ppid); ret (Done ok) }) tr"
      unfolding unfolded by (simp add: False run_jni_bind [of "ret True"] run_jni_ret)
    with assms(2) after [OF assms(1)] show ?thesis by simp
  qed
qed

locale dso_loader =
  fixes ops :: dso_ops and opened :: "path \<Rightarrow> ext_call" and entry :: "path \<Rightarrow> string \<Rightarrow> ext_call"
  assumes init_clean: "clean th tr \<Longrightarrow> run_state (dso_init ops) tr = (r, tr') \<Longrightarrow> clean th tr'"
    and link_clean: "clean th tr \<Longrightarrow> run_state (dso_link ops l) tr = (h, tr') \<Longrightarrow> clean th tr'"
    and link_opened: "run_state (dso_link ops l) tr = (Some l', tr') \<Longrightarrow>
      l' = l \<and> (opened l, True) \<in> set tr'"
    and symbol_clean: "clean th tr \<Longrightarrow> run_state (dso_symbol ops h n) tr = (r, tr') \<Longrightarrow> clean th tr'"
    and symbol_entry: "run_state (dso_symbol ops (Some l) n) tr = (True, tr') \<Longrightarrow>
      (entry l n, True) \<in> set tr' \<and> set tr \<subseteq> set tr'"
begin

lemma link_entry_clean:
  assumes "clean th tr" "run_state (link_entry ops l) tr = (r, tr')"
  shows "clean th tr' \<and> (r \<longrightarrow> (opened l, True) \<in> set tr' \<and> (entry l ''JNI_CreateJavaVM'', True) \<in> set tr')"
proof -
  obtain h t1 where link: "run_state (dso_link ops l) tr = (h, t1)"
    by (cases "run_state (dso_link ops l) tr")
  show ?thesis
  proof (cases h)
    case (Some l')
    with link link_opened have l': "l' = l" "(opened l, True) \<in> set t1" by blast+
    with assms(2) link Some have "run_state (dso_symbol ops (Some l) ''JNI_CreateJavaVM'') t1 = (r, tr')"
      by (simp add: link_entry_def run_jni)
    with link_clean [OF assms(1) link] l' show ?thesis
      by (cases r) (auto dest: symbol_clean symbol_entry)
  qed (use assms link link_clean in \<open>auto simp: link_entry_def run_jni\<close>)
qed

lemma link_darwin_clean:
  assumes "clean th tr" "run_state (link_entry_darwin ops stat p l) tr = (r, tr')"
  shows "clean th tr'"
proof -
  obtain h t1 where link: "run_state (dso_link ops l) tr = (h, t1)"
    by (cases "run_state (dso_link ops l) tr")
  have t1: "clean th t1" using link_clean [OF assms(1) link] .
  show ?thesis
  proof (cases "\<exists>a. darwin_library stat p = Done (Some a) \<and> h \<noteq> None")
    case True
    then obtain a where a: "darwin_library stat p = Done (Some a)" "h \<noteq> None" by blast
    obtain g t2 where link2: "run_state (dso_link ops a) t1 = (g, t2)"
      by (cases "run_state (dso_link ops a) t1")
    obtain f t3 where sym: "run_state (dso_symbol ops h ''JNI_CreateJavaVM'') t2 = (f, t3)"
      by (cases "run_state (dso_symbol ops h ''JNI_CreateJavaVM'') t2")
    obtain f' t4 where sym2: "run_state (dso_symbol ops g ''JNI_CreateJavaVM'') t3 = (f', t4)"
      by (cases "run_state (dso_symbol ops g ''JNI_CreateJavaVM'') t3")
    from link_clean [OF t1 link2] have t2: "clean th t2" .
    from symbol_clean [OF t2 sym] have t3: "clean th t3" .
    from symbol_clean [OF t3 sym2] have t4: "clean th t4" .
    from assms(2) link a link2 sym sym2 t2 t3 t4 show ?thesis
      by (auto simp: link_entry_darwin_def run_jni split: if_splits)
  qed (use assms(2) link t1 in \<open>auto simp: link_entry_darwin_def run_jni
         split: if_splits home_result.splits option.splits\<close>)
qed

definition usable_entry :: "platform \<Rightarrow> path \<Rightarrow> call_trace \<Rightarrow> bool" where
  "usable_entry plat l tr \<longleftrightarrow>
     (\<not> osd_posix plat \<and> os_of plat \<noteq> OS_DARWIN \<longrightarrow>
        (opened l, True) \<in> set tr \<and> (entry l ''JNI_CreateJavaVM'', True) \<in> set tr)"

lemma java_init_sound:
  assumes "clean th tr" "run_state (java_init plat ans ops stat a d pid ppid) tr = (Done r, tr')"
  shows "obeys th tr' \<and> (r \<longrightarrow> ready th tr' \<and> (CreateJavaVM (vm_options a pid ppid), True) \<in> set tr' \<and>
           (\<exists>l. java_library a d = Some l \<and> usable_entry plat l tr'))"
proof (cases "java_library a d")
  case (Some l)
  obtain i t1 where init: "run_state (dso_init ops) tr = (i, t1)"
    by (cases "run_state (dso_init ops) tr")
  have t1: "clean th t1" using init_clean [OF assms(1) init] .
  obtain e t2 where link: "run_state (link_entry ops l) t1 = (e, t2)"
    by (cases "run_state (link_entry ops l) t1")
  obtain f t3 where darwin: "run_state (link_entry_darwin ops stat (hpath d) l) t1 = (f, t3)"
    by (cases "run_state (link_entry_darwin ops stat (hpath d) l) t1")
  note t2 = link_entry_clean [OF t1 link] and t3 = link_darwin_clean [OF t1 darwin]
  consider "\<not> i" | "i" "osd_posix plat" | "i" "\<not> osd_posix plat" "os_of plat = OS_DARWIN"
    | "i" "\<not> osd_posix plat" "os_of plat \<noteq> OS_DARWIN" by blast
  then show ?thesis
  proof cases
    case 1
    with Some init t1 assms(2) show ?thesis by (simp add: java_init_def run_jni clean_def)
  next
    case 2
    with Some init assms(2) prepare_vm_sound [OF t1, of ans True a pid ppid] show ?thesis
      by (simp add: java_init_def run_jni usable_entry_def)
  next
    case 3
    with Some init darwin t3 assms(2) prepare_vm_sound [OF t3, of ans False a pid ppid] show ?thesis
      by (auto simp: java_init_def run_jni usable_entry_def clean_def
          split: home_result.splits if_splits)
  next
    case 4
    with Some init link t2 assms(2) prepare_vm_sound [of th t2 ans False a pid ppid] show ?thesis
      by (auto simp: java_init_def run_jni usable_entry_def clean_def split: if_splits)
  qed
qed (use assms in \<open>simp add: java_init_def run_jni clean_def\<close>)

lemma prepare_vm_done: "\<exists>ok tr'. run_state (prepare_vm ans osd a pid ppid) tr = (Done ok, tr')"
  by (auto simp: prepare_vm_def vm_arguments_eq run_jni split: prod.splits)

lemma java_init_obeys:
  assumes "clean th tr" "run_state (java_init plat ans ops stat a d pid ppid) tr = (i, tr')"
  shows "obeys th tr'"
proof (cases "\<exists>r. i = Done r")
  case False
  then obtain l where l: "java_library a d = Some l"
    using assms(2) by (cases "java_library a d") (auto simp: java_init_def run_jni)
  obtain j t1 where init: "run_state (dso_init ops) tr = (j, t1)" by fastforce
  obtain f t3 where darwin: "run_state (link_entry_darwin ops stat (hpath d) l) t1 = (f, t3)" by fastforce
  have "clean th t3" using link_darwin_clean [OF init_clean [OF assms(1) init] darwin] .
  moreover obtain e t2 where "run_state (link_entry ops l) t1 = (e, t2)" by fastforce
  moreover have "\<nexists>t t' osd. run_state (prepare_vm ans osd a pid ppid) t = (i, t')"
    using False prepare_vm_done by (metis prod.inject)
  ultimately have "tr' = t3"
    using assms(2) False l init darwin
    by (auto simp: java_init_def run_jni split: if_splits home_result.splits)
  with \<open>clean th t3\<close> show ?thesis by (simp add: clean_def)
qed (use java_init_sound [OF assms(1)] assms(2) in blast)

end

interpretation dlfcn_loader: dso_loader "dlfcn ans" Dlopen Dlsym for ans
  by unfold_locales
     (auto simp: dlfcn_def dlfcn_init_def dlfcn_link_def dlfcn_symbol_def run_jni clean_def
       split: if_splits)

definition dyld_encoded :: "bool \<Rightarrow> string \<Rightarrow> string" where
  "dyld_encoded left_first nam =
     (case dyld_name left_first nam (replicate (length nam + 2) NUL) of Inl e \<Rightarrow> [] | Inr n \<Rightarrow> n)"

interpretation dyld_loader: dso_loader "dyld ans lf" NSAddLibrary
    "\<lambda>l n. NSLookupAndBindSymbol (dyld_encoded lf n)" for ans lf
  by unfold_locales
     (auto simp: dyld_def dyld_init_def dyld_link_def dyld_symbol_def dyld_encoded_def run_jni clean_def
       split: if_splits sum.splits)

section \<open>Properties\<close>

text \<open>C22. The array handed to the VM is filled exactly: every option of the command line in its
  order, then the process number, the parent's number, the version and the abort hook; no slot
  is left uninitialised, nothing is written behind the array, and no text is cut.\<close>

theorem vm_arguments_complete:
  assumes "\<bar>pid\<bar> < 2 ^ 31" "\<bar>ppid\<bar> < 2 ^ 31"
  shows "vm_arguments a pid ppid = Inr (map Some (map VM_Option (opts a) @
     [VM_Option (''-Dcommons.daemon.process.id='' @ show_int pid),
      VM_Option (''-Dcommons.daemon.process.parent='' @ show_int ppid),
      VM_Option ''-Dcommons.daemon.version=1.0.15-dev'',
      VM_Abort_Hook ''abort'']))"
proof -
  have v: "JSVC_VERSION_STRING = ''1.0.15-dev''" by code_simp
  show ?thesis
    using assms [THEN length_show_int] unfolding vm_arguments_eq v
    by (simp add: daemonprocid_def)
qed

theorem vm_arguments_complete_witness:
  "vm_arguments (init_args False) 321 1 = Inr (map Some (map VM_Option (opts (init_args False)) @
     [VM_Option (''-Dcommons.daemon.process.id='' @ show_int 321),
      VM_Option (''-Dcommons.daemon.process.parent='' @ show_int 1),
      VM_Option ''-Dcommons.daemon.version=1.0.15-dev'',
      VM_Abort_Hook ''abort'']))"
  by (rule vm_arguments_complete) simp_all

text \<open>C20. A VM is initialised in the order the native interface asks for: with \<^verbatim>\<open>dlopen\<close> as the
  loader, whatever fails on the way no call breaks the protocol; and when \<open>java_init\<close> succeeds,
  the selected library was opened, its entry point found and called with the options of the
  command line, and the loader class and its native methods are in place.\<close>

theorem java_init_protocol:
  assumes "os_of plat \<noteq> OS_DARWIN" "\<not> osd_posix plat"
    and "run_state (java_init plat ans (dlfcn ans) stat a d pid ppid) [] = (Done r, tr)"
  shows "obeys th tr \<and> (r \<longrightarrow> ready th tr \<and> (CreateJavaVM (vm_options a pid ppid), True) \<in> set tr \<and>
     (\<exists>l. java_library a d = Some l \<and> (Dlopen l, True) \<in> set tr
        \<and> (Dlsym l ''JNI_CreateJavaVM'', True) \<in> set tr))"
proof -
  have "clean th []" by (simp add: clean_def started_def)
  from dlfcn_loader.java_init_sound [OF this assms(3)] assms(1,2) show ?thesis
    by (auto simp: dlfcn_loader.usable_entry_def)
qed

definition linux :: platform where
  "linux = \<lparr>os_of = OS_LINUX, lp64 = True, osd_posix = False, cpu = ''amd64'', so_ext = ''so''\<rparr>"

definition one_jvm :: home_data where
  "one_jvm = \<lparr>hpath = ''/j'', cfgf = None, jvms = [\<lparr>jvm_label = None, libr = ''/j/libjvm.so''\<rparr>]\<rparr>"

lemmas init_eval = java_init_def java_library_def linux_def one_jvm_def init_args_def dlfcn_def
  dlfcn_init_def dlfcn_link_def dlfcn_symbol_def link_entry_def prepare_vm_def create_vm_def

lemma example_init:
  "\<exists>tr. run_state (java_init linux (\<lambda>_ _. True) (dlfcn (\<lambda>_ _. True)) (\<lambda>_. None) (init_args False)
      one_jvm 321 1) [] = (Done True, tr)"
  by (simp add: init_eval run_jni vm_arguments_eq)

theorem java_init_protocol_witness:
  "\<exists>tr. (obeys (\<lambda>_. True) tr \<and> ready (\<lambda>_. True) tr \<and> (CreateJavaVM (vm_options (init_args False) 321 1), True) \<in> set tr)
     \<and> java_library (init_args False) one_jvm = Some ''/j/libjvm.so''
     \<and> (Dlsym ''/j/libjvm.so'' ''JNI_CreateJavaVM'', True) \<in> set tr"
proof -
  obtain tr where run: "run_state (java_init linux (\<lambda>_ _. True) (dlfcn (\<lambda>_ _. True)) (\<lambda>_. None)
      (init_args False) one_jvm 321 1) [] = (Done True, tr)" using example_init by blast
  have lib: "java_library (init_args False) one_jvm = Some ''/j/libjvm.so''"
    by (simp add: java_library_def one_jvm_def init_args_def)
  have "os_of linux \<noteq> OS_DARWIN" "\<not> osd_posix linux" by (simp_all add: linux_def)
  from java_init_protocol [OF this run] lib show ?thesis by auto
qed

text \<open>C21. A successful \<open>java_load\<close> ends with the call of \<open>load\<close> on the loader class, with the
  class name and with every class argument of the command line, in its order; it keeps the
  protocol also on every error path, and further calls are allowed unless \<open>load\<close> has thrown.\<close>

theorem java_load_passes_arguments:
  assumes "ready th tr" "clas a = Some c" "run_state (java_load ans a) tr = (r, tr')"
  shows "obeys th tr' \<and> (r \<longrightarrow> (\<not> th tr' \<longrightarrow> ready th tr') \<and> hd tr' =
     (CallStaticBooleanMethod LOADER ''load'' [JString c, JArray (map Some (cargs a))], True))"
proof -
  have "obeys th tr' \<and> (r \<longrightarrow> \<not> th tr' \<longrightarrow> ready th tr')"
    using assms(2) by (intro java_load_obeys [OF assms(1,3)]) simp
  moreover have "hd tr' =
      (CallStaticBooleanMethod LOADER ''load'' [JString c, JArray (map Some (cargs a))], True)" if r
    using assms(2,3) that
    by (auto simp: java_load_def call_loader_def run_jni dest!: fill_array_contents
        split: if_splits option.splits prod.splits)
  ultimately show ?thesis by blast
qed

theorem java_load_passes_arguments_witness:
  "\<exists>tr' r. obeys (\<lambda>_. False) tr' \<and> (r \<and> ready (\<lambda>_. False) tr' \<and> hd tr' =
     (CallStaticBooleanMethod LOADER ''load'' [JString ''Main'', JArray [Some ''-x'', Some ''y'']], True))"
proof -
  let ?a = "(init_args False)\<lparr>clas := Some ''Main'', cargs := [''-x'', ''y'']\<rparr>"
  let ?tr = "[(FindClass LOADER, True), (CreateJavaVM [], True)]"
  have "\<exists>tr'. run_state (java_load (\<lambda>_ _. True) ?a) ?tr = (True, tr')"
    by (simp add: java_load_def call_loader_def run_jni)
  then obtain tr' where run: "run_state (java_load (\<lambda>_ _. True) ?a) ?tr = (True, tr')" by blast
  have "ready (\<lambda>_. False) ?tr" by (simp add: ready_def started_def)
  from java_load_passes_arguments [OF this _ run, of "''Main''"] show ?thesis by auto
qed

end
