(* ===== verification/User_Switch.thy ===== *)
theory User_Switch
  imports Jsvc_Prelude
begin

text \<open>
  The user, group and capability part of \<^verbatim>\<open>jsvc-unix.c\<close> (from \<open>set_user_group\<close> to
  \<open>checkuser\<close>). The credentials of the process are a record; the system calls are a record
  of functions on it, a parameter of every definition, where \<open>None\<close> is a call that fails.
  The library \<^verbatim>\<open>libcap\<close> is a parameter too. \<open>posix_kernel\<close> and \<open>libcap_documented\<close> state what
  their manual pages promise of a call that succeeds.

  The record has one user id. The program is not installed with a set-uid bit, so its real,
  effective and saved ids coincide; then a successful \<open>setuid (u)\<close> leaves all three at \<open>u\<close>: a
  privileged call sets all of them, and an unprivileged one succeeds only if \<open>u\<close> is the common id
  already. A process whose three ids differ is outside the model.
\<close>

section \<open>The process and the calls\<close>

type_synonym capset = "32 word"

record proc =
  p_uid :: int
  p_gid :: int
  p_groups :: "(string \<times> int) option" \<comment> \<open>what \<open>initgroups\<close> was last called with\<close>
  p_effective :: capset
  p_permitted :: capset
  p_inheritable :: capset
  p_keepcaps :: bool

record kernel =
  k_setgid :: "int \<Rightarrow> proc \<Rightarrow> proc option"
  k_initgroups :: "string \<Rightarrow> int \<Rightarrow> proc \<Rightarrow> proc option"
  k_setuid :: "int \<Rightarrow> proc \<Rightarrow> proc option"
  k_keepcaps :: "proc \<Rightarrow> proc option" \<comment> \<open>\<open>prctl (PR_SET_KEEPCAPS, 1, 0, 0, 0)\<close>\<close>
  k_capset :: "capset \<Rightarrow> capset \<Rightarrow> capset \<Rightarrow> proc \<Rightarrow> proc option" \<comment> \<open>effective, permitted, inheritable\<close>

definition posix_kernel :: "kernel \<Rightarrow> bool" where
  "posix_kernel k \<longleftrightarrow>
     (\<forall>g p p'. k_setgid k g p = Some p' \<longrightarrow> p' = p\<lparr>p_gid := g\<rparr>) \<and>
     (\<forall>u g p p'. k_initgroups k u g p = Some p' \<longrightarrow> p' = p\<lparr>p_groups := Some (u, g)\<rparr>) \<and>
     (\<forall>u p p'. k_setuid k u p = Some p' \<longrightarrow>
        p_uid p' = u \<and> p_gid p' = p_gid p \<and> p_groups p' = p_groups p
        \<and> (p_keepcaps p \<longrightarrow> p_permitted p' = p_permitted p)) \<and>
     (\<forall>p p'. k_keepcaps k p = Some p' \<longrightarrow> p' = p\<lparr>p_keepcaps := True\<rparr>) \<and>
     (\<forall>e q i p p'. k_capset k e q i p = Some p' \<longrightarrow>
        p' = p\<lparr>p_effective := e, p_permitted := q, p_inheritable := i\<rparr>)"

section \<open>User and group\<close>

definition set_user_group :: "kernel \<Rightarrow> string option \<Rightarrow> int \<Rightarrow> int \<Rightarrow> proc \<Rightarrow> int \<times> proc" where
  "set_user_group k user uid gid p =
     (case user of
        None \<Rightarrow> (0, p)
      | Some u \<Rightarrow>
          (case k_setgid k gid p of
             None \<Rightarrow> (- 1, p)
           | Some p1 \<Rightarrow>
               (case k_initgroups k u gid p1 of
                  None \<Rightarrow>
                    if p_uid p1 \<noteq> uid then (- 1, p1)
                    else (0, p1)
                | Some p2 \<Rightarrow>
                    if p_uid p2 = uid then (0, p2)
                    else (case k_setuid k uid p2 of
                            None \<Rightarrow> (- 1, p2)
                          | Some p3 \<Rightarrow> (0, p3)))))"

section \<open>Capabilities\<close>

text \<open>The bit numbers of \<^verbatim>\<open>linux/capability.h\<close>.\<close>

definition cap_bit :: "nat \<Rightarrow> capset" where
  "cap_bit n = push_bit n 1"

abbreviation CAP_DAC_OVERRIDE :: nat where "CAP_DAC_OVERRIDE \<equiv> 1"
abbreviation CAP_DAC_READ_SEARCH :: nat where "CAP_DAC_READ_SEARCH \<equiv> 2"
abbreviation CAP_SETGID :: nat where "CAP_SETGID \<equiv> 6"
abbreviation CAP_SETUID :: nat where "CAP_SETUID \<equiv> 7"
abbreviation CAP_NET_BIND_SERVICE :: nat where "CAP_NET_BIND_SERVICE \<equiv> 10"

definition LEGACY_CAPSALL :: capset where
  "LEGACY_CAPSALL = cap_bit CAP_NET_BIND_SERVICE + cap_bit CAP_SETUID + cap_bit CAP_SETGID
     + cap_bit CAP_DAC_READ_SEARCH + cap_bit CAP_DAC_OVERRIDE"

definition LEGACY_CAPSMAX :: capset where
  "LEGACY_CAPSMAX = cap_bit CAP_NET_BIND_SERVICE + cap_bit CAP_DAC_READ_SEARCH + cap_bit CAP_DAC_OVERRIDE"

definition LEGACY_CAPS :: capset where
  "LEGACY_CAPS = cap_bit CAP_NET_BIND_SERVICE + cap_bit CAP_DAC_READ_SEARCH + cap_bit CAP_SETUID
     + cap_bit CAP_SETGID"

definition LEGACY_CAPSMIN :: capset where
  "LEGACY_CAPSMIN = cap_bit CAP_NET_BIND_SERVICE + cap_bit CAP_DAC_READ_SEARCH"

definition set_legacy_caps :: "kernel \<Rightarrow> capset \<Rightarrow> proc \<Rightarrow> int \<times> proc" where
  "set_legacy_caps k caps p =
     (case k_capset k caps caps caps p of None \<Rightarrow> (- 1, p) | Some p' \<Rightarrow> (0, p'))"

text \<open>
  The build with \<^verbatim>\<open>libcap\<close>: the library is looked for in the table and its six functions
  are resolved. A library is what its name resolves to, the set of its symbols; \<open>hlibcap\<close>
  is the handle kept in a static variable.
\<close>

definition caps_std :: "nat list" where
  "caps_std = [CAP_NET_BIND_SERVICE, CAP_SETUID, CAP_SETGID, CAP_DAC_READ_SEARCH]"

definition caps_min :: "nat list" where
  "caps_min = [CAP_NET_BIND_SERVICE, CAP_DAC_READ_SEARCH]"

definition libcap_locs :: "bool \<Rightarrow> path list" where
  "libcap_locs lp64 =
     (if lp64
      then [''/lib64/libcap.so.2'', ''/lib64/libcap.so.1'', ''/lib64/libcap.so'',
            ''/usr/lib64/libcap.so.2'', ''/usr/lib64/libcap.so.1'', ''/usr/lib64/libcap.so'']
      else [])
     @ [''/lib/libcap.so.2'', ''/lib/libcap.so.1'', ''/lib/libcap.so'',
        ''/usr/lib/libcap.so.2'', ''/usr/lib/libcap.so.1'', ''/usr/lib/libcap.so'',
        ''libcap.so.2'', ''libcap.so.1'', ''libcap.so'']"

definition libcap_symbols :: "string list" where
  "libcap_symbols =
     [''cap_free'', ''cap_init'', ''cap_clear'', ''cap_get_flag'', ''cap_set_flag'', ''cap_set_proc'']"

fun link_first :: "(path \<Rightarrow> string set option) \<Rightarrow> path list \<Rightarrow> (path \<times> string set) option" where
  "link_first dso_link [] = None"
| "link_first dso_link (l # ls) =
     (case dso_link l of Some syms \<Rightarrow> Some (l, syms) | None \<Rightarrow> link_first dso_link ls)"

definition ld_libcap ::
  "bool \<Rightarrow> (path \<Rightarrow> string set option) \<Rightarrow> path option \<Rightarrow> int \<times> path option" where
  "ld_libcap lp64 dso_link hlibcap =
     (if hlibcap \<noteq> None then (0, hlibcap)
      else case link_first dso_link (libcap_locs lp64) of
        None \<Rightarrow> (- 1, hlibcap)
      | Some (dso, syms) \<Rightarrow>
          if list_all (\<lambda>s. s \<in> syms) libcap_symbols then (0, Some dso) else (- 1, hlibcap))"

text \<open>
  The functions of \<^verbatim>\<open>libcap\<close> that are called, over its own type of capability states.
\<close>

datatype cap_flag = CAP_EFFECTIVE | CAP_PERMITTED | CAP_INHERITABLE

record 'c libcap =
  cap_init :: 'c
  cap_clear :: "'c \<Rightarrow> 'c"
  cap_set_flag :: "'c \<Rightarrow> cap_flag \<Rightarrow> nat list \<Rightarrow> bool \<Rightarrow> 'c"
  cap_set_proc :: "'c \<Rightarrow> proc \<Rightarrow> proc option"

text \<open>The argument of \<open>set_caps\<close>: \<open>CAPS\<close> is 1 and \<open>CAPSMIN\<close> is 2 in this build.\<close>

definition CAPS_type :: capset where "CAPS_type = 1"
definition CAPSMIN_type :: capset where "CAPSMIN_type = 2"

definition set_caps_libcap ::
  "kernel \<Rightarrow> 'c libcap \<Rightarrow> bool \<Rightarrow> (path \<Rightarrow> string set option) \<Rightarrow> capset \<Rightarrow> path option \<Rightarrow> proc
     \<Rightarrow> (int \<times> proc) \<times> path option" where
  "set_caps_libcap k lib lp64 dso_link cap_type hlibcap p =
     (case ld_libcap lp64 dso_link hlibcap of (rc, h) \<Rightarrow>
        if rc \<noteq> 0 then (set_legacy_caps k cap_type p, h)
        else
          let caps = (if cap_type = CAPS_type then caps_std else caps_min);
              flag = (cap_type = CAPS_type \<or> cap_type = CAPSMIN_type);
              c = cap_clear lib (cap_init lib);
              c = cap_set_flag lib c CAP_EFFECTIVE caps flag;
              c = cap_set_flag lib c CAP_INHERITABLE caps flag;
              c = cap_set_flag lib c CAP_PERMITTED caps flag
          in (case cap_set_proc lib c p of None \<Rightarrow> (- 1, p) | Some p' \<Rightarrow> (0, p'), h))"

text \<open>
  One value for the two builds: the arguments \<open>CAPS\<close>, \<open>CAPSMIN\<close> and \<open>0\<close> and the function
  \<open>set_caps\<close> as the preprocessor leaves them. The static handle of \<^verbatim>\<open>libcap\<close> is threaded.
\<close>

datatype cap_request = CAPS | CAPSMIN | CAPS_NONE

definition set_caps_legacy :: "kernel \<Rightarrow> cap_request \<Rightarrow> proc \<Rightarrow> int \<times> proc" where
  "set_caps_legacy k r p =
     set_legacy_caps k (case r of CAPS \<Rightarrow> LEGACY_CAPS | CAPSMIN \<Rightarrow> LEGACY_CAPSMIN | CAPS_NONE \<Rightarrow> 0) p"

definition set_caps_lib ::
  "kernel \<Rightarrow> 'c libcap \<Rightarrow> bool \<Rightarrow> (path \<Rightarrow> string set option) \<Rightarrow> cap_request \<Rightarrow> path option \<Rightarrow> proc
     \<Rightarrow> (int \<times> proc) \<times> path option" where
  "set_caps_lib k lib lp64 dso_link r =
     set_caps_libcap k lib lp64 dso_link
       (case r of CAPS \<Rightarrow> CAPS_type | CAPSMIN \<Rightarrow> CAPSMIN_type | CAPS_NONE \<Rightarrow> 0)"

text \<open>\<open>linuxset_user_group\<close> over either \<open>set_caps\<close>, whose state beside the process is \<open>'h\<close>.\<close>

definition linuxset_user_group ::
  "kernel \<Rightarrow> (cap_request \<Rightarrow> 'h \<Rightarrow> proc \<Rightarrow> (int \<times> proc) \<times> 'h) \<Rightarrow> string option \<Rightarrow> int \<Rightarrow> int
     \<Rightarrow> 'h \<Rightarrow> proc \<Rightarrow> (int \<times> proc) \<times> 'h" where
  "linuxset_user_group k set_caps user uid gid h p =
     (case user of
        None \<Rightarrow> ((0, p), h)
      | Some u \<Rightarrow>
          let root = (p_uid p = 0);
              prepared =
                (if root
                 then case set_caps CAPS h p of ((rc, p1), h1) \<Rightarrow>
                   if rc \<noteq> 0 \<and> p_uid p1 \<noteq> uid then Inl (p1, h1)
                   else (case k_keepcaps k p1 of None \<Rightarrow> Inl (p1, h1) | Some p2 \<Rightarrow> Inr (p2, h1))
                 else Inr (p, h))
          in case prepared of
               Inl (p2, h2) \<Rightarrow> ((- 1, p2), h2)
             | Inr (p2, h2) \<Rightarrow>
                 (case set_user_group k (Some u) uid gid p2 of (rc, p3) \<Rightarrow>
                    if rc \<noteq> 0 then ((- 1, p3), h2)
                    else if root
                    then case set_caps CAPSMIN h2 p3 of ((rc', p4), h4) \<Rightarrow>
                      if rc' \<noteq> 0 \<and> p_uid p4 \<noteq> uid then ((- 1, p4), h4) else ((0, p4), h4)
                    else ((0, p3), h2)))"

section \<open>Checking the user\<close>

text \<open>
  The child of \<open>checkuser\<close> tries the switch and exits with 0 or 1; \<open>reaped\<close> is what the parent
  learns of a child with that exit code, \<open>None\<close> when the \<open>fork\<close> failed.
\<close>

datatype wstatus = Exited int | Signaled int | Stopped_or_other

definition checkuser ::
  "kernel \<Rightarrow> (string \<Rightarrow> (int \<times> int) option) \<Rightarrow> (int \<Rightarrow> wstatus option) \<Rightarrow> string option
     \<Rightarrow> int \<Rightarrow> int \<Rightarrow> proc \<Rightarrow> bool \<times> int \<times> int" where
  "checkuser k getpwnam reaped user uid gid p =
     (case user of
        None \<Rightarrow> (True, uid, gid)
      | Some u \<Rightarrow>
          (case getpwnam u of
             None \<Rightarrow> (False, uid, gid)
           | Some (pw_uid, pw_gid) \<Rightarrow>
               let child = (if fst (set_user_group k (Some u) pw_uid pw_gid p) \<noteq> 0 then 1 else 0)
               in (case reaped child of
                     None \<Rightarrow> False
                   | Some (Exited status) \<Rightarrow> status = 0
                   | Some _ \<Rightarrow> False, pw_uid, pw_gid)))"

section \<open>Facts about the calls\<close>

fun cap_mask :: "nat list \<Rightarrow> capset" where
  "cap_mask [] = 0"
| "cap_mask (c # cs) = or (cap_bit c) (cap_mask cs)"

text \<open>
  What \<^verbatim>\<open>libcap\<close>'s manual pages say: \<open>view\<close> reads the three sets of a capability state.
\<close>

definition libcap_documented :: "kernel \<Rightarrow> 'c libcap \<Rightarrow> ('c \<Rightarrow> cap_flag \<Rightarrow> capset) \<Rightarrow> bool" where
  "libcap_documented k lib view \<longleftrightarrow>
     (\<forall>c f. view (cap_clear lib c) f = 0) \<and>
     (\<forall>c f cs v f'. view (cap_set_flag lib c f cs v) f' =
        (if f' = f then if v then or (view c f) (cap_mask cs) else and (view c f) (not (cap_mask cs))
         else view c f')) \<and>
     (\<forall>c p. cap_set_proc lib c p =
        k_capset k (view c CAP_EFFECTIVE) (view c CAP_PERMITTED) (view c CAP_INHERITABLE) p)"

lemma legacy_masks: "LEGACY_CAPS = cap_mask caps_std" "LEGACY_CAPSMIN = cap_mask caps_min"
  by (simp_all add: LEGACY_CAPS_def LEGACY_CAPSMIN_def caps_std_def caps_min_def cap_bit_def)

lemma kernel_calls:
  assumes "posix_kernel k"
  shows "k_setgid k g p = Some p' \<Longrightarrow> p' = p\<lparr>p_gid := g\<rparr>"
    and "k_initgroups k u g p = Some p' \<Longrightarrow> p' = p\<lparr>p_groups := Some (u, g)\<rparr>"
    and "k_keepcaps k p = Some p' \<Longrightarrow> p' = p\<lparr>p_keepcaps := True\<rparr>"
    and "k_capset k e q i p = Some p' \<Longrightarrow>
      p' = p\<lparr>p_effective := e, p_permitted := q, p_inheritable := i\<rparr>"
    and "k_setuid k v p = Some p' \<Longrightarrow>
      p_uid p' = v \<and> p_gid p' = p_gid p \<and> p_groups p' = p_groups p
      \<and> (p_keepcaps p \<longrightarrow> p_permitted p' = p_permitted p)"
  using assms by (auto simp: posix_kernel_def)

lemmas capset_frame = kernel_calls(4)

lemma set_user_group_result:
  assumes k: "posix_kernel k" and run: "set_user_group k (Some u) uid gid p = (rc, p')"
  shows "rc \<in> {0, - 1} \<and>
    (rc = 0 \<longrightarrow> p_uid p' = uid \<and> p_gid p' = gid \<and> (p_groups p' = Some (u, gid) \<or> p_uid p = uid)
       \<and> (p_keepcaps p \<longrightarrow> p_permitted p' = p_permitted p))"
proof (cases "k_setgid k gid p")
  case None
  with run show ?thesis by (auto simp: set_user_group_def)
next
  case (Some p1)
  note p1 = this kernel_calls(1) [OF k this]
  show ?thesis
  proof (cases "k_initgroups k u gid p1")
    case None
    with run p1 show ?thesis by (auto simp: set_user_group_def split: if_splits)
  next
    case (Some p2)
    with run p1 kernel_calls(2) [OF k Some] show ?thesis
      by (auto simp: set_user_group_def split: if_splits option.splits
          dest: kernel_calls(5) [OF k])
  qed
qed

text \<open>
  The interface \<open>linuxset_user_group\<close> relies on: \<open>set_caps\<close> changes capabilities only, and
  nothing when it fails. The laws hold under an assumption \<open>env_ok\<close> on the system.
\<close>

locale caps_setter =
  fixes env_ok :: bool
    and k :: kernel
    and set_caps :: "cap_request \<Rightarrow> 'h \<Rightarrow> proc \<Rightarrow> (int \<times> proc) \<times> 'h"
  assumes kernel: "env_ok \<Longrightarrow> posix_kernel k"
    and ids: "env_ok \<Longrightarrow> set_caps r h p = ((rc, p'), h') \<Longrightarrow>
      p_uid p' = p_uid p \<and> p_gid p' = p_gid p \<and> p_groups p' = p_groups p \<and> p_keepcaps p' = p_keepcaps p"
    and failed: "env_ok \<Longrightarrow> set_caps r h p = ((rc, p'), h') \<Longrightarrow> rc \<noteq> 0 \<Longrightarrow> p' = p"
begin

lemma switched:
  assumes "env_ok" "linuxset_user_group k set_caps (Some u) uid gid h p = ((0, p'), h')"
  shows "p_uid p' = uid \<and> p_gid p' = gid \<and> (p_groups p' = Some (u, gid) \<or> p_uid p = uid)"
proof -
  obtain p2 h2 p3 where sug: "set_user_group k (Some u) uid gid p2 = (0, p3)"
    and before: "p_uid p2 = p_uid p"
    and after: "p' = p3 \<or> (\<exists>rc. set_caps CAPSMIN h2 p3 = ((rc, p'), h'))"
  proof (cases "p_uid p = 0")
    case True
    obtain rc p1 h1 where c: "set_caps CAPS h p = ((rc, p1), h1)" by (metis surj_pair)
    with assms True obtain p2 where p2: "k_keepcaps k p1 = Some p2"
      by (auto simp: linuxset_user_group_def split: if_splits option.splits)
    obtain rc3 p3 where s: "set_user_group k (Some u) uid gid p2 = (rc3, p3)" by fastforce
    obtain rc4 p4 h4 where m: "set_caps CAPSMIN h1 p3 = ((rc4, p4), h4)" by (metis surj_pair)
    from assms(2) True c p2 s m have "rc3 = 0" "p' = p4" "h' = h4"
      by (auto simp: linuxset_user_group_def split: if_splits)
    moreover have "p_uid p2 = p_uid p"
      using ids [OF assms(1) c] kernel_calls(3) [OF kernel [OF assms(1)] p2] by simp
    ultimately show thesis using that [of p2 p3 h1] s m by blast
  next
    case False
    with assms(2) that [of p p' h] show thesis
      by (auto simp: linuxset_user_group_def split: prod.splits if_splits)
  qed
  have "p_uid p' = p_uid p3 \<and> p_gid p' = p_gid p3 \<and> p_groups p' = p_groups p3"
    using after ids [OF assms(1)] by blast
  then show ?thesis using set_user_group_result [OF kernel [OF assms(1)] sug] before by auto
qed

lemma capsmin_failure_ignored:
  assumes "env_ok" "p_uid p = 0" "set_caps CAPS h p = ((0, p1), h1)" "k_keepcaps k p1 = Some p2"
    and "set_user_group k (Some u) uid gid p2 = (0, p3)"
    and "set_caps CAPSMIN h1 p3 = ((rc, p4), h4)" "rc \<noteq> 0"
  shows "linuxset_user_group k set_caps (Some u) uid gid h p = ((0, p4), h4)
           \<and> p_permitted p4 = p_permitted p1"
proof -
  have p2: "p2 = p1\<lparr>p_keepcaps := True\<rparr>"
    using kernel_calls(3) [OF kernel [OF assms(1)] assms(4)] .
  have "p_uid p3 = uid" "p_permitted p3 = p_permitted p2"
    using set_user_group_result [OF kernel [OF assms(1)] assms(5)] p2 by auto
  moreover have "p4 = p3" using failed [OF assms(1,6,7)] .
  ultimately show ?thesis using assms p2 by (simp add: linuxset_user_group_def)
qed

end

interpretation legacy_build:
  caps_setter "posix_kernel k" k "\<lambda>r (h :: unit) p. (set_caps_legacy k r p, h)" for k
  by unfold_locales
     (auto simp: set_caps_legacy_def set_legacy_caps_def dest!: capset_frame split: option.splits)

interpretation libcap_build:
  caps_setter "posix_kernel k \<and> libcap_documented k lib view" k "set_caps_lib k lib lp64 dso_link"
  for k lib view lp64 dso_link
  by unfold_locales
     (auto simp: set_caps_lib_def set_caps_libcap_def set_legacy_caps_def libcap_documented_def Let_def
       dest!: capset_frame split: option.splits prod.splits if_splits)

section \<open>Properties\<close>

text \<open>A switch of user that reports success has happened: in the build without \<^verbatim>\<open>libcap\<close> the
  process runs with the user and group of the requested account, and its supplementary
  groups are those of the account unless it ran as that user already.\<close>

theorem user_switched_legacy:
  assumes "posix_kernel k"
    and "linuxset_user_group k (\<lambda>r (h :: unit) p. (set_caps_legacy k r p, h)) (Some u) uid gid () p
           = ((0, p'), h')"
  shows "p_uid p' = uid \<and> p_gid p' = gid \<and> (p_groups p' = Some (u, gid) \<or> p_uid p = uid)"
  using assms by (rule legacy_build.switched)

text \<open>C26. The same guarantee for the build with \<^verbatim>\<open>libcap\<close>, whether or not the library can be
  loaded.\<close>

theorem user_switched_libcap:
  assumes "posix_kernel k \<and> libcap_documented k lib view"
    and "linuxset_user_group k (set_caps_lib k lib lp64 dso_link) (Some u) uid gid h p = ((0, p'), h')"
  shows "p_uid p' = uid \<and> p_gid p' = gid \<and> (p_groups p' = Some (u, gid) \<or> p_uid p = uid)"
  using assms by (rule libcap_build.switched)

text \<open>Dropping to the minimal capabilities may fail unnoticed: after the switch \<open>getuid ()\<close> is
  always the new user, so the error branch cannot be taken, and the process goes on as the
  unprivileged user with the full start-up set still permitted.\<close>

theorem capsmin_failure_unnoticed:
  assumes "posix_kernel k" "p_uid p = 0" "set_caps_legacy k CAPS p = (0, p1)"
    and "k_keepcaps k p1 = Some p2" "set_user_group k (Some u) uid gid p2 = (0, p3)"
    and "set_caps_legacy k CAPSMIN p3 = (rc, p4)" "rc \<noteq> 0"
  shows "linuxset_user_group k (\<lambda>r (h :: unit) p. (set_caps_legacy k r p, h)) (Some u) uid gid () p
           = ((0, p4), ()) \<and> p_permitted p4 = LEGACY_CAPS"
proof -
  have "p_permitted p1 = LEGACY_CAPS"
    using assms(1,3) by (auto simp: set_caps_legacy_def set_legacy_caps_def dest!: capset_frame
        split: option.splits)
  then show ?thesis
    using legacy_build.capsmin_failure_ignored [OF assms(1,2), of "()" p1 "()" p2 u uid gid p3 rc p4 "()"]
      assms by simp
qed

text \<open>C27. With \<^verbatim>\<open>libcap\<close> loaded, \<open>set_caps\<close> asks the kernel for exactly the masks of the build
  without the library, in all three sets.\<close>

theorem libcap_matches_legacy:
  assumes "libcap_documented k lib view" "fst (ld_libcap lp64 dso_link h) = 0"
  shows "fst (set_caps_lib k lib lp64 dso_link r h p) = set_caps_legacy k r p"
  using assms
  by (cases r)
     (auto simp: set_caps_lib_def set_caps_libcap_def set_caps_legacy_def set_legacy_caps_def
       libcap_documented_def Let_def CAPS_type_def CAPSMIN_type_def legacy_masks
       split: prod.splits option.splits)

text \<open>When the library cannot be loaded, the request number itself goes to the kernel as the
  mask: \<open>CAPS\<close> asks for bit 0 only, so none of the capabilities needed for the switch, the
  user change among them, is in the set.\<close>

theorem libcap_fallback_wrong_mask:
  assumes "fst (ld_libcap lp64 dso_link h) \<noteq> 0"
  shows "fst (set_caps_lib k lib lp64 dso_link CAPS h p) = set_legacy_caps k 1 p
           \<and> and 1 LEGACY_CAPS = 0"
  using assms
  by (auto simp: set_caps_lib_def set_caps_libcap_def CAPS_type_def LEGACY_CAPS_def cap_bit_def
      split: prod.splits)

text \<open>\<open>checkuser\<close> accepts an account only when a child that tried the switch exited with
  success, and it hands out the ids of the account's password entry.\<close>

theorem checkuser_sound:
  assumes "checkuser k getpwnam reaped (Some u) uid0 gid0 p = (True, uid, gid)"
    and "\<And>c s. reaped c = Some (Exited s) \<Longrightarrow> s = c"
  shows "getpwnam u = Some (uid, gid) \<and> fst (set_user_group k (Some u) uid gid p) = 0"
  using assms
  by (auto simp: checkuser_def Let_def split: option.splits prod.splits if_splits wstatus.splits
      dest: assms(2))

section \<open>Witnesses\<close>

text \<open>A kernel that grants every call, and one that refuses to give up the start-up set.\<close>

definition granting :: kernel where
  "granting = \<lparr>k_setgid = \<lambda>g p. Some (p\<lparr>p_gid := g\<rparr>),
     k_initgroups = \<lambda>u g p. Some (p\<lparr>p_groups := Some (u, g)\<rparr>),
     k_setuid = \<lambda>u p. Some (p\<lparr>p_uid := u\<rparr>),
     k_keepcaps = \<lambda>p. Some (p\<lparr>p_keepcaps := True\<rparr>),
     k_capset = \<lambda>e q i p. Some (p\<lparr>p_effective := e, p_permitted := q, p_inheritable := i\<rparr>)\<rparr>"

definition stubborn :: kernel where
  "stubborn = granting\<lparr>k_capset := \<lambda>e q i p. if e = LEGACY_CAPSMIN then None
     else Some (p\<lparr>p_effective := e, p_permitted := q, p_inheritable := i\<rparr>)\<rparr>"

definition root_proc :: proc where
  "root_proc = \<lparr>p_uid = 0, p_gid = 0, p_groups = None, p_effective = 0, p_permitted = 0,
     p_inheritable = 0, p_keepcaps = False\<rparr>"

definition plain_libcap :: "(cap_flag \<Rightarrow> capset) libcap" where
  "plain_libcap = \<lparr>cap_init = \<lambda>f. 0, cap_clear = \<lambda>c f. 0,
     cap_set_flag = \<lambda>c f cs v f'. if f' = f
       then if v then or (c f) (cap_mask cs) else and (c f) (not (cap_mask cs)) else c f',
     cap_set_proc = \<lambda>c p. k_capset granting (c CAP_EFFECTIVE) (c CAP_PERMITTED) (c CAP_INHERITABLE) p\<rparr>"

lemma posix_granting: "posix_kernel granting" "posix_kernel stubborn"
  by (auto simp: posix_kernel_def granting_def stubborn_def split: if_splits)

lemma plain_libcap_documented: "libcap_documented granting plain_libcap (\<lambda>c. c)"
  by (auto simp: libcap_documented_def plain_libcap_def)

lemmas run_simps = linuxset_user_group_def set_user_group_def set_caps_legacy_def set_legacy_caps_def
  granting_def root_proc_def

theorem user_switched_legacy_witness:
  "\<exists>p'. linuxset_user_group granting (\<lambda>r (h :: unit) p. (set_caps_legacy granting r p, h))
       (Some ''tomcat'') 91 91 () root_proc = ((0, p'), ())
     \<and> p_uid p' = 91 \<and> p_gid p' = 91 \<and> (p_groups p' = Some (''tomcat'', 91) \<or> p_uid root_proc = 91)"
proof -
  obtain p' where run: "linuxset_user_group granting (\<lambda>r (h :: unit) p. (set_caps_legacy granting r p, h))
       (Some ''tomcat'') 91 91 () root_proc = ((0, p'), ())"
    by (simp add: run_simps)
  with user_switched_legacy [OF posix_granting(1) run] show ?thesis by blast
qed

theorem user_switched_libcap_witness:
  "\<exists>p' h'. linuxset_user_group granting (set_caps_lib granting plain_libcap False (\<lambda>l. None))
       (Some ''tomcat'') 91 91 None root_proc = ((0, p'), h')
     \<and> p_uid p' = 91 \<and> p_gid p' = 91 \<and> (p_groups p' = Some (''tomcat'', 91) \<or> p_uid root_proc = 91)"
proof -
  have ld: "ld_libcap False (\<lambda>l. None) None = (- 1, None)"
    by (simp add: ld_libcap_def libcap_locs_def)
  obtain p' h' where run: "linuxset_user_group granting
      (set_caps_lib granting plain_libcap False (\<lambda>l. None)) (Some ''tomcat'') 91 91 None root_proc
      = ((0, p'), h')"
    by (simp add: run_simps set_caps_lib_def set_caps_libcap_def ld)
  have "posix_kernel granting \<and> libcap_documented granting plain_libcap (\<lambda>c. c)"
    by (simp add: posix_granting plain_libcap_documented)
  with user_switched_libcap [OF this run] run show ?thesis by blast
qed

theorem capsmin_failure_unnoticed_witness:
  "\<exists>p4. linuxset_user_group stubborn (\<lambda>r (h :: unit) p. (set_caps_legacy stubborn r p, h))
       (Some ''tomcat'') 91 91 () root_proc = ((0, p4), ()) \<and> p_permitted p4 = LEGACY_CAPS"
proof -
  have ne: "LEGACY_CAPS \<noteq> LEGACY_CAPSMIN"
    by (simp add: LEGACY_CAPS_def LEGACY_CAPSMIN_def cap_bit_def)
  let ?p1 = "root_proc\<lparr>p_effective := LEGACY_CAPS, p_permitted := LEGACY_CAPS, p_inheritable := LEGACY_CAPS\<rparr>"
  let ?p2 = "?p1\<lparr>p_keepcaps := True\<rparr>"
  let ?p3 = "?p2\<lparr>p_gid := 91, p_groups := Some (''tomcat'', 91), p_uid := 91\<rparr>"
  have "linuxset_user_group stubborn (\<lambda>r (h :: unit) p. (set_caps_legacy stubborn r p, h))
       (Some ''tomcat'') 91 91 () root_proc = ((0, ?p3), ()) \<and> p_permitted ?p3 = LEGACY_CAPS"
    by (rule capsmin_failure_unnoticed [where rc = "- 1", OF posix_granting(2), of root_proc ?p1 ?p2])
       (use ne in \<open>simp_all add: run_simps stubborn_def\<close>)
  then show ?thesis by blast
qed

definition has_libcap :: "path \<Rightarrow> string set option" where
  "has_libcap l = (if l = ''libcap.so'' then Some (set libcap_symbols) else None)"

theorem libcap_matches_legacy_witness:
  "fst (set_caps_lib granting plain_libcap True has_libcap CAPSMIN None root_proc) =
     set_caps_legacy granting CAPSMIN root_proc"
  by (rule libcap_matches_legacy [OF plain_libcap_documented])
     (simp add: ld_libcap_def libcap_locs_def has_libcap_def list_all_iff)

theorem libcap_fallback_wrong_mask_witness:
  "fst (set_caps_lib granting plain_libcap True (\<lambda>l. None) CAPS None root_proc) =
     set_legacy_caps granting 1 root_proc \<and> and 1 LEGACY_CAPS = 0"
  by (rule libcap_fallback_wrong_mask) (simp add: ld_libcap_def libcap_locs_def)

theorem checkuser_sound_witness:
  "(\<lambda>u. if u = ''tomcat'' then Some (91, 91) else None) ''tomcat'' = Some (91 :: int, 91 :: int)
     \<and> fst (set_user_group granting (Some ''tomcat'') 91 91 root_proc) = 0"
  by (rule checkuser_sound [of granting _ "\<lambda>c. Some (Exited c)" "''tomcat''" 0 0 root_proc])
     (simp_all add: checkuser_def run_simps)

end
