(* ===== verification/Pid_File.thy ===== *)
theory Pid_File
  imports User_Switch Arguments
begin

text \<open>
  The PID file protocol of \<^verbatim>\<open>jsvc-unix.c\<close> (from \<open>mkdir0\<close> to \<open>stop_child\<close>). The file system,
  the process table and the calls on them are those of POSIX: a name is resolved to its
  components (\<^verbatim>\<open>.\<close> and \<^verbatim>\<open>..\<close> are not interpreted), \<open>denied\<close> marks the nodes the process may
  not touch, and \<open>alive p\<close> says that \<open>kill (p, 0)\<close> succeeds. What the code does between
  \<open>lockf (F_LOCK)\<close> and \<open>lockf (F_ULOCK)\<close> is one step on the world. The polling loops get the
  world of each poll as a function of the poll's number.
\<close>

section \<open>The world\<close>

datatype errno = EACCES | EEXIST | ENOENT | ENOTDIR | EISDIR

datatype node = File string | Dir

record world =
  nodes :: "string list \<Rightarrow> node option"
  denied :: "string list \<Rightarrow> bool"
  workdir :: "string list"
  alive :: "int \<Rightarrow> bool"
  self :: int

definition resolve :: "world \<Rightarrow> path \<Rightarrow> string list" where
  "resolve w name =
     (let cs = filter (\<lambda>c. c \<noteq> []) (split_all (CHR ''/'') name)
      in if take 1 name = ''/'' then cs else workdir w @ cs)"

text \<open>The first thing in the way when the directories of a path are entered one by one.\<close>

definition walk :: "(string list \<Rightarrow> node option) \<Rightarrow> string list \<Rightarrow> errno option" where
  "walk n k =
     (case find (\<lambda>i. n (take i k) \<noteq> Some Dir) [0..<Suc (length k)] of
        None \<Rightarrow> None
      | Some i \<Rightarrow> Some (if n (take i k) = None then ENOENT else ENOTDIR))"

definition sys_mkdir :: "world \<Rightarrow> path \<Rightarrow> errno option \<times> world" where
  "sys_mkdir w name =
     (let k = resolve w name
      in if name = [] then (Some ENOENT, w)
         else if k = [] then (Some EEXIST, w)
         else case walk (nodes w) (butlast k) of
           Some e \<Rightarrow> (Some e, w)
         | None \<Rightarrow>
             if nodes w k \<noteq> None then (Some EEXIST, w)
             else if denied w k then (Some EACCES, w)
             else (None, w\<lparr>nodes := (nodes w)(k \<mapsto> Dir)\<rparr>))"

text \<open>\<open>open\<close> of a regular file, with or without \<open>O_CREAT\<close>: its contents, or the error.\<close>

definition sys_open :: "bool \<Rightarrow> world \<Rightarrow> path \<Rightarrow> (errno + string) \<times> world" where
  "sys_open creat w name =
     (let k = resolve w name
      in if name = [] then (Inl ENOENT, w)
         else if k = [] then (Inl EISDIR, w)
         else case walk (nodes w) (butlast k) of
           Some e \<Rightarrow> (Inl e, w)
         | None \<Rightarrow>
             (case nodes w k of
                Some Dir \<Rightarrow> (Inl EISDIR, w)
              | Some (File s) \<Rightarrow> if denied w k then (Inl EACCES, w) else (Inr s, w)
              | None \<Rightarrow>
                  if \<not> creat then (Inl ENOENT, w)
                  else if denied w k then (Inl EACCES, w)
                  else (Inr [], w\<lparr>nodes := (nodes w)(k \<mapsto> File [])\<rparr>)))"

definition write_file :: "world \<Rightarrow> path \<Rightarrow> string \<Rightarrow> world" where
  "write_file w name s = w\<lparr>nodes := (nodes w)(resolve w name \<mapsto> File s)\<rparr>"

definition sys_unlink :: "world \<Rightarrow> path \<Rightarrow> world" where
  "sys_unlink w name =
     (let k = resolve w name
      in case nodes w k of
           Some (File s) \<Rightarrow> if denied w k then w else w\<lparr>nodes := (nodes w)(k := None)\<rparr>
         | _ \<Rightarrow> w)"

section \<open>Making the directories\<close>

text \<open>A return value is the error number, \<open>None\<close> for 0.\<close>

definition mkdir0 :: "world \<Rightarrow> path \<Rightarrow> errno option \<times> world" where
  "mkdir0 w name = sys_mkdir w name"

function mkdir1 :: "world \<Rightarrow> path \<Rightarrow> errno option \<times> world" where
  "mkdir1 w name =
     (case mkdir0 w name of (rc, w1) \<Rightarrow>
        if rc = Some EEXIST then (None, w1)
        else if rc = Some ENOENT
        then case split_last (CHR ''/'') name of
               None \<Rightarrow> (rc, w1)
             | Some (parent, _) \<Rightarrow>
                 if parent = [] then (rc, w1)
                 else (case mkdir1 w1 parent of
                         (Some e, w2) \<Rightarrow> (Some e, w2)
                       | (None, w2) \<Rightarrow> mkdir0 w2 name)
        else (rc, w1))"
  by pat_completeness auto
termination
  by (relation "measure (\<lambda>(w, name). length name)") (auto simp: split_facts)

declare mkdir1.simps [simp del]

definition mkdir2 :: "world \<Rightarrow> path \<Rightarrow> errno option \<times> world" where
  "mkdir2 w name =
     (case split_last (CHR ''/'') name of
        None \<Rightarrow> (None, w)
      | Some (dir, _) \<Rightarrow> if dir = [] then (None, w) else mkdir1 w dir)"

section \<open>The PID file\<close>

text \<open>
  The number in the file: \<open>read (fd, buff, sizeof (buff))\<close> into 80 bytes, the terminator at
  \<open>buff[i]\<close> behind what was read, \<open>atoi\<close>. \<open>None\<close> when nothing was read.
\<close>

definition read_pid :: "string \<Rightarrow> fault + int option" where
  "read_pid s =
     (let i = length (take 80 s)
      in if 0 < i
         then if i < 80 then Inr (Some (atoi (cstr (take 80 s)))) else Inl Buffer_overrun
         else Inr None)"

definition pid_line :: "int \<Rightarrow> string" where
  "pid_line pid = show_int pid @ [CHR 0x0A]"

text \<open>What follows the successful \<open>open\<close>; the file keeps the old bytes behind the new ones.\<close>

definition claim_pidfile :: "bool \<Rightarrow> path \<Rightarrow> string \<Rightarrow> world \<Rightarrow> fault + int \<times> world" where
  "claim_pidfile readonly name s w =
     (case read_pid s of
        Inl e \<Rightarrow> Inl e
      | Inr pid \<Rightarrow>
          if \<exists>p. pid = Some p \<and> alive w p then Inr (122, w)
          else if \<not> readonly
          then let out = pid_line (self w)
               in Inr (0, write_file w name (out @ drop (length out) s))
          else Inr (0, w))"

fun check_pid_try :: "nat \<Rightarrow> bool \<Rightarrow> path \<Rightarrow> world \<Rightarrow> fault + int \<times> world" where
  "check_pid_try retries readonly name w =
     (case sys_open True w name of
        (Inr s, w1) \<Rightarrow> claim_pidfile readonly name s w1
      | (Inl e, w1) \<Rightarrow>
          if e = ENOTDIR \<or> e = ENOENT
          then case retries of
                 0 \<Rightarrow> Inr (- 1, w1)
               | Suc n \<Rightarrow>
                   (case mkdir2 w1 name of
                      (None, w2) \<Rightarrow> check_pid_try n readonly name w2
                    | (Some _, w2) \<Rightarrow> Inr (- 1, w2))
          else Inr (- 1, w1))"

declare check_pid_try.simps [simp del]

definition check_pid :: "arg_data \<Rightarrow> world \<Rightarrow> fault + int \<times> world" where
  "check_pid a w = check_pid_try 1 (vers a \<or> chck a) (pidf a) w"

definition get_pidf :: "path \<Rightarrow> world \<Rightarrow> fault + int" where
  "get_pidf name w =
     (case fst (sys_open False w name) of
        Inl e \<Rightarrow> Inr (- 1)
      | Inr s \<Rightarrow>
          (case read_pid s of
             Inl e \<Rightarrow> Inl e
           | Inr None \<Rightarrow> Inr (- 1)
           | Inr (Some i) \<Rightarrow> if alive w i then Inr i else Inr (- 1)))"

definition tmp_name :: "int \<Rightarrow> path" where
  "tmp_name pid = ''/tmp/'' @ show_int pid @ ''.jsvc_up''"

definition check_tmp_file :: "path \<Rightarrow> world \<Rightarrow> fault + int" where
  "check_tmp_file name w =
     (case get_pidf name w of
        Inl e \<Rightarrow> Inl e
      | Inr pid \<Rightarrow>
          if pid < 0 then Inr (- 1)
          else (case fst (sys_open False w (tmp_name pid)) of Inl e \<Rightarrow> Inr (- 1) | Inr s \<Rightarrow> Inr 0))"

definition create_tmp_file :: "world \<Rightarrow> world" where
  "create_tmp_file w = snd (sys_open True w (tmp_name (self w)))"

definition remove_tmp_file :: "world \<Rightarrow> world" where
  "remove_tmp_file w = sys_unlink w (tmp_name (self w))"

section \<open>Waiting for the start\<close>

text \<open>
  One poll of \<open>wait_child\<close>: the world it sees, and what its two \<open>waitpid (WNOHANG)\<close> calls
  find. The result comes with the seconds slept.
\<close>

record tick =
  t_world :: world
  t_reap :: "wstatus option"
  t_reap_ready :: "wstatus option"

definition exit_code :: "wstatus \<Rightarrow> int" where
  "exit_code s = (case s of Exited c \<Rightarrow> c | _ \<Rightarrow> 1)"

definition jvm_state :: "path \<Rightarrow> world \<Rightarrow> fault + bool \<times> bool" where
  \<comment> \<open>is the process of the PID file alive, and has it announced that it is ready\<close>
  "jvm_state name w =
     (case fst (sys_open False w name) of
        Inl e \<Rightarrow> Inr (False, False)
      | Inr s \<Rightarrow>
          (case read_pid s of
             Inl e \<Rightarrow> Inl e
           | Inr None \<Rightarrow> Inr (False, False)
           | Inr (Some i) \<Rightarrow>
               if alive w i
               then map_sum id (\<lambda>r. (True, r = 0)) (check_tmp_file name w)
               else Inr (False, False)))"

definition can_open :: "path \<Rightarrow> world \<Rightarrow> bool" where
  "can_open name w = (\<exists>s. fst (sys_open False w name) = Inr s)"

fun wait_loop ::
  "(nat \<Rightarrow> tick) \<Rightarrow> path \<Rightarrow> nat \<Rightarrow> bool \<Rightarrow> nat \<Rightarrow> nat \<Rightarrow> nat \<Rightarrow> fault + int \<times> nat" where
  "wait_loop ticks name waittime havejvm t slept 0 = Inr (1, slept)"
| "wait_loop ticks name waittime havejvm t slept (Suc count) =
     (let tk = ticks t; w = t_world tk; slept = slept + 1
      in case t_reap tk of
           Some st \<Rightarrow> Inr (exit_code st, slept)
         | None \<Rightarrow>
             if \<not> can_open name w \<and> havejvm then Inr (1, slept)
             else case jvm_state name w of
               Inl e \<Rightarrow> Inl e
             | Inr (up, ready) \<Rightarrow>
                 if up \<and> ready
                 then case t_reap_ready tk of
                        Some st \<Rightarrow> Inr (exit_code st, slept)
                      | None \<Rightarrow> Inr (0, slept)
                 else wait_loop ticks name waittime (havejvm \<or> up) (Suc t) (slept + waittime) count)"

definition wait_child :: "arg_data \<Rightarrow> (nat \<Rightarrow> tick) \<Rightarrow> fault + int \<times> nat" where
  "wait_child a ticks =
     (let waittime = nat (wait_time a) div 10
      in if 10 < waittime then wait_loop ticks (pidf a) 10 False 0 0 waittime
         else wait_loop ticks (pidf a) waittime False 0 0 10)"

section \<open>Stopping\<close>

text \<open>The polls of \<open>stop_child\<close>; the result comes with the process that got \<open>SIGTERM\<close>.\<close>

fun stop_loop :: "(nat \<Rightarrow> world) \<Rightarrow> path \<Rightarrow> nat \<Rightarrow> nat \<Rightarrow> fault + int" where
  "stop_loop worlds name t 0 = Inr (- 1)"
| "stop_loop worlds name t (Suc count) =
     (case get_pidf name (worlds t) of
        Inl e \<Rightarrow> Inl e
      | Inr pid \<Rightarrow> if pid \<le> 0 then Inr 0 else stop_loop worlds name (Suc t) count)"

definition stop_child :: "arg_data \<Rightarrow> (nat \<Rightarrow> world) \<Rightarrow> fault + int \<times> int option" where
  "stop_child a worlds =
     (case get_pidf (pidf a) (worlds 0) of
        Inl e \<Rightarrow> Inl e
      | Inr pid \<Rightarrow>
          if 0 < pid then map_sum id (\<lambda>r. (r, Some pid)) (stop_loop worlds (pidf a) 1 60)
          else Inr (- 1, None))"

section \<open>Facts about the calls\<close>

definition same_env :: "world \<Rightarrow> world \<Rightarrow> bool" where
  "same_env w w' \<longleftrightarrow>
     denied w' = denied w \<and> workdir w' = workdir w \<and> alive w' = alive w \<and> self w' = self w"

lemma same_env_refl [simp]: "same_env w w"
  by (simp add: same_env_def)

lemma same_env_trans: "same_env u v \<Longrightarrow> same_env v w \<Longrightarrow> same_env u w"
  by (simp add: same_env_def)

lemma resolve_same: "same_env w w' \<Longrightarrow> resolve w' name = resolve w name"
  by (simp add: same_env_def resolve_def Let_def)

lemma resolve_nodes [simp]: "resolve (w\<lparr>nodes := n\<rparr>) name = resolve w name"
  by (simp add: resolve_def Let_def)

lemma sys_open_env: "sys_open creat w name = (r, w') \<Longrightarrow> same_env w w'"
  by (auto simp: sys_open_def same_env_def Let_def split: if_splits option.splits node.splits)

lemma sys_mkdir_env: "sys_mkdir w name = (r, w') \<Longrightarrow> same_env w w'"
  by (auto simp: sys_mkdir_def same_env_def Let_def split: if_splits option.splits)

lemma mkdir1_env: "mkdir1 w name = (r, w') \<Longrightarrow> same_env w w'"
proof (induction w name arbitrary: r w' rule: mkdir1.induct)
  case (1 w name)
  obtain rc w1 where m: "mkdir0 w name = (rc, w1)" by fastforce
  then have e1: "same_env w w1" by (simp add: mkdir0_def sys_mkdir_env)
  show ?case
  proof (cases "rc = Some ENOENT \<and> (\<exists>parent l. split_last (CHR ''/'') name = Some (parent, l) \<and> parent \<noteq> [])")
    case False
    with "1.prems" m e1 show ?thesis
      by (auto simp: mkdir1.simps [of w name] split: if_splits option.splits)
  next
    case True
    then obtain parent l where p: "rc = Some ENOENT" "split_last (CHR ''/'') name = Some (parent, l)"
      "parent \<noteq> []" by blast
    obtain rc2 w2 where m2: "mkdir1 w1 parent = (rc2, w2)" by fastforce
    have "same_env w1 w2"
      using "1.IH" [OF m [symmetric] _ p(1) p(2) _ p(3)] p m2 by auto
    with e1 have "same_env w w2" by (rule same_env_trans)
    with "1.prems" m m2 p show ?thesis
      by (auto simp: mkdir1.simps [of w name] mkdir0_def split: option.splits
          dest: sys_mkdir_env intro: same_env_trans)
  qed
qed

lemma mkdir2_env: "mkdir2 w name = (r, w') \<Longrightarrow> same_env w w'"
  by (auto simp: mkdir2_def dest: mkdir1_env split: option.splits if_splits)

text \<open>A file that was opened can be opened again after it was written.\<close>

definition opens :: "world \<Rightarrow> path \<Rightarrow> string \<Rightarrow> bool" where
  "opens w name s \<longleftrightarrow>
     name \<noteq> [] \<and> resolve w name \<noteq> [] \<and> walk (nodes w) (butlast (resolve w name)) = None
     \<and> nodes w (resolve w name) = Some (File s) \<and> \<not> denied w (resolve w name)"

lemma opens_iff: "opens w name s \<Longrightarrow> sys_open creat w name = (Inr s, w)"
  by (simp add: opens_def sys_open_def Let_def)

lemma walk_other: "k \<noteq> [] \<Longrightarrow> walk (n(k := x)) (butlast k) = walk n (butlast k)"
proof -
  assume k: "k \<noteq> []"
  have "take i (butlast k) \<noteq> k" for i
    using k by (metis length_butlast length_take min.cobounded1 One_nat_def diff_Suc_less
        length_greater_0_conv not_less min.commute)
  then show ?thesis by (simp add: walk_def cong: option.case_cong)
qed

lemma sys_open_opens: "sys_open True w name = (Inr s, w') \<Longrightarrow> opens w' name s"
  by (auto simp: sys_open_def opens_def Let_def walk_other split: if_splits option.splits node.splits)

lemma opens_write: "opens w name s \<Longrightarrow> opens (write_file w name s') name s'"
  by (simp add: opens_def write_file_def walk_other)

lemma opens_self [simp]: "opens (w\<lparr>self := q\<rparr>) name s = opens w name s"
  by (simp add: opens_def resolve_def Let_def)

lemma check_pid_try_env:
  "check_pid_try n readonly name w = Inr (rc, w') \<Longrightarrow> same_env w w' \<and> rc \<in> {0, 122, - 1}"
proof (induction n readonly name w rule: check_pid_try.induct)
  case (1 n readonly name w)
  obtain r w1 where o: "sys_open True w name = (r, w1)" by fastforce
  note e1 = sys_open_env [OF o]
  show ?case
  proof (cases r)
    case (Inr s)
    with o e1 "1.prems" show ?thesis
      by (auto simp: check_pid_try.simps [of n] claim_pidfile_def Let_def same_env_def write_file_def
          split: sum.splits if_splits)
  next
    case (Inl e)
    show ?thesis
    proof (cases "(e = ENOTDIR \<or> e = ENOENT) \<and> n \<noteq> 0")
      case True
      then obtain m where n: "n = Suc m" by (cases n) auto
      obtain x w2 where m2: "mkdir2 w1 name = (x, w2)" by fastforce
      show ?thesis
      proof (cases x)
        case None
        with o Inl n m2 True "1.prems" have "check_pid_try m readonly name w2 = Inr (rc, w')"
          by (auto simp: check_pid_try.simps [of "Suc m"])
        with "1.IH" [OF o [symmetric] Inl _ n m2 [symmetric] None] True mkdir2_env [OF m2] e1
        show ?thesis by (blast intro: same_env_trans)
      qed (use o Inl n m2 True e1 mkdir2_env [OF m2] "1.prems" in
            \<open>auto simp: check_pid_try.simps [of "Suc m"] intro: same_env_trans\<close>)
    qed (use o Inl e1 "1.prems" in \<open>auto simp: check_pid_try.simps [of n] split: nat.splits\<close>)
  qed
qed

lemma check_pid_env: "check_pid a w = Inr (rc, w') \<Longrightarrow> same_env w w' \<and> rc \<in> {0, 122, - 1}"
  unfolding check_pid_def by (rule check_pid_try_env)

text \<open>The claim is made on a file that is open, in an unchanged environment.\<close>

lemma check_pid_try_claims:
  "check_pid_try n readonly name w = Inr (rc, w') \<Longrightarrow> rc \<noteq> - 1 \<Longrightarrow>
     \<exists>w1 s. same_env w w1 \<and> opens w1 name s \<and> claim_pidfile readonly name s w1 = Inr (rc, w')"
proof (induction n readonly name w rule: check_pid_try.induct)
  case (1 n readonly name w)
  obtain r w1 where o: "sys_open True w name = (r, w1)" by fastforce
  note e1 = sys_open_env [OF o]
  show ?case
  proof (cases r)
    case (Inr s)
    with o e1 "1.prems" sys_open_opens [of w name s w1] show ?thesis
      by (auto simp: check_pid_try.simps [of n])
  next
    case (Inl e)
    with o "1.prems" obtain m w2 where m: "n = Suc m" "mkdir2 w1 name = (None, w2)"
      "e = ENOTDIR \<or> e = ENOENT" "check_pid_try m readonly name w2 = Inr (rc, w')"
      by (auto simp: check_pid_try.simps [of n] split: nat.splits prod.splits option.splits if_splits)
    with "1.IH" o Inl "1.prems"(2) obtain w3 s where
      "same_env w2 w3" "opens w3 name s" "claim_pidfile readonly name s w3 = Inr (rc, w')"
      by fastforce
    moreover have "same_env w w3"
      using e1 mkdir2_env [OF m(2)] calculation(1) by (blast intro: same_env_trans)
    ultimately show ?thesis by blast
  qed
qed

lemma length_pid_line: "0 \<le> pid \<Longrightarrow> pid < 2 ^ 31 \<Longrightarrow> length (pid_line pid) \<le> 11"
  using length_show_nat [of "nat pid" 9] by (simp add: pid_line_def show_int_def)

text \<open>The number is read back whatever the rest of the file holds.\<close>

lemma read_pid_line:
  assumes "0 \<le> pid" "pid < 2 ^ 31" "length (pid_line pid @ r) < 80"
  shows "read_pid (pid_line pid @ r) = Inr (Some pid)"
proof -
  have "cstr (show_int pid @ CHR 0x0A # r) = show_int pid @ CHR 0x0A # cstr r"
    using show_int_no_nul [of pid] by (simp add: cstr_def takeWhile_append2 takeWhile_append)
  moreover have "atoi (show_int pid @ CHR 0x0A # cstr r) = pid"
    using assms by (intro atoi_show_int) (auto simp: digit_in_def)
  ultimately show ?thesis using assms by (simp add: read_pid_def pid_line_def)
qed

lemma read_pid_short: "read_pid s = Inr x \<Longrightarrow> length s < 80"
  by (auto simp: read_pid_def Let_def split: if_splits)

section \<open>Making directories, against the tree\<close>

definition path_of :: "string list \<Rightarrow> path" where
  "path_of cs = concat (map (\<lambda>c. CHR ''/'' # c) cs)"

definition comps_ok :: "string list \<Rightarrow> bool" where
  "comps_ok cs \<longleftrightarrow> list_all (\<lambda>c. c \<noteq> [] \<and> CHR ''/'' \<notin> set c) cs"

text \<open>The first \<open>m\<close> components lead through directories, and nothing is there from then on.\<close>

definition made :: "world \<Rightarrow> string list \<Rightarrow> nat \<Rightarrow> bool" where
  "made w cs m \<longleftrightarrow>
     m \<le> length cs \<and> (\<forall>i \<le> m. nodes w (take i cs) = Some Dir) \<and>
     (\<forall>i. m < i \<and> i \<le> length cs \<longrightarrow> nodes w (take i cs) = None \<and> \<not> denied w (take i cs))"

definition with_dirs :: "world \<Rightarrow> string list \<Rightarrow> nat \<Rightarrow> world" where
  "with_dirs w cs m = w\<lparr>nodes := (\<lambda>k. if \<exists>i \<in> {m <.. length cs}. k = take i cs then Some Dir
     else nodes w k)\<rparr>"

lemma split_all_path: "comps_ok cs \<Longrightarrow> CHR ''/'' \<notin> set c \<Longrightarrow> split_all (CHR ''/'') (c @ path_of cs) = c # cs"
proof (induction cs arbitrary: c)
  case Nil
  then show ?case by (simp add: path_of_def split_all_single)
next
  case (Cons d ds)
  then show ?case by (simp add: path_of_def comps_ok_def split_all_append)
qed

lemma resolve_path_of: "comps_ok cs \<Longrightarrow> cs \<noteq> [] \<Longrightarrow> resolve w (path_of cs) = cs"
proof -
  assume ok: "comps_ok cs" "cs \<noteq> []"
  have "filter (\<lambda>c. c \<noteq> []) cs = cs" using ok(1) by (auto simp: comps_ok_def filter_id_conv list_all_iff)
  moreover have "take 1 (path_of cs) = ''/''" using ok(2) by (cases cs) (auto simp: path_of_def)
  ultimately show ?thesis using split_all_path [of cs "[]"] ok(1) by (simp add: resolve_def)
qed

lemma split_last_path:
  "CHR ''/'' \<notin> set c \<Longrightarrow> split_last (CHR ''/'') (path_of (cs @ [c])) = Some (path_of cs, c)"
  by (simp add: split_facts path_of_def)

lemma path_of_Nil [simp]: "path_of cs = [] \<longleftrightarrow> cs = []"
  by (cases cs) (auto simp: path_of_def)

lemma walk_ok: "(\<And>i. i \<le> length k \<Longrightarrow> n (take i k) = Some Dir) \<Longrightarrow> walk n k = None"
  by (auto simp: walk_def find_None_iff simp del: upt_Suc split: option.splits)

lemma walk_missing:
  assumes "m < length k" "\<And>i. i \<le> m \<Longrightarrow> n (take i k) = Some Dir" "n (take (Suc m) k) = None"
  shows "walk n k = Some ENOENT"
proof -
  have "find (\<lambda>i. n (take i k) \<noteq> Some Dir) [0..<Suc (length k)] = Some (Suc m)"
    using assms by (auto simp: find_Some_iff simp del: upt_Suc intro!: exI [of _ "Suc m"])
  with assms(3) show ?thesis by (simp add: walk_def del: upt_Suc)
qed

lemma sys_mkdir_made:
  assumes "comps_ok (cs @ [c])" "made w (cs @ [c]) m"
  shows "sys_mkdir w (path_of (cs @ [c])) =
     (if m < length cs then (Some ENOENT, w)
      else if m = length cs then (None, with_dirs w (cs @ [c]) m) else (Some EEXIST, w))"
proof -
  have k: "resolve w (path_of (cs @ [c])) = cs @ [c]" using assms(1) by (intro resolve_path_of) auto
  have dirs: "nodes w (take i cs) = Some Dir" if "i \<le> m" "i \<le> length cs" for i
    using assms(2) that by (auto simp: made_def)
  have none: "nodes w (take i (cs @ [c])) = None \<and> \<not> denied w (take i (cs @ [c]))"
    if "m < i" "i \<le> Suc (length cs)" for i
    using assms(2) that by (auto simp: made_def)
  consider "m < length cs" | "m = length cs" | "m = Suc (length cs)"
    using assms(2) by (fastforce simp: made_def)
  then show ?thesis
  proof cases
    case 1
    have "walk (nodes w) cs = Some ENOENT"
      using 1 dirs none [of "Suc m"] by (intro walk_missing [of m]) auto
    with 1 k show ?thesis by (simp add: sys_mkdir_def)
  next
    case 2
    have "walk (nodes w) cs = None" using 2 dirs by (intro walk_ok) auto
    moreover have "{m <.. length (cs @ [c])} = {Suc m}" using 2 by auto
    ultimately show ?thesis using 2 k none [of "Suc m"]
      by (simp add: sys_mkdir_def with_dirs_def fun_upd_def)
  next
    case 3
    have "walk (nodes w) cs = None" using 3 dirs by (intro walk_ok) auto
    moreover have "nodes w (cs @ [c]) = Some Dir"
      using assms(2) 3 by (auto simp: made_def dest: spec [of _ m])
    ultimately show ?thesis using 3 k by (simp add: sys_mkdir_def)
  qed
qed

lemma made_with_dirs:
  assumes "made w (cs @ [c]) m" "m < length cs"
  shows "made w cs m \<and> made (with_dirs w cs m) (cs @ [c]) (length cs)"
proof -
  have pre: "nodes w (take i cs) = Some Dir" if "i \<le> m" for i
    using assms that by (auto simp: made_def dest: spec [of _ i])
  have new: "nodes w (take i (cs @ [c])) = None \<and> \<not> denied w (take i (cs @ [c]))"
    if "m < i" "i \<le> Suc (length cs)" for i
    using assms that by (simp add: made_def)
  have "nodes w (take i cs) = None \<and> \<not> denied w (take i cs)" if "m < i" "i \<le> length cs" for i
    using new [of i] that by simp
  moreover have "cs @ [c] \<noteq> take i cs" for i
  proof -
    have "length (take i cs) \<noteq> length (cs @ [c])" by simp
    then show ?thesis by metis
  qed
  ultimately show ?thesis using pre new [of "Suc (length cs)"] assms(2)
    by (auto simp: made_def with_dirs_def le_Suc_eq)
qed

lemma with_dirs_step:
  "m \<le> length cs \<Longrightarrow> with_dirs (with_dirs w cs m) (cs @ [c]) (length cs) = with_dirs w (cs @ [c]) m"
proof -
  assume m: "m \<le> length cs"
  have "(\<exists>i \<in> {m <.. Suc (length cs)}. k = take i (cs @ [c])) \<longleftrightarrow>
      k = cs @ [c] \<or> (\<exists>i \<in> {m <.. length cs}. k = take i cs)" for k
  proof -
    have "{m <.. Suc (length cs)} = insert (Suc (length cs)) {m <.. length cs}" using m by auto
    then show ?thesis by auto
  qed
  moreover have "{length cs <.. Suc (length cs)} = {Suc (length cs)}" by auto
  ultimately show ?thesis by (simp add: with_dirs_def fun_eq_iff)
qed

lemma mkdir1_made:
  "comps_ok cs \<Longrightarrow> cs \<noteq> [] \<Longrightarrow> made w cs m \<Longrightarrow> mkdir1 w (path_of cs) = (None, with_dirs w cs m)"
proof (induction cs arbitrary: w m rule: rev_induct)
  case (snoc c cs)
  note sys = sys_mkdir_made [OF snoc.prems(1,3)]
  have c: "CHR ''/'' \<notin> set c" using snoc.prems(1) by (simp add: comps_ok_def)
  note unfold1 = mkdir1.simps [of w "path_of (cs @ [c])"]
  consider "m < length cs" | "m = length cs" | "m = Suc (length cs)"
    using snoc.prems(3) by (fastforce simp: made_def)
  then show ?case
  proof cases
    case 1
    note sub = made_with_dirs [OF snoc.prems(3) 1]
    have "mkdir1 w (path_of cs) = (None, with_dirs w cs m)"
      using snoc.IH snoc.prems(1) sub 1 by (cases cs) (auto simp: comps_ok_def)
    moreover have "sys_mkdir (with_dirs w cs m) (path_of (cs @ [c])) = (None, with_dirs w (cs @ [c]) m)"
      using sys_mkdir_made [OF snoc.prems(1) conjunct2 [OF sub]] with_dirs_step [of m cs w c] 1 by simp
    ultimately show ?thesis using unfold1 sys 1 c by (auto simp: mkdir0_def split_last_path)
  next
    case 2
    with unfold1 sys show ?thesis by (simp add: mkdir0_def)
  next
    case 3
    then have "with_dirs w (cs @ [c]) m = w" by (simp add: with_dirs_def)
    with 3 unfold1 sys show ?thesis by (simp add: mkdir0_def)
  qed
qed simp

section \<open>The loops\<close>

lemma wait_loop_time:
  "wait_loop ticks name waittime h t slept n = Inr (rc, tot) \<Longrightarrow>
     slept \<le> tot \<and> tot \<le> slept + n * (1 + waittime)"
proof (induction n arbitrary: h t slept)
  case (Suc n)
  then show ?case
    by (fastforce simp: Let_def split: option.splits if_splits sum.splits prod.splits)
qed simp

lemma wait_loop_ready:
  "wait_loop ticks name waittime h t slept n = Inr (0, tot) \<Longrightarrow>
     \<exists>i \<ge> t. t_reap (ticks i) = Some (Exited 0) \<or> jvm_state name (t_world (ticks i)) = Inr (True, True)"
proof (induction n arbitrary: h t slept)
  case (Suc n)
  show ?case
  proof (cases "t_reap (ticks t)")
    case (Some st)
    with Suc.prems have "st = Exited 0" by (auto simp: Let_def exit_code_def split: wstatus.splits)
    with Some show ?thesis by blast
  next
    case None
    with Suc show ?thesis
      by (cases "jvm_state name (t_world (ticks t))")
         (auto simp: Let_def split: if_splits prod.splits dest!: Suc.IH Suc_leD)
  qed
qed simp

lemma stop_loop_done:
  "stop_loop worlds name t n = Inr rc \<Longrightarrow>
     rc \<in> {0, - 1} \<and> (rc = 0 \<longrightarrow> (\<exists>i. t \<le> i \<and> i < t + n \<and> (\<exists>p \<le> 0. get_pidf name (worlds i) = Inr p)))
     \<and> (rc = - 1 \<longrightarrow> (\<forall>i. t \<le> i \<and> i < t + n \<longrightarrow> (\<exists>p > 0. get_pidf name (worlds i) = Inr p)))"
proof (induction n arbitrary: t)
  case (Suc n)
  obtain p where p: "get_pidf name (worlds t) = Inr p"
    using Suc.prems by (auto split: sum.splits)
  show ?case
  proof (cases "p \<le> 0")
    case True
    with p Suc.prems show ?thesis by (auto intro!: exI [of _ t])
  next
    case False
    with p Suc.prems Suc.IH [of "Suc t"] show ?thesis
      by (auto simp: Suc_le_eq intro: less_imp_le) (metis le_neq_implies_less not_le)
  qed
qed auto

lemma get_pidf_alive: "get_pidf name w = Inr p \<Longrightarrow> p \<noteq> - 1 \<Longrightarrow> alive w p"
  by (auto simp: get_pidf_def split: sum.splits option.splits if_splits)

section \<open>Properties\<close>

lemma claim_read_back:
  assumes "check_pid a w = Inr (0, w')" "\<not> vers a" "\<not> chck a" "0 < self w" "self w < 2 ^ 31"
  shows "\<exists>s. same_env w w' \<and> opens w' (pidf a) s \<and> read_pid s = Inr (Some (self w))"
proof -
  obtain w1 s where e: "same_env w w1" and o: "opens w1 (pidf a) s"
    and c: "claim_pidfile False (pidf a) s w1 = Inr (0, w')"
    using check_pid_try_claims [of 1 False "pidf a" w 0 w'] assms by (auto simp: check_pid_def)
  let ?s = "pid_line (self w) @ drop (length (pid_line (self w))) s"
  have self: "self w1 = self w" using e by (simp add: same_env_def)
  obtain x where "read_pid s = Inr x" using c by (auto simp: claim_pidfile_def split: sum.splits)
  then have "length s < 80" by (rule read_pid_short)
  then have "read_pid ?s = Inr (Some (self w))"
    using assms length_pid_line [of "self w"] by (intro read_pid_line) auto
  moreover have w': "w' = write_file w1 (pidf a) ?s"
    using c self by (auto simp: claim_pidfile_def Let_def split: sum.splits if_splits)
  moreover have "same_env w w'" using e w' by (simp add: same_env_def write_file_def)
  ultimately show ?thesis using opens_write [OF o] by blast
qed

text \<open>C16. A successful claim of the PID file can be read back: after \<open>check_pid\<close> returned 0 for a
  run that writes the file, \<open>get_pidf\<close> finds the number of this process, whatever bytes an
  older file left behind it.\<close>

theorem pidfile_roundtrip:
  assumes "check_pid a w = Inr (0, w')" "\<not> vers a" "\<not> chck a" "0 < self w" "self w < 2 ^ 31"
    and "alive w (self w)"
  shows "get_pidf (pidf a) w' = Inr (self w)"
  using claim_read_back [OF assms(1-5)] assms(6)
  by (auto simp: get_pidf_def opens_iff same_env_def)

text \<open>C2. Mutual exclusion: once one instance has claimed the PID file and while it lives, every
  other process that uses the same file gets 122 and leaves the file as it is.\<close>

theorem second_instance_refused:
  assumes "check_pid a w = Inr (0, w')" "\<not> vers a" "\<not> chck a" "0 < self w" "self w < 2 ^ 31"
    and "alive w (self w)" "pidf b = pidf a"
  shows "check_pid b (w'\<lparr>self := q\<rparr>) = Inr (122, w'\<lparr>self := q\<rparr>)"
proof -
  obtain s where s: "same_env w w'" "opens w' (pidf a) s" "read_pid s = Inr (Some (self w))"
    using claim_read_back [OF assms(1-5)] by blast
  then have "opens (w'\<lparr>self := q\<rparr>) (pidf b) s" using assms(7) by simp
  with s assms(6) show ?thesis
    by (simp add: check_pid_def check_pid_try.simps opens_iff claim_pidfile_def same_env_def)
qed

text \<open>A PID file that holds no number blocks every start: \<open>atoi\<close> yields 0 and \<open>kill (0, 0)\<close>,
  which addresses the caller's own process group, succeeds, so \<open>check_pid\<close> reports a running
  instance with the number 0.\<close>

theorem unreadable_pidfile_blocks:
  assumes "opens w (pidf a) s" "s \<noteq> []" "length s < 80" "atoi (cstr s) = 0" "alive w 0"
  shows "check_pid a w = Inr (122, w)"
  using assms
  by (simp add: check_pid_def check_pid_try.simps opens_iff claim_pidfile_def read_pid_def)

text \<open>A PID file of 80 bytes or more makes the reader write its terminator behind the buffer
  of 80 bytes.\<close>

theorem long_pidfile_overruns:
  assumes "opens w (pidf a) s" "80 \<le> length s"
  shows "check_pid a w = Inl Buffer_overrun \<and> get_pidf (pidf a) w = Inl Buffer_overrun"
  using assms
  by (simp add: check_pid_def check_pid_try.simps opens_iff claim_pidfile_def read_pid_def
      get_pidf_def)

text \<open>\<open>mkdir2\<close> makes the directories a file needs: where the first \<open>m\<close> components of its
  directory exist and the rest is free, it returns 0, afterwards every directory of the path
  is there, and nothing else has changed.\<close>

theorem mkdir2_makes_parents:
  assumes "comps_ok cs" "cs \<noteq> []" "made w cs m" "CHR ''/'' \<notin> set f"
  shows "mkdir2 w (path_of (cs @ [f])) = (None, with_dirs w cs m)"
  using mkdir1_made [OF assms(1-3)] assms(2,4) by (simp add: mkdir2_def split_last_path)

text \<open>\<open>wait_child\<close> gives up in time: it sleeps at most ten polls of one second and a tenth of
  the wait time each, or, for a wait of 110 seconds and more, one poll of eleven seconds for
  every ten of the wait time.\<close>

theorem wait_child_bounded:
  assumes "wait_child a ticks = Inr (rc, slept)"
  shows "slept \<le> (if wait_time a < 110 then 10 * (1 + nat (wait_time a) div 10)
                 else nat (wait_time a) div 10 * 11)"
proof (cases "10 < nat (wait_time a) div 10")
  case True
  then have "slept \<le> nat (wait_time a) div 10 * 11"
    using assms wait_loop_time [of ticks "pidf a" 10 False 0 0 "nat (wait_time a) div 10" rc slept]
    by (simp add: wait_child_def Let_def)
  with True show ?thesis by auto
next
  case False
  then have "slept \<le> 10 * (1 + nat (wait_time a) div 10)"
    using assms wait_loop_time [of ticks "pidf a" "nat (wait_time a) div 10" False 0 0 10 rc slept]
    by (simp add: wait_child_def Let_def)
  with False show ?thesis by auto
qed

text \<open>\<open>wait_child\<close> reports a start only when one was seen: at some poll the controller had
  exited with 0, or the process of the PID file was alive and its ready file existed.\<close>

theorem wait_child_reports_start:
  assumes "wait_child a ticks = Inr (0, slept)"
  shows "\<exists>i. t_reap (ticks i) = Some (Exited 0) \<or> jvm_state (pidf a) (t_world (ticks i)) = Inr (True, True)"
  using assms wait_loop_ready [of ticks "pidf a"]
  by (fastforce simp: wait_child_def Let_def split: if_splits)

text \<open>C30. \<open>stop_child\<close> signals only a live process named by the PID file; it returns 0 when one of
  60 polls a second apart finds no live process there any more, and fails when none does.\<close>

theorem stop_child_outcome:
  assumes "stop_child a worlds = Inr (rc, sig)"
  shows "(case sig of
      None \<Rightarrow> rc = - 1 \<and> (\<exists>p \<le> 0. get_pidf (pidf a) (worlds 0) = Inr p)
    | Some p \<Rightarrow> 0 < p \<and> get_pidf (pidf a) (worlds 0) = Inr p \<and> alive (worlds 0) p \<and>
        (rc = 0 \<and> (\<exists>i \<in> {1..60}. \<exists>q \<le> 0. get_pidf (pidf a) (worlds i) = Inr q)
         \<or> rc = - 1 \<and> (\<forall>i \<in> {1..60}. \<exists>q > 0. get_pidf (pidf a) (worlds i) = Inr q)))"
proof -
  obtain p where p: "get_pidf (pidf a) (worlds 0) = Inr p"
    using assms by (auto simp: stop_child_def split: sum.splits)
  show ?thesis
  proof (cases "0 < p")
    case True
    with p assms obtain r where r: "stop_loop worlds (pidf a) 1 60 = Inr r" "rc = r" "sig = Some p"
      by (auto simp: stop_child_def map_sum_def split: sum.splits)
    from stop_loop_done [OF r(1)] r p True get_pidf_alive [OF p] show ?thesis
      by (auto simp: Bex_def Ball_def)
  qed (use p assms in \<open>auto simp: stop_child_def\<close>)
qed

section \<open>Witnesses\<close>

definition demo_world :: world where
  "demo_world = \<lparr>nodes = [[] \<mapsto> Dir, [''run''] \<mapsto> Dir, [''run'', ''old.pid''] \<mapsto> File ''none''],
     denied = \<lambda>k. False, workdir = [], alive = \<lambda>p. p \<in> {0, 77}, self = 77\<rparr>"

definition demo_args :: arg_data where
  "demo_args = (init_args False)\<lparr>pidf := ''/run/j.pid'', wait_time := 20\<rparr>"

lemmas demo_simps = demo_world_def demo_args_def init_args_def resolve_def walk_def

lemma demo_claim: "\<exists>w'. check_pid demo_args demo_world = Inr (0, w')"
  by (simp add: demo_simps check_pid_def check_pid_try.simps sys_open_def claim_pidfile_def read_pid_def
      upt_rec)

lemma demo_facts:
  "\<not> vers demo_args" "\<not> chck demo_args" "0 < self demo_world" "self demo_world < 2 ^ 31"
  "alive demo_world (self demo_world)"
  by (simp_all add: demo_simps)

theorem pidfile_roundtrip_witness:
  "\<exists>w'. check_pid demo_args demo_world = Inr (0, w')
     \<and> get_pidf (pidf demo_args) w' = Inr (self demo_world)"
proof -
  obtain w' where run: "check_pid demo_args demo_world = Inr (0, w')" using demo_claim by blast
  with pidfile_roundtrip [OF run demo_facts] show ?thesis by blast
qed

theorem second_instance_refused_witness:
  "\<exists>w'. check_pid demo_args demo_world = Inr (0, w')
     \<and> check_pid demo_args (w'\<lparr>self := 99\<rparr>) = Inr (122, w'\<lparr>self := 99\<rparr>)"
proof -
  obtain w' where run: "check_pid demo_args demo_world = Inr (0, w')" using demo_claim by blast
  with second_instance_refused [OF run demo_facts refl, of 99] show ?thesis by blast
qed

theorem unreadable_pidfile_blocks_witness:
  "check_pid (demo_args\<lparr>pidf := ''/run/old.pid''\<rparr>) demo_world = Inr (122, demo_world)"
proof (rule unreadable_pidfile_blocks [where s = "''none''"])
  show "atoi (cstr ''none'') = 0"
    by (simp add: cstr_def atoi_def strtol_def is_space_def digit_in_def clamp_long_def int32_def)
qed (simp_all add: demo_simps opens_def upt_rec)

theorem long_pidfile_overruns_witness:
  "check_pid demo_args (demo_world\<lparr>nodes := (nodes demo_world)
       ([''run'', ''j.pid''] \<mapsto> File (replicate 80 CHR ''1''))\<rparr>) = Inl Buffer_overrun
   \<and> get_pidf (pidf demo_args) (demo_world\<lparr>nodes := (nodes demo_world)
       ([''run'', ''j.pid''] \<mapsto> File (replicate 80 CHR ''1''))\<rparr>) = Inl Buffer_overrun"
  by (rule long_pidfile_overruns [where s = "replicate 80 CHR ''1''"])
     (simp_all add: demo_simps opens_def upt_rec)

theorem mkdir2_makes_parents_witness:
  "mkdir2 demo_world (path_of ([''run'', ''a'', ''b''] @ [''j.pid'']))
     = (None, with_dirs demo_world [''run'', ''a'', ''b''] 1)"
proof (rule mkdir2_makes_parents)
  show "made demo_world [''run'', ''a'', ''b''] 1"
    by (auto simp: made_def demo_world_def le_Suc_eq take_Cons' split: if_splits)
qed (simp_all add: comps_ok_def)

definition demo_ticks :: "nat \<Rightarrow> tick" where
  "demo_ticks i = \<lparr>t_world = demo_world,
     t_reap = Some (Exited 0), t_reap_ready = None\<rparr>"

lemma demo_wait: "wait_child demo_args demo_ticks = Inr (0, 1)"
proof -
  have "wait_loop demo_ticks (pidf demo_args) 2 False 0 0 (Suc 9) = Inr (0, 1)"
    unfolding wait_loop.simps by (simp add: demo_ticks_def exit_code_def)
  then show ?thesis by (simp add: wait_child_def demo_args_def)
qed

theorem wait_child_bounded_witness:
  "(1 :: nat) \<le> (if wait_time demo_args < 110 then 10 * (1 + nat (wait_time demo_args) div 10)
                 else nat (wait_time demo_args) div 10 * 11)"
  by (rule wait_child_bounded [OF demo_wait])

theorem wait_child_reports_start_witness:
  "\<exists>i. t_reap (demo_ticks i) = Some (Exited 0)
     \<or> jvm_state (pidf demo_args) (t_world (demo_ticks i)) = Inr (True, True)"
  by (rule wait_child_reports_start [OF demo_wait])

theorem stop_child_outcome_witness:
  "(case None of
      None \<Rightarrow> (- 1 :: int) = - 1 \<and> (\<exists>p \<le> 0. get_pidf (pidf demo_args) demo_world = Inr p)
    | Some p \<Rightarrow> 0 < p \<and> get_pidf (pidf demo_args) demo_world = Inr p \<and> alive demo_world p \<and>
        ((- 1 :: int) = 0 \<and> (\<exists>i \<in> {1..60 :: nat}. \<exists>q \<le> 0. get_pidf (pidf demo_args) demo_world = Inr q)
         \<or> (- 1 :: int) = - 1 \<and> (\<forall>i \<in> {1..60 :: nat}. \<exists>q > 0. get_pidf (pidf demo_args) demo_world = Inr q)))"
proof -
  have "stop_child demo_args (\<lambda>i. demo_world) = Inr (- 1, None)"
    by (simp add: stop_child_def get_pidf_def sys_open_def demo_simps upt_rec)
  then show ?thesis by (rule stop_child_outcome)
qed

end
