(* ===== verification/Child_Process.thy ===== *)
theory Child_Process
  imports Java Pid_File
begin

text \<open>
  The process that runs the JVM: the signal handlers of \<^verbatim>\<open>jsvc-unix.c\<close>, \<open>main_reload\<close> and
  \<open>main_shutdown\<close> behind the native methods of \<^verbatim>\<open>java.c\<close>, and \<open>child\<close>. The handler is one step
  between any two steps of the main thread, so a run of the waiting loop is a list of events:
  a signal, or the next step of the loop. What \<open>child\<close> does before and after the loop is a list
  of steps, the first of which that stops gives the exit status.
\<close>

section \<open>Signals\<close>

datatype sig = SIGTERM | SIGINT | SIGHUP | SIGUSR1 | SIGUSR2 | Other_signal

record sig_flags =
  stopping :: bool
  doreload :: bool
  doreopen :: bool
  dosignal :: bool

definition no_flags :: sig_flags where
  "no_flags = \<lparr>stopping = False, doreload = False, doreopen = False, dosignal = False\<rparr>"

fun handler :: "sig \<Rightarrow> sig_flags \<Rightarrow> sig_flags" where
  "handler SIGTERM f = (if stopping f then f else f\<lparr>stopping := True\<rparr>)"
| "handler SIGINT f = (if stopping f then f else f\<lparr>stopping := True\<rparr>)"
| "handler SIGHUP f = (if stopping f then f else f\<lparr>stopping := True, doreload := True\<rparr>)"
| "handler SIGUSR1 f = f\<lparr>doreopen := True\<rparr>"
| "handler SIGUSR2 f = f\<lparr>dosignal := True\<rparr>"
| "handler Other_signal f = f"

text \<open>The dispositions; \<open>SIG_DFL\<close> is the null pointer. \<open>No_handler\<close> is \<open>SIG_ERR\<close>.\<close>

datatype sighandler = SIG_DFL | SIG_IGN | SIG_ERR | Handler | Controller | Foreign nat

definition signal_set ::
  "((sig \<Rightarrow> sighandler) \<Rightarrow> sig \<Rightarrow> sighandler) \<Rightarrow> sig \<Rightarrow> sighandler \<Rightarrow> (sig \<Rightarrow> sighandler)
     \<Rightarrow> sighandler \<times> (sig \<Rightarrow> sighandler)" where
  "signal_set signal s new table =
     (let hand = signal table s;
          table' = (if hand = SIG_ERR then table else table(s := new));
          hand = (if hand = SIG_ERR then SIG_DFL else hand);
          hand = (if hand = Handler \<or> hand = Controller then SIG_DFL else hand)
      in (hand, table'))"

text \<open>A \<open>kill\<close> with its target; the target 0 is the caller's process group.\<close>

type_synonym kill_call = "int \<times> sig"

definition controller :: "int \<Rightarrow> sig \<Rightarrow> kill_call list" where
  "controller controlled s = (if s = Other_signal then [] else [(controlled, s)])"

definition main_reload :: "int \<Rightarrow> kill_call" where
  "main_reload controlled = (controlled, SIGHUP)"

definition main_shutdown :: "int \<Rightarrow> kill_call" where
  "main_shutdown controlled = (controlled, SIGTERM)"

text \<open>The native methods of the loader class; the texts that \<open>failed\<close> logs are returned with it.\<close>

definition shutdown :: "int \<Rightarrow> bool \<Rightarrow> kill_call" where
  "shutdown controlled reload = (if reload then main_reload controlled else main_shutdown controlled)"

definition failed :: "int \<Rightarrow> string option option \<Rightarrow> string \<times> kill_call" where
  "failed controlled message =
     (case message of
        Some msg \<Rightarrow> (''Failed '' @ (case msg of Some m \<Rightarrow> m | None \<Rightarrow> ''(null)''), main_shutdown controlled)
      | None \<Rightarrow> (''Failed requested'', main_shutdown controlled))"

section \<open>The state of the child\<close>

record 'h child_state =
  c_world :: world
  c_proc :: proc
  c_caps :: 'h \<comment> \<open>the static state of \<open>set_caps\<close>\<close>
  c_calls :: call_trace
  c_flags :: sig_flags
  c_handlers :: "sig \<Rightarrow> sighandler"
  c_controlled :: int
  c_umask :: int
  c_reopened :: nat \<comment> \<open>how often \<open>set_output\<close> was called again\<close>

record 'h child_env =
  e_plat :: platform
  e_kernel :: kernel
  e_set_caps :: "cap_request \<Rightarrow> 'h \<Rightarrow> proc \<Rightarrow> (int \<times> proc) \<times> 'h"
  e_answers :: answers
  e_aborts :: "call_trace \<Rightarrow> bool" \<comment> \<open>whether the VM aborts right after these calls\<close>
  e_ops :: dso_ops
  e_stat :: "path \<Rightarrow> file_kind option"
  e_signal :: "(sig \<Rightarrow> sighandler) \<Rightarrow> sig \<Rightarrow> sighandler"
  e_ppid :: int
  e_envmask :: int

datatype stop = Exit_with int | Crashed fault | Endless_loop

type_synonym 'h child_step = "'h child_state \<Rightarrow> stop option \<times> 'h child_state"

fun run_steps :: "'h child_step list \<Rightarrow> 'h child_step" where
  "run_steps [] s = (None, s)"
| "run_steps (m # ms) s =
     (case m s of (None, s') \<Rightarrow> run_steps ms s' | (Some e, s') \<Rightarrow> (Some e, s'))"

text \<open>
  The hook given to the VM as its option \<open>abort\<close> ends the process. The VM may call it during any
  call: \<open>abort_at\<close> finds the first of the \<open>n\<close> latest calls after which it does, with the calls
  made until then. \<open>vm_run\<close> runs code of \<^verbatim>\<open>java.c\<close> up to that point; \<open>None\<close> is the abort.
\<close>

definition java_abort123 :: stop where
  "java_abort123 = Exit_with 123"

fun abort_at :: "(call_trace \<Rightarrow> bool) \<Rightarrow> nat \<Rightarrow> call_trace \<Rightarrow> call_trace option" where
  "abort_at aborts 0 tr = None"
| "abort_at aborts (Suc n) tr =
     (if aborts (drop n tr) then Some (drop n tr) else abort_at aborts n tr)"

definition vm_run :: "'h child_env \<Rightarrow> 'a jni \<Rightarrow> 'h child_state \<Rightarrow> 'a option \<times> 'h child_state" where
  "vm_run env m s =
     (case run_state m (c_calls s) of (x, tr) \<Rightarrow>
        (case abort_at (e_aborts env) (length tr - length (c_calls s)) tr of
           Some tr' \<Rightarrow> (None, s\<lparr>c_calls := tr'\<rparr>)
         | None \<Rightarrow> (Some x, s\<lparr>c_calls := tr\<rparr>)))"

text \<open>One call into the JVM; the step stops with the code when the call fails.\<close>

definition java_step :: "'h child_env \<Rightarrow> bool jni \<Rightarrow> int \<Rightarrow> 'h child_step" where
  "java_step env m code s =
     (case vm_run env m s of
        (None, s') \<Rightarrow> (Some java_abort123, s')
      | (Some ok, s') \<Rightarrow> (if ok then None else Some (Exit_with code), s'))"

section \<open>Starting the service\<close>

definition step_pid :: "arg_data \<Rightarrow> 'h child_step" where
  "step_pid a s =
     (case check_pid a (c_world s) of
        Inl e \<Rightarrow> (Some (Crashed e), s)
      | Inr (rc, w) \<Rightarrow>
          (if \<not> vers a \<and> \<not> chck a \<and> (rc = 122 \<or> rc < 0) then Some (Exit_with rc) else None,
           s\<lparr>c_world := w\<rparr>))"

definition step_user :: "'h child_env \<Rightarrow> arg_data \<Rightarrow> int \<Rightarrow> int \<Rightarrow> 'h child_step" where
  "step_user env a uid gid s =
     (if os_of (e_plat env) = OS_LINUX
      then case linuxset_user_group (e_kernel env) (e_set_caps env) (user a) uid gid (c_caps s) (c_proc s) of
        ((rc, p), h) \<Rightarrow>
          (if rc \<noteq> 0 then Some (Exit_with 4) else None, s\<lparr>c_proc := p, c_caps := h\<rparr>)
      else (None, s))"

definition step_init :: "'h child_env \<Rightarrow> arg_data \<Rightarrow> home_data \<Rightarrow> 'h child_step" where
  "step_init env a d s =
     (case vm_run env (java_init (e_plat env) (e_answers env) (e_ops env) (e_stat env) a d
          (self (c_world s)) (e_ppid env)) s of
        (None, s') \<Rightarrow> (Some java_abort123, s')
      | (Some (Done ok), s') \<Rightarrow> (if ok then None else Some (Exit_with 1), s')
      | (Some (Home_crash e), s') \<Rightarrow> (Some (Crashed e), s')
      | (Some Home_endless, s') \<Rightarrow> (Some Endless_loop, s'))"

definition step_version :: "'h child_env \<Rightarrow> arg_data \<Rightarrow> 'h child_step" where
  "step_version env a s =
     (if vers a
      then case java_step env (java_version (e_answers env)) (- 1) s of
        (None, s') \<Rightarrow> (Some (Exit_with 0), s') | r \<Rightarrow> r
      else if vershow a then java_step env (java_version (e_answers env)) 7 s
      else (None, s))"

definition step_check :: "'h child_env \<Rightarrow> arg_data \<Rightarrow> 'h child_step" where
  "step_check env a s =
     (if chck a
      then case java_step env (java_check (e_answers env) a) 2 s of
        (None, s') \<Rightarrow> (Some (Exit_with 0), s') | r \<Rightarrow> r
      else (None, s))"

definition step_load :: "'h child_env \<Rightarrow> arg_data \<Rightarrow> 'h child_step" where
  "step_load env a = java_step env (java_load (e_answers env) a) 3"

definition step_downgrade :: "'h child_env \<Rightarrow> arg_data \<Rightarrow> int \<Rightarrow> int \<Rightarrow> 'h child_step" where
  "step_downgrade env a uid gid s =
     (if os_of (e_plat env) = OS_LINUX
      then if user a \<noteq> None
        then case e_set_caps env CAPS_NONE (c_caps s) (c_proc s) of ((rc, p), h) \<Rightarrow>
          (if rc \<noteq> 0 then Some (Exit_with 4) else None, s\<lparr>c_proc := p, c_caps := h\<rparr>)
        else (None, s)
      else case set_user_group (e_kernel env) (user a) uid gid (c_proc s) of (rc, p) \<Rightarrow>
        (if rc \<noteq> 0 then Some (Exit_with 4) else None, s\<lparr>c_proc := p\<rparr>))"

definition step_start :: "'h child_env \<Rightarrow> 'h child_step" where
  "step_start env s = java_step env (java_start (e_answers env)) 5 (s\<lparr>c_umask := e_envmask env\<rparr>)"

definition step_handlers :: "'h child_env \<Rightarrow> 'h child_step" where
  "step_handlers env s =
     (None, s\<lparr>c_handlers := fold (\<lambda>g t. snd (signal_set (e_signal env) g Handler t))
          [SIGHUP, SIGUSR1, SIGUSR2, SIGTERM, SIGINT] (c_handlers s),
        c_controlled := self (c_world s),
        c_world := create_tmp_file (c_world s)\<rparr>)"

section \<open>The waiting loop\<close>

text \<open>The places between the steps of the main thread in the loop; at \<open>Aborted\<close> the hook of the VM
  has ended the process.\<close>

datatype place = Test | Sleep | See_reopen | Reopen | See_signal | Send_signal | Left | Aborted

record 'h loop_state =
  at :: place
  loop_child :: "'h child_state"

text \<open>What happens next: a signal, an abort in a thread of the VM, or a step of the main thread.\<close>

datatype event = Deliver sig | Vm_abort | Go

text \<open>On BS2000 (\<open>OSD_POSIX\<close>) the thread sleeps in Java.\<close>

definition sleep_60 :: "'h child_env \<Rightarrow> 'h child_state \<Rightarrow> place \<times> 'h child_state" where
  "sleep_60 env s =
     (if osd_posix (e_plat env)
      then case vm_run env (java_sleep (e_answers env) 60) s of
        (None, s') \<Rightarrow> (Aborted, s') | (Some _, s') \<Rightarrow> (See_reopen, s')
      else (See_reopen, s))"

fun loop_step :: "'h child_env \<Rightarrow> place \<Rightarrow> 'h child_state \<Rightarrow> place \<times> 'h child_state" where
  "loop_step env Test s = (if \<not> stopping (c_flags s) then Sleep else Left, s)"
| "loop_step env Sleep s = sleep_60 env s"
| "loop_step env See_reopen s =
     (if doreopen (c_flags s)
      then (Reopen, s\<lparr>c_flags := c_flags s\<lparr>doreopen := False\<rparr>\<rparr>) else (See_signal, s))"
| "loop_step env Reopen s = (See_signal, s\<lparr>c_reopened := c_reopened s + 1\<rparr>)"
| "loop_step env See_signal s =
     (if dosignal (c_flags s)
      then (Send_signal, s\<lparr>c_flags := c_flags s\<lparr>dosignal := False\<rparr>\<rparr>) else (Test, s))"
| "loop_step env Send_signal s =
     (case vm_run env (java_signal (e_answers env)) s of
        (None, s') \<Rightarrow> (Aborted, s') | (Some _, s') \<Rightarrow> (Test, s'))"
| "loop_step env Left s = (Left, s)"
| "loop_step env Aborted s = (Aborted, s)"

fun react :: "'h child_env \<Rightarrow> event \<Rightarrow> 'h loop_state \<Rightarrow> 'h loop_state" where
  "react env (Deliver g) l = l\<lparr>loop_child := loop_child l\<lparr>c_flags := handler g (c_flags (loop_child l))\<rparr>\<rparr>"
| "react env Vm_abort l = l\<lparr>at := Aborted\<rparr>"
| "react env Go l = (case loop_step env (at l) (loop_child l) of (p, s) \<Rightarrow> \<lparr>at = p, loop_child = s\<rparr>)"

definition run_loop :: "'h child_env \<Rightarrow> event list \<Rightarrow> 'h child_state \<Rightarrow> 'h loop_state" where
  "run_loop env evs s = fold (react env) evs \<lparr>at = Test, loop_child = s\<rparr>"

section \<open>Leaving\<close>

definition step_stop :: "'h child_env \<Rightarrow> 'h child_step" where
  "step_stop env s =
     java_step env (java_stop (e_answers env)) 6 (s\<lparr>c_world := remove_tmp_file (c_world s)\<rparr>)"

definition step_exit :: "'h child_env \<Rightarrow> 'h child_step" where
  "step_exit env s =
     (let rc = (if doreload (c_flags s) then 123 else 0)
      in case vm_run env (java_destroy (e_answers env)) s of
           (None, s') \<Rightarrow> (Some java_abort123, s')
         | (Some _, s') \<Rightarrow>
             (case java_step env (JVM_destroy (e_answers env) rc) 7 s' of
                (None, s'') \<Rightarrow> (Some (Exit_with rc), s'') | r \<Rightarrow> r))"

definition child_steps ::
  "'h child_env \<Rightarrow> arg_data \<Rightarrow> home_data \<Rightarrow> int \<Rightarrow> int \<Rightarrow> 'h child_step list" where
  "child_steps env a d uid gid =
     [step_pid a, step_user env a uid gid, step_init env a d, step_version env a,
       step_check env a, step_load env a, step_downgrade env a uid gid, step_start env,
       step_handlers env]"

definition child_starts ::
  "'h child_env \<Rightarrow> arg_data \<Rightarrow> home_data \<Rightarrow> int \<Rightarrow> int \<Rightarrow> 'h child_step" where
  "child_starts env a d uid gid = run_steps (child_steps env a d uid gid)"

text \<open>The outcome is \<open>None\<close> while the events have not led out of the loop.\<close>

definition child_run ::
  "'h child_env \<Rightarrow> arg_data \<Rightarrow> home_data \<Rightarrow> int \<Rightarrow> int \<Rightarrow> event list \<Rightarrow> 'h child_step" where
  "child_run env a d uid gid evs s =
     (case child_starts env a d uid gid s of
        (Some e, s') \<Rightarrow> (Some e, s')
      | (None, s') \<Rightarrow>
          (let l = run_loop env evs s'
           in if at l = Left then run_steps [step_stop env, step_exit env] (loop_child l)
              else (if at l = Aborted then Some java_abort123 else None, loop_child l)))"

section \<open>Runs of steps\<close>

lemma run_steps_append:
  "run_steps (ms @ ns) s =
     (case run_steps ms s of (None, s') \<Rightarrow> run_steps ns s' | (Some e, s') \<Rightarrow> (Some e, s'))"
  by (induction ms arbitrary: s) (auto split: prod.splits option.splits)

lemma run_steps_invariant:
  "(\<And>m s r s'. m \<in> set ms \<Longrightarrow> P s \<Longrightarrow> m s = (r, s') \<Longrightarrow> P s') \<Longrightarrow> P s \<Longrightarrow>
     run_steps ms s = (r, s') \<Longrightarrow> P s'"
proof (induction ms arbitrary: s)
  case (Cons m ms)
  obtain r1 s1 where m: "m s = (r1, s1)" by fastforce
  with Cons.prems(1) [of m s r1 s1] Cons.prems(2) have s1: "P s1" by simp
  show ?case
  proof (cases r1)
    case None
    show ?thesis
    proof (rule Cons.IH [OF _ s1])
      show "run_steps ms s1 = (r, s')" using Cons.prems(3) m None by simp
    qed (use Cons.prems(1) in auto)
  qed (use Cons.prems(3) m s1 in auto)
qed simp

lemma run_steps_stopped:
  "run_steps ms s = (Some e, s') \<Longrightarrow> \<exists>m \<in> set ms. \<exists>t. m t = (Some e, s')"
  by (induction ms arbitrary: s) (auto split: prod.splits option.splits)

definition startup_steps ::
  "'h child_env \<Rightarrow> arg_data \<Rightarrow> home_data \<Rightarrow> int \<Rightarrow> int \<Rightarrow> 'h child_step list" where
  "startup_steps env a d uid gid =
     [step_pid a, step_user env a uid gid, step_init env a d, step_version env a,
       step_check env a, step_load env a, step_downgrade env a uid gid, step_start env]"

lemma child_starts_eq:
  "child_starts env a d uid gid = run_steps (startup_steps env a d uid gid @ [step_handlers env])"
  by (simp add: child_starts_def child_steps_def startup_steps_def)

lemma abort_at_drop: "abort_at ab n tr = Some tr' \<Longrightarrow> (\<exists>k < n. tr' = drop k tr) \<and> ab tr'"
  by (induction n) (auto split: if_splits simp: less_Suc_eq)

lemma vm_run_aborts:
  "vm_run env m s = (None, s') \<Longrightarrow>
     \<exists>x tr k. run_state m (c_calls s) = (x, tr) \<and> s' = s\<lparr>c_calls := drop k tr\<rparr>
       \<and> e_aborts env (drop k tr)"
  by (auto simp: vm_run_def dest!: abort_at_drop split: prod.splits option.splits)

lemma vm_run_done:
  "vm_run env m s = (Some x, s') \<Longrightarrow>
     \<exists>tr. run_state m (c_calls s) = (x, tr) \<and> s' = s\<lparr>c_calls := tr\<rparr>"
  by (auto simp: vm_run_def split: prod.splits option.splits)

lemma vm_run_frame: "vm_run env m s = (r, s') \<Longrightarrow> \<exists>tr. s' = s\<lparr>c_calls := tr\<rparr>"
  by (cases r) (auto dest!: vm_run_aborts vm_run_done)

lemma java_step_frame:
  "java_step env m code s = (r, s') \<Longrightarrow>
     (\<exists>tr. s' = s\<lparr>c_calls := tr\<rparr>) \<and>
     (r = None \<or> r = Some (Exit_with code) \<or> r = Some java_abort123 \<and> e_aborts env (c_calls s'))"
  by (auto simp: java_step_def dest!: vm_run_aborts vm_run_done split: prod.splits option.splits if_splits)

lemmas startup_defs = step_pid_def step_user_def step_init_def step_version_def step_check_def
  step_load_def step_downgrade_def step_start_def

lemma step_init_frame:
  assumes "step_init env a d s = (r, s')"
  shows "\<exists>tr. s' = s\<lparr>c_calls := tr\<rparr>"
    and "r = Some (Exit_with rc) \<Longrightarrow> rc = 1 \<or> rc = 123 \<and> e_aborts env (c_calls s')"
  using assms
  by (auto simp: step_init_def java_abort123_def dest!: vm_run_aborts vm_run_done
      split: prod.splits option.splits home_result.splits if_splits)

lemma startup_frame:
  assumes "m \<in> set (startup_steps env a d uid gid)" "m s = (r, s')"
  shows "c_flags s' = c_flags s \<and> c_controlled s' = c_controlled s \<and> c_handlers s' = c_handlers s
    \<and> self (c_world s') = self (c_world s)"
  using assms
  by (auto simp: startup_steps_def step_pid_def step_user_def step_version_def step_check_def
      step_load_def step_downgrade_def step_start_def same_env_def
      dest!: java_step_frame step_init_frame(1) check_pid_env
      split: prod.splits option.splits sum.splits if_splits)

section \<open>The loop and the signals\<close>

definition is_request :: "sig \<Rightarrow> bool" where
  "is_request g \<longleftrightarrow> g = SIGTERM \<or> g = SIGINT \<or> g = SIGHUP"

fun requests :: "event list \<Rightarrow> sig list" where
  "requests [] = []"
| "requests (Deliver g # evs) = (if is_request g then g # requests evs else requests evs)"
| "requests (Vm_abort # evs) = requests evs"
| "requests (Go # evs) = requests evs"

lemma requests_append [simp]: "requests (xs @ ys) = requests xs @ requests ys"
  by (induction xs rule: requests.induct) auto

definition flags_after :: "sig list \<Rightarrow> sig_flags \<Rightarrow> bool" where
  "flags_after gs f \<longleftrightarrow> (stopping f \<longleftrightarrow> gs \<noteq> []) \<and> (doreload f \<longleftrightarrow> gs \<noteq> [] \<and> hd gs = SIGHUP)"

lemma handler_flags:
  "flags_after gs f \<Longrightarrow> flags_after (gs @ (if is_request g then [g] else [])) (handler g f)"
  by (cases g) (auto simp: flags_after_def is_request_def)

lemma loop_step_flags:
  "loop_step env p s = (p', s') \<Longrightarrow>
     stopping (c_flags s') = stopping (c_flags s) \<and> doreload (c_flags s') = doreload (c_flags s)"
  by (cases p) (auto simp: sleep_60_def dest!: vm_run_frame split: if_splits prod.splits option.splits)

lemma run_loop_flags:
  assumes "c_flags s = no_flags"
  shows "flags_after (requests evs) (c_flags (loop_child (run_loop env evs s)))"
proof (induction evs rule: rev_induct)
  case Nil
  with assms show ?case by (simp add: run_loop_def flags_after_def no_flags_def)
next
  case (snoc e evs)
  show ?case
  proof (cases e)
    case (Deliver g)
    with snoc handler_flags [of "requests evs" _ g] show ?thesis
      by (auto simp: run_loop_def split: if_splits)
  next
    case Go
    with snoc show ?thesis
      by (auto simp: run_loop_def flags_after_def split: prod.splits dest: loop_step_flags)
  qed (use snoc in \<open>simp add: run_loop_def\<close>)
qed

fun distance :: "place \<Rightarrow> nat" where
  "distance Left = 0"
| "distance Aborted = 0"
| "distance Test = 1"
| "distance Send_signal = 2"
| "distance See_signal = 3"
| "distance Reopen = 4"
| "distance See_reopen = 5"
| "distance Sleep = 6"

definition steps_in :: "event list \<Rightarrow> nat" where
  "steps_in evs = length (filter (\<lambda>e. e = Go) evs)"

lemma distance_0 [simp]: "distance p = 0 \<longleftrightarrow> p = Left \<or> p = Aborted"
  by (cases p) auto

lemma handler_keeps:
  "stopping f \<Longrightarrow> stopping (handler g f)" "doreopen f \<Longrightarrow> doreopen (handler g f)"
  "dosignal f \<Longrightarrow> dosignal (handler g f)"
  by (cases g; simp)+

text \<open>
  The contract of a request that the loop takes up within a number of steps: signals do not
  delay it, every step of the main thread brings it nearer, and once done it stays done.
\<close>

locale bounded_response =
  fixes env :: "'h child_env" and due :: "nat \<Rightarrow> 'h loop_state \<Rightarrow> bool"
  assumes deliver: "due k l \<Longrightarrow> due k (react env (Deliver g) l)"
    and abort: "due k l \<Longrightarrow> due k (react env Vm_abort l)"
    and go: "due k l \<Longrightarrow> due (k - 1) (react env Go l)"
begin

lemma responds: "due k l \<Longrightarrow> due (k - steps_in evs) (fold (react env) evs l)"
proof (induction evs arbitrary: k l)
  case (Cons e evs)
  show ?case
  proof (cases e)
    case (Deliver g)
    with Cons.IH [OF deliver [OF Cons.prems, of g]] show ?thesis by (simp add: steps_in_def)
  next
    case Vm_abort
    with Cons.IH [OF abort [OF Cons.prems]] show ?thesis by (simp add: steps_in_def)
  next
    case Go
    with Cons.IH [OF go [OF Cons.prems]] show ?thesis by (simp add: steps_in_def)
  qed
qed (simp add: steps_in_def)

lemma done_in_time: "due k l \<Longrightarrow> k \<le> steps_in evs \<Longrightarrow> due 0 (fold (react env) evs l)"
  using responds [of k l evs] by simp

end

definition stop_due :: "nat \<Rightarrow> 'h loop_state \<Rightarrow> bool" where
  "stop_due k l \<longleftrightarrow> at l = Aborted \<or> stopping (c_flags (loop_child l)) \<and> distance (at l) \<le> k"

definition reopen_due :: "nat \<Rightarrow> nat \<Rightarrow> 'h loop_state \<Rightarrow> bool" where
  "reopen_due n k l \<longleftrightarrow> at l = Aborted \<or> n < c_reopened (loop_child l) \<or> n \<le> c_reopened (loop_child l) \<and>
     (at l = Reopen \<and> 1 \<le> k
      \<or> doreopen (c_flags (loop_child l)) \<and> (at l = See_reopen \<and> 2 \<le> k \<or> at l = Sleep \<and> 3 \<le> k))"

text \<open>How often a method of the loader class has been called.\<close>

fun calls_loader :: "string \<Rightarrow> ext_call \<Rightarrow> bool" where
  "calls_loader m (CallStaticBooleanMethod c n as) \<longleftrightarrow> c = LOADER \<and> n = m"
| "calls_loader m _ \<longleftrightarrow> False"

definition loader_calls :: "string \<Rightarrow> call_trace \<Rightarrow> nat" where
  "loader_calls m tr = length (filter (\<lambda>c. calls_loader m (fst c)) tr)"

lemma loader_calls_Cons:
  "loader_calls m [] = 0"
  "loader_calls m (x # tr) = (if calls_loader m (fst x) then 1 else 0) + loader_calls m tr"
  by (simp_all add: loader_calls_def)

definition signal_calls :: "'h child_state \<Rightarrow> nat" where
  "signal_calls s = loader_calls ''signal'' (c_calls s)"

definition has_signal :: "'h child_env \<Rightarrow> bool" where
  "has_signal env \<longleftrightarrow> (\<forall>tr. e_answers env tr (GetStaticMethodID LOADER ''signal'' ''()Z''))"

definition signal_due :: "'h child_env \<Rightarrow> nat \<Rightarrow> nat \<Rightarrow> 'h loop_state \<Rightarrow> bool" where
  "signal_due env n k l \<longleftrightarrow> (has_signal env \<longrightarrow>
     at l = Aborted \<or> n < signal_calls (loop_child l) \<or> n \<le> signal_calls (loop_child l) \<and>
     (at l = Send_signal \<and> 1 \<le> k
      \<or> dosignal (c_flags (loop_child l)) \<and>
        (at l = See_signal \<and> 2 \<le> k \<or> at l = Reopen \<and> 3 \<le> k \<or> at l = See_reopen \<and> 4 \<le> k
         \<or> at l = Sleep \<and> 5 \<le> k)))"

lemma signal_step_calls:
  assumes "has_signal env" "vm_run env (java_signal (e_answers env)) s = (Some r, s')"
  shows "signal_calls s' = Suc (signal_calls s)"
  using assms(1) vm_run_done [OF assms(2)]
  by (auto simp: has_signal_def signal_calls_def java_signal_def run_jni loader_calls_Cons)

lemma sleep_step_frame:
  assumes "sleep_60 env s = (p, s')"
  shows "p = Aborted \<or> p = See_reopen \<and> signal_calls s' = signal_calls s"
    and "c_flags s' = c_flags s" "c_reopened s' = c_reopened s" "c_proc s' = c_proc s"
  using assms
  by (auto simp: sleep_60_def signal_calls_def java_sleep_def run_jni loader_calls_Cons
      dest!: vm_run_done vm_run_aborts split: if_splits prod.splits option.splits)

lemma signal_step_frame:
  "loop_step env Send_signal s = (p, s') \<Longrightarrow> (p = Aborted \<or> p = Test) \<and> c_flags s' = c_flags s
     \<and> c_reopened s' = c_reopened s \<and> (has_signal env \<longrightarrow> p = Test \<longrightarrow> signal_calls s' = Suc (signal_calls s))"
  by (auto dest: vm_run_frame signal_step_calls split: prod.splits option.splits)

interpretation stop_response: bounded_response env stop_due for env :: "'h child_env"
proof
  show "stop_due k l \<Longrightarrow> stop_due k (react env (Deliver g) l)" for k g and l :: "'h loop_state"
    by (auto simp: stop_due_def handler_keeps)
  show "stop_due k l \<Longrightarrow> stop_due k (react env Vm_abort l)" for k and l :: "'h loop_state"
    by (simp add: stop_due_def)
  show "stop_due k l \<Longrightarrow> stop_due (k - 1) (react env Go l)" for k and l :: "'h loop_state"
    by (cases "at l") (auto simp: stop_due_def simp del: loop_step.simps(6)
        dest: sleep_step_frame signal_step_frame split: prod.splits)
qed

interpretation reopen_response: bounded_response env "reopen_due n" for env :: "'h child_env" and n
proof
  show "reopen_due n k l \<Longrightarrow> reopen_due n k (react env (Deliver g) l)" for k g and l :: "'h loop_state"
    by (auto simp: reopen_due_def handler_keeps)
  show "reopen_due n k l \<Longrightarrow> reopen_due n k (react env Vm_abort l)" for k and l :: "'h loop_state"
    by (simp add: reopen_due_def)
  show "reopen_due n k l \<Longrightarrow> reopen_due n (k - 1) (react env Go l)" for k and l :: "'h loop_state"
    by (cases "at l") (auto simp: reopen_due_def simp del: loop_step.simps(6)
        dest: sleep_step_frame signal_step_frame split: prod.splits)
qed

interpretation signal_response: bounded_response env "signal_due env n" for env :: "'h child_env" and n
proof
  show "signal_due env n k l \<Longrightarrow> signal_due env n k (react env (Deliver g) l)" for k g and l :: "'h loop_state"
    by (auto simp: signal_due_def handler_keeps signal_calls_def)
  show "signal_due env n k l \<Longrightarrow> signal_due env n k (react env Vm_abort l)" for k and l :: "'h loop_state"
    by (simp add: signal_due_def)
  show "signal_due env n k l \<Longrightarrow> signal_due env n (k - 1) (react env Go l)" for k and l :: "'h loop_state"
  proof (cases "at l")
    case Send_signal
    then show "signal_due env n k l \<Longrightarrow> signal_due env n (k - 1) (react env Go l)"
      by (auto simp: signal_due_def simp del: loop_step.simps(6) dest!: signal_step_frame split: prod.splits)
  next
    case Sleep
    then show "signal_due env n k l \<Longrightarrow> signal_due env n (k - 1) (react env Go l)"
      by (auto simp: signal_due_def dest: sleep_step_frame split: prod.splits)
  qed (auto simp: signal_due_def signal_calls_def)
qed

section \<open>Exit codes\<close>

lemma startup_exit:
  assumes "m \<in> set (startup_steps env a d uid gid)" "m s = (Some (Exit_with rc), s')"
    and "\<not> vers a" "\<not> chck a"
  shows "rc \<in> {122, - 1, 1, 2, 3, 4, 5, 7} \<or> rc = 123 \<and> e_aborts env (c_calls s')"
  using assms
  by (auto simp: startup_steps_def step_pid_def step_user_def step_version_def step_check_def
      step_load_def step_downgrade_def step_start_def java_abort123_def
      dest!: java_step_frame step_init_frame(2) [OF _ refl] check_pid_env
      split: prod.splits option.splits sum.splits if_splits)

lemma starts_exit:
  assumes "child_starts env a d uid gid s = (Some (Exit_with rc), s')" "\<not> vers a" "\<not> chck a"
  shows "rc \<in> {122, - 1, 1, 2, 3, 4, 5, 7} \<or> rc = 123 \<and> e_aborts env (c_calls s')"
  using assms run_steps_stopped [of "startup_steps env a d uid gid @ [step_handlers env]" s]
  by (auto simp: child_starts_eq step_handlers_def dest!: startup_exit)

lemma starts_frame:
  assumes "child_starts env a d uid gid s = (None, s')"
  shows "c_flags s' = c_flags s" "c_controlled s' = self (c_world s)"
proof -
  obtain s1 where s1: "run_steps (startup_steps env a d uid gid) s = (None, s1)"
    "step_handlers env s1 = (None, s')"
    using assms by (auto simp: child_starts_eq run_steps_append split: prod.splits option.splits)
  have "c_flags s1 = c_flags s \<and> self (c_world s1) = self (c_world s)"
    using run_steps_invariant [where P = "\<lambda>t. c_flags t = c_flags s \<and> self (c_world t) = self (c_world s)",
        OF _ _ s1(1)] startup_frame by metis
  with s1(2) show "c_flags s' = c_flags s" "c_controlled s' = self (c_world s)"
    by (auto simp: step_handlers_def)
qed

lemma step_exit_result:
  assumes "step_exit env s = (Some (Exit_with rc), s')"
  shows "rc = 7 \<or> rc = 123 \<and> e_aborts env (c_calls s') \<or> rc = (if doreload (c_flags s) then 123 else 0)"
  using assms
  by (auto simp: step_exit_def java_abort123_def Let_def dest!: java_step_frame vm_run_aborts
      split: prod.splits option.splits if_splits)

lemma leave_exit:
  assumes "run_steps [step_stop env, step_exit env] s = (Some (Exit_with rc), s')"
  shows "rc \<in> {6, 7} \<or> rc = 123 \<and> e_aborts env (c_calls s')
    \<or> rc = (if doreload (c_flags s) then 123 else 0)"
proof (cases "step_stop env s")
  case (Pair r1 s1)
  then have f: "c_flags s1 = c_flags s"
    and r: "r1 = None \<or> r1 = Some (Exit_with 6) \<or> r1 = Some (Exit_with 123) \<and> e_aborts env (c_calls s1)"
    by (auto simp: step_stop_def java_abort123_def dest!: java_step_frame)
  with Pair assms step_exit_result [of env s1 rc s'] show ?thesis
    by (cases r1) (auto split: prod.splits option.splits)
qed

section \<open>The rights of the service\<close>

text \<open>The states that a list of steps passes through, the first and the last included.\<close>

fun passes :: "'h child_step list \<Rightarrow> 'h child_state \<Rightarrow> 'h child_state list" where
  "passes [] s = [s]"
| "passes (m # ms) s =
     s # (case m s of (None, s') \<Rightarrow> passes ms s' | (Some e, s') \<Rightarrow> [s'])"

lemma passes_append:
  "t \<in> set (passes (ms @ ns) s) \<Longrightarrow>
     t \<in> set (passes ms s) \<or> (\<exists>s'. run_steps ms s = (None, s') \<and> t \<in> set (passes ns s'))"
proof (induction ms arbitrary: s)
  case (Cons m ms)
  obtain r1 s1 where m: "m s = (r1, s1)" by fastforce
  with Cons.prems Cons.IH [of s1] show ?case by (cases r1) auto
qed simp

lemma passes_invariant:
  "t \<in> set (passes ms s) \<Longrightarrow> P s \<Longrightarrow> (\<And>m s r s'. m \<in> set ms \<Longrightarrow> P s \<Longrightarrow> m s = (r, s') \<Longrightarrow> P s') \<Longrightarrow> P t"
proof (induction ms arbitrary: s)
  case (Cons m ms)
  obtain r1 s1 where m: "m s = (r1, s1)" by fastforce
  with Cons.prems(2) Cons.prems(3) [of m s r1 s1] have "P s1" by simp
  moreover have "P s2'" if "m' \<in> set ms" "P s2" "m' s2 = (r2, s2')" for m' s2 r2 s2'
    using Cons.prems(3) [of m' s2 r2 s2'] that by simp
  ultimately have "t \<in> set (passes ms s1) \<Longrightarrow> P t" using Cons.IH by blast
  with Cons.prems(1,2) m \<open>P s1\<close> show ?case by (cases r1) auto
qed simp

text \<open>Code that does not call a method of the loader class.\<close>

definition never_calls :: "string \<Rightarrow> 'a jni \<Rightarrow> bool" where
  "never_calls n m \<longleftrightarrow>
     (\<forall>tr r tr'. run_state m tr = (r, tr') \<longrightarrow> loader_calls n tr' = loader_calls n tr)"

lemma never_calls_ret [intro!]: "never_calls n (ret x)"
  by (simp add: never_calls_def run_jni)

lemma never_calls_jni [intro!]: "\<not> calls_loader n c \<Longrightarrow> never_calls n (jni ans c)"
  by (simp add: never_calls_def run_jni loader_calls_Cons)

lemma never_calls_bind [intro!]:
  "never_calls n m \<Longrightarrow> (\<And>x. never_calls n (f x)) \<Longrightarrow> never_calls n (m \<bind> f)"
  by (fastforce simp: never_calls_def run_jni split: prod.splits)

lemma never_calls_if [intro!]:
  "(b \<Longrightarrow> never_calls n m) \<Longrightarrow> (\<not> b \<Longrightarrow> never_calls n m') \<Longrightarrow> never_calls n (if b then m else m')"
  by simp

lemma not_start: "''load'' \<noteq> ''start''" "''check'' \<noteq> ''start''"
  by code_simp+

lemma init_never_starts:
  "never_calls n (java_init plat ans (dlfcn ans) stat a d pid ppid)"
proof -
  have "never_calls n (create_vm ans vs)" for vs
    unfolding create_vm_def by (intro never_calls_bind never_calls_if never_calls_ret never_calls_jni) simp_all
  then have "never_calls n (prepare_vm ans osd a pid ppid)" for osd
    unfolding prepare_vm_def by (auto split: sum.split)
  moreover have "never_calls n (dso_link (dlfcn ans) l)" "never_calls n (dso_symbol (dlfcn ans) h s)"
    "never_calls n (dso_init (dlfcn ans))" for l h s
    by (auto simp: dlfcn_def dlfcn_link_def dlfcn_symbol_def dlfcn_init_def)
  moreover from this have "never_calls n (link_entry (dlfcn ans) l)"
    "never_calls n (link_entry_darwin (dlfcn ans) stat h l)" for l h
    unfolding link_entry_def link_entry_darwin_def
    by (auto split: home_result.split option.split)
  ultimately show ?thesis
    unfolding java_init_def by (auto split: home_result.split option.split)
qed

lemma loader_never_starts:
  "never_calls ''start'' (java_version ans)" "never_calls ''start'' (java_check ans a)"
  "never_calls ''start'' (java_load ans a)"
proof -
  have "never_calls ''start'' (fill_array ans x ss arr)" for x ss arr
    by (induction ss arbitrary: x arr) auto
  then show "never_calls ''start'' (java_load ans a)"
    by (auto simp: java_load_def call_loader_def not_start split: option.split)
qed (auto simp: java_version_def java_check_def call_loader_def not_start)

lemma loader_calls_drop: "loader_calls n (drop k tr) \<le> loader_calls n tr"
  by (induction tr arbitrary: k) (auto simp: loader_calls_Cons drop_Cons split: nat.split intro: le_SucI)

lemma vm_run_never_calls:
  assumes "never_calls n m" "vm_run env m s = (r, s')" "loader_calls n (c_calls s) = 0"
  shows "loader_calls n (c_calls s') = 0"
proof (cases r)
  case None
  with vm_run_aborts [of env m s s'] assms(2) obtain x tr k
    where run: "run_state m (c_calls s) = (x, tr)" and s': "c_calls s' = drop k tr" by auto
  then show ?thesis
    using assms(1,3) loader_calls_drop [of n k tr] by (simp add: never_calls_def)
next
  case (Some x)
  with vm_run_done [of env m s x s'] assms show ?thesis by (auto simp: never_calls_def)
qed

definition service_called :: "'h child_state \<Rightarrow> bool" where
  "service_called s \<longleftrightarrow> 0 < loader_calls ''start'' (c_calls s)"

definition early_steps ::
  "'h child_env \<Rightarrow> arg_data \<Rightarrow> home_data \<Rightarrow> 'h child_step list" where
  "early_steps env a d = [step_init env a d, step_version env a, step_check env a, step_load env a]"

lemma java_step_never_calls:
  assumes "never_calls ''start'' m" "java_step env m code s = (r, s')" "service_called s'"
  shows "service_called s"
proof -
  obtain x where "vm_run env m s = (x, s')"
    using assms(2) by (auto simp: java_step_def split: prod.splits option.splits if_splits)
  from vm_run_never_calls [OF assms(1) this] assms(3) show ?thesis by (auto simp: service_called_def)
qed

lemma early_steps_silent:
  assumes "e_ops env = dlfcn (e_answers env)" "m \<in> set (early_steps env a d)" "m s = (r, s')"
  shows "(\<not> service_called s \<longrightarrow> \<not> service_called s') \<and> c_proc s' = c_proc s"
proof -
  have init: "vm_run env (java_init (e_plat env) (e_answers env) (e_ops env) (e_stat env) a d pid ppid) t
      = (x, t') \<Longrightarrow> \<not> service_called t \<Longrightarrow> \<not> service_called t'" for pid ppid t x t'
    using vm_run_never_calls [OF init_never_starts] unfolding assms(1) service_called_def by simp
  consider "m = step_init env a d" | "m = step_version env a" | "m = step_check env a"
    | "m = step_load env a" using assms(2) by (auto simp: early_steps_def)
  then show ?thesis
  proof cases
    case 1
    with assms(3) have "\<not> service_called s \<longrightarrow> \<not> service_called s'"
      by (auto simp: step_init_def dest: init split: prod.splits option.splits home_result.splits if_splits)
    with 1 assms(3) step_init_frame(1) show ?thesis by fastforce
  next
    case 2
    with assms(3) show ?thesis
      by (auto dest: java_step_never_calls [OF loader_never_starts(1)] simp: step_version_def dest: java_step_frame split: prod.splits option.splits if_splits)
  next
    case 3
    with assms(3) show ?thesis
      by (auto dest: java_step_never_calls [OF loader_never_starts(2)] simp: step_check_def dest: java_step_frame split: prod.splits option.splits if_splits)
  next
    case 4
    with assms(3) show ?thesis
      by (auto dest: java_step_never_calls [OF loader_never_starts(3)] simp: step_load_def dest: java_step_frame)
  qed
qed

definition bare :: "int \<Rightarrow> int \<Rightarrow> proc \<Rightarrow> bool" where
  "bare uid gid p \<longleftrightarrow> p_uid p = uid \<and> p_gid p = gid \<and>
     p_effective p = 0 \<and> p_permitted p = 0 \<and> p_inheritable p = 0"

lemma child_steps_eq:
  "child_steps env a d uid gid = [step_pid a, step_user env a uid gid] @ early_steps env a d
     @ [step_downgrade env a uid gid] @ [step_start env, step_handlers env]"
  by (simp add: child_steps_def early_steps_def)

lemma first_steps_calls:
  "step_pid a s = (r, s') \<Longrightarrow> c_calls s' = c_calls s"
  "step_user env a uid gid s = (r, s') \<Longrightarrow> c_calls s' = c_calls s"
  "step_downgrade env a uid gid s = (r, s') \<Longrightarrow> c_calls s' = c_calls s"
  by (auto simp: step_pid_def step_user_def step_downgrade_def split: sum.splits prod.splits if_splits)

lemma user_switched:
  fixes env :: "unit child_env"
  assumes "posix_kernel (e_kernel env)" "os_of (e_plat env) = OS_LINUX" "user a = Some u"
    and "e_set_caps env = (\<lambda>r h p. (set_caps_legacy (e_kernel env) r p, h))"
    and "step_user env a uid gid s = (None, s')"
  shows "p_uid (c_proc s') = uid \<and> p_gid (c_proc s') = gid"
proof -
  have "linuxset_user_group (e_kernel env) (\<lambda>r (h :: unit) p. (set_caps_legacy (e_kernel env) r p, h))
      (Some u) uid gid () (c_proc s) = ((0, c_proc s'), ())"
    using assms(2-5) by (auto simp: step_user_def split: prod.splits if_splits)
  then show ?thesis using legacy_build.switched [OF assms(1)] by blast
qed

lemma downgraded_bare:
  fixes env :: "unit child_env"
  assumes "posix_kernel (e_kernel env)" "os_of (e_plat env) = OS_LINUX" "user a = Some u"
    and "e_set_caps env = (\<lambda>r h p. (set_caps_legacy (e_kernel env) r p, h))"
    and "step_downgrade env a uid gid s = (None, s')"
    and "p_uid (c_proc s) = uid" "p_gid (c_proc s) = gid"
  shows "bare uid gid (c_proc s')"
proof -
  have "set_caps_legacy (e_kernel env) CAPS_NONE (c_proc s) = (0, c_proc s')"
    using assms(2-5) by (auto simp: step_downgrade_def split: prod.splits if_splits)
  then show ?thesis using assms(6,7)
    by (auto simp: bare_def set_caps_legacy_def set_legacy_caps_def
        dest!: capset_frame [OF assms(1)] split: option.splits)
qed

lemma last_steps_proc:
  "m \<in> set [step_start env, step_handlers env] \<Longrightarrow> m s = (r, s') \<Longrightarrow> c_proc s' = c_proc s"
  by (auto simp: step_start_def step_handlers_def dest!: java_step_frame)

lemma starts_rights:
  fixes env :: "unit child_env"
  assumes env: "posix_kernel (e_kernel env)" "os_of (e_plat env) = OS_LINUX" "user a = Some u"
      "e_set_caps env = (\<lambda>r h p. (set_caps_legacy (e_kernel env) r p, h))"
    and ops: "e_ops env = dlfcn (e_answers env)" and s: "\<not> service_called s"
    and t: "t \<in> set (passes (child_steps env a d uid gid) s)"
  shows "service_called t \<longrightarrow> bare uid gid (c_proc t)"
proof -
  let ?first = "[step_pid a, step_user env a uid gid]"
  let ?down = "[step_downgrade env a uid gid]" and ?last = "[step_start env, step_handlers env]"
  have first: "\<not> service_called t'" if "t' \<in> set (passes ?first s)" for t'
    by (rule passes_invariant [where P = "\<lambda>t. \<not> service_called t", OF that s]) (auto simp: service_called_def dest: first_steps_calls)
  consider "t \<in> set (passes ?first s)"
    | s2 where "run_steps ?first s = (None, s2)" "t \<in> set (passes (early_steps env a d @ ?down @ ?last) s2)"
    using t passes_append [of t ?first] unfolding child_steps_eq by blast
  then show ?thesis
  proof cases
    case 2
    have uid: "p_uid (c_proc s2) = uid \<and> p_gid (c_proc s2) = gid"
      using 2(1) user_switched [OF env] by (auto split: prod.splits option.splits)
    have s2: "\<not> service_called s2"
      using 2(1) s
      by (auto simp: service_called_def dest!: first_steps_calls split: prod.splits option.splits)
    let ?P = "\<lambda>t. \<not> service_called t \<and> c_proc t = c_proc s2"
    have P: "?P t'" if "t' \<in> set (passes (early_steps env a d) s2)" for t'
      by (rule passes_invariant [where P = ?P, OF that]) (use s2 early_steps_silent [OF ops] in auto)
    consider "t \<in> set (passes (early_steps env a d) s2)"
      | s3 where "run_steps (early_steps env a d) s2 = (None, s3)" "t \<in> set (passes (?down @ ?last) s3)"
      using passes_append [OF 2(2)] by blast
    then show ?thesis
    proof cases
      case (2 s3)
      have s3: "?P s3"
        by (rule run_steps_invariant [where P = ?P, OF _ _ 2(1)]) (use s2 early_steps_silent [OF ops] in auto)
      consider "t \<in> set (passes ?down s3)"
        | s4 where "run_steps ?down s3 = (None, s4)" "t \<in> set (passes ?last s4)"
        using passes_append [OF 2(2)] by blast
      then show ?thesis
      proof cases
        case 1
        have "\<not> service_called t"
          by (rule passes_invariant [where P = "\<lambda>t. \<not> service_called t", OF 1]) (use s3 in \<open>auto simp: service_called_def dest: first_steps_calls\<close>)
        then show ?thesis by blast
      next
        case (2 s4)
        have "bare uid gid (c_proc s4)"
          using 2(1) downgraded_bare [OF env, of uid gid s3 s4] s3 uid
          by (auto split: prod.splits option.splits)
        moreover have "c_proc t = c_proc s4"
          by (rule passes_invariant [where P = "\<lambda>t. c_proc t = c_proc s4", OF 2(2)]) (auto dest: last_steps_proc [of _ env, rotated])
        ultimately show ?thesis by simp
      qed
    qed (use P in blast)
  qed (use first in blast)
qed

section \<open>The protocol of the native interface\<close>

definition keeps_protocol :: "(call_trace \<Rightarrow> bool) \<Rightarrow> 'h child_step \<Rightarrow> bool" where
  "keeps_protocol th m \<longleftrightarrow>
     (\<forall>s r s'. ready th (c_calls s) \<longrightarrow> m s = (r, s') \<longrightarrow>
        obeys th (c_calls s') \<and> (r = None \<longrightarrow> ready th (c_calls s')))"

lemma keeps_protocolI:
  "(\<And>s r s'. ready th (c_calls s) \<Longrightarrow> m s = (r, s') \<Longrightarrow>
      obeys th (c_calls s') \<and> (r = None \<longrightarrow> ready th (c_calls s'))) \<Longrightarrow> keeps_protocol th m"
  by (simp add: keeps_protocol_def)

lemma keeps_protocolD:
  "keeps_protocol th m \<Longrightarrow> ready th (c_calls s) \<Longrightarrow> m s = (r, s') \<Longrightarrow>
     obeys th (c_calls s') \<and> (r = None \<longrightarrow> ready th (c_calls s'))"
  unfolding keeps_protocol_def by blast

lemma run_steps_protocol: "list_all (keeps_protocol th) ms \<Longrightarrow> keeps_protocol th (run_steps ms)"
proof (induction ms)
  case Nil
  show ?case by (simp add: keeps_protocol_def ready_def)
next
  case (Cons m ms)
  show ?case
  proof (rule keeps_protocolI)
    fix s :: "'a child_state" and r s'
    assume s: "ready th (c_calls s)" and run: "run_steps (m # ms) s = (r, s')"
    obtain r1 s1 where m1: "m s = (r1, s1)" by fastforce
    with Cons.prems s have s1: "obeys th (c_calls s1) \<and> (r1 = None \<longrightarrow> ready th (c_calls s1))"
      by (auto dest: keeps_protocolD)
    show "obeys th (c_calls s') \<and> (r = None \<longrightarrow> ready th (c_calls s'))"
    proof (cases r1)
      case None
      with m1 run have "run_steps ms s1 = (r, s')" by simp
      with s1 None keeps_protocolD [of th "run_steps ms" s1] Cons show ?thesis by simp
    qed (use s1 m1 run in auto)
  qed
qed

lemma vm_run_obeys:
  assumes "\<And>tr r tr'. ready th tr \<Longrightarrow> run_state m tr = (r, tr') \<Longrightarrow> obeys th tr' \<and> (P r \<longrightarrow> ready th tr')"
    and "ready th (c_calls s)" "vm_run env m s = (x, s')"
  shows "obeys th (c_calls s') \<and> (\<forall>r. x = Some r \<longrightarrow> P r \<longrightarrow> ready th (c_calls s'))"
proof (cases x)
  case None
  with vm_run_aborts [of env m s s'] assms(3) obtain r tr k
    where "run_state m (c_calls s) = (r, tr)" "c_calls s' = drop k tr" by auto
  with assms(1) [OF assms(2)] None show ?thesis by (auto intro: obeys_drop)
next
  case (Some r)
  with vm_run_done [of env m s r s'] assms(3) assms(1) [OF assms(2)] show ?thesis by auto
qed

lemma java_step_protocol:
  assumes "\<And>tr r tr'. ready th tr \<Longrightarrow> run_state m tr = (r, tr') \<Longrightarrow> obeys th tr' \<and> (r \<longrightarrow> ready th tr')"
  shows "keeps_protocol th (java_step env m code)"
proof (rule keeps_protocolI)
  fix s r s'
  assume s: "ready th (c_calls s)" and run: "java_step env m code s = (r, s')"
  obtain x t where v: "vm_run env m s = (x, t)" by fastforce
  with run have t: "s' = t" "r = None \<Longrightarrow> x = Some True"
    by (auto simp: java_step_def split: option.splits if_splits)
  with vm_run_obeys [OF assms s v] show "obeys th (c_calls s') \<and> (r = None \<longrightarrow> ready th (c_calls s'))"
    by auto
qed

lemma keeps_protocol_end:
  assumes "keeps_protocol th m"
  shows "keeps_protocol th (\<lambda>s. case m s of (None, s') \<Rightarrow> (Some e, s') | (Some x, s') \<Rightarrow> (Some x, s'))"
proof (rule keeps_protocolI)
  fix s r s'
  assume s: "ready th (c_calls s)"
    and run: "(case m s of (None, s') \<Rightarrow> (Some e, s') | (Some x, s') \<Rightarrow> (Some x, s')) = (r, s')"
  obtain r1 s1 where m1: "m s = (r1, s1)" by fastforce
  with run have "s' = s1" "r \<noteq> None" by (auto split: option.splits)
  with keeps_protocolD [OF assms s m1] show "obeys th (c_calls s') \<and> (r = None \<longrightarrow> ready th (c_calls s'))"
    by auto
qed

lemma keeps_protocol_if:
  assumes "b \<Longrightarrow> keeps_protocol th m" "\<not> b \<Longrightarrow> keeps_protocol th m'"
  shows "keeps_protocol th (\<lambda>s. if b then m s else m' s)"
  using assms by (cases b) simp_all

lemma keeps_protocol_none: "keeps_protocol th (Pair None)"
  by (simp add: keeps_protocol_def ready_def)

lemma after_init_protocol:
  assumes "clas a \<noteq> None" and th: "loader_catches th"
  shows "list_all (keeps_protocol th) [step_version env a, step_check env a, step_load env a,
    step_downgrade env a uid gid, step_start env, step_handlers env, step_stop env]"
proof -
  have version: "keeps_protocol th (java_step env (java_version (e_answers env)) code)" for code
    by (rule java_step_protocol) (rule java_version_ready [OF _ _ th])
  have check: "keeps_protocol th (java_step env (java_check (e_answers env) a) code)" for code
    by (rule java_step_protocol) (rule java_check_ready [OF _ _ th assms(1)])
  have load: "keeps_protocol th (java_step env (java_load (e_answers env) a) code)" for code
    by (rule java_step_protocol) (rule java_load_ready [OF _ _ th assms(1)])
  have start: "keeps_protocol th (java_step env (java_start (e_answers env)) code)" for code
    by (rule java_step_protocol) (rule java_start_ready [OF _ _ th])
  have stop: "keeps_protocol th (java_step env (java_stop (e_answers env)) code)" for code
    by (rule java_step_protocol) (rule java_stop_ready [OF _ _ th])
  have version_end: "keeps_protocol th (\<lambda>s. case java_step env (java_version (e_answers env)) (- 1) s of
      (None, s') \<Rightarrow> (Some (Exit_with 0), s') | r \<Rightarrow> r)"
    using version [of "- 1"] by (rule keeps_protocol_end)
  have check_end: "keeps_protocol th (\<lambda>s. case java_step env (java_check (e_answers env) a) 2 s of
      (None, s') \<Rightarrow> (Some (Exit_with 0), s') | r \<Rightarrow> r)"
    using check [of 2] by (rule keeps_protocol_end)
  have "keeps_protocol th (step_version env a)"
    unfolding step_version_def
    by (intro keeps_protocol_if version_end version keeps_protocol_none)
  moreover have "keeps_protocol th (step_check env a)"
    unfolding step_check_def by (intro keeps_protocol_if check_end keeps_protocol_none)
  moreover have "keeps_protocol th (step_load env a)" using load by (simp add: step_load_def)
  moreover have "keeps_protocol th (step_downgrade env a uid gid)"
    by (rule keeps_protocolI) (auto simp: step_downgrade_def ready_def split: prod.splits if_splits)
  moreover have "keeps_protocol th (step_start env)"
    by (rule keeps_protocolI) (auto simp: step_start_def dest: keeps_protocolD [OF start, rotated])
  moreover have "keeps_protocol th (step_handlers env)"
    by (rule keeps_protocolI) (auto simp: step_handlers_def ready_def)
  moreover have "keeps_protocol th (step_stop env)"
    by (rule keeps_protocolI) (auto simp: step_stop_def dest: keeps_protocolD [OF stop, rotated])
  ultimately show ?thesis by simp
qed

lemma react_protocol:
  assumes "\<not> osd_posix (e_plat env)"
    and "obeys th (c_calls (loop_child l)) \<and> (at l \<noteq> Aborted \<longrightarrow> ready th (c_calls (loop_child l)))"
  shows "obeys th (c_calls (loop_child (react env e l)))
    \<and> (at (react env e l) \<noteq> Aborted \<longrightarrow> ready th (c_calls (loop_child (react env e l))))"
proof (cases "e = Go \<and> at l = Send_signal")
  case True
  obtain x s' where v: "vm_run env (java_signal (e_answers env)) (loop_child l) = (x, s')" by fastforce
  have "obeys th (c_calls s') \<and> (\<forall>r. x = Some r \<longrightarrow> True \<longrightarrow> ready th (c_calls s'))"
  proof (rule vm_run_obeys [OF _ _ v])
    show "obeys th tr' \<and> (True \<longrightarrow> ready th tr')"
      if "ready th tr" "run_state (java_signal (e_answers env)) tr = (r, tr')" for tr r tr'
      using java_signal_ready [OF that] by (simp add: ready_def)
  qed (use True assms(2) in simp)
  with True v show ?thesis by (auto split: option.splits)
next
  case False
  with assms show ?thesis
    by (cases e; cases "at l") (auto simp: sleep_60_def)
qed

lemma run_loop_protocol:
  "\<not> osd_posix (e_plat env) \<Longrightarrow> ready th (c_calls s) \<Longrightarrow>
     obeys th (c_calls (loop_child (run_loop env evs s)))
     \<and> (at (run_loop env evs s) \<noteq> Aborted \<longrightarrow> ready th (c_calls (loop_child (run_loop env evs s))))"
  unfolding run_loop_def
proof (induction evs rule: rev_induct)
  case (snoc e evs)
  then show ?case using react_protocol by simp
qed (simp add: ready_def)

lemma left_stopping: "at (run_loop env evs s) = Left \<Longrightarrow> stopping (c_flags (loop_child (run_loop env evs s)))"
  unfolding run_loop_def
proof (induction evs rule: rev_induct)
  case (snoc e evs)
  let ?l = "fold (react env) evs \<lparr>at = Test, loop_child = s\<rparr>"
  show ?case
  proof (cases e)
    case (Deliver g)
    with snoc show ?thesis by (auto intro: handler_keeps)
  next
    case Go
    with snoc show ?thesis
      by (cases "at ?l") (auto split: if_splits prod.splits option.splits simp: sleep_60_def)
  qed (use snoc in simp)
qed simp

lemma hd_requests: "requests evs \<noteq> [] \<Longrightarrow> is_request (hd (requests evs))"
  by (induction evs rule: requests.induct) (auto split: if_splits)

lemma step_exit_obeys:
  assumes "ready th (c_calls s)" "step_exit env s = (r, s')" "loader_catches th"
    and "\<And>tr. e_answers env tr (GetStaticMethodID LOADER ''destroy'' ''()Z'')"
  shows "obeys th (c_calls s')"
proof -
  let ?rc = "if doreload (c_flags s) then 123 else 0 :: int"
  have ready: "obeys th tr' \<and> (True \<longrightarrow> ready th tr')"
    if "ready th tr" "run_state (java_destroy (e_answers env)) tr = (q, tr')" for tr tr' q
    using that assms(3,4) not_signal
    by (auto simp: java_destroy_def call_loader_def run_jni ready_def loader_catches_def)
  obtain x s1 where d: "vm_run env (java_destroy (e_answers env)) s = (x, s1)" by fastforce
  have s1: "obeys th (c_calls s1) \<and> (\<forall>q. x = Some q \<longrightarrow> True \<longrightarrow> ready th (c_calls s1))"
    by (rule vm_run_obeys [OF ready assms(1) d])
  show ?thesis
  proof (cases x)
    case (Some q)
    obtain r2 s2 where j: "java_step env (JVM_destroy (e_answers env) ?rc) 7 s1 = (r2, s2)" by fastforce
    then obtain y where v: "vm_run env (JVM_destroy (e_answers env) ?rc) s1 = (y, s2)"
      by (auto simp: java_step_def split: prod.splits option.splits if_splits)
    have "obeys th (c_calls s2) \<and> (\<forall>q. y = Some q \<longrightarrow> False \<longrightarrow> ready th (c_calls s2))"
      by (rule vm_run_obeys [OF _ _ v]) (use s1 Some JVM_destroy_obeys in auto)
    moreover have "s' = s2" using assms(2) d Some j by (auto simp: step_exit_def Let_def split: option.splits)
    ultimately show ?thesis by simp
  qed (use assms(2) d s1 in \<open>simp add: step_exit_def Let_def\<close>)
qed

lemma clean_Nil [simp]: "clean th []"
  by (simp add: clean_def started_def)

lemma step_init_protocol:
  assumes "e_ops env = dlfcn (e_answers env)" "c_calls s = []" "step_init env a d s = (r, s')"
    and "\<And>e. r \<noteq> Some (Crashed e)" "r \<noteq> Some Endless_loop"
  shows "obeys th (c_calls s') \<and> (r = None \<longrightarrow> ready th (c_calls s'))"
proof -
  let ?init = "java_init (e_plat env) (e_answers env) (dlfcn (e_answers env)) (e_stat env) a d
      (self (c_world s)) (e_ppid env)"
  obtain i tr where i: "run_state ?init [] = (i, tr)" by fastforce
  have init: "obeys th tr \<and> (ok \<longrightarrow> ready th tr)" if "i = Done ok" for ok
    using dlfcn_loader.java_init_sound [OF clean_Nil i [unfolded that]] by blast
  obtain x t where v: "vm_run env ?init s = (x, t)" by fastforce
  show ?thesis
  proof (cases x)
    case None
    with vm_run_aborts [of env ?init s t] v i assms(2) obtain k where k: "t = s\<lparr>c_calls := drop k tr\<rparr>"
      by auto
    with assms(3) v None assms(1) have "s' = t" "r \<noteq> None" by (auto simp: step_init_def)
    then show ?thesis using k obeys_drop dlfcn_loader.java_init_obeys [OF clean_Nil i] by auto
  next
    case (Some y)
    with vm_run_done [of env ?init s y t] v i assms(2) have "y = i" "t = s\<lparr>c_calls := tr\<rparr>" by auto
    with Some v assms init show ?thesis
      by (auto simp: step_init_def split: home_result.splits if_splits)
  qed
qed

lemma starts_protocol:
  assumes "e_ops env = dlfcn (e_answers env)" "clas a \<noteq> None" "c_calls s = []" "loader_catches th"
    and "child_starts env a d uid gid s = (r, s')" "\<And>e. r \<noteq> Some (Crashed e)" "r \<noteq> Some Endless_loop"
  shows "obeys th (c_calls s') \<and> (r = None \<longrightarrow> ready th (c_calls s'))"
proof -
  let ?rest = "[step_version env a, step_check env a, step_load env a, step_downgrade env a uid gid,
    step_start env, step_handlers env]"
  obtain r1 s1 where s1: "step_pid a s = (r1, s1)" by fastforce
  obtain r2 s2 where s2: "step_user env a uid gid s1 = (r2, s2)" by fastforce
  obtain r3 s3 where s3: "step_init env a d s2 = (r3, s3)" by fastforce
  have empty: "c_calls s1 = []" "c_calls s2 = []"
    using first_steps_calls s1 s2 assms(3) by metis+
  have "keeps_protocol th (run_steps ?rest)"
    using after_init_protocol [OF assms(2,4), of env uid gid] by (intro run_steps_protocol) simp
  note rest = keeps_protocolD [OF this]
  show ?thesis
  proof (cases "r1 = None \<and> r2 = None")
    case True
    then have run: "run_steps (step_init env a d # ?rest) s2 = (r, s')"
      using assms(5) s1 s2 unfolding child_starts_def child_steps_def by simp
    then have "r3 = None \<or> r3 = r \<and> s3 = s'" using s3 by (auto split: option.splits)
    with step_init_protocol [OF assms(1) empty(2) s3] assms(6,7)
    have "obeys th (c_calls s3) \<and> (r3 = None \<longrightarrow> ready th (c_calls s3))" by auto
    with run s3 rest [of s3 r s'] show ?thesis by (cases r3) auto
  qed (use assms(5) s1 s2 empty in \<open>cases r1; cases r2; auto simp: child_starts_def child_steps_def\<close>)
qed

lemma loop_step_aborts:
  "loop_step env p s = (Aborted, s') \<Longrightarrow> p = Aborted \<and> s' = s \<or> e_aborts env (c_calls s')"
  by (cases p) (auto simp: sleep_60_def dest!: vm_run_aborts split: if_splits prod.splits option.splits)

lemma loop_aborts:
  "at (run_loop env evs s) = Aborted \<Longrightarrow>
     Vm_abort \<in> set evs \<or> e_aborts env (c_calls (loop_child (run_loop env evs s)))"
  unfolding run_loop_def
proof (induction evs rule: rev_induct)
  case (snoc e evs)
  then show ?case
    by (cases e) (auto split: prod.splits dest: loop_step_aborts)
qed simp

lemma destroy_looks_up_system:
  assumes "vm_run env (JVM_destroy ans rc) s = (x, s')"
  shows "\<exists>xs b. c_calls s' = xs @ (FindClass ''java/lang/System'', b) # c_calls s"
proof -
  obtain r tr where run: "run_state (JVM_destroy ans rc) (c_calls s) = (r, tr)" by fastforce
  then have "\<exists>xs b. tr = xs @ (FindClass ''java/lang/System'', b) # c_calls s"
    by (auto simp: JVM_destroy_def run_jni split: if_splits)
  then obtain xs b where tr: "tr = xs @ (FindClass ''java/lang/System'', b) # c_calls s" by blast
  show ?thesis
  proof (cases "abort_at (e_aborts env) (length tr - length (c_calls s)) tr")
    case (Some t)
    then obtain k where k: "k < length xs + 1" "t = drop k tr"
      using abort_at_drop [OF Some] tr by auto
    with tr have "t = drop k xs @ (FindClass ''java/lang/System'', b) # c_calls s" by simp
    then show ?thesis using assms run Some by (auto simp: vm_run_def)
  qed (use assms run tr in \<open>auto simp: vm_run_def\<close>)
qed

lemma pending_lookup:
  "\<not> obeys th ((FindClass c, b) # (GetStaticMethodID l m p, False) # tr)"
  by simp

lemma obeys_appendD: "obeys th (xs @ ys) \<Longrightarrow> obeys th ys"
  using obeys_drop [of th "xs @ ys" "length xs"] by simp

section \<open>Properties\<close>

text \<open>C10. The exit status tells the controller what was asked for. A service run (neither
  \<open>-version\<close> nor \<open>-check\<close>) that ends with 123 (restart) has seen \<open>SIGHUP\<close> before any other
  request to end, unless the VM called its abort hook, in a thread of its own or during the last
  call that the child made; one that ends with 0 has seen \<open>SIGTERM\<close> or \<open>SIGINT\<close> first. Every
  other status is one of the error codes, and a request that comes later changes nothing.\<close>

theorem child_exit_reason:
  assumes "c_flags s = no_flags" "\<not> vers a" "\<not> chck a"
    and "child_run env a d uid gid evs s = (Some (Exit_with rc), s')"
  shows "(rc = 123 \<longrightarrow> requests evs \<noteq> [] \<and> hd (requests evs) = SIGHUP
       \<or> Vm_abort \<in> set evs \<or> e_aborts env (c_calls s'))
    \<and> (rc = 0 \<longrightarrow> requests evs \<noteq> [] \<and> hd (requests evs) \<in> {SIGTERM, SIGINT})
    \<and> rc \<in> {0, 123, 122, - 1, 1, 2, 3, 4, 5, 6, 7}"
proof -
  obtain r1 s1 where s1: "child_starts env a d uid gid s = (r1, s1)" by fastforce
  show ?thesis
  proof (cases r1)
    case None
    let ?l = "run_loop env evs s1"
    have flags: "flags_after (requests evs) (c_flags (loop_child ?l))"
      using starts_frame(1) [OF s1 [unfolded None]] assms(1) by (intro run_loop_flags) simp
    show ?thesis
    proof (cases "at ?l = Left")
      case True
      then have fin: "run_steps [step_stop env, step_exit env] (loop_child ?l) = (Some (Exit_with rc), s')"
        using assms(4) s1 None by (simp add: child_run_def)
      from flags left_stopping [OF True] leave_exit [OF fin] hd_requests [of evs] show ?thesis
        by (auto simp: flags_after_def is_request_def split: if_splits)
    next
      case False
      then have "at ?l = Aborted" "rc = 123" "s' = loop_child ?l"
        using assms(4) s1 None by (auto simp: child_run_def java_abort123_def Let_def split: if_splits)
      with loop_aborts [of env evs s1] show ?thesis by simp
    qed
  next
    case (Some e)
    with s1 assms(4) have "child_starts env a d uid gid s = (Some (Exit_with rc), s')"
      by (simp add: child_run_def)
    from starts_exit [OF this assms(2,3)] show ?thesis by auto
  qed
qed

text \<open>C5. No signal is lost while the service sleeps, however the later signals and the steps of
  the main thread interleave: after \<open>SIGUSR1\<close> the output is opened again, after \<open>SIGUSR2\<close> the
  method \<open>signal\<close> of the loader class is called, provided the class has one, and after a request
  to end the loop is left, each within six steps of the main thread, unless the VM aborts.\<close>

theorem requests_served:
  assumes "at l = Sleep" "6 \<le> steps_in evs"
  shows "(let l' = fold (react env) (Deliver SIGUSR1 # evs) l
           in at l' = Aborted \<or> c_reopened (loop_child l) < c_reopened (loop_child l'))
    \<and> (has_signal env \<longrightarrow> (let l' = fold (react env) (Deliver SIGUSR2 # evs) l
           in at l' = Aborted \<or> signal_calls (loop_child l) < signal_calls (loop_child l')))
    \<and> (\<forall>g. is_request g \<longrightarrow> at (fold (react env) (Deliver g # evs) l) \<in> {Left, Aborted})"
proof (intro conjI allI impI)
  have "reopen_due (c_reopened (loop_child l)) 6 (react env (Deliver SIGUSR1) l)"
    using assms(1) by (simp add: reopen_due_def)
  from reopen_response.done_in_time [OF this assms(2)]
  show "let l' = fold (react env) (Deliver SIGUSR1 # evs) l
      in at l' = Aborted \<or> c_reopened (loop_child l) < c_reopened (loop_child l')"
    by (auto simp: reopen_due_def Let_def)
  assume "has_signal env"
  have "signal_due env (signal_calls (loop_child l)) 6 (react env (Deliver SIGUSR2) l)"
    using assms(1) by (simp add: signal_due_def signal_calls_def)
  from signal_response.done_in_time [OF this assms(2)] \<open>has_signal env\<close>
  show "let l' = fold (react env) (Deliver SIGUSR2 # evs) l
      in at l' = Aborted \<or> signal_calls (loop_child l) < signal_calls (loop_child l')"
    by (auto simp: signal_due_def Let_def)
next
  fix g
  assume "is_request g"
  then have "stop_due 6 (react env (Deliver g) l)"
    using assms(1) by (auto simp: stop_due_def is_request_def)
  from stop_response.done_in_time [OF this assms(2)]
  show "at (fold (react env) (Deliver g # evs) l) \<in> {Left, Aborted}" by (auto simp: stop_due_def)
qed

text \<open>C3. With a user given, the service's \<open>start\<close> method runs only as that user and group and
  without any capability: this holds in every state that the start-up of the child passes
  through once the method has been called, whether or not the start-up succeeds. (Linux without
  \<^verbatim>\<open>libcap\<close>, \<^verbatim>\<open>dlopen\<close> as the loader, a kernel that keeps to POSIX and to the capability rules.)\<close>

theorem service_rights:
  assumes "posix_kernel (e_kernel env)" "os_of (e_plat env) = OS_LINUX" "user a = Some u"
    and "e_set_caps env = (\<lambda>r (h :: unit) p. (set_caps_legacy (e_kernel env) r p, h))"
    and "e_ops env = dlfcn (e_answers env)" "c_calls s = []"
    and "t \<in> set (passes (child_steps env a d uid gid) s)" "0 < loader_calls ''start'' (c_calls t)"
  shows "p_uid (c_proc t) = uid \<and> p_gid (c_proc t) = gid \<and>
    p_effective (c_proc t) = 0 \<and> p_permitted (c_proc t) = 0 \<and> p_inheritable (c_proc t) = 0"
proof -
  have "\<not> service_called s" using assms(6) by (simp add: service_called_def loader_calls_Cons)
  from starts_rights [OF assms(1-5) this assms(7)] assms(8) show ?thesis
    by (simp add: service_called_def bare_def)
qed


text \<open>Without that method the protocol is broken: \<open>child\<close> ignores that \<open>java_destroy\<close> failed and
  goes on to look up \<open>java.lang.System\<close> with an exception pending, unless the VM aborts in the
  failed lookup itself.\<close>

theorem destroy_failure_ignored:
  assumes "\<not> e_answers env (c_calls s) (GetStaticMethodID LOADER ''destroy'' ''()Z'')"
    and "\<not> e_aborts env ((GetStaticMethodID LOADER ''destroy'' ''()Z'', False) # c_calls s)"
    and "step_exit env s = (r, s')"
  shows "\<not> obeys th (c_calls s')"
proof -
  let ?lookup = "GetStaticMethodID LOADER ''destroy'' ''()Z''"
  let ?tr = "(?lookup, False) # c_calls s"
  have "run_state (java_destroy (e_answers env)) (c_calls s) = (False, ?tr)"
    using assms(1) by (simp add: java_destroy_def call_loader_def run_jni)
  then have d: "vm_run env (java_destroy (e_answers env)) s = (Some False, s\<lparr>c_calls := ?tr\<rparr>)"
    using assms(2) by (simp add: vm_run_def)
  let ?rc = "if doreload (c_flags s) then 123 else 0 :: int"
  obtain x s2 where v: "vm_run env (JVM_destroy (e_answers env) ?rc) (s\<lparr>c_calls := ?tr\<rparr>) = (x, s2)"
    by fastforce
  have "\<exists>xs b. c_calls s2 = xs @ (FindClass ''java/lang/System'', b) # ?tr"
    using destroy_looks_up_system [OF v] by simp
  moreover have "s' = s2"
    using assms(3) d v by (auto simp: step_exit_def java_step_def Let_def split: option.splits if_splits)
  ultimately show ?thesis using obeys_appendD pending_lookup by metis
qed

text \<open>A service that reports a failure while it is being loaded or started ends more than
  itself: until the handlers are installed, \<open>controlled\<close> is still what the process inherited, so
  in the first child, where it is 0, \<open>failed\<close> and \<open>shutdown\<close> signal the whole process group;
  afterwards they signal the child.\<close>

theorem early_failure_hits_group:
  assumes "ms = take n (startup_steps env a d uid gid)" "run_steps ms s = (r, s')" "c_controlled s = 0"
  shows "snd (failed (c_controlled s') msg) = (0, SIGTERM)
    \<and> (child_starts env a d uid gid s = (None, t) \<longrightarrow>
         snd (failed (c_controlled t) msg) = (self (c_world s), SIGTERM))"
proof -
  have "c_controlled s' = 0"
    by (rule run_steps_invariant [where P = "\<lambda>t. c_controlled t = 0", OF _ assms(3,2)])
       (use startup_frame in \<open>metis assms(1) in_set_takeD\<close>)
  then show ?thesis
    using starts_frame(2) by (auto simp: failed_def main_shutdown_def split: option.splits)
qed

section \<open>Witnesses\<close>

text \<open>A system where every call succeeds, and a service with a user of its own.\<close>

definition calm_env :: "unit child_env" where
  "calm_env = \<lparr>e_plat = linux, e_kernel = granting,
     e_set_caps = (\<lambda>r h p. (set_caps_legacy granting r p, h)), e_answers = (\<lambda>_ _. True), e_aborts = (\<lambda>_. False),
     e_ops = dlfcn (\<lambda>_ _. True), e_stat = (\<lambda>_. None), e_signal = (\<lambda>t g. t g), e_ppid = 1,
     e_envmask = 18\<rparr>"

definition svc_args :: arg_data where
  "svc_args = demo_args\<lparr>user := Some ''svc'', clas := Some ''Main'', vershow := False\<rparr>"

definition fresh_child :: "unit child_state" where
  "fresh_child = \<lparr>c_world = demo_world, c_proc = root_proc, c_caps = (), c_calls = [],
     c_flags = no_flags, c_handlers = (\<lambda>_. SIG_DFL), c_controlled = 0, c_umask = 63, c_reopened = 0\<rparr>"

definition hup_events :: "event list" where
  "hup_events = [Go, Deliver SIGHUP, Go, Go, Go, Go, Go, Go]"

lemma abort_at_never [simp]: "abort_at (\<lambda>_. False) n tr = None"
  by (induction n) simp_all

lemmas calm_simps = vm_run_def calm_env_def svc_args_def demo_args_def init_args_def startup_defs step_handlers_def
  java_step_def run_jni call_loader_def

lemma run_steps_total:
  "list_all (\<lambda>m. \<forall>s. \<exists>s'. m s = (None, s')) ms \<Longrightarrow> \<exists>s'. run_steps ms s = (None, s')"
proof (induction ms arbitrary: s)
  case (Cons m ms)
  then obtain s1 where "m s = (None, s1)" by auto
  with Cons show ?case by simp
qed simp

lemma granting_caps: "\<exists>p'. set_caps_legacy granting r p = (0, p')"
  by (simp add: set_caps_legacy_def set_legacy_caps_def granting_def)

lemma granting_switch: "\<exists>p'. set_user_group granting (Some u) uid gid p = (0, p')"
  by (simp add: set_user_group_def granting_def)

lemma calm_switch:
  "\<exists>p'. linuxset_user_group granting (\<lambda>r (h :: unit) p. (set_caps_legacy granting r p, h)) (Some u) uid gid () p
     = ((0, p'), ())"
proof -
  obtain p1 where p1: "set_caps_legacy granting CAPS p = (0, p1)" using granting_caps by blast
  obtain p2 where p2: "k_keepcaps granting p1 = Some p2" by (simp add: granting_def)
  obtain p3 where p3: "set_user_group granting (Some u) uid gid (if p_uid p = 0 then p2 else p) = (0, p3)"
    using granting_switch by blast
  obtain p4 where p4: "set_caps_legacy granting CAPSMIN p3 = (0, p4)" using granting_caps by blast
  show ?thesis
    using p1 p2 p3 p4 by (cases "p_uid p = 0") (simp_all add: linuxset_user_group_def)
qed

lemma calm_user: "\<exists>s'. step_user calm_env svc_args 5 6 s = (None, s')"
proof -
  obtain p' where "linuxset_user_group granting (\<lambda>r (h :: unit) p. (set_caps_legacy granting r p, h))
      (Some ''svc'') 5 6 () (c_proc s) = ((0, p'), ())" using calm_switch by blast
  then show ?thesis by (simp add: step_user_def calm_env_def linux_def svc_args_def)
qed

lemma calm_later:
  "\<exists>s'. step_version calm_env svc_args s = (None, s')" "\<exists>s'. step_check calm_env svc_args s = (None, s')"
  "\<exists>s'. step_load calm_env svc_args s = (None, s')"
  "\<exists>s'. step_downgrade calm_env svc_args 5 6 s = (None, s')"
  "\<exists>s'. step_start calm_env s = (None, s')" "\<exists>s'. step_handlers calm_env s = (None, s')"
  by (simp_all add: calm_simps linux_def granting_def set_caps_legacy_def set_legacy_caps_def
      java_load_def java_start_def)

lemma calm_init: "\<exists>s'. step_init calm_env svc_args one_jvm s = (None, s')"
  by (simp add: calm_simps init_eval vm_arguments_eq)

lemma calm_starts: "\<exists>s'. child_starts calm_env svc_args one_jvm 5 6 fresh_child = (None, s')"
proof -
  obtain w where "check_pid demo_args demo_world = Inr (0, w)" using demo_claim by blast
  then have "check_pid svc_args demo_world = Inr (0, w)" by (simp add: svc_args_def check_pid_def)
  then have "\<exists>s'. step_pid svc_args fresh_child = (None, s')" by (simp add: step_pid_def fresh_child_def)
  then obtain s1 where s1: "step_pid svc_args fresh_child = (None, s1)" by blast
  have "\<exists>s'. run_steps [step_user calm_env svc_args 5 6, step_init calm_env svc_args one_jvm,
      step_version calm_env svc_args, step_check calm_env svc_args, step_load calm_env svc_args,
      step_downgrade calm_env svc_args 5 6, step_start calm_env, step_handlers calm_env] s1 = (None, s')"
    by (rule run_steps_total) (simp add: calm_user calm_init calm_later)
  with s1 show ?thesis unfolding child_starts_def child_steps_def by simp
qed

lemma calm_run:
  "\<exists>s'. child_run calm_env svc_args one_jvm 5 6 hup_events fresh_child = (Some (Exit_with 123), s')"
proof -
  obtain s1 where s1: "child_starts calm_env svc_args one_jvm 5 6 fresh_child = (None, s1)"
    using calm_starts by blast
  have f: "c_flags s1 = no_flags" using starts_frame(1) [OF s1] by (simp add: fresh_child_def)
  have l: "run_loop calm_env hup_events s1 =
      \<lparr>at = Left, loop_child = s1\<lparr>c_flags := no_flags\<lparr>stopping := True, doreload := True\<rparr>\<rparr>\<rparr>"
    by (simp add: run_loop_def hup_events_def f no_flags_def sleep_60_def calm_env_def linux_def)
  have e: "e_answers calm_env = (\<lambda>_ _. True)" and e': "e_aborts calm_env = (\<lambda>_. False)"
    by (simp_all add: calm_env_def)
  show ?thesis
    unfolding child_run_def s1 prod.case option.case l Let_def
    by (simp add: step_stop_def step_exit_def java_stop_def java_destroy_def JVM_destroy_def
        vm_run_def java_step_def run_jni call_loader_def e e')
qed

theorem child_exit_reason_witness:
  "(123 = (123 :: int) \<and> requests hup_events \<noteq> [] \<and> hd (requests hup_events) = SIGHUP)"
proof -
  obtain s' where run: "child_run calm_env svc_args one_jvm 5 6 hup_events fresh_child
      = (Some (Exit_with 123), s')" using calm_run by blast
  have "c_flags fresh_child = no_flags" by (simp add: fresh_child_def)
  moreover have "\<not> vers svc_args" "\<not> chck svc_args"
    by (simp_all add: svc_args_def demo_args_def init_args_def)
  moreover have "Vm_abort \<notin> set hup_events" "\<not> e_aborts calm_env tr" for tr
    by (simp_all add: hup_events_def calm_env_def)
  ultimately show ?thesis using child_exit_reason [OF _ _ _ run] by blast
qed

definition sleeping :: "unit loop_state" where
  "sleeping = \<lparr>at = Sleep, loop_child = fresh_child\<rparr>"

lemma calm_not_aborted:
  assumes "at l \<noteq> Aborted" "Vm_abort \<notin> set evs"
  shows "at (fold (react calm_env) evs l) \<noteq> Aborted"
  using assms
proof (induction evs arbitrary: l)
  case (Cons e evs)
  have "at (react calm_env e l) \<noteq> Aborted"
  proof (cases e)
    case Go
    with Cons.prems(1) loop_step_aborts [of calm_env "at l" "loop_child l"] show ?thesis
      by (auto simp: calm_env_def split: prod.splits)
  qed (use Cons.prems in auto)
  with Cons show ?case by simp
qed simp

theorem requests_served_witness:
  "c_reopened fresh_child
     < c_reopened (loop_child (fold (react calm_env) (Deliver SIGUSR1 # replicate 6 Go) sleeping))
   \<and> signal_calls fresh_child
     < signal_calls (loop_child (fold (react calm_env) (Deliver SIGUSR2 # replicate 6 Go) sleeping))
   \<and> at (fold (react calm_env) (Deliver SIGTERM # replicate 6 Go) sleeping) = Left"
proof -
  have "at sleeping = Sleep" "6 \<le> steps_in (replicate 6 Go)" by (simp_all add: sleeping_def steps_in_def)
  note served = requests_served [OF this, of calm_env]
  have "at (fold (react calm_env) (Deliver g # replicate 6 Go) sleeping) \<noteq> Aborted" for g
    by (rule calm_not_aborted) (simp_all add: sleeping_def)
  moreover have "loop_child sleeping = fresh_child" by (simp add: sleeping_def)
  moreover have "has_signal calm_env" by (simp add: has_signal_def calm_env_def)
  moreover have "is_request SIGTERM" by (simp add: is_request_def)
  ultimately show ?thesis using served unfolding Let_def by fastforce
qed

lemma passes_last: "run_steps ms s = (r, s') \<Longrightarrow> s' \<in> set (passes ms s)"
  by (induction ms arbitrary: s) (auto split: prod.splits option.splits)

lemma calm_started: "step_start calm_env s = (None, s') \<Longrightarrow> 0 < loader_calls ''start'' (c_calls s')"
  by (auto simp: calm_simps java_start_def loader_calls_Cons)

theorem service_rights_witness:
  "\<exists>t. t \<in> set (passes (child_steps calm_env svc_args one_jvm 5 6) fresh_child)
     \<and> 0 < loader_calls ''start'' (c_calls t)
     \<and> p_uid (c_proc t) = 5 \<and> p_gid (c_proc t) = 6 \<and> p_permitted (c_proc t) = 0"
proof -
  obtain t where t: "child_starts calm_env svc_args one_jvm 5 6 fresh_child = (None, t)"
    using calm_starts by blast
  have steps: "child_starts calm_env svc_args one_jvm 5 6 fresh_child
      = run_steps (([step_pid svc_args, step_user calm_env svc_args 5 6]
          @ early_steps calm_env svc_args one_jvm @ [step_downgrade calm_env svc_args 5 6])
          @ [step_start calm_env, step_handlers calm_env]) fresh_child"
    by (simp add: child_starts_def child_steps_eq)
  obtain s4 where "run_steps [step_start calm_env, step_handlers calm_env] s4 = (None, t)"
    using t unfolding steps run_steps_append by (auto split: prod.splits option.splits)
  then obtain s5 where "step_start calm_env s4 = (None, s5)" "c_calls t = c_calls s5"
    by (auto simp: step_handlers_def split: prod.splits option.splits)
  then have called: "0 < loader_calls ''start'' (c_calls t)" using calm_started by simp
  have "t \<in> set (passes (child_steps calm_env svc_args one_jvm 5 6) fresh_child)"
    using t by (simp add: child_starts_def passes_last)
  moreover have "posix_kernel (e_kernel calm_env)" using posix_granting by (simp add: calm_env_def)
  moreover have "os_of (e_plat calm_env) = OS_LINUX" "e_ops calm_env = dlfcn (e_answers calm_env)"
    "e_set_caps calm_env = (\<lambda>r (h :: unit) p. (set_caps_legacy (e_kernel calm_env) r p, h))"
    by (simp_all add: calm_env_def linux_def)
  moreover have "user svc_args = Some ''svc''" "c_calls fresh_child = []"
    by (simp_all add: svc_args_def fresh_child_def)
  ultimately show ?thesis using service_rights called by blast
qed

text \<open>A service whose \<open>signal\<close> method always throws.\<close>

definition signal_throws :: "call_trace \<Rightarrow> bool" where
  "signal_throws tr \<longleftrightarrow> (\<exists>b t. tr = (CallStaticBooleanMethod LOADER ''signal'' [], b) # t)"


theorem destroy_failure_ignored_witness:
  "\<exists>r s'. step_exit (calm_env\<lparr>e_answers := \<lambda>_ _. False\<rparr>) fresh_child = (r, s')
     \<and> \<not> obeys (\<lambda>_. False) (c_calls s')"
proof -
  let ?env = "calm_env\<lparr>e_answers := \<lambda>_ _. False\<rparr>"
  obtain r s' where "step_exit ?env fresh_child = (r, s')" by fastforce
  moreover have "\<not> e_answers ?env (c_calls fresh_child) (GetStaticMethodID LOADER ''destroy'' ''()Z'')"
    "\<not> e_aborts ?env tr" for tr by (simp_all add: calm_env_def)
  ultimately show ?thesis using destroy_failure_ignored by blast
qed

theorem early_failure_hits_group_witness:
  "\<exists>s'. run_steps (take 8 (startup_steps calm_env svc_args one_jvm 5 6)) fresh_child = (None, s')
     \<and> snd (failed (c_controlled s') None) = (0, SIGTERM)"
proof -
  let ?ms = "take 8 (startup_steps calm_env svc_args one_jvm 5 6)"
  have "?ms = startup_steps calm_env svc_args one_jvm 5 6" by (simp add: startup_steps_def)
  then have "\<exists>s'. run_steps ?ms fresh_child = (None, s')"
    using calm_starts by (auto simp: child_starts_eq run_steps_append split: prod.splits option.splits)
  then obtain s' where s: "run_steps ?ms fresh_child = (None, s')" by blast
  have "c_controlled fresh_child = 0" by (simp add: fresh_child_def)
  from early_failure_hits_group [OF refl s this] s show ?thesis by blast
qed

end
