(* ===== verification/Controller.thy ===== *)
theory Controller
  imports Child_Process
begin

text \<open>
  The process that watches over the child: \<open>run_controller\<close> of \<^verbatim>\<open>jsvc-unix.c\<close>, first as the loop
  over the generations of children, which may go on for ever and is a partial function, then as
  a step relation in which signals arrive between any two of its system calls.
\<close>

section \<open>The restarting loop\<close>

text \<open>
  What the system answers in one round: whether \<open>fork\<close> succeeded, how the child ended, how many
  seconds it ran, the file system at that time, and how long \<open>sleep (60)\<close> took (less than 60 only
  when a signal interrupted it). The state holds the clock, the times of the starts, the process
  group of the forwarded signals and the file system.
\<close>

record generation =
  g_forked :: bool
  g_pid :: int
  g_status :: wstatus
  g_seconds :: nat
  g_world :: world
  g_slept :: nat

record ctl_state =
  clock :: nat
  starts :: "nat list" \<comment> \<open>the values of \<open>laststart\<close>, the latest first\<close>
  ctl_controlled :: int
  ctl_world :: world

definition prevent_looping :: "generation \<Rightarrow> nat \<Rightarrow> ctl_state \<Rightarrow> ctl_state" where
  "prevent_looping g laststart st =
     (if clock st < laststart + 60 then st\<lparr>clock := clock st + g_slept g\<rparr> else st)"

definition drop_pidfile :: "arg_data \<Rightarrow> int \<Rightarrow> world \<Rightarrow> world" where
  "drop_pidfile a status w =
     (if \<not> vers a \<and> \<not> chck a \<and> status \<noteq> 122 then sys_unlink w (pidf a) else w)"

text \<open>One round of the loop: a return value, or the state in which the next round starts.\<close>

definition controller_round :: "arg_data \<Rightarrow> generation \<Rightarrow> ctl_state \<Rightarrow> int option \<times> ctl_state" where
  "controller_round a g st =
     (if \<not> g_forked g then (Some 1, st)
      else
        let laststart = clock st;
            st = st\<lparr>clock := clock st + g_seconds g, starts := laststart # starts st,
                    ctl_controlled := g_pid g, ctl_world := g_world g\<rparr>
        in case g_status g of
             Exited status \<Rightarrow>
               let st = st\<lparr>ctl_world := drop_pidfile a status (ctl_world st)\<rparr>
               in if status = 123 then (None, prevent_looping g laststart st)
                  else if status = 0 then (Some 0, st)
                  else (Some 1, st)
           | Signaled _ \<Rightarrow> (None, prevent_looping g laststart st)
           | Stopped_or_other \<Rightarrow> (Some 1, st))"

partial_function (option) controller_loop ::
  "arg_data \<Rightarrow> (nat \<Rightarrow> generation) \<Rightarrow> nat \<Rightarrow> ctl_state \<Rightarrow> (int \<times> ctl_state) option" where
  "controller_loop a gens n st =
     (case controller_round a (gens n) st of
        (Some rc, st') \<Rightarrow> Some (rc, st')
      | (None, st') \<Rightarrow> controller_loop a gens (Suc n) st')"

definition run_controller ::
  "arg_data \<Rightarrow> (nat \<Rightarrow> generation) \<Rightarrow> ctl_state \<Rightarrow> (int \<times> ctl_state) option" where
  "run_controller a gens st = controller_loop a gens 0 st"

text \<open>The state after \<open>n\<close> rounds of a run that goes on.\<close>

primrec rounds :: "arg_data \<Rightarrow> (nat \<Rightarrow> generation) \<Rightarrow> nat \<Rightarrow> ctl_state \<Rightarrow> ctl_state" where
  "rounds a gens 0 st = st"
| "rounds a gens (Suc n) st = snd (controller_round a (gens n) (rounds a gens n st))"

section \<open>Which generation is the last\<close>

definition final :: "generation \<Rightarrow> bool" where
  "final g \<longleftrightarrow> \<not> g_forked g \<or> (case g_status g of Exited s \<Rightarrow> s \<noteq> 123 | Signaled _ \<Rightarrow> False | _ \<Rightarrow> True)"

definition final_code :: "generation \<Rightarrow> int" where
  "final_code g = (if g_forked g \<and> g_status g = Exited 0 then 0 else 1)"

lemma controller_round_code:
  "fst (controller_round a g st) = (if final g then Some (final_code g) else None)"
  by (auto simp: controller_round_def final_def final_code_def Let_def split: wstatus.splits)

lemma controller_loop_final:
  assumes "final (gens (n + k))" "\<And>j. j < k \<Longrightarrow> \<not> final (gens (n + j))"
  shows "\<exists>st'. controller_loop a gens n st = Some (final_code (gens (n + k)), st')"
  using assms
proof (induction k arbitrary: n st)
  case 0
  then show ?case
    using controller_round_code [of a "gens n" st]
    by (subst controller_loop.simps) (auto split: prod.splits)
next
  case (Suc k)
  obtain r st1 where r: "controller_round a (gens n) st = (r, st1)" by fastforce
  have "r = None" using Suc.prems(2) [of 0] controller_round_code [of a "gens n" st] r by simp
  moreover have "\<exists>st'. controller_loop a gens (Suc n) st1 = Some (final_code (gens (Suc n + k)), st')"
    using Suc.prems Suc.prems(2) [of "Suc j" for j] by (intro Suc.IH) auto
  ultimately show ?case using r by (subst controller_loop.simps) auto
qed

lemma controller_loop_result:
  assumes "controller_loop a gens n st = Some y"
  shows "\<exists>m \<ge> n. final (gens m)"
proof (rule controller_loop.raw_induct [OF _ assms])
  fix loop :: "arg_data \<Rightarrow> (nat \<Rightarrow> generation) \<Rightarrow> nat \<Rightarrow> ctl_state \<Rightarrow> (int \<times> ctl_state) option"
    and a n st y and gens :: "nat \<Rightarrow> generation"
  assume ih: "\<And>a gens n st y. loop a gens n st = Some y \<Longrightarrow> \<exists>m \<ge> n. final (gens m)"
    and run: "(case controller_round a (gens n) st of
        (Some rc, st') \<Rightarrow> Some (rc, st') | (None, st') \<Rightarrow> loop a gens (Suc n) st') = Some y"
  show "\<exists>m \<ge> n. final (gens m)"
  proof (cases "final (gens n)")
    case False
    then obtain st1 where "controller_round a (gens n) st = (None, st1)"
      using controller_round_code [of a "gens n" st] by (cases "controller_round a (gens n) st") auto
    with run have "loop a gens (Suc n) st1 = Some y" by simp
    from ih [OF this] show ?thesis using Suc_leD by blast
  qed blast
qed

lemma run_controller_first:
  assumes "\<exists>n. final (gens n)"
  shows "\<exists>st'. run_controller a gens st = Some (final_code (gens (LEAST n. final (gens n))), st')"
  unfolding run_controller_def
  using controller_loop_final [of gens 0 "LEAST n. final (gens n)" a st] LeastI_ex [OF assms] not_less_Least
  by fastforce

lemma run_controller_None: "run_controller a gens st = None \<longleftrightarrow> (\<forall>n. \<not> final (gens n))"
  using run_controller_first [of gens a st] controller_loop_result [of a gens 0 st]
  unfolding run_controller_def by fastforce

section \<open>The pace of restarts\<close>

definition paced :: "ctl_state \<Rightarrow> bool" where
  "paced st \<longleftrightarrow> sorted_wrt (\<lambda>later earlier. earlier + 60 \<le> later) (starts st)
     \<and> (starts st \<noteq> [] \<longrightarrow> hd (starts st) + 60 \<le> clock st)"

lemma controller_round_paced:
  assumes "paced st" "\<not> final g" "60 \<le> g_slept g"
  shows "paced (snd (controller_round a g st))"
proof -
  have "\<forall>x \<in> set (starts st). x + 60 \<le> clock st"
    using assms(1) by (cases "starts st") (auto simp: paced_def)
  with assms show ?thesis
    by (auto simp: controller_round_def paced_def prevent_looping_def final_def Let_def
        split: wstatus.splits)
qed

lemma rounds_paced:
  assumes "starts st = []" "\<And>m. m < n \<Longrightarrow> \<not> final (gens m) \<and> 60 \<le> g_slept (gens m)"
  shows "paced (rounds a gens n st) \<and> length (starts (rounds a gens n st)) = n
    \<and> clock st \<le> clock (rounds a gens n st) \<and> (\<forall>x \<in> set (starts (rounds a gens n st)). clock st \<le> x)"
  using assms
proof (induction n)
  case 0
  then show ?case by (simp add: paced_def)
next
  case (Suc n)
  then have ih: "paced (rounds a gens n st) \<and> length (starts (rounds a gens n st)) = n
    \<and> clock st \<le> clock (rounds a gens n st) \<and> (\<forall>x \<in> set (starts (rounds a gens n st)). clock st \<le> x)"
    and n: "\<not> final (gens n)" "60 \<le> g_slept (gens n)" by auto
  let ?st = "rounds a gens n st"
  have s: "starts (snd (controller_round a (gens n) ?st)) = clock ?st # starts ?st"
    "clock ?st \<le> clock (snd (controller_round a (gens n) ?st))"
    using n(1) by (auto simp: controller_round_def prevent_looping_def final_def Let_def
        split: wstatus.splits)
  from ih n controller_round_paced [of ?st "gens n" a] s show ?case by auto
qed

lemma paced_length:
  "sorted_wrt (\<lambda>later earlier. earlier + 60 \<le> later) xs \<Longrightarrow> (\<forall>x \<in> set xs. t0 \<le> x \<and> x \<le> t1) \<Longrightarrow>
     xs \<noteq> [] \<Longrightarrow> (length xs - 1) * 60 + t0 \<le> t1"
proof (induction xs arbitrary: t1)
  case (Cons x xs)
  show ?case
  proof (cases xs)
    case (Cons y ys)
    have "(length xs - 1) * 60 + t0 \<le> x - 60"
      using Cons.prems Cons by (intro Cons.IH) auto
    moreover have "t0 + 60 \<le> x" using Cons.prems Cons by auto
    moreover have "x \<le> t1" using Cons.prems by auto
    ultimately show ?thesis using Cons by auto
  qed (use Cons.prems in auto)
qed simp

section \<open>Signals between the system calls\<close>

text \<open>
  Where the controller is between two system calls: about to \<open>fork\<close>, behind it with \<open>controlled\<close>
  and the handlers not yet set, in \<open>waitpid\<close>, in \<open>sleep (60)\<close>, or gone. \<open>alive_child\<close> is the child
  that runs, \<open>reached\<close> lists the signals that \<open>kill\<close> brought to a running child.
\<close>

datatype phase = Forking | Forked int | Waiting int | Pausing | Returned int | Killed_by sig

record ctl =
  phase :: phase
  controlled :: int
  handlers_set :: bool
  alive_child :: "int option"
  reached :: "kill_call list"

datatype ctl_label = Fork int | Fork_fails | Set_up | Child_ends | Reap wstatus bool | Wake | Signal sig

definition ctl_start :: ctl where
  "ctl_start = \<lparr>phase = Forking, controlled = 0, handlers_set = False, alive_child = None, reached = []\<rparr>"

definition deliver_kill :: "kill_call \<Rightarrow> ctl \<Rightarrow> ctl" where
  "deliver_kill c s = (if alive_child s = Some (fst c) then s\<lparr>reached := reached s @ [c]\<rparr> else s)"

text \<open>The handler \<open>controller\<close>; a signal also ends the \<open>sleep\<close> of the controller.\<close>

definition forward :: "sig \<Rightarrow> ctl \<Rightarrow> ctl" where
  "forward g s =
     (let s' = fold deliver_kill (controller (controlled s) g) s
      in if phase s = Pausing \<and> g \<noteq> Other_signal then s'\<lparr>phase := Forking\<rparr> else s')"

text \<open>The next phase after \<open>waitpid\<close>; \<open>young\<close> says that the child started less than 60 seconds ago.\<close>

definition after_reap :: "wstatus \<Rightarrow> bool \<Rightarrow> phase" where
  "after_reap st young =
     (case st of
        Exited status \<Rightarrow>
          if status = 123 then if young then Pausing else Forking
          else if status = 0 then Returned 0 else Returned 1
      | Signaled _ \<Rightarrow> if young then Pausing else Forking
      | Stopped_or_other \<Rightarrow> Returned 1)"

inductive ctl_step :: "ctl \<Rightarrow> ctl_label \<Rightarrow> ctl \<Rightarrow> bool" where
  fork: "phase s = Forking \<Longrightarrow> 0 < pid \<Longrightarrow>
    ctl_step s (Fork pid) (s\<lparr>phase := Forked pid, alive_child := Some pid\<rparr>)"
| fork_fails: "phase s = Forking \<Longrightarrow> ctl_step s Fork_fails (s\<lparr>phase := Returned 1\<rparr>)"
| set_up: "phase s = Forked pid \<Longrightarrow>
    ctl_step s Set_up (s\<lparr>phase := Waiting pid, controlled := pid, handlers_set := True\<rparr>)"
| child_ends: "alive_child s = Some pid \<Longrightarrow> ctl_step s Child_ends (s\<lparr>alive_child := None\<rparr>)"
| reap: "phase s = Waiting pid \<Longrightarrow> alive_child s = None \<Longrightarrow>
    ctl_step s (Reap st young) (s\<lparr>phase := after_reap st young\<rparr>)"
| wake: "phase s = Pausing \<Longrightarrow> ctl_step s Wake (s\<lparr>phase := Forking\<rparr>)"
| signal: "phase s \<notin> range Returned \<union> range Killed_by \<Longrightarrow> handlers_set s \<Longrightarrow>
    ctl_step s (Signal g) (forward g s)"
| signal_default: "phase s \<notin> range Returned \<union> range Killed_by \<Longrightarrow> \<not> handlers_set s \<Longrightarrow>
    g \<noteq> Other_signal \<Longrightarrow> ctl_step s (Signal g) (s\<lparr>phase := Killed_by g\<rparr>)"

inductive reachable :: "ctl \<Rightarrow> bool" where
  start: "reachable ctl_start"
| step: "reachable s \<Longrightarrow> ctl_step s l s' \<Longrightarrow> reachable s'"

inductive_cases ctl_signalE: "ctl_step s (Signal g) s'"
inductive_simps ctl_fork_simps: "ctl_step s (Fork p) s'"

lemma forward_frame:
  "controlled (forward g s) = controlled s" "handlers_set (forward g s) = handlers_set s"
  "alive_child (forward g s) = alive_child s"
  "phase (forward g s) = (if phase s = Pausing \<and> g \<noteq> Other_signal then Forking else phase s)"
  by (auto simp: forward_def controller_def deliver_kill_def Let_def)

lemma after_reap_phase: "after_reap st young \<notin> range Forked \<union> range Waiting \<union> range Killed_by"
  by (cases st) (auto simp: after_reap_def)

definition ctl_inv :: "ctl \<Rightarrow> bool" where
  "ctl_inv s \<longleftrightarrow>
     (case phase s of
        Forking \<Rightarrow> alive_child s = None
      | Forked p \<Rightarrow> alive_child s = Some p \<or> alive_child s = None
      | Waiting p \<Rightarrow> controlled s = p \<and> handlers_set s \<and> (alive_child s = Some p \<or> alive_child s = None)
      | Pausing \<Rightarrow> alive_child s = None \<and> handlers_set s
      | Returned rc \<Rightarrow> alive_child s = None
      | Killed_by g \<Rightarrow> \<not> handlers_set s)
     \<and> (\<not> handlers_set s \<longrightarrow> controlled s = 0)"

lemma reachable_inv: "reachable s \<Longrightarrow> ctl_inv s"
proof (induction rule: reachable.induct)
  case start
  show ?case by (simp add: ctl_inv_def ctl_start_def)
next
  case (step s l s')
  from step(2) step.IH show ?case
  proof cases
    case (reap pid st young)
    with step.IH show ?thesis
      by (cases st) (auto simp: ctl_inv_def after_reap_def)
  next
    case (signal g)
    with step.IH show ?thesis
      by (auto simp: ctl_inv_def forward_frame split: phase.splits)
  qed (auto simp: ctl_inv_def split: phase.splits)
qed

section \<open>Properties\<close>

text \<open>C6. The controller returns exactly when some child was the last one: a child that ended
  otherwise than with 123 or by a signal, or could not be forked. The first such child decides
  the return value, 0 when it exited with 0 and 1 in every other case, and as long as children
  end with 123 or by a signal, new ones are started for ever.\<close>

theorem controller_restarts:
  "(run_controller a gens st = None \<longleftrightarrow> (\<forall>n. \<not> final (gens n)))
   \<and> ((\<exists>n. final (gens n)) \<longrightarrow> (\<exists>st'. run_controller a gens st =
        Some (final_code (gens (LEAST n. final (gens n))), st')))"
  using run_controller_None run_controller_first by blast

text \<open>C18. Restarts cannot loop: unless a signal cuts the pause short, any two starts are at least
  60 seconds apart, so \<open>n\<close> children take at least \<open>60 (n - 1)\<close> seconds.\<close>

theorem restarts_paced:
  assumes "starts st = []" "\<And>m. m < n \<Longrightarrow> \<not> final (gens m) \<and> 60 \<le> g_slept (gens m)" "0 < n"
  shows "sorted_wrt (\<lambda>later earlier. earlier + 60 \<le> later) (starts (rounds a gens n st))
    \<and> clock st + 60 * n \<le> clock (rounds a gens n st)"
proof -
  let ?st = "rounds a gens n st"
  note p = rounds_paced [of st n gens a, OF assms(1,2)]
  then obtain x xs where x: "starts ?st = x # xs" using assms(3) by (cases "starts ?st") auto
  with p have "\<forall>y \<in> set (starts ?st). clock st \<le> y \<and> y \<le> x" by (auto simp: paced_def)
  with p x have "(n - 1) * 60 + clock st \<le> x"
    using paced_length [of "starts ?st" "clock st" x] by (auto simp: paced_def)
  with p x assms(3) show ?thesis by (cases n) (auto simp: paced_def)
qed

text \<open>C19. While the controller waits for a running child, every signal of the five reaches that
  child, unchanged and exactly once, and the controller keeps waiting.\<close>

theorem signals_forwarded:
  assumes "reachable s" "phase s = Waiting p" "alive_child s = Some p" "g \<noteq> Other_signal"
    and "ctl_step s (Signal g) s'"
  shows "reached s' = reached s @ [(p, g)] \<and> phase s' = Waiting p"
proof -
  have i: "controlled s = p" "handlers_set s"
    using reachable_inv [OF assms(1)] assms(2) by (auto simp: ctl_inv_def)
  with assms(5) have "s' = forward g s" by (auto elim: ctl_signalE)
  with i assms(2-4) show ?thesis
    by (auto simp: forward_def controller_def deliver_kill_def Let_def)
qed

text \<open>C31. A request to shut down is lost while the controller pauses between two children: the
  signal goes to the child that has ended, no running process gets it, nothing records it, and
  the controller forks the next child right away.\<close>

theorem shutdown_lost_while_pausing:
  assumes "reachable s" "phase s = Pausing" "g \<in> {SIGTERM, SIGINT}" "ctl_step s (Signal g) s'" "0 < p"
  shows "s' = s\<lparr>phase := Forking\<rparr> \<and> ctl_step s' (Fork p) (s'\<lparr>phase := Forked p, alive_child := Some p\<rparr>)"
proof -
  have i: "alive_child s = None" "handlers_set s"
    using reachable_inv [OF assms(1)] assms(2) by (auto simp: ctl_inv_def)
  with assms(4) have "s' = forward g s" by (auto elim: ctl_signalE)
  with i assms(2,3) have "s' = s\<lparr>phase := Forking\<rparr>"
    by (auto simp: forward_def controller_def deliver_kill_def Let_def)
  with assms(5) show ?thesis by (auto simp: ctl_fork_simps)
qed

section \<open>Witnesses\<close>

definition reload_then_stop :: "nat \<Rightarrow> generation" where
  "reload_then_stop n = \<lparr>g_forked = True, g_pid = 500 + int n,
     g_status = Exited (if n < 2 then 123 else 0), g_seconds = 5, g_world = demo_world, g_slept = 60\<rparr>"

definition ctl_zero :: ctl_state where
  "ctl_zero = \<lparr>clock = 1000, starts = [], ctl_controlled = 0, ctl_world = demo_world\<rparr>"

lemma reload_final: "final (reload_then_stop n) \<longleftrightarrow> 2 \<le> n"
  by (auto simp: final_def reload_then_stop_def)

theorem controller_restarts_witness:
  "\<exists>st'. run_controller (init_args False) reload_then_stop ctl_zero = Some (0, st')"
proof -
  have least: "(LEAST n. final (reload_then_stop n)) = 2"
    unfolding reload_final by (rule Least_equality) auto
  have "final_code (reload_then_stop (LEAST n. final (reload_then_stop n))) = 0"
    unfolding least by (simp add: final_code_def reload_then_stop_def)
  moreover have "\<exists>n. final (reload_then_stop n)" unfolding reload_final by blast
  ultimately show ?thesis
    using controller_restarts [of "init_args False" reload_then_stop ctl_zero] by metis
qed

theorem restarts_paced_witness:
  "clock ctl_zero + 60 * 2 \<le> clock (rounds (init_args False) reload_then_stop 2 ctl_zero)"
proof -
  have a: "starts ctl_zero = []" by (simp add: ctl_zero_def)
  have b: "\<not> final (reload_then_stop m) \<and> 60 \<le> g_slept (reload_then_stop m)" if "m < 2" for m
    using that unfolding reload_final by (simp add: reload_then_stop_def)
  show ?thesis using restarts_paced [where n = 2 and a = "init_args False", OF a b] by simp
qed

definition waiting_state :: ctl where
  "waiting_state = ctl_start\<lparr>phase := Waiting 9, controlled := 9, handlers_set := True, alive_child := Some 9\<rparr>"

lemma waiting_reachable: "reachable waiting_state"
proof -
  have "reachable (ctl_start\<lparr>phase := Forked 9, alive_child := Some 9\<rparr>)"
    by (rule reachable.step [OF reachable.start ctl_step.fork]) (simp_all add: ctl_start_def)
  from reachable.step [OF this ctl_step.set_up [where pid = 9]] show ?thesis
    by (simp add: waiting_state_def ctl_start_def)
qed

theorem signals_forwarded_witness:
  "reached (forward SIGHUP waiting_state) = reached waiting_state @ [(9, SIGHUP)]
   \<and> phase (forward SIGHUP waiting_state) = Waiting 9"
proof (rule signals_forwarded [OF waiting_reachable])
  show "ctl_step waiting_state (Signal SIGHUP) (forward SIGHUP waiting_state)"
    by (rule ctl_step.signal) (auto simp: waiting_state_def)
qed (simp_all add: waiting_state_def)

definition pausing_state :: ctl where
  "pausing_state = waiting_state\<lparr>phase := Pausing, alive_child := None\<rparr>"

lemma pausing_reachable: "reachable pausing_state"
proof -
  have "reachable (waiting_state\<lparr>alive_child := None\<rparr>)"
    by (rule reachable.step [OF waiting_reachable ctl_step.child_ends [where pid = 9]])
       (simp add: waiting_state_def)
  from reachable.step [OF this ctl_step.reap [where pid = 9 and st = "Exited 123" and young = True]]
  show ?thesis by (simp add: pausing_state_def waiting_state_def after_reap_def ctl_start_def)
qed

theorem shutdown_lost_while_pausing_witness:
  "forward SIGTERM pausing_state = pausing_state\<lparr>phase := Forking\<rparr>
   \<and> ctl_step (forward SIGTERM pausing_state) (Fork 10)
       ((forward SIGTERM pausing_state)\<lparr>phase := Forked 10, alive_child := Some 10\<rparr>)"
proof (rule shutdown_lost_while_pausing [OF pausing_reachable])
  show "ctl_step pausing_state (Signal SIGTERM) (forward SIGTERM pausing_state)"
    by (rule ctl_step.signal) (auto simp: pausing_state_def waiting_state_def)
qed (simp_all add: pausing_state_def)

end
