(* ===== verification/Output.thy ===== *)
theory Output
  imports Pid_File
begin

text \<open>
  The output of \<^verbatim>\<open>jsvc\<close>: the messages of \<^verbatim>\<open>debug.c\<close>, and from \<^verbatim>\<open>jsvc-unix.c\<close> the redirection of
  the standard streams (\<open>loc_freopen\<close>, \<open>set_output\<close>) and the process that copies them to the
  system log (\<open>logger_child\<close>). A descriptor is modelled by what it writes to.
\<close>

section \<open>Messages\<close>

text \<open>
  The line written to standard error, if any: \<open>msg\<close> is the formatted message, \<open>None\<close> for a null
  format; \<open>stamp\<close> is the time as \<open>strftime\<close> writes it, \<open>debug_build\<close> says that the macro
  \<open>DEBUG\<close> is defined.
\<close>

definition log_debug :: "bool \<Rightarrow> log_state \<Rightarrow> string \<Rightarrow> int \<Rightarrow> string option \<Rightarrow> string option" where
  "log_debug debug_build lg stamp pid msg =
     (if \<not> log_debug_flag lg then None
      else case msg of
        None \<Rightarrow> None
      | Some m \<Rightarrow>
          Some ((if log_stderr_syslog_flag lg
                 then stamp @ '' '' @ show_int pid @ '' '' @ log_prog lg @ '' debug: ''
                 else if debug_build then ''[debug] '' @ stamp @ '' '' @ show_int pid @ '' '' else [])
                @ m @ [CHR 0x0A]))"

definition log_error :: "log_state \<Rightarrow> string \<Rightarrow> int \<Rightarrow> string option \<Rightarrow> string option" where
  "log_error lg stamp pid msg =
     (case msg of
        None \<Rightarrow> None
      | Some m \<Rightarrow>
          Some ((if log_stderr_syslog_flag lg
                 then stamp @ '' '' @ show_int pid @ '' '' @ log_prog lg @ '' error: '' else [])
                @ m @ [CHR 0x0A]))"

section \<open>The system log process\<close>

datatype priority = LOG_INFO | LOG_ERR

text \<open>The reading end of a pipe: the bytes that wait in it, and whether every writer has closed it.\<close>

record pipe =
  waiting :: string
  closed :: bool

text \<open>The descriptors of the process, \<open>None\<close> for \<open>-1\<close>, and what it has sent to the system log.\<close>

record logger =
  out_fd :: "pipe option"
  err_fd :: "pipe option"
  logged :: "(priority \<times> string) list"

text \<open>
  What happens around one call of \<open>select\<close>: the bytes that were written to the pipes since the
  last one, whether their last writer went, and the errors of the three calls if there are any.
  A \<open>read\<close> that is interrupted is repeated, so \<open>EINTR\<close> does not occur.
\<close>

record round =
  out_bytes :: string
  err_bytes :: string
  out_end :: bool
  err_end :: bool
  select_errno :: "int option"
  out_errno :: "int option"
  err_errno :: "int option"

definition arrive :: "string \<Rightarrow> bool \<Rightarrow> pipe \<Rightarrow> pipe" where
  "arrive bytes e p = p\<lparr>waiting := waiting p @ bytes, closed := closed p \<or> e\<rparr>"

definition wait_for :: "round \<Rightarrow> logger \<Rightarrow> logger" where
  "wait_for r l = l\<lparr>out_fd := map_option (arrive (out_bytes r) (out_end r)) (out_fd l),
     err_fd := map_option (arrive (err_bytes r) (err_end r)) (err_fd l)\<rparr>"

text \<open>\<open>FD_ISSET\<close> after \<open>select\<close>: there are bytes, or the end of the file is reached.\<close>

definition is_set :: "pipe option \<Rightarrow> bool" where
  "is_set fd = (case fd of None \<Rightarrow> False | Some p \<Rightarrow> waiting p \<noteq> [] \<or> closed p)"

text \<open>A \<open>read\<close> takes at most 1023 bytes, the rest stays in the pipe for the next round.\<close>

definition LOGBUF_SIZE :: nat where "LOGBUF_SIZE = 1024"

definition sys_read :: "pipe \<Rightarrow> string \<times> pipe" where
  "sys_read p = (take (LOGBUF_SIZE - 1) (waiting p), p\<lparr>waiting := drop (LOGBUF_SIZE - 1) (waiting p)\<rparr>)"

definition log_block :: "priority \<Rightarrow> string \<Rightarrow> (priority \<times> string) list" where
  "log_block pr buf =
     (if 0 < length buf \<and> hd buf \<noteq> CHR 0x0A then [(pr, cstr buf)] else [])"

text \<open>The two halves of the loop's body; the flag tells that \<open>break\<close> was reached.\<close>

definition serve_out :: "(int \<Rightarrow> string) \<Rightarrow> bool \<Rightarrow> int option \<Rightarrow> logger \<Rightarrow> bool \<times> logger" where
  "serve_out strerror fd_set errno l =
     (case out_fd l of
        None \<Rightarrow> (False, l)
      | Some p \<Rightarrow>
          if \<not> fd_set then (False, l)
          else case errno of
            Some e \<Rightarrow>
              (let l = l\<lparr>logged := logged l @ [(LOG_ERR, ''read: '' @ strerror e)]\<rparr>
               in if err_fd l = None then (True, l) else (False, l\<lparr>out_fd := None\<rparr>))
          | None \<Rightarrow>
              (case sys_read p of (buf, p') \<Rightarrow>
                 (False, l\<lparr>out_fd := Some p', logged := logged l @ log_block LOG_INFO buf\<rparr>)))"

definition serve_err :: "(int \<Rightarrow> string) \<Rightarrow> bool \<Rightarrow> int option \<Rightarrow> logger \<Rightarrow> bool \<times> logger" where
  "serve_err strerror fd_set errno l =
     (case err_fd l of
        None \<Rightarrow> (False, l)
      | Some p \<Rightarrow>
          if \<not> fd_set then (False, l)
          else case errno of
            Some e \<Rightarrow>
              (let l = l\<lparr>logged := logged l @ [(LOG_ERR, ''read: '' @ strerror e)]\<rparr>
               in if out_fd l = None then (True, l) else (False, l\<lparr>err_fd := None\<rparr>))
          | None \<Rightarrow>
              (case sys_read p of (buf, p') \<Rightarrow>
                 (False, l\<lparr>err_fd := Some p', logged := logged l @ log_block LOG_ERR buf\<rparr>)))"

text \<open>
  The loop over the rounds: the exit code of the process with what it logged, no code while the
  loop still waits for another round. When \<open>select\<close> times out no descriptor is set.
\<close>

fun logger_loop :: "(int \<Rightarrow> string) \<Rightarrow> round list \<Rightarrow> logger \<Rightarrow> int option \<times> logger" where
  "logger_loop strerror [] l = (None, l)"
| "logger_loop strerror (r # rs) l =
     (if out_fd l = None \<and> err_fd l = None then (Some 0, l)
      else
        let l = wait_for r l
        in case select_errno r of
             Some e \<Rightarrow> (Some e, l\<lparr>logged := logged l @ [(LOG_ERR, ''select: '' @ strerror e)]\<rparr>)
           | None \<Rightarrow>
               (case serve_out strerror (is_set (out_fd l)) (out_errno r) l of
                  (True, l') \<Rightarrow> (Some 0, l')
                | (False, l') \<Rightarrow>
                    (case serve_err strerror (is_set (err_fd l)) (err_errno r) l' of
                       (True, l') \<Rightarrow> (Some 0, l')
                     | (False, l') \<Rightarrow> logger_loop strerror rs l')))"

definition EINVAL :: int where "EINVAL = 22"

definition empty_pipe :: pipe where
  "empty_pipe = \<lparr>waiting = [], closed = False\<rparr>"

definition logger_child :: "(int \<Rightarrow> string) \<Rightarrow> bool \<Rightarrow> bool \<Rightarrow> round list \<Rightarrow> int option \<times> logger" where
  "logger_child strerror has_out has_err rs =
     (let l = \<lparr>out_fd = (if has_out then Some empty_pipe else None),
               err_fd = (if has_err then Some empty_pipe else None), logged = []\<rparr>
      in if \<not> has_out \<and> \<not> has_err then (Some EINVAL, l) else logger_loop strerror rs l)"

section \<open>Redirection\<close>

datatype dest = Original nat | To_file path | To_syslog priority

record streams =
  s_world :: world
  fd0 :: dest
  fd1 :: dest
  fd2 :: dest
  s_log :: log_state
  logger_pid :: int

text \<open>
  What the system answers: whether \<open>/dev/null\<close> could be opened, whether the two calls of \<open>pipe\<close>
  succeed, and the result of \<open>fork\<close> in the parent.
\<close>

record out_system =
  pipe_out_ok :: bool
  pipe_err_ok :: bool
  logger_fork :: int

definition dev_null :: dest where "dev_null = To_file ''/dev/null''"

text \<open>\<open>loc_freopen\<close> gives the new destination, none when the stream is left alone.\<close>

definition loc_freopen :: "world \<Rightarrow> path \<Rightarrow> dest option \<times> world" where
  "loc_freopen w out_name =
     (let w1 = snd (mkdir2 w out_name)
      in case sys_open True w1 out_name of
           (Inl e, w2) \<Rightarrow> (None, w2)
         | (Inr s, w2) \<Rightarrow> (Some (To_file out_name), w2))"

definition redirect_out :: "out_system \<Rightarrow> string \<Rightarrow> streams \<Rightarrow> bool \<times> streams" where
  "redirect_out sys out_name st =
     (if out_name = ''SYSLOG''
      then if \<not> pipe_out_ok sys then (False, st\<lparr>fd1 := dev_null\<rparr>)
           else (True, st\<lparr>fd1 := dev_null, s_log := s_log st\<lparr>log_stdout_syslog_flag := True\<rparr>\<rparr>)
      else if out_name \<noteq> ''&2'' \<and> out_name \<noteq> ''&1''
      then case loc_freopen (s_world st) out_name of
        (None, w) \<Rightarrow> (False, st\<lparr>s_world := w\<rparr>)
      | (Some d, w) \<Rightarrow> (False, st\<lparr>s_world := w, fd1 := d\<rparr>)
      else (False, st))"

definition redirect_err :: "out_system \<Rightarrow> string \<Rightarrow> streams \<Rightarrow> bool \<times> streams" where
  "redirect_err sys err_name st =
     (if err_name = ''SYSLOG''
      then if \<not> pipe_err_ok sys then (False, st\<lparr>fd2 := dev_null\<rparr>)
           else (True, st\<lparr>fd2 := dev_null, s_log := s_log st\<lparr>log_stderr_syslog_flag := True\<rparr>\<rparr>)
      else if err_name \<noteq> ''&1'' \<and> err_name \<noteq> ''&2''
      then case loc_freopen (s_world st) err_name of
        (None, w) \<Rightarrow> (False, st\<lparr>s_world := w\<rparr>)
      | (Some d, w) \<Rightarrow> (False, st\<lparr>s_world := w, fd2 := d\<rparr>)
      else (False, st))"

definition start_logger :: "out_system \<Rightarrow> bool \<Rightarrow> bool \<Rightarrow> streams \<Rightarrow> streams" where
  "start_logger sys out_pipe err_pipe st =
     (if logger_fork sys = - 1 then st
      else st\<lparr>logger_pid := logger_fork sys,
              fd1 := (if out_pipe then To_syslog LOG_INFO else fd1 st),
              fd2 := (if err_pipe then To_syslog LOG_ERR else fd2 st)\<rparr>)"

definition set_output :: "out_system \<Rightarrow> string \<Rightarrow> string \<Rightarrow> bool \<Rightarrow> streams \<Rightarrow> streams" where
  "set_output sys out_name err_name redirect_in st =
     (let st = (if redirect_in then st\<lparr>fd0 := dev_null\<rparr> else st)
      in if log_debug_flag (s_log st) \<and> err_name = ''/dev/null'' then st
         else if out_name = ''&1'' \<and> err_name = ''&2'' then st
         else
           case redirect_out sys out_name st of (out_pipe, st) \<Rightarrow>
           case redirect_err sys err_name st of (err_pipe, st) \<Rightarrow>
             let st = (if err_name = ''&1'' \<and> out_name \<noteq> ''&1'' then st\<lparr>fd2 := fd1 st\<rparr> else st);
                 st = (if out_name = ''&2'' \<and> err_name \<noteq> ''&2'' then st\<lparr>fd1 := fd2 st\<rparr> else st)
             in if out_pipe \<or> err_pipe then start_logger sys out_pipe err_pipe st else st)"

section \<open>Facts\<close>

lemma loc_freopen_dest: "loc_freopen w name = (Some d, w') \<Longrightarrow> d = To_file name"
  by (auto simp: loc_freopen_def Let_def split: prod.splits sum.splits)

definition plain_name :: "string \<Rightarrow> bool" where
  "plain_name s \<longleftrightarrow> s \<notin> {''&1'', ''&2'', ''SYSLOG''}"

definition can_create :: "world \<Rightarrow> path \<Rightarrow> bool" where
  "can_create w name \<longleftrightarrow> fst (loc_freopen w name) \<noteq> None"

definition all_works :: "out_system \<Rightarrow> bool" where
  "all_works sys \<longleftrightarrow> pipe_out_ok sys \<and> pipe_err_ok sys \<and> 0 < logger_fork sys"

lemma redirect_out_plain:
  assumes "plain_name n" "can_create (s_world st) n"
  shows "redirect_out sys n st = (False, st\<lparr>s_world := snd (loc_freopen (s_world st) n), fd1 := To_file n\<rparr>)"
  using assms loc_freopen_dest [of "s_world st" n]
  by (cases "loc_freopen (s_world st) n") (auto simp: redirect_out_def plain_name_def can_create_def)

lemma redirect_err_plain:
  assumes "plain_name n" "can_create (s_world st) n"
  shows "redirect_err sys n st = (False, st\<lparr>s_world := snd (loc_freopen (s_world st) n), fd2 := To_file n\<rparr>)"
  using assms loc_freopen_dest [of "s_world st" n]
  by (cases "loc_freopen (s_world st) n") (auto simp: redirect_err_def plain_name_def can_create_def)

lemmas set_output_simps = set_output_def redirect_out_plain redirect_err_plain plain_name_def Let_def

section \<open>Properties\<close>

text \<open>What the two options ask for, from the states of the streams before the call.\<close>

definition named :: "priority \<Rightarrow> string \<Rightarrow> dest \<Rightarrow> dest" where
  "named pr name d =
     (if name = ''SYSLOG'' then To_syslog pr else if name \<in> {''&1'', ''&2''} then d else To_file name)"

definition asked_out :: "string \<Rightarrow> string \<Rightarrow> streams \<Rightarrow> dest" where
  "asked_out f g st = (if f = ''&2'' then named LOG_ERR g (fd2 st) else named LOG_INFO f (fd1 st))"

definition asked_err :: "string \<Rightarrow> string \<Rightarrow> streams \<Rightarrow> dest" where
  "asked_err f g st = (if g = ''&1'' then named LOG_INFO f (fd1 st) else named LOG_ERR g (fd2 st))"

definition mixed_up :: "(string \<times> string) list" where
  "mixed_up = [(''SYSLOG'', ''&1''), (''&2'', ''SYSLOG''), (''&1'', ''&1''), (''&2'', ''&2''), (''&2'', ''&1'')]"

definition creatable :: "string \<Rightarrow> string \<Rightarrow> world \<Rightarrow> bool" where
  "creatable f g w \<longleftrightarrow> (plain_name f \<longrightarrow> can_create w f)
     \<and> (plain_name g \<longrightarrow> can_create (if plain_name f then snd (loc_freopen w f) else w) g)"

lemmas asked_simps = asked_out_def asked_err_def named_def plain_name_def creatable_def mixed_up_def

definition before_pipe :: "string \<Rightarrow> dest \<Rightarrow> dest" where
  "before_pipe name d =
     (if name = ''SYSLOG'' then dev_null else if name \<in> {''&1'', ''&2''} then d else To_file name)"

lemma redirect_out_works:
  assumes "all_works sys" "plain_name f \<longrightarrow> can_create (s_world st) f"
  shows "\<exists>lg. redirect_out sys f st = (f = ''SYSLOG'', st\<lparr>fd1 := before_pipe f (fd1 st), s_log := lg,
    s_world := (if plain_name f then snd (loc_freopen (s_world st) f) else s_world st)\<rparr>)"
proof (cases "plain_name f")
  case True
  with assms(2) redirect_out_plain [of f st sys] show ?thesis
    by (intro exI [of _ "s_log st"]) (auto simp: before_pipe_def plain_name_def)
next
  case False
  then show ?thesis using assms(1)
    by (auto simp: before_pipe_def plain_name_def redirect_out_def all_works_def intro: exI [of _ "s_log st"])
qed

lemma redirect_err_works:
  assumes "all_works sys" "plain_name g \<longrightarrow> can_create (s_world st) g"
  shows "\<exists>lg. redirect_err sys g st = (g = ''SYSLOG'', st\<lparr>fd2 := before_pipe g (fd2 st), s_log := lg,
    s_world := (if plain_name g then snd (loc_freopen (s_world st) g) else s_world st)\<rparr>)"
proof (cases "plain_name g")
  case True
  with assms(2) redirect_err_plain [of g st sys] show ?thesis
    by (intro exI [of _ "s_log st"]) (auto simp: before_pipe_def plain_name_def)
next
  case False
  then show ?thesis using assms(1)
    by (auto simp: before_pipe_def plain_name_def redirect_err_def all_works_def intro: exI [of _ "s_log st"])
qed

lemma plain_cases: "plain_name n \<or> n = ''SYSLOG'' \<or> n = ''&1'' \<or> n = ''&2''"
  by (auto simp: plain_name_def)

lemma set_output_stdin:
  "set_output sys f g r st = set_output sys f g False (if r then st\<lparr>fd0 := dev_null\<rparr> else st)"
  by (simp add: set_output_def)

lemma set_output_streams:
  assumes "all_works sys" "creatable f g (s_world st)" "(f, g) \<notin> set mixed_up"
    and "\<not> (log_debug_flag (s_log st) \<and> g = ''/dev/null'')"
  shows "fd0 (set_output sys f g False st) = fd0 st \<and> fd1 (set_output sys f g False st) = asked_out f g st
    \<and> fd2 (set_output sys f g False st) = asked_err f g st"
proof -
  obtain st1 where out: "redirect_out sys f st = (f = ''SYSLOG'', st1)"
      and st1: "fd0 st1 = fd0 st" "fd1 st1 = before_pipe f (fd1 st)" "fd2 st1 = fd2 st"
        "s_world st1 = (if plain_name f then snd (loc_freopen (s_world st) f) else s_world st)"
    using redirect_out_works [OF assms(1), of f st] assms(2) by (auto simp: creatable_def)
  obtain st2 where err: "redirect_err sys g st1 = (g = ''SYSLOG'', st2)"
      and st2: "fd0 st2 = fd0 st" "fd1 st2 = before_pipe f (fd1 st)" "fd2 st2 = before_pipe g (fd2 st)"
    using redirect_err_works [OF assms(1), of g st1] assms(2) st1 by (auto simp: creatable_def)
  have ok: "logger_fork sys \<noteq> - 1" using assms(1) by (auto simp: all_works_def)
  have run: "set_output sys f g False st =
      (if f = ''&1'' \<and> g = ''&2'' then st
       else let st = (if g = ''&1'' \<and> f \<noteq> ''&1'' then st2\<lparr>fd2 := fd1 st2\<rparr> else st2);
                st = (if f = ''&2'' \<and> g \<noteq> ''&2'' then st\<lparr>fd1 := fd2 st\<rparr> else st)
            in if f = ''SYSLOG'' \<or> g = ''SYSLOG'' then start_logger sys (f = ''SYSLOG'') (g = ''SYSLOG'') st
               else st)"
    unfolding set_output_def Let_def using assms(4) by (simp only: out err prod.case if_False)
  show ?thesis
    using plain_cases [of f] plain_cases [of g] assms(3)
    unfolding run Let_def
    by (elim disjE) (simp_all add: asked_simps before_pipe_def start_logger_def st2 ok)
qed

text \<open>C28. When every call succeeds, \<open>set_output\<close> sends both streams where the options ask, for
  every pair of options but the five of \<open>mixed_up\<close>: to a file, to the system log with the
  priority of the stream, to where the other stream goes, or nowhere else; standard input comes
  from \<^verbatim>\<open>/dev/null\<close> if so asked. With debugging on and \<^verbatim>\<open>/dev/null\<close> as the error file nothing is
  redirected but standard input.\<close>

theorem set_output_destinations:
  assumes "all_works sys" "creatable f g (s_world st)" "(f, g) \<notin> set mixed_up"
  shows "fd0 (set_output sys f g r st) = (if r then dev_null else fd0 st)
    \<and> (if log_debug_flag (s_log st) \<and> g = ''/dev/null''
       then fd1 (set_output sys f g r st) = fd1 st \<and> fd2 (set_output sys f g r st) = fd2 st
       else fd1 (set_output sys f g r st) = asked_out f g st
          \<and> fd2 (set_output sys f g r st) = asked_err f g st)"
proof (cases "log_debug_flag (s_log st) \<and> g = ''/dev/null''")
  case True
  then show ?thesis by (simp add: set_output_def Let_def)
next
  case False
  let ?st = "if r then st\<lparr>fd0 := dev_null\<rparr> else st"
  have "asked_out f g ?st = asked_out f g st" "asked_err f g ?st = asked_err f g st"
    by (simp_all add: asked_out_def asked_err_def)
  with set_output_streams [of sys f g ?st] assms False show ?thesis
    unfolding set_output_stdin [of sys f g r st] by (cases r) auto
qed

text \<open>C33. Two pairs of options do not do what they are for. A stream that is sent to the other one
  while that goes to the system log is copied before the pipe is in place and ends in
  \<^verbatim>\<open>/dev/null\<close>; and \<open>&2\<close> for both streams leaves standard output where it was.\<close>

theorem set_output_copies_too_early:
  assumes "\<not> log_debug_flag (s_log st)" "all_works sys"
  shows "fd1 (set_output sys ''SYSLOG'' ''&1'' r st) = To_syslog LOG_INFO
    \<and> fd2 (set_output sys ''SYSLOG'' ''&1'' r st) = To_file ''/dev/null''
    \<and> fd2 (set_output sys ''&2'' ''SYSLOG'' r st) = To_syslog LOG_ERR
    \<and> fd1 (set_output sys ''&2'' ''SYSLOG'' r st) = To_file ''/dev/null''
    \<and> fd1 (set_output sys ''&2'' ''&2'' r st) = fd1 st"
  using assms
  by (auto simp: set_output_def redirect_out_def redirect_err_def Let_def all_works_def
      start_logger_def dev_null_def)

section \<open>What reaches the system log\<close>

definition healthy :: "round \<Rightarrow> bool" where
  "healthy r \<longleftrightarrow> select_errno r = None \<and> out_errno r = None \<and> err_errno r = None"

text \<open>
  What a pipe has carried: the blocks that were read, none of them empty or longer than 1023
  bytes, and what still waits make up everything that was written.
\<close>

definition carried :: "string list \<Rightarrow> pipe option \<Rightarrow> string \<Rightarrow> bool" where
  "carried blocks fd written \<longleftrightarrow>
     (\<forall>b \<in> set blocks. b \<noteq> [] \<and> length b \<le> 1023)
     \<and> (case fd of None \<Rightarrow> blocks = [] | Some p \<Rightarrow> concat blocks @ waiting p = written)"

text \<open>The messages of one priority, and what becomes of a list of blocks.\<close>

definition at_priority :: "priority \<Rightarrow> (priority \<times> string) list \<Rightarrow> string list" where
  "at_priority pr ls = map snd (filter (\<lambda>m. fst m = pr) ls)"

definition messages :: "string list \<Rightarrow> string list" where
  "messages blocks = map cstr (filter (\<lambda>b. hd b \<noteq> CHR 0x0A) blocks)"

lemma at_priority_append [simp]: "at_priority pr (xs @ ys) = at_priority pr xs @ at_priority pr ys"
  by (simp add: at_priority_def)

lemma carried_arrive:
  "carried blocks fd written \<Longrightarrow> carried blocks (map_option (arrive bytes e) fd) (written @ bytes)"
  by (auto simp: carried_def arrive_def split: option.splits)

lemma serve_pipe:
  assumes "carried blocks (Some p) written" "is_set (Some p)" "sys_read p = (buf, p')"
  shows "\<exists>bs. carried (blocks @ bs) (Some p') written
    \<and> at_priority pr (log_block pr buf) = messages bs
    \<and> (pr' \<noteq> pr \<longrightarrow> at_priority pr' (log_block pr buf) = [])"
proof (cases "waiting p = []")
  case True
  with assms show ?thesis
    by (intro exI [of _ "[]"]) (auto simp: carried_def sys_read_def log_block_def at_priority_def messages_def)
next
  case False
  with assms show ?thesis
    by (intro exI [of _ "[buf]"])
       (auto simp: carried_def sys_read_def log_block_def at_priority_def messages_def LOGBUF_SIZE_def)
qed

definition log_inv :: "string list \<Rightarrow> string list \<Rightarrow> string \<Rightarrow> string \<Rightarrow> logger \<Rightarrow> bool" where
  "log_inv bo be wo we l \<longleftrightarrow> carried bo (out_fd l) wo \<and> carried be (err_fd l) we
     \<and> at_priority LOG_INFO (logged l) = messages bo \<and> at_priority LOG_ERR (logged l) = messages be"

lemma messages_append [simp]: "messages (xs @ ys) = messages xs @ messages ys"
  by (simp add: messages_def)

lemma serve_out_inv:
  assumes "log_inv bo be wo we l" "fd_set = is_set (out_fd l)"
  shows "\<exists>bs l'. serve_out strerror fd_set None l = (False, l') \<and> log_inv (bo @ bs) be wo we l'
    \<and> err_fd l' = err_fd l \<and> (out_fd l' = None \<longleftrightarrow> out_fd l = None)"
proof (cases "out_fd l")
  case (Some p)
  show ?thesis
  proof (cases "is_set (out_fd l)")
    case True
    obtain buf p' where b: "sys_read p = (buf, p')" by fastforce
    obtain bs where "carried (bo @ bs) (Some p') wo"
      "at_priority LOG_INFO (log_block LOG_INFO buf) = messages bs"
      "at_priority LOG_ERR (log_block LOG_INFO buf) = []"
      using serve_pipe [OF _ _ b, of bo wo LOG_INFO LOG_ERR] assms(1) True Some by (auto simp: log_inv_def)
    with assms Some True b show ?thesis
      by (intro exI [of _ bs]) (auto simp: serve_out_def log_inv_def)
  qed (use assms Some in \<open>auto simp: serve_out_def intro!: exI [of _ "[]"]\<close>)
qed (use assms in \<open>auto simp: serve_out_def intro!: exI [of _ "[]"]\<close>)

lemma serve_err_inv:
  assumes "log_inv bo be wo we l" "fd_set = is_set (err_fd l)"
  shows "\<exists>bs l'. serve_err strerror fd_set None l = (False, l') \<and> log_inv bo (be @ bs) wo we l'
    \<and> out_fd l' = out_fd l \<and> (err_fd l' = None \<longleftrightarrow> err_fd l = None)"
proof (cases "err_fd l")
  case (Some p)
  show ?thesis
  proof (cases "is_set (err_fd l)")
    case True
    obtain buf p' where b: "sys_read p = (buf, p')" by fastforce
    obtain bs where "carried (be @ bs) (Some p') we"
      "at_priority LOG_ERR (log_block LOG_ERR buf) = messages bs"
      "at_priority LOG_INFO (log_block LOG_ERR buf) = []"
      using serve_pipe [OF _ _ b, of be we LOG_ERR LOG_INFO] assms(1) True Some by (auto simp: log_inv_def)
    with assms Some True b show ?thesis
      by (intro exI [of _ bs]) (auto simp: serve_err_def log_inv_def)
  qed (use assms Some in \<open>auto simp: serve_err_def intro!: exI [of _ "[]"]\<close>)
qed (use assms in \<open>auto simp: serve_err_def intro!: exI [of _ "[]"]\<close>)

lemma logger_loop_inv:
  assumes "list_all healthy rs" "log_inv bo be wo we l" "out_fd l \<noteq> None \<or> err_fd l \<noteq> None"
  shows "\<exists>bo' be' l'. logger_loop strerror rs l = (None, l')
    \<and> log_inv bo' be' (wo @ concat (map out_bytes rs)) (we @ concat (map err_bytes rs)) l'
    \<and> (out_fd l' = None \<longleftrightarrow> out_fd l = None) \<and> (err_fd l' = None \<longleftrightarrow> err_fd l = None)"
  using assms
proof (induction rs arbitrary: bo be wo we l)
  case (Cons r rs)
  let ?l = "wait_for r l"
  have inv: "log_inv bo be (wo @ out_bytes r) (we @ err_bytes r) ?l"
    using Cons.prems(2) by (auto simp: log_inv_def wait_for_def intro: carried_arrive)
  from serve_out_inv [OF this refl, of strerror] obtain bs l1 where
    l1: "serve_out strerror (is_set (out_fd ?l)) None ?l = (False, l1)" "err_fd l1 = err_fd ?l"
      "out_fd l1 = None \<longleftrightarrow> out_fd ?l = None"
    and inv1: "log_inv (bo @ bs) be (wo @ out_bytes r) (we @ err_bytes r) l1" by (elim exE conjE)
  from serve_err_inv [OF inv1 refl, of strerror] obtain cs l2 where
    l2: "serve_err strerror (is_set (err_fd l1)) None l1 = (False, l2)" "out_fd l2 = out_fd l1"
      "err_fd l2 = None \<longleftrightarrow> err_fd l1 = None"
    and inv2: "log_inv (bo @ bs) (be @ cs) (wo @ out_bytes r) (we @ err_bytes r) l2" by (elim exE conjE)
  have fds: "out_fd l2 = None \<longleftrightarrow> out_fd l = None" "err_fd l2 = None \<longleftrightarrow> err_fd l = None"
    using l1(2,3) l2(2,3) by (auto simp: wait_for_def)
  with Cons.prems(3) have "out_fd l2 \<noteq> None \<or> err_fd l2 \<noteq> None" by simp
  from Cons.IH [OF _ inv2 this] Cons.prems(1) obtain bo' be' l' where
    "logger_loop strerror rs l2 = (None, l')"
    "log_inv bo' be' ((wo @ out_bytes r) @ concat (map out_bytes rs)) ((we @ err_bytes r) @ concat (map err_bytes rs)) l'"
    "out_fd l' = None \<longleftrightarrow> out_fd l2 = None" "err_fd l' = None \<longleftrightarrow> err_fd l2 = None"
    by auto
  with Cons.prems(1,3) l1(1,2) l2(1) fds show ?case by (auto simp: healthy_def Let_def)
qed auto


section \<open>Witnesses\<close>

definition plain_streams :: streams where
  "plain_streams = \<lparr>s_world = demo_world, fd0 = Original 0, fd1 = Original 1, fd2 = Original 2,
     s_log = log_init, logger_pid = 0\<rparr>"

definition works :: out_system where
  "works = \<lparr>pipe_out_ok = True, pipe_err_ok = True, logger_fork = 40\<rparr>"

theorem set_output_destinations_witness:
  "fd1 (set_output works ''/run/o'' ''&1'' True plain_streams) = To_file ''/run/o''
   \<and> fd2 (set_output works ''/run/o'' ''&1'' True plain_streams) = To_file ''/run/o''"
proof -
  have "creatable ''/run/o'' ''&1'' (s_world plain_streams)"
    by (simp add: plain_streams_def creatable_def plain_name_def can_create_def loc_freopen_def mkdir2_def
        mkdir1.simps mkdir0_def sys_mkdir_def sys_open_def demo_simps split_last_def upt_rec Let_def)
  moreover have "all_works works" "(''/run/o'', ''&1'') \<notin> set mixed_up" "\<not> log_debug_flag (s_log plain_streams)"
    by (simp_all add: plain_streams_def log_init_def all_works_def works_def mixed_up_def)
  moreover have "asked_out ''/run/o'' ''&1'' plain_streams = To_file ''/run/o''"
    "asked_err ''/run/o'' ''&1'' plain_streams = To_file ''/run/o''"
    by (simp_all add: asked_out_def asked_err_def named_def)
  ultimately show ?thesis
    using set_output_destinations [of works "''/run/o''" "''&1''" plain_streams True] by simp
qed

theorem set_output_copies_too_early_witness:
  "fd2 (set_output works ''SYSLOG'' ''&1'' True plain_streams) = To_file ''/dev/null''"
  using set_output_copies_too_early [of plain_streams works]
  by (simp add: plain_streams_def log_init_def all_works_def works_def)

text \<open>A line on standard output, then the end of both pipes.\<close>

definition two_rounds :: "round list" where
  "two_rounds =
     [\<lparr>out_bytes = ''up'', err_bytes = [], out_end = False, err_end = False,
       select_errno = None, out_errno = None, err_errno = None\<rparr>,
      \<lparr>out_bytes = [], err_bytes = [CHR 0x0A, CHR ''x''], out_end = True, err_end = True,
       select_errno = None, out_errno = None, err_errno = None\<rparr>]"


end
