(* ===== verification/Jsvc_Main.thy ===== *)
theory Jsvc_Main
  imports Controller Output
begin

text \<open>
  \<^verbatim>\<open>help.c\<close> and \<open>main\<close> of \<^verbatim>\<open>jsvc-unix.c\<close>: the command line, the user check and the Java home in
  their order, the second execution of the program with the library path of the JVM (Linux
  only), detaching, and the way into the controller. A \<open>main_env\<close> holds what the system answers.
\<close>

section \<open>The help page\<close>

abbreviation quote :: char where "quote \<equiv> CHR 0x27"

definition help_head :: "string \<Rightarrow> home_data \<Rightarrow> string list" where
  "help_head prog d =
     [''Usage: '' @ prog @ '' [-options] class [args...]'',
      [],
      ''Where options include:'',
      [],
      ''    -help | --help | -?'',
      ''        show this help page (implies -nodetach)'',
      ''    -jvm <JVM name>'',
      ''        use a specific Java Virtual Machine. Available JVMs:'',
      ''           '' @ concat (map (\<lambda>j. '' '' @ [quote] @ PRINT_NULL (jvm_label j) @ [quote]) (jvms d))]"

definition help_options :: "string list" where
  "help_options =
     [''    -client'',
      ''        use a client Java Virtual Machine.'',
      ''    -server'',
      ''        use a server Java Virtual Machine.'',
      ''    -cp | -classpath <directories and zip/jar files>'',
      ''        set search path for service classes and resouces'',
      ''    -java-home | -home <directory>'',
      ''        set the path of your JDK or JRE installation (or set'',
      ''        the JAVA_HOME environment variable)'',
      ''    -version'',
      ''        show the current Java environment version (to check'',
      ''        correctness of -home and -jvm. Implies -nodetach)'',
      ''    -showversion'',
      ''        show the current Java environment version (to check'',
      ''        correctness of -home and -jvm) and continue execution.'',
      ''    -nodetach'',
      ''        don'' @ [quote] @ ''t detach from parent process and become a daemon'',
      ''    -debug'',
      ''        verbosely print debugging information'',
      ''    -check'',
      ''        only check service (implies -nodetach)'',
      ''    -user <user>'',
      ''        user used to run the daemon (defaults to current user)'',
      ''    -verbose[:class|gc|jni]'',
      ''        enable verbose output'',
      ''    -cwd </full/path>'',
      ''        set working directory to given location (defaults to /)'',
      ''    -outfile </full/path/to/file>'',
      ''        Location for output from stdout (defaults to /dev/null)'',
      ''        Use the value '' @ [quote] @ ''&2'' @ [quote] @ '' to simulate '' @ [quote] @ ''1>&2'' @ [quote],
      ''    -errfile </full/path/to/file>'',
      ''        Location for output from stderr (defaults to /dev/null)'',
      ''        Use the value '' @ [quote] @ ''&1'' @ [quote] @ '' to simulate '' @ [quote] @ ''2>&1'' @ [quote],
      ''    -pidfile </full/path/to/file>'',
      ''        Location for output from the file containing the pid of jsvc'',
      ''        (defaults to /var/run/jsvc.pid)'',
      ''    -D<name>=<value>'',
      ''        set a Java system property'',
      ''    -X<option>'',
      ''        set Virtual Machine specific option'',
      ''    -ea[:<packagename>...|:<classname>]'',
      ''    -enableassertions[:<packagename>...|:<classname>]'',
      ''        enable assertions'',
      ''    -da[:<packagename>...|:<classname>]'',
      ''    -disableassertions[:<packagename>...|:<classname>]'',
      ''        disable assertions'',
      ''    -esa | -enablesystemassertions'',
      ''        enable system assertions'',
      ''    -dsa | -disablesystemassertions'',
      ''        disable system assertions'',
      ''    -agentlib:<libname>[=<options>]'',
      ''        load native agent library <libname>, e.g. -agentlib:hprof'',
      ''    -agentpath:<pathname>[=<options>]'',
      ''        load native agent library by full pathname'',
      ''    -javaagent:<jarpath>[=<options>]'',
      ''        load Java programming language agent, see java.lang.instrument'',
      ''    -procname <procname>'',
      ''        use the specified process name'',
      ''    -wait <waittime>'',
      ''        wait waittime seconds for the service to start'',
      ''        waittime should multiple of 10 (min=10)'',
      ''    -stop'',
      ''        stop the service using the file given in the -pidfile option'',
      ''    -keepstdin'',
      ''        does not redirect stdin to /dev/null'']"

definition help_page :: "string \<Rightarrow> home_data \<Rightarrow> string list" where
  "help_page prog d = help_head prog d @ help_options
     @ [[], ''jsvc (Apache Commons Daemon) '' @ JSVC_VERSION_STRING,
        ''Copyright (c) 1999-2013 Apache Software Foundation.'', []]"

section \<open>The second execution\<close>

text \<open>What is left of a path when its last slash becomes the terminator.\<close>

definition cut_last :: "path \<Rightarrow> path" where
  "cut_last p = (case split_last (CHR ''/'') p of None \<Rightarrow> p | Some (a, _) \<Rightarrow> a)"

text \<open>\<open>snprintf\<close> into the buffer of 2048 bytes.\<close>

definition library_path :: "path option \<Rightarrow> path \<Rightarrow> string" where
  "library_path oldpath libf =
     (let p1 = cut_last libf; p2 = cut_last p1
      in take 2047 (case oldpath of
           None \<Rightarrow> p1 @ '':'' @ p2
         | Some old \<Rightarrow> old @ '':'' @ p1 @ '':'' @ p2))"

text \<open>The file to execute; \<open>link\<close> is what \<open>readlink\<close> returned, \<open>None\<close> for an error.\<close>

definition exec_file :: "string option \<Rightarrow> string \<Rightarrow> fault + string" where
  "exec_file link argv0 =
     (case link of
        Some (c # s) \<Rightarrow> Inr (take 2047 (c # s))
      | _ \<Rightarrow> if length argv0 < 2048 then Inr argv0 else Inl Buffer_overrun)"

datatype main_stop =
    Main_exit int
  | Main_image string "string option" string \<comment> \<open>file, new library path if set, \<open>argv[0]\<close>\<close>
  | Main_crash fault
  | Main_endless

record main_env =
  m_plat :: platform
  m_glob :: "string \<Rightarrow> path list"
  m_uninit :: bool
  m_stop_worlds :: "nat \<Rightarrow> world"
  m_kernel :: kernel
  m_getpwnam :: "string \<Rightarrow> (int \<times> int) option"
  m_reaped :: "int \<Rightarrow> wstatus option"
  m_proc :: proc
  m_stat :: "path \<Rightarrow> file_kind option"
  m_fread :: "path \<Rightarrow> string option"
  m_JAVA_HOME :: "path option"
  m_LD_LIBRARY_PATH :: "path option"
  m_readlink :: "string option"
  m_execve :: "string \<Rightarrow> bool" \<comment> \<open>whether the file can be executed\<close>
  m_fork :: int
  m_ticks :: "nat \<Rightarrow> tick"
  m_out :: out_system
  m_streams :: streams
  m_gens :: "nat \<Rightarrow> generation"
  m_ctl :: ctl_state

definition re_exec :: "main_env \<Rightarrow> arg_data \<Rightarrow> home_data \<Rightarrow> string \<Rightarrow> main_stop" where
  "re_exec env a d argv0 =
     (let libf = java_library a d
      in if CHR ''/'' \<notin> set argv0 then Main_exit 1
         else case exec_file (m_readlink env) argv0 of
           Inl e \<Rightarrow> Main_crash e
         | Inr file \<Rightarrow>
             if m_execve env file
             then Main_image file (map_option (library_path (m_LD_LIBRARY_PATH env)) libf) (procname a)
             else Main_exit 1)"

text \<open>From the start up to the point where the service's own process goes on.\<close>

definition main_front ::
  "main_env \<Rightarrow> string \<Rightarrow> string list \<Rightarrow> main_stop + log_state \<times> arg_data \<times> home_data \<times> int \<times> int" where
  "main_front env argv0 args =
     (case arguments (m_glob env) (m_uninit env) log_init argv0 args of
        (lg, _, Inl e) \<Rightarrow> Inl (Main_exit 1)
      | (lg, _, Inr a) \<Rightarrow>
          if stop_flag a
          then (case stop_child a (m_stop_worlds env) of
                  Inl e \<Rightarrow> Inl (Main_crash e)
                | Inr (rc, _) \<Rightarrow> Inl (Main_exit rc))
          else
            (case checkuser (m_kernel env) (m_getpwnam env) (m_reaped env) (user a) 0 0 (m_proc env) of
               (False, _, _) \<Rightarrow> Inl (Main_exit 1)
             | (True, uid, gid) \<Rightarrow>
                 (case home (m_plat env) (m_stat env) (m_fread env) (m_JAVA_HOME env)
                         (log_debug_flag lg) (java_home a) of
                    Home_crash e \<Rightarrow> Inl (Main_crash e)
                  | Home_endless \<Rightarrow> Inl Main_endless
                  | Done (_, None) \<Rightarrow> Inl (Main_exit 1)
                  | Done (_, Some d) \<Rightarrow>
                      if help_flag a then Inl (Main_exit 0)
                      else if os_of (m_plat env) = OS_LINUX \<and> argv0 \<noteq> procname a
                      then Inl (re_exec env a d argv0)
                      else Inr (lg, a, d, uid, gid))))"

section \<open>Detaching and serving\<close>

text \<open>The parent of the \<open>fork\<close> returns, the child (0) goes on.\<close>

definition detach :: "main_env \<Rightarrow> arg_data \<Rightarrow> main_stop option" where
  "detach env a =
     (if dtch a
      then if m_fork env = - 1 then Some (Main_exit 1)
           else if m_fork env \<noteq> 0
           then if 10 \<le> wait_time a
                then (case wait_child a (m_ticks env) of
                        Inl e \<Rightarrow> Some (Main_crash e)
                      | Inr (rc, _) \<Rightarrow> Some (Main_exit rc))
                else Some (Main_exit 0)
           else None
      else None)"

text \<open>\<open>~args->umask & 0022\<close>: the files may be writable for the group or for others.\<close>

definition umask_notice :: "int \<Rightarrow> bool" where
  "umask_notice um \<longleftrightarrow> and (not um) 18 \<noteq> 0"

text \<open>The exit code, with the streams that the service inherits; \<open>None\<close> when it never ends.\<close>

definition main_serve ::
  "main_env \<Rightarrow> log_state \<Rightarrow> arg_data \<Rightarrow> (main_stop \<times> streams) option" where
  "main_serve env lg a =
     (case detach env a of
        Some e \<Rightarrow> Some (e, m_streams env)
      | None \<Rightarrow>
          (let st = set_output (m_out env) (outfile a) (errfile a) (redirectstdin a)
                      ((m_streams env)\<lparr>s_log := lg\<rparr>)
           in map_option (\<lambda>(rc, _). (Main_exit rc, st)) (run_controller a (m_gens env) (m_ctl env))))"

definition main :: "main_env \<Rightarrow> string \<Rightarrow> string list \<Rightarrow> (main_stop \<times> streams) option" where
  "main env argv0 args =
     (case main_front env argv0 args of
        Inl e \<Rightarrow> Some (e, m_streams env)
      | Inr (lg, a, d, uid, gid) \<Rightarrow> main_serve env lg a)"

section \<open>The parser and \<open>argv[0]\<close>\<close>

text \<open>
  The log state and the uninitialised flag pass through the parser without influence on the
  rest of its result.
\<close>

definition settled :: "arg_data \<Rightarrow> arg_data" where
  "settled a = a\<lparr>vershow := False\<rparr>"

fun settled_step :: "step_result \<Rightarrow> step_result" where
  "settled_step (Continue a lg rest) = Continue (settled a) log_init rest"
| "settled_step (Return a lg) = Return (settled a) log_init"
| "settled_step (Class_found a lg rest) = Class_found (settled a) log_init rest"
| "settled_step (Fail e lg) = Fail e log_init"

lemma value_option_settled:
  "settled_step (value_option upd e lg rest) =
     (case optional rest of None \<Rightarrow> Fail e log_init | Some v \<Rightarrow> Continue (settled (upd v)) log_init (tl rest))"
  by (simp add: value_option_def split: option.splits)

lemma settled_frame:
  assumes "settled a = settled a'"
  shows "pidf a = pidf a' \<and> user a = user a' \<and> jvm_name a = jvm_name a' \<and> java_home a = java_home a'
    \<and> cwd a = cwd a' \<and> opts a = opts a' \<and> clas a = clas a' \<and> cargs a = cargs a' \<and> dtch a = dtch a'
    \<and> vers a = vers a' \<and> help_flag a = help_flag a' \<and> chck a = chck a' \<and> stop_flag a = stop_flag a'
    \<and> wait_time a = wait_time a' \<and> install a = install a' \<and> remove_flag a = remove_flag a'
    \<and> service a = service a' \<and> outfile a = outfile a' \<and> errfile a = errfile a'
    \<and> procname a = procname a' \<and> redirectstdin a = redirectstdin a' \<and> umask a = umask a'"
  using assms by (cases a; cases a') (simp add: settled_def)

lemma settled_iff:
  "settled a = settled a' \<longleftrightarrow> a' = a\<lparr>vershow := vershow a'\<rparr>"
  by (cases a; cases a') (auto simp: settled_def)

lemmas settle_simps = settled_def value_option_settled add_opt_def if_distrib [where f = settled_step]
  option.case_distrib [where h = settled_step] prod.case_distrib [where h = settled_step]

lemma parse_property_settled:
  "settled_step (parse_property s (a\<lparr>vershow := b\<rparr>) lg' rest) = settled_step (parse_property s a lg rest)"
  by (simp add: parse_property_def settle_simps split: option.splits)

lemma settled_cargs: "settled a = settled a' \<Longrightarrow> settled (a\<lparr>cargs := r\<rparr>) = settled (a'\<lparr>cargs := r\<rparr>)"
  by (cases a; cases a') (simp add: settled_def)

lemma parse_file_option_settled:
  "settled_step (parse_file_option s (a\<lparr>vershow := b\<rparr>) lg' rest) = settled_step (parse_file_option s a lg rest)"
  unfolding parse_file_option_def
  by (simp add: settle_simps parse_property_settled [where b = b and lg' = lg' and lg = lg]
      cong: option.case_cong if_cong)

lemma parse_wait_settled:
  "settled_step (parse_wait (a\<lparr>vershow := b\<rparr>) lg' rest) = settled_step (parse_wait a lg rest)"
  by (simp add: parse_wait_def settled_def split: option.splits)

lemma parse_umask_settled:
  "settled_step (parse_umask (a\<lparr>vershow := b\<rparr>) lg' rest) = settled_step (parse_umask a lg rest)"
  by (simp add: parse_umask_def settled_def Let_def split: option.splits)

lemma parse_switch_settled:
  "settled_step (parse_switch s (a\<lparr>vershow := b\<rparr>) lg' rest) = settled_step (parse_switch s a lg rest)"
  unfolding parse_switch_def
  by (simp add: settle_simps parse_file_option_settled [where b = b and lg' = lg' and lg = lg]
      parse_wait_settled [where b = b and lg' = lg' and lg = lg]
      parse_umask_settled [where b = b and lg' = lg' and lg = lg]
      cong: option.case_cong if_cong)

lemma parse_arg_settled:
  "settled_step (parse_arg glob s (a\<lparr>vershow := b\<rparr>) lg' rest) = settled_step (parse_arg glob s a lg rest)"
  unfolding parse_arg_def
  by (simp add: settle_simps parse_switch_settled [where b = b and lg' = lg' and lg = lg]
      cong: option.case_cong if_cong)

lemma parse_loop_settled:
  "map_sum id settled (snd (parse_loop glob (a\<lparr>vershow := b\<rparr>) lg' args)) =
     map_sum id settled (snd (parse_loop glob a lg args))"
proof (induction glob a lg args arbitrary: b lg' rule: parse_loop.induct)
  case (1 glob a lg)
  then show ?case by (simp add: settled_def)
next
  case (2 glob a lg s rest)
  note same = parse_arg_settled [where glob = glob and s = s and a = a and b = b and lg' = lg' and rest = rest and lg = lg]
  show ?case
  proof (cases "parse_arg glob s a lg rest")
    case (Continue a1 lg1 r1)
    then obtain a2 lg2 where c: "parse_arg glob s (a\<lparr>vershow := b\<rparr>) lg' rest = Continue a2 lg2 r1"
      and a2: "settled a1 = settled a2"
      using same by (cases "parse_arg glob s (a\<lparr>vershow := b\<rparr>) lg' rest") auto
    from a2 have "a2 = a1\<lparr>vershow := vershow a2\<rparr>" by (simp only: settled_iff)
    with "2.IH" [OF Continue] Continue c show ?thesis by (metis parse_loop.simps(2) step_result.case(1))
  next
    case (Return a1 lg1)
    with same show ?thesis by (cases "parse_arg glob s (a\<lparr>vershow := b\<rparr>) lg' rest") auto
  next
    case (Class_found a1 lg1 r1)
    with same show ?thesis
      by (cases "parse_arg glob s (a\<lparr>vershow := b\<rparr>) lg' rest") (auto intro: settled_cargs)
  next
    case (Fail e lg1)
    with same show ?thesis by (cases "parse_arg glob s (a\<lparr>vershow := b\<rparr>) lg' rest") auto
  qed
qed

lemma parse_procname:
  assumes "parse glob u lg argv0 args = (lg1, Inr a1)"
  shows "\<exists>lg2 a2. parse glob u' lg' argv0' args = (lg2, Inr a2) \<and> procname a2 = procname a1"
proof -
  have "init_args u' = (init_args u)\<lparr>vershow := u'\<rparr>" by (simp add: init_args_def)
  then have "map_sum id settled (snd (parse glob u' lg' argv0' args)) =
      map_sum id settled (snd (parse glob u lg argv0 args))"
    unfolding parse_def Let_def by (simp only: parse_loop_settled)
  with assms obtain lg2 a2 where "parse glob u' lg' argv0' args = (lg2, Inr a2)" "settled a2 = settled a1"
    by (cases "parse glob u' lg' argv0' args"; cases "snd (parse glob u' lg' argv0' args)") auto
  with settled_frame show ?thesis by blast
qed

section \<open>Properties\<close>

text \<open>C17. The program replaces itself at most once: the image it starts on Linux, given the same
  arguments and the process name as \<open>argv[0]\<close>, never asks for another one, whatever its memory
  and its environment hold.\<close>

theorem reexec_once:
  assumes "main_front env argv0 args = Inl (Main_image file ld argv0')" "m_glob env' = m_glob env"
  shows "main_front env' argv0' args \<noteq> Inl (Main_image file' ld' argv0'')"
proof -
  obtain lg out r where run: "arguments (m_glob env) (m_uninit env) log_init argv0 args = (lg, out, r)"
    by (cases "arguments (m_glob env) (m_uninit env) log_init argv0 args") auto
  then obtain a where r: "r = Inr a" and name: "argv0' = procname a"
    using assms(1)
    by (auto simp: main_front_def re_exec_def Let_def split: sum.splits if_splits prod.splits bool.splits
        home_result.splits option.splits)
  have "parse (m_glob env) (m_uninit env) log_init argv0 args = (lg, Inr a)"
    using run r by (auto simp: arguments_def split: prod.splits sum.splits)
  from parse_procname [OF this, of "m_uninit env'" log_init argv0'] obtain lg2 a2 where
    p2: "parse (m_glob env') (m_uninit env') log_init argv0' args = (lg2, Inr a2)" "procname a2 = argv0'"
    using assms(2) name by auto
  then show ?thesis
    by (auto simp: main_front_def arguments_def split: sum.splits prod.splits bool.splits
        home_result.splits option.splits)
qed

text \<open>The library path of the second image is the old one followed by the directory of the JVM
  and the directory above; when it does not fit the buffer of 2048 bytes it is cut, and an old
  path of 2047 bytes and more leaves no room for the JVM at all.\<close>

theorem library_path_room:
  assumes "libf = d @ ''/'' @ f" "CHR ''/'' \<notin> set f"
  shows "(length old + length d + length (cut_last d) + 2 < 2048 \<longrightarrow>
            library_path (Some old) libf = old @ '':'' @ d @ '':'' @ cut_last d)
       \<and> (2047 \<le> length old \<longrightarrow> library_path (Some old) libf = take 2047 old)"
proof -
  have "split_last (CHR ''/'') libf = Some (d, f)" using assms by (simp add: split_facts)
  then have "cut_last libf = d" by (simp add: cut_last_def)
  then show ?thesis by (simp add: library_path_def Let_def)
qed

theorem library_path_room_witness:
  "library_path (Some ''/l'') (''/j/lib/server'' @ ''/'' @ ''libjvm.so'')
     = ''/l'' @ '':'' @ ''/j/lib/server'' @ '':'' @ cut_last ''/j/lib/server''"
proof -
  have "length (cut_last ''/j/lib/server'') < 100"
    by (simp add: cut_last_def split_last_def)
  then show ?thesis
    using library_path_room [of _ "''/j/lib/server''" "''libjvm.so''" "''/l''", OF refl] by simp
qed

section \<open>Witnesses\<close>

definition linux_stat :: "path \<Rightarrow> file_kind option" where
  "linux_stat p = (if p = ''/j'' then Some Directory else None)"

definition linux_main :: main_env where
  "linux_main = \<lparr>m_plat = linux, m_glob = (\<lambda>_. []), m_uninit = True, m_stop_worlds = (\<lambda>_. demo_world),
     m_kernel = granting, m_getpwnam = (\<lambda>_. None), m_reaped = (\<lambda>_. None), m_proc = root_proc,
     m_stat = linux_stat, m_fread = (\<lambda>_. None), m_JAVA_HOME = None, m_LD_LIBRARY_PATH = None,
     m_readlink = Some ''/usr/bin/jsvc'', m_execve = (\<lambda>_. True), m_fork = 0, m_ticks = demo_ticks,
     m_out = works, m_streams = plain_streams, m_gens = reload_then_stop, m_ctl = ctl_zero\<rparr>"

lemma linux_home:
  "\<exists>d. home linux linux_stat (\<lambda>_. None) None False (Some ''/j'') = Done ([], Some d) \<and> jnum d = 0"
proof -
  let ?found = "find (checkfile linux_stat) (map (replace_all ''$JAVA_HOME'' ''/j'') (location_jvm_default linux))"
  have "build linux linux_stat (\<lambda>_. None) ''/j'' = Done (Some \<lparr>hpath = ''/j'', cfgf = None,
     jvms = (case ?found of None \<Rightarrow> [] | Some l \<Rightarrow> [\<lparr>jvm_label = None, libr = l\<rparr>])\<rparr>)"
    by (rule build_default)
       (simp_all add: linux_def linux_stat_def plat_ok_def short_c_def fits_c_def checkdir_def
         checkfile_def location_jvm_cfg_def location_jvm_default_def jvm_default_unix_def
         replace_all.simps starts_with_def)
  moreover have "?found = None" by (simp add: find_None_iff checkfile_def linux_stat_def)
  ultimately show ?thesis by (auto simp: home_def find_home_def no_home_def)
qed

definition home_line :: "string list" where
  "home_line = [''-home'', ''/j'', ''Main'']"

lemma home_line_parsed:
  "arguments (\<lambda>_. []) True log_init ''/usr/bin/jsvc'' home_line =
     (log_init\<lparr>log_prog := ''jsvc''\<rparr>, [], Inr ((init_args True)\<lparr>java_home := Some ''/j'', clas := Some ''Main''\<rparr>))"
  by code_simp

lemma linux_front:
  "main_front linux_main ''/usr/bin/jsvc'' home_line = Inl (Main_image ''/usr/bin/jsvc'' None ''jsvc.exec'')"
proof -
  obtain d where "home linux linux_stat (\<lambda>_. None) None False (Some ''/j'') = Done ([], Some d)" "jnum d = 0"
    using linux_home by blast
  moreover have "exec_file (Some ''/usr/bin/jsvc'') ''/usr/bin/jsvc'' = Inr ''/usr/bin/jsvc''"
    by (simp add: exec_file_def)
  moreover have "CHR ''/'' \<in> set ''/usr/bin/jsvc''" by simp
  moreover have "os_of linux = OS_LINUX" "\<not> log_debug_flag log_init" by (simp_all add: linux_def log_init_def)
  ultimately show ?thesis
    by (simp add: main_front_def linux_main_def home_line_parsed init_args_def checkuser_def
        re_exec_def java_library_def Let_def)
qed

theorem reexec_once_witness:
  "\<forall>file ld name. main_front linux_main ''jsvc.exec'' home_line \<noteq> Inl (Main_image file ld name)"
  by (intro allI) (rule reexec_once [OF linux_front refl])

end
