(* ===== verification/Spec2Isabelle.thy ===== *)
theory Spec2Isabelle
  imports Cmdline Registry_Delete Service_Facts Srv_Command_Facts Srv_Config Win_Java_Args_Facts
    Win_Process_Facts Java_Handshake Srv_Control_Facts Cygwin Jsvc_Main
begin

text \<open>
  A verification library for the native code of commons-daemon 1.0.15, which the SSI HTTP server
  ships to run as a daemon: \<^verbatim>\<open>jsvc\<close>, the launcher of Unix (\<^verbatim>\<open>src/native/unix/native\<close>), and procrun,
  the service runner of Windows (\<^verbatim>\<open>src/native/windows\<close>).

  \<^bold>\<open>jsvc and how its parts interact.\<close> \<open>main\<close> parses the command line, looks up the user and a Java
  home, executes itself again under the process name, and forks a controller. The controller
  forks a child, forwards signals to it and restarts it when it crashed or asked for it. The
  child claims the PID file, switches the user, creates a Java VM, loads and starts the service
  through the class \<open>DaemonLoader\<close>, creates its ready file, and waits for signals. A parent that
  was told to wait polls the PID file and the ready file; a second program run stops the service
  through the PID file. A logger process copies the output to the system log.

  \<^item> \<open>Jsvc_Prelude\<close>, \<open>C_Numbers\<close>: C strings in buffers, overruns as the value \<open>Buffer_overrun\<close>,
    \<open>atoi\<close> and \<open>strtol\<close>.
  \<^item> \<open>Replace_String\<close> (\<^verbatim>\<open>replace.c\<close>): the in-place loops, refined against replacing every match of a
    list; the overrun of a shrinking replacement.
  \<^item> \<open>Location\<close>, \<open>Home\<close> (\<^verbatim>\<open>location.c\<close>, \<^verbatim>\<open>home.c\<close>): the tables and the search; every home returned is
    sound, and the search returns without an overrun for homes below \<open>2 ^ 20\<close> bytes and
    \<^verbatim>\<open>jvm.cfg\<close> files of fewer than 256 lines, the size of the array.
  \<^item> \<open>Arguments\<close> (\<^verbatim>\<open>arguments.c\<close>): one function for one argument, a loop over it, the invariant
    locale \<open>parse_invariant\<close> with three instances; the class path against a specification by
    splitting and joining; \<open>class_words\<close>, which words are the class and its arguments.
  \<^item> \<open>User_Switch\<close>: credentials and capabilities; the locale \<open>caps_setter\<close> has an instance for the
    build with and without \<^verbatim>\<open>libcap\<close>.
  \<^item> \<open>Pid_File\<close>: \<open>check_pid\<close>, \<open>get_pidf\<close>, \<open>wait_child\<close> and \<open>stop_child\<close> over a file system and the
    set of live processes.
  \<^item> \<open>Jvm_Calls\<close>, \<open>Java\<close> (\<^verbatim>\<open>dso-dlfcn.c\<close>, \<^verbatim>\<open>dso-dyld.c\<close>, \<^verbatim>\<open>java.c\<close>): every call out of the program is
    recorded; what answers is a parameter. \<open>obeys\<close> is the protocol of JNI over such a record.
    Whether a Java method has thrown is not seen by the code, so the facts hold for every
    function \<open>th\<close> that says so. The locale \<open>dso_loader\<close> has both loaders as instances.
  \<^item> \<open>Child_Process\<close>: the child as a list of steps, a loop whose steps interleave with signals and
    with aborts of the VM (\<open>java_abort123\<close>), and the exit. \<open>passes\<close> lists the states that the
    start-up goes through. The locale \<open>bounded_response\<close> is the contract of a request that the
    loop serves within a number of its steps; three requests are instances.
  \<^item> \<open>Controller\<close>: the restart loop as a partial function (it may run for ever), and the same
    controller between its system calls as a step relation with signals.
  \<^item> \<open>Output\<close>: \<open>set_output\<close> on descriptors, \<open>logger_child\<close> over pipes that keep what was not read.
  \<^item> \<open>Jsvc_Main\<close>: \<open>main\<close> and \<open>help\<close>. \<open>Cygwin\<close>: \<^verbatim>\<open>locks.c\<close> and \<^verbatim>\<open>signals.c\<close>.

  \<^bold>\<open>procrun and how its parts interact.\<close> \<open>prunsrv\<close> reads its command line into a table of options,
  merges it with the registry, and runs one command: install, update, start, stop or delete a
  service through the service manager, or be the service. The service starts a worker, a JVM in
  the process or a child process, reports its state, and stops the worker in a thread of its own.

  \<^item> \<open>Win_Prelude\<close>, \<open>Mclib\<close>, \<open>Win_Strings\<close>, \<open>Multi_Sz\<close>, \<open>Win_Env\<close> (\<^verbatim>\<open>mclib.c\<close>, \<^verbatim>\<open>utils.c\<close>): memory
    with alignment, strings of 16-bit characters, wildcards, numbers, multi-strings,
    environment variables; arithmetic wraps at its width.
  \<^item> \<open>Cmdline\<close> (\<^verbatim>\<open>cmdline.c\<close>): the command, the options and their values in blocks.
  \<^item> \<open>Win_Registry\<close>, \<open>Registry_Facts\<close>, \<open>Registry_Delete\<close> (\<^verbatim>\<open>registry.c\<close>): a registry of keys with
    open handles; \<open>delete_recursive\<close> is a partial function, proved to end.
  \<^item> \<open>Win_Service\<close>, \<open>Service_Facts\<close> (\<^verbatim>\<open>service.c\<close>): the service manager answers as a parameter, the
    loops that wait for a state are partial functions.
  \<^item> \<open>Win_Process\<close>, \<open>Win_Process_Facts\<close> (\<^verbatim>\<open>rprocess.c\<close>): redirected child processes, a multiset of
    open handles, strings that are live or freed; writing has fuel, and enough fuel is shown.
  \<^item> \<open>Win_Java_Args\<close>, \<open>Win_Java_Args_Facts\<close>, \<open>Win_Java\<close>, \<open>Java_Handshake\<close> (\<^verbatim>\<open>javajni.c\<close>): options,
    command line, the library, the worker thread, and the start handshake of two threads as a
    step relation that ends after at most ten steps.
  \<^item> \<open>Srv_Options\<close>, \<open>Srv_Config\<close>, \<open>Srv_Commands\<close>, \<open>Srv_Command_Facts\<close> (\<^verbatim>\<open>prunsrv.c\<close>): the table, saving
    and loading (the locale \<open>setting_store\<close> with the registry as its instance), the commands.
  \<^item> \<open>Srv_Service\<close>, \<open>Srv_Status\<close>, \<open>Srv_Control\<close>, \<open>Srv_Control_Facts\<close> (\<^verbatim>\<open>prunsrv.c\<close>): the service as
    functions; the same functions cut into the steps of several threads (shown to be the
    functions when a thread runs alone), and the relation in which these steps, the controls of
    Windows and console events come in any order.

  \<^bold>\<open>What the facts show.\<close> Replacing, parsing, searching and copying stay inside their buffers or the
  exact condition of an overrun is given; the PID file excludes a second instance and is read
  back; the service method runs only with the rights of its account; the calls into the VM keep
  the protocol of JNI; no request is lost in the loop of the child; the controller restarts
  exactly when it should and at most once a minute; a Windows configuration, a command line and
  a hexadecimal number are read back as they were written; deletion removes exactly one tree;
  the reports of a Windows service follow the rules of the service manager in every order of its
  threads. Several facts pin down defects; they are listed in the manifest.

  \<^bold>\<open>What the model assumes.\<close> Calls of the system, of Windows, of the VM and of \<^verbatim>\<open>libcap\<close> are parameters;
  what a result needs of them is a hypothesis that repeats their documentation. The real,
  effective and saved user ids of \<^verbatim>\<open>jsvc\<close> coincide. A step of a thread is atomic: races on
  single words of the shared status record of \<^verbatim>\<open>prunsrv\<close> are not modelled. Allocation succeeds in
  \<^verbatim>\<open>jsvc\<close>. Conversions to EBCDIC are the identity.

  \<^bold>\<open>Not modelled.\<close> The Java classes, the monitor and the dialogs (\<^verbatim>\<open>prunmgr.c\<close>, \<^verbatim>\<open>gui.c\<close>), the console
  window, the log files and the memory pools of procrun (\<^verbatim>\<open>console.c\<close>, \<^verbatim>\<open>log.c\<close>, \<^verbatim>\<open>handles.c\<close>): user
  interface, formatting and bookkeeping around Win32. The \<open>main\<close> of \<^verbatim>\<open>prunsrv\<close> and the redirection
  of its own output. The ANSI accessors of \<^verbatim>\<open>registry.c\<close>, which nothing here calls. Of \<^verbatim>\<open>jsvc\<close>: a build
  with \<^verbatim>\<open>JSVC_UMASK\<close>, the modes of created files, errors of \<open>lockf\<close>, and the controller of Cygwin.

  This theory joins the components: the library that the child loads was found by the search,
  and a child that is ready is seen by the process that waits for it.
\<close>

section \<open>From the search for a home to the loaded library\<close>

lemma find_jvm_in: "find_jvm n js = Some l \<Longrightarrow> \<exists>j \<in> set js. libr j = l"
  by (induction js) (auto split: option.splits if_splits)

lemma java_library_in: "java_library a d = Some l \<Longrightarrow> \<exists>j \<in> set (jvms d). libr j = l"
  by (auto simp: java_library_def dest: find_jvm_in split: if_splits option.splits)

text \<open>The library that the service's process loads as its JVM is a regular file: whatever the
  command line and the configuration files say, once \<open>main\<close> has come to the controller, the
  library chosen by \<open>java_library\<close> was found by the search of \<open>home.c\<close>.\<close>

theorem loaded_library_is_file:
  assumes "main_front env argv0 args = Inr (lg, a, d, uid, gid)" "java_library a d = Some l"
  shows "checkfile (m_stat env) l \<and> checkdir (m_stat env) (hpath d)"
proof -
  obtain out where "home (m_plat env) (m_stat env) (m_fread env) (m_JAVA_HOME env)
      (log_debug_flag lg) (java_home a) = Done (out, Some d)"
    using assms(1)
    by (auto simp: main_front_def split: prod.splits sum.splits if_splits bool.splits
        home_result.splits option.splits)
  then have "home_sound (m_stat env) d"
    by (auto simp: home_def split: home_result.splits option.splits dest: find_home_sound)
  with java_library_in [OF assms(2)] show ?thesis
    by (auto simp: home_sound_def jvm_exists_def list_all_iff)
qed

section \<open>From the child to the process that waits for it\<close>

lemma walk_create:
  assumes "walk n ks = None" "n k = None"
  shows "walk (n(k \<mapsto> x)) ks = None"
  using assms by (fastforce simp: walk_def find_None_iff split: option.splits if_splits)

lemma opens_create:
  assumes "opens w name s" "sys_open True w tmp = (r, w')"
  shows "opens w' name s"
proof (cases "nodes w (resolve w tmp) = None \<and> w' \<noteq> w")
  case True
  then have w': "w' = w\<lparr>nodes := (nodes w)(resolve w tmp \<mapsto> File [])\<rparr>"
    using assms(2) by (auto simp: sys_open_def Let_def split: if_splits option.splits)
  have "resolve w name \<noteq> resolve w tmp" using assms(1) True by (auto simp: opens_def)
  then show ?thesis
    using assms(1) True w' walk_create [of "nodes w" _ "resolve w tmp"] by (auto simp: opens_def)
next
  case False
  then have "w' = w"
    using assms(2) by (auto simp: sys_open_def Let_def split: if_splits option.splits node.splits)
  with assms(1) show ?thesis by simp
qed

lemma later_steps_world:
  assumes "m \<in> {step_user env a uid gid, step_init env a d, step_version env a,
      step_check env a, step_load env a, step_downgrade env a uid gid, step_start env}"
    and "m s = (r, s')"
  shows "c_world s' = c_world s"
  using assms
  by (auto simp: step_user_def step_version_def step_check_def step_load_def step_downgrade_def step_start_def
      dest!: java_step_frame step_init_frame(1) split: prod.splits option.splits if_splits)

lemma starts_world:
  assumes "child_starts env a d uid gid s = (None, s')" "\<not> vers a" "\<not> chck a"
  shows "\<exists>w. check_pid a (c_world s) = Inr (0, w) \<and> c_world s' = create_tmp_file w"
proof -
  let ?later = "[step_user env a uid gid, step_init env a d, step_version env a, step_check env a,
    step_load env a, step_downgrade env a uid gid, step_start env]"
  obtain s1 where s1: "step_pid a s = (None, s1)"
      "run_steps (?later @ [step_handlers env]) s1 = (None, s')"
    using assms(1) by (auto simp: child_starts_def child_steps_def split: prod.splits option.splits)
  obtain s2 where s2: "run_steps ?later s1 = (None, s2)" "step_handlers env s2 = (None, s')"
    using s1(2) unfolding run_steps_append by (auto split: prod.splits option.splits)
  have "c_world s2 = c_world s1"
    by (rule run_steps_invariant [where P = "\<lambda>t. c_world t = c_world s1", OF _ _ s2(1)])
       (auto dest!: later_steps_world [of _ env a uid gid d, rotated])
  moreover have "check_pid a (c_world s) = Inr (0, c_world s1)"
    using s1(1) assms(2,3) by (auto simp: step_pid_def dest!: check_pid_env split: sum.splits if_splits)
  ultimately show ?thesis using s2(2) by (auto simp: step_handlers_def)
qed

text \<open>C9. Child and waiting parent agree: when the child has reached its loop and its ready file
  could be created, the parent finds the live process of the PID file and that file, and
  \<open>wait_child\<close> reports the start at its first poll.\<close>

theorem ready_child_is_seen:
  assumes "child_starts env a d uid gid s = (None, s')" "\<not> vers a" "\<not> chck a"
    and "0 < self (c_world s)" "self (c_world s) < 2 ^ 31" "alive (c_world s) (self (c_world s))"
    and "opens (c_world s') (tmp_name (self (c_world s))) t"
  shows "wait_child a (\<lambda>i. \<lparr>t_world = c_world s', t_reap = None, t_reap_ready = None\<rparr>) = Inr (0, 1)"
proof -
  let ?w = "c_world s'" and ?tick = "\<lparr>t_world = c_world s', t_reap = None, t_reap_ready = None\<rparr>"
  obtain w where w: "check_pid a (c_world s) = Inr (0, w)" "?w = create_tmp_file w"
    using starts_world [OF assms(1-3)] by blast
  from claim_read_back [OF w(1) assms(2-5)] obtain str where
    str: "same_env (c_world s) w" "opens w (pidf a) str" "read_pid str = Inr (Some (self (c_world s)))"
    by blast
  have op: "opens ?w (pidf a) str"
    using w(2) opens_create [OF str(2), of "tmp_name (self w)"] by (simp add: create_tmp_file_def prod_eq_iff)
  have "same_env w ?w"
    using w(2) sys_open_env [of True w "tmp_name (self w)"] by (simp add: create_tmp_file_def prod_eq_iff)
  with str(1) assms(6) have env: "alive ?w (self (c_world s))" by (auto simp: same_env_def)
  have "jvm_state (pidf a) ?w = Inr (True, True)"
    using op env str(3) assms(4,7)
    by (simp add: jvm_state_def opens_iff get_pidf_def check_tmp_file_def)
  then have "wait_loop (\<lambda>i. ?tick) (pidf a) k False 0 0 n = Inr (0, 1)" if "n \<noteq> 0" for k n
    using that by (cases n) (simp_all add: Let_def)
  then show ?thesis by (simp add: wait_child_def Let_def)
qed

section \<open>Witnesses\<close>

definition tmp_world :: world where
  "tmp_world = demo_world\<lparr>nodes := (nodes demo_world)([''tmp''] \<mapsto> Dir)\<rparr>"

definition tmp_child :: "unit child_state" where
  "tmp_child = fresh_child\<lparr>c_world := tmp_world\<rparr>"

lemma tmp_claim: "check_pid svc_args tmp_world = Inr (0, write_file tmp_world ''/run/j.pid'' (pid_line 77))"
  by (simp add: check_pid_def check_pid_try.simps svc_args_def tmp_world_def demo_simps sys_open_def
      claim_pidfile_def read_pid_def write_file_def upt_rec fun_upd_twist)

lemma tmp_starts: "\<exists>s'. child_starts calm_env svc_args one_jvm 5 6 tmp_child = (None, s')"
proof -
  have "\<exists>s'. step_pid svc_args tmp_child = (None, s')"
    using tmp_claim by (simp add: step_pid_def tmp_child_def)
  then obtain s1 where s1: "step_pid svc_args tmp_child = (None, s1)" by blast
  have "\<exists>s'. run_steps [step_user calm_env svc_args 5 6, step_init calm_env svc_args one_jvm,
      step_version calm_env svc_args, step_check calm_env svc_args, step_load calm_env svc_args,
      step_downgrade calm_env svc_args 5 6, step_start calm_env, step_handlers calm_env] s1 = (None, s')"
    by (rule run_steps_total) (simp add: calm_user calm_init calm_later)
  with s1 show ?thesis unfolding child_starts_def child_steps_def by simp
qed

lemma tmp_ready:
  "\<exists>t. opens (create_tmp_file (write_file tmp_world ''/run/j.pid'' (pid_line 77))) (tmp_name 77) t"
proof -
  have name: "tmp_name 77 = ''/tmp/77.jsvc_up''"
    by code_simp
  let ?w = "write_file tmp_world ''/run/j.pid'' (pid_line 77)"
  have "\<exists>t w'. sys_open True ?w (tmp_name 77) = (Inr t, w')"
    unfolding name by (simp add: write_file_def tmp_world_def demo_simps sys_open_def upt_rec)
  then obtain t w' where "sys_open True ?w (tmp_name 77) = (Inr t, w')" by blast
  moreover have "self ?w = 77" by (simp add: write_file_def tmp_world_def demo_world_def)
  ultimately show ?thesis using sys_open_opens [of ?w "tmp_name 77" t w'] by (auto simp: create_tmp_file_def)
qed

theorem ready_child_is_seen_witness:
  "\<exists>s'. child_starts calm_env svc_args one_jvm 5 6 tmp_child = (None, s')
     \<and> wait_child svc_args (\<lambda>i. \<lparr>t_world = c_world s', t_reap = None, t_reap_ready = None\<rparr>) = Inr (0, 1)"
proof -
  obtain s' where run: "child_starts calm_env svc_args one_jvm 5 6 tmp_child = (None, s')"
    using tmp_starts by blast
  have v: "\<not> vers svc_args" "\<not> chck svc_args" by (simp_all add: svc_args_def demo_args_def init_args_def)
  have w: "c_world tmp_child = tmp_world" "self tmp_world = 77" "alive tmp_world 77"
    by (simp_all add: tmp_child_def tmp_world_def demo_world_def)
  have "c_world s' = create_tmp_file (write_file tmp_world ''/run/j.pid'' (pid_line 77))"
    using starts_world [OF run v] tmp_claim w(1) by auto
  with tmp_ready w obtain t where "opens (c_world s') (tmp_name (self (c_world tmp_child))) t" by auto
  from ready_child_is_seen [OF run v _ _ _ this] run w show ?thesis by simp
qed

definition mac_main :: main_env where
  "mac_main = linux_main\<lparr>m_plat := mac, m_stat := mac_stat\<rparr>"

lemma mac_front:
  "main_front mac_main ''/usr/bin/jsvc'' home_line = Inr (log_init\<lparr>log_prog := ''jsvc''\<rparr>,
     (init_args True)\<lparr>java_home := Some ''/j'', clas := Some ''Main''\<rparr>, mac_home, 0, 0)"
proof -
  have "home mac mac_stat (\<lambda>_. None) None False (Some ''/j'') = Done ([], Some mac_home)"
    by (simp add: home_def find_home_def no_home_def build_mac)
  moreover have "os_of mac \<noteq> OS_LINUX" "\<not> log_debug_flag log_init" by (simp_all add: mac_def log_init_def)
  ultimately show ?thesis
    by (simp add: main_front_def mac_main_def linux_main_def home_line_parsed init_args_def checkuser_def)
qed

theorem loaded_library_is_file_witness:
  "checkfile mac_stat ''/j/jre/lib/server/libjvm.dylib''"
proof -
  have "java_library ((init_args True)\<lparr>java_home := Some ''/j'', clas := Some ''Main''\<rparr>) mac_home
      = Some ''/j/jre/lib/server/libjvm.dylib''"
    by (simp add: java_library_def mac_home_def init_args_def)
  from loaded_library_is_file [OF mac_front this] show ?thesis by (simp add: mac_main_def)
qed

end
